(* ===== verification/Prelude.thy ===== *)
theory Prelude
  imports Main "HOL-Library.Word" "HOL-Library.Monad_Syntax"
begin

unbundle bit_operations_syntax

text \<open>
  Shared ground of the development: the machine integers of the crate, the outcome of code that
  may panic, the integer operations of Rust's core library the crate calls, and the interface of
  the two third-party crates it is built on (\<open>bitflags\<close> and \<open>bit_field\<close>).

  \<^item> \<open>u8\<close>, \<open>u16\<close>, \<open>u32\<close>, \<open>u64\<close> are words of that width; the target is the 64-bit one, so
    \<open>usize\<close> is a 64-bit word and the conversions between \<open>usize\<close> and \<open>u64\<close> never fail.
  \<^item> A function that may panic returns an \<open>option\<close>: \<open>panic\<close> (that is \<open>None\<close>) when it panics,
    \<open>Some r\<close> when it returns \<open>r\<close>. A Rust \<open>Option\<close> result is an \<open>option\<close> too, inside it; a Rust
    \<open>Result\<close> is a sum, \<open>Inl\<close> for \<open>Err\<close> and \<open>Inr\<close> for \<open>Ok\<close>.
  \<^item> The record \<open>extern\<close> holds what the sources do not define: whether the build checks integer
    overflow (a debug build panics, a release build wraps) and the operations of the two crates.
    Every definition that uses one of them takes the record as its first argument. The locale
    \<open>extern_ok\<close> states the documented behaviour of those operations.
\<close>

section \<open>Machine integers and panics\<close>

type_synonym u8 = "8 word"
type_synonym u16 = "16 word"
type_synonym u32 = "32 word"
type_synonym u64 = "64 word"
type_synonym usize = "64 word"

abbreviation panic :: "'a option" where
  "panic \<equiv> None"

definition assert_that :: "bool \<Rightarrow> unit option" where
  "assert_that b = (if b then Some () else panic)"

named_theorems unat_simps \<open>operations on words, read through \<open>unat\<close>\<close>
named_theorems step_simps \<open>unfolding the operations of a component\<close>

section \<open>Integer operations of the core library\<close>

definition checked_add :: "'a::len word \<Rightarrow> 'a word \<Rightarrow> 'a word option" where
  "checked_add a b = (if unat a + unat b < 2 ^ LENGTH('a) then Some (a + b) else None)"

definition checked_sub :: "'a::len word \<Rightarrow> 'a word \<Rightarrow> 'a word option" where
  "checked_sub a b = (if b \<le> a then Some (a - b) else None)"

definition checked_mul :: "'a::len word \<Rightarrow> 'a word \<Rightarrow> 'a word option" where
  "checked_mul a b = (if unat a * unat b < 2 ^ LENGTH('a) then Some (a * b) else None)"

definition is_power_of_two :: "u64 \<Rightarrow> bool" where
  "is_power_of_two a \<longleftrightarrow> (\<exists>k\<in>{..<64}. a = 2 ^ k)"

text \<open>
  \<open>usize::try_from(n)\<close> for a \<open>u64\<close>, and \<open>u64::try_from(n)\<close> for a \<open>usize\<close>, on a 64-bit target.
\<close>

definition usize_try_from :: "u64 \<Rightarrow> usize option" where
  "usize_try_from n = Some n"

definition u64_try_from :: "usize \<Rightarrow> u64 option" where
  "u64_try_from n = Some n"

section \<open>The build and the third-party crates\<close>

text \<open>
  A flags value of \<open>bitflags\<close> is represented by its bits. \<open>bitflags_from_bits_truncate all b\<close> and
  \<open>bitflags_from_bits all b\<close> take the bits of all flags of the type as their first argument. The
  ranges of \<open>bit_field\<close> are given by their first bit and the bit after the last.
\<close>

record extern =
  overflow_checks :: bool
  debug_assertions :: bool
  bitflags_from_bits_truncate :: "u64 \<Rightarrow> u64 \<Rightarrow> u64"
  bitflags_from_bits :: "u64 \<Rightarrow> u64 \<Rightarrow> u64 option"
  bitflags_contains :: "u64 \<Rightarrow> u64 \<Rightarrow> bool"
  bitflags_intersects :: "u64 \<Rightarrow> u64 \<Rightarrow> bool"
  bitflags_is_empty :: "u64 \<Rightarrow> bool"
  bitflags_or :: "u64 \<Rightarrow> u64 \<Rightarrow> u64"
  bitflags_and :: "u64 \<Rightarrow> u64 \<Rightarrow> u64"
  get_bits :: "u64 \<Rightarrow> nat \<Rightarrow> nat \<Rightarrow> u64 option"
  set_bits :: "u64 \<Rightarrow> nat \<Rightarrow> nat \<Rightarrow> u64 \<Rightarrow> u64 option"
  get_bits_u16 :: "u16 \<Rightarrow> nat \<Rightarrow> nat \<Rightarrow> u16 option"
  set_bits_u16 :: "u16 \<Rightarrow> nat \<Rightarrow> nat \<Rightarrow> u16 \<Rightarrow> u16 option"
  get_bit_u64 :: "u64 \<Rightarrow> nat \<Rightarrow> bool option"
  get_bit_u16 :: "u16 \<Rightarrow> nat \<Rightarrow> bool option"
  set_bit_u16 :: "u16 \<Rightarrow> nat \<Rightarrow> bool \<Rightarrow> u16 option"
  set_bit_u64 :: "u64 \<Rightarrow> nat \<Rightarrow> bool \<Rightarrow> u64 option"
  get_bits_u32 :: "u32 \<Rightarrow> nat \<Rightarrow> nat \<Rightarrow> u32 option"
  set_bits_u32 :: "u32 \<Rightarrow> nat \<Rightarrow> nat \<Rightarrow> u32 \<Rightarrow> u32 option"
  get_bit_u32 :: "u32 \<Rightarrow> nat \<Rightarrow> bool option"
  set_bit_u32 :: "u32 \<Rightarrow> nat \<Rightarrow> bool \<Rightarrow> u32 option"
  bitflags_from_bits_truncate_u32 :: "u32 \<Rightarrow> u32 \<Rightarrow> u32"
  bitflags_or_u32 :: "u32 \<Rightarrow> u32 \<Rightarrow> u32"

text \<open>
  Arithmetic operators on integers: checked in a build with overflow checks, wrapping otherwise.
\<close>

definition add_op :: "extern \<Rightarrow> 'a::len word \<Rightarrow> 'a word \<Rightarrow> 'a word option" where
  "add_op X a b = (if overflow_checks X then checked_add a b else Some (a + b))"

definition sub_op :: "extern \<Rightarrow> 'a::len word \<Rightarrow> 'a word \<Rightarrow> 'a word option" where
  "sub_op X a b = (if overflow_checks X then checked_sub a b else Some (a - b))"

definition mul_op :: "extern \<Rightarrow> 'a::len word \<Rightarrow> 'a word \<Rightarrow> 'a word option" where
  "mul_op X a b = (if overflow_checks X then checked_mul a b else Some (a * b))"

text \<open>
  The contract: the documented behaviour of \<open>bitflags\<close> (a flags value is its bits; truncation
  drops the unknown ones) and of \<open>bit_field\<close> (a bit or a range of bits is read and replaced; a value with
  bits outside the range makes \<open>set_bits\<close> panic).
\<close>

definition get_range :: "'a::len word \<Rightarrow> nat \<Rightarrow> nat \<Rightarrow> 'a word" where
  "get_range v lo hi = take_bit (hi - lo) (drop_bit lo v)"

definition set_range :: "'a::len word \<Rightarrow> nat \<Rightarrow> nat \<Rightarrow> 'a word \<Rightarrow> 'a word" where
  "set_range v lo hi w = (v AND NOT (push_bit lo (mask (hi - lo)))) OR push_bit lo w"

locale extern_ok =
  fixes X :: extern
  assumes from_bits_truncate [simp]: "bitflags_from_bits_truncate X all b = b AND all"
    and from_bits [simp]:
      "bitflags_from_bits X all b = (if b AND NOT all = 0 then Some b else None)"
    and contains [simp]: "bitflags_contains X a b \<longleftrightarrow> a AND b = b"
    and intersects [simp]: "bitflags_intersects X a b \<longleftrightarrow> a AND b \<noteq> 0"
    and flags_is_empty [simp]: "bitflags_is_empty X a \<longleftrightarrow> a = 0"
    and flags_or [simp]: "bitflags_or X a b = a OR b"
    and flags_and [simp]: "bitflags_and X a b = a AND b"
    and get_bits [simp]: "lo < hi \<Longrightarrow> hi \<le> 64 \<Longrightarrow> get_bits X v lo hi = Some (get_range v lo hi)"
    and set_bits [simp]: "lo < hi \<Longrightarrow> hi \<le> 64 \<Longrightarrow> set_bits X v lo hi w =
      (if take_bit (hi - lo) w = w then Some (set_range v lo hi w) else panic)"
    and get_bits_u16 [simp]:
      "lo < hi \<Longrightarrow> hi \<le> 16 \<Longrightarrow> get_bits_u16 X u lo hi = Some (get_range u lo hi)"
    and set_bits_u16 [simp]: "lo < hi \<Longrightarrow> hi \<le> 16 \<Longrightarrow> set_bits_u16 X u lo hi t =
      (if take_bit (hi - lo) t = t then Some (set_range u lo hi t) else panic)"
    and get_bit_u64 [simp]: "k < 64 \<Longrightarrow> get_bit_u64 X v k = Some (bit v k)"
    and get_bit_u16 [simp]: "k < 16 \<Longrightarrow> get_bit_u16 X u k = Some (bit u k)"
    and set_bit_u16 [simp]:
      "k < 16 \<Longrightarrow> set_bit_u16 X u k on = Some (if on then set_bit k u else unset_bit k u)"
    and set_bit_u64 [simp]:
      "k < 64 \<Longrightarrow> set_bit_u64 X v k on = Some (if on then set_bit k v else unset_bit k v)"
    and get_bits_u32 [simp]:
      "lo < hi \<Longrightarrow> hi \<le> 32 \<Longrightarrow> get_bits_u32 X d lo hi = Some (get_range d lo hi)"
    and set_bits_u32 [simp]: "lo < hi \<Longrightarrow> hi \<le> 32 \<Longrightarrow> set_bits_u32 X d lo hi e =
      (if take_bit (hi - lo) e = e then Some (set_range d lo hi e) else panic)"
    and get_bit_u32 [simp]: "k < 32 \<Longrightarrow> get_bit_u32 X d k = Some (bit d k)"
    and set_bit_u32 [simp]:
      "k < 32 \<Longrightarrow> set_bit_u32 X d k on = Some (if on then set_bit k d else unset_bit k d)"
    and from_bits_truncate_u32 [simp]: "bitflags_from_bits_truncate_u32 X all' d = d AND all'"
    and flags_or_u32 [simp]: "bitflags_or_u32 X d e = d OR e"

text \<open>The contract can be met: \<open>std_extern c\<close> is the crates' behaviour in a build with checks \<open>c\<close>.\<close>

definition std_extern :: "bool \<Rightarrow> extern" where
  "std_extern c = \<lparr>
     overflow_checks = c,
     debug_assertions = c,
     bitflags_from_bits_truncate = (\<lambda>all b. b AND all),
     bitflags_from_bits = (\<lambda>all b. if b AND NOT all = 0 then Some b else None),
     bitflags_contains = (\<lambda>a b. a AND b = b),
     bitflags_intersects = (\<lambda>a b. a AND b \<noteq> 0),
     bitflags_is_empty = (\<lambda>a. a = 0),
     bitflags_or = (OR),
     bitflags_and = (AND),
     get_bits = (\<lambda>v lo hi. if lo < hi \<and> hi \<le> 64 then Some (get_range v lo hi) else panic),
     set_bits = (\<lambda>v lo hi w. if lo < hi \<and> hi \<le> 64 \<and> take_bit (hi - lo) w = w
                              then Some (set_range v lo hi w) else panic),
     get_bits_u16 = (\<lambda>v lo hi. if lo < hi \<and> hi \<le> 16 then Some (get_range v lo hi) else panic),
     set_bits_u16 = (\<lambda>v lo hi w. if lo < hi \<and> hi \<le> 16 \<and> take_bit (hi - lo) w = w
                                  then Some (set_range v lo hi w) else panic),
     get_bit_u64 = (\<lambda>v k. if k < 64 then Some (bit v k) else panic),
     get_bit_u16 = (\<lambda>v k. if k < 16 then Some (bit v k) else panic),
     set_bit_u16 = (\<lambda>v k on. if k < 16 then Some (if on then set_bit k v else unset_bit k v) else panic),
     set_bit_u64 = (\<lambda>v k on. if k < 64 then Some (if on then set_bit k v else unset_bit k v) else panic),
     get_bits_u32 = (\<lambda>v lo hi. if lo < hi \<and> hi \<le> 32 then Some (get_range v lo hi) else panic),
     set_bits_u32 = (\<lambda>v lo hi w. if lo < hi \<and> hi \<le> 32 \<and> take_bit (hi - lo) w = w
                                  then Some (set_range v lo hi w) else panic),
     get_bit_u32 = (\<lambda>v k. if k < 32 then Some (bit v k) else panic),
     set_bit_u32 = (\<lambda>v k on. if k < 32 then Some (if on then set_bit k v else unset_bit k v) else panic),
     bitflags_from_bits_truncate_u32 = (\<lambda>all b. b AND all),
     bitflags_or_u32 = (OR)\<rparr>"

lemma std_extern_simps [simp]:
  "overflow_checks (std_extern c) = c"
  "debug_assertions (std_extern c) = c"
  "bitflags_from_bits_truncate (std_extern c) all b = b AND all"
  "bitflags_from_bits (std_extern c) all b = (if b AND NOT all = 0 then Some b else None)"
  "bitflags_contains (std_extern c) b f \<longleftrightarrow> b AND f = f"
  "bitflags_intersects (std_extern c) b f \<longleftrightarrow> b AND f \<noteq> 0"
  "bitflags_is_empty (std_extern c) b \<longleftrightarrow> b = 0"
  "bitflags_or (std_extern c) b f = b OR f"
  "bitflags_and (std_extern c) b f = b AND f"
  by (simp_all add: std_extern_def)

interpretation std: extern_ok "std_extern c" for c
  by unfold_locales (simp_all add: std_extern_def)

lemma std_extern_ok [intro!, simp]: "extern_ok (std_extern c)"
  by (rule std.extern_ok_axioms)

section \<open>Words as numbers\<close>

lemma unat_lt_64: "unat (a :: u64) < 18446744073709551616"
  using unsigned_less [of a, where 'a = nat] by simp

lemma unat_take_bit [unat_simps]: "unat (take_bit k (a :: 'a::len word)) = unat a mod 2 ^ k"
  by (simp only: unsigned_take_bit_eq) (simp only: take_bit_eq_mod)

lemma unat_drop_bit [unat_simps]: "unat (drop_bit k (a :: 'a::len word)) = unat a div 2 ^ k"
  by (simp only: unat_drop_bit_eq) (simp only: drop_bit_eq_div)

lemma unat_pow2 [unat_simps]: "k < LENGTH('a) \<Longrightarrow> unat (2 ^ k :: 'a::len word) = 2 ^ k"
proof -
  assume "k < LENGTH('a)"
  then have "unat (of_nat (2 ^ k) :: 'a word) = 2 ^ k"
    by (simp only: unsigned_of_nat) (simp add: take_bit_nat_eq_self)
  then show ?thesis by simp
qed

lemma unat_ucast_up [unat_simps]:
  "LENGTH('a) \<le> LENGTH('b) \<Longrightarrow> unat (ucast (a :: 'a::len word) :: 'b::len word) = unat a"
  by (simp add: unsigned_ucast_eq take_bit_nat_eq_self unsigned_less [THEN less_le_trans])

lemma unat_ucast_mod [unat_simps]:
  "unat (ucast (a :: 'a::len word) :: 'b::len word) = unat a mod 2 ^ LENGTH('b)"
  by (simp only: unsigned_ucast_eq) (simp only: take_bit_eq_mod)

lemma unat_of_nat_small: "n < 2 ^ LENGTH('a) \<Longrightarrow> unat (of_nat n :: 'a::len word) = n"
  by (simp add: unsigned_of_nat take_bit_nat_eq_self)

lemma unat_add_no_wrap [unat_simps]:
  "unat a + unat b < 2 ^ LENGTH('a) \<Longrightarrow> unat (a + b) = unat a + unat (b :: 'a::len word)"
  using unat_add_lem by blast

lemma unat_sub_no_wrap [unat_simps]:
  "b \<le> a \<Longrightarrow> unat (a - b) = unat a - unat (b :: 'a::len word)"
  by (simp add: unat_sub)

lemma unat_or_disjoint [unat_simps]:
  fixes a b :: "'a::len word"
  assumes "a AND b = 0"
  shows "unat (a OR b) = unat a + unat b"
proof -
  have "a + b = a OR b"
    using assms by (rule disjunctive_add_eq_or)
  then have "a OR b = a + b" ..
  moreover have "unat a + unat b < 2 ^ LENGTH('a)"
  proof (rule ccontr)
    assume ov: "\<not> ?thesis"
    have "uint a + uint b = uint (a OR b)"
    proof -
      have "uint a AND uint b = 0"
        using assms by (metis uint_and unsigned_0)
      then have "uint a + uint b = uint a OR uint b"
        by (rule disjunctive_add_eq_or)
      then show ?thesis by (simp add: uint_or)
    qed
    then have "unat a + unat b = unat (a OR b)"
      by (metis of_nat_add of_nat_unat of_nat_eq_iff)
    with ov unsigned_less [of "a OR b", where 'a = nat] show False by simp
  qed
  ultimately show ?thesis by (simp add: unat_add_no_wrap)
qed

lemma unat_split_mask:
  "unat (a :: 'a::len word) = unat (a AND NOT (mask k)) + unat a mod 2 ^ k"
proof -
  have "(a AND NOT (mask k)) AND take_bit k a = 0"
    by (rule bit_word_eqI) (simp add: bit_simps)
  moreover have "(a AND NOT (mask k)) OR take_bit k a = a"
    by (rule bit_word_eqI) (auto simp: bit_simps)
  ultimately show ?thesis
    by (metis unat_or_disjoint unat_take_bit)
qed

lemma unat_and_not_mask [unat_simps]:
  "unat ((a :: 'a::len word) AND NOT (mask k)) = unat a div 2 ^ k * 2 ^ k"
  using unat_split_mask [of a k] div_mult_mod_eq [of "unat a" "2 ^ k"] by linarith

lemma checked_add_eq_Some:
  "checked_add a b = Some c \<longleftrightarrow> unat a + unat b < 2 ^ LENGTH('a) \<and> c = a + (b :: 'a::len word)"
  by (auto simp: checked_add_def)

lemma checked_sub_eq_Some:
  "checked_sub a b = Some c \<longleftrightarrow> b \<le> a \<and> c = a - (b :: 'a::len word)"
  by (auto simp: checked_sub_def)

lemma checked_mul_eq_Some:
  "checked_mul a b = Some c \<longleftrightarrow> unat a * unat b < 2 ^ LENGTH('a) \<and> c = a * (b :: 'a::len word)"
  by (auto simp: checked_mul_def)

lemma unat_mul_no_wrap [unat_simps]:
  "unat a * unat b < 2 ^ LENGTH('a) \<Longrightarrow> unat (a * b) = unat a * unat (b :: 'a::len word)"
  using unat_mult_lem by blast

lemma is_power_of_two_pow [simp]: "k < 64 \<Longrightarrow> is_power_of_two (2 ^ k)"
  by (auto simp: is_power_of_two_def)

lemma is_power_of_twoE:
  assumes "is_power_of_two a"
  obtains k where "k < 64" and "a = 2 ^ k" and "unat a = 2 ^ k" and "a - 1 = mask k"
proof -
  from assms obtain k where k: "k < 64" "a = 2 ^ k"
    by (auto simp: is_power_of_two_def)
  moreover have "unat (2 ^ k :: u64) = 2 ^ k"
    using k by (simp add: unat_pow2)
  moreover have "(2 ^ k :: u64) - 1 = mask k"
    by (simp add: mask_eq_exp_minus_1)
  ultimately show thesis using that by blast
qed

lemma assert_that_eq_Some [simp]: "assert_that b = Some u \<longleftrightarrow> b"
  by (simp add: assert_that_def)

lemma assert_that_bind [simp]: "assert_that b \<bind> f = (if b then f () else panic)"
  by (simp add: assert_that_def)

section \<open>Ranges of bits\<close>

lemma bit_get_range [bit_simps]:
  "bit (get_range (v :: 'a::len word) lo hi) n \<longleftrightarrow> n < hi - lo \<and> bit v (lo + n)"
  by (simp add: get_range_def bit_simps)

lemma bit_set_range:
  assumes "take_bit (hi - lo) w = w" and "n < LENGTH('a)"
  shows "bit (set_range (v :: 'a::len word) lo hi w) n \<longleftrightarrow>
    (if lo \<le> n \<and> n < hi then bit w (n - lo) else bit v n)"
proof -
  have "bit w (n - lo) \<longleftrightarrow> n - lo < hi - lo \<and> bit w (n - lo)"
    using assms(1) by (metis bit_take_bit_iff)
  with assms(2) show ?thesis
    by (auto simp: set_range_def bit_simps)
qed

lemma set_range_other:
  assumes "take_bit (hi - lo) w = w" and "b \<le> lo \<or> hi \<le> a" and "b \<le> LENGTH('a)"
  shows "get_range (set_range (v :: 'a::len word) lo hi w) a b = get_range v a b"
proof (rule bit_word_eqI)
  fix n assume n: "n < LENGTH('a)"
  have "\<not> (lo \<le> a + n \<and> a + n < hi)" "a + n < LENGTH('a)" if "n < b - a"
    using that assms(2,3) by auto
  then show "bit (get_range (set_range v lo hi w) a b) n = bit (get_range v a b) n"
    by (auto simp only: bit_get_range bit_set_range [OF assms(1)] if_False)
qed

lemma set_range_same:
  assumes "take_bit (hi - lo) w = w" and "hi \<le> LENGTH('a)"
  shows "get_range (set_range (v :: 'a::len word) lo hi w) lo hi = w"
proof (rule bit_word_eqI)
  fix n assume "n < LENGTH('a)"
  have "bit w n \<Longrightarrow> n < hi - lo" using assms(1) by (metis bit_take_bit_iff)
  moreover have "lo \<le> lo + n \<and> lo + n < hi" "lo + n < LENGTH('a)" if "n < hi - lo"
    using that assms(2) by auto
  ultimately show "bit (get_range (set_range v lo hi w) lo hi) n = bit w n"
    by (auto simp only: bit_get_range bit_set_range [OF assms(1)] if_True simp_thms diff_add_inverse)
qed

section \<open>Loops over a list\<close>

text \<open>A \<open>for\<close> loop whose body may panic.\<close>

primrec fold_option :: "('a \<Rightarrow> 's \<Rightarrow> 's option) \<Rightarrow> 'a list \<Rightarrow> 's \<Rightarrow> 's option" where
  "fold_option f [] s = Some s"
| "fold_option f (x # xs) s = do { s \<leftarrow> f x s; fold_option f xs s }"

lemma fold_option_append:
  "fold_option f (xs @ ys) s = do { s \<leftarrow> fold_option f xs s; fold_option f ys s }"
  by (induction xs arbitrary: s) (auto split: Option.bind_split)

section \<open>Iterators\<close>

text \<open>
  A \<open>for\<close> loop over an iterator that collects the items: \<open>next\<close> is called until it returns no
  item. The fuel bounds the number of calls.
\<close>

fun drain :: "('r \<Rightarrow> ('i option \<times> 'r) option) \<Rightarrow> nat \<Rightarrow> 'r \<Rightarrow> ('i list \<times> 'r) option" where
  "drain next 0 r = None"
| "drain next (Suc k) r = do {
     (item, r') \<leftarrow> next r;
     case item of
       None \<Rightarrow> Some ([], r')
     | Some i \<Rightarrow> do {
         (is, r'') \<leftarrow> drain next k r';
         Some (i # is, r'')
       }
   }"

text \<open>
  The contract of an iterator with a known list of items: \<open>next\<close> hands them out in order, keeps
  the invariant, never panics and ends with \<open>None\<close>.
\<close>

locale iterator =
  fixes inv :: "'r \<Rightarrow> bool"
    and items :: "'r \<Rightarrow> 'i list"
    and "next" :: "'r \<Rightarrow> ('i option \<times> 'r) option"
  assumes next_nil: "inv r \<Longrightarrow> items r = [] \<Longrightarrow> next r = Some (None, r)"
    and next_cons: "inv r \<Longrightarrow> items r = i # is \<Longrightarrow>
      \<exists>r'. next r = Some (Some i, r') \<and> inv r' \<and> items r' = is"
begin

lemma drain_items:
  assumes "inv r" and "length (items r) < k"
  shows "\<exists>r'. drain next k r = Some (items r, r') \<and> inv r' \<and> items r' = []"
  using assms
proof (induction k arbitrary: r)
  case (Suc k)
  show ?case
  proof (cases "items r")
    case Nil
    with Suc.prems show ?thesis by (simp add: next_nil)
  next
    case (Cons i "is")
    then obtain r' where r': "next r = Some (Some i, r')" "inv r'" "items r' = is"
      using Suc.prems next_cons by blast
    then obtain r'' where "drain next k r' = Some (is, r'')" "inv r''" "items r'' = []"
      using Suc.IH [of r'] Suc.prems Cons by auto
    with r' Cons show ?thesis by simp
  qed
qed simp

end

end
