(* ===== verification/Table_Index.thy ===== *)
theory Table_Index
  imports Prelude
begin

text \<open>
  The small types of \<open>structures/paging/page_table.rs\<close> that address arithmetic is built on:
  \<open>PageTableIndex\<close> (a 9-bit index), \<open>PageOffset\<close> (a 12-bit offset) and \<open>PageTableLevel\<close>, with
  the \<open>Step\<close> implementation of \<open>PageTableIndex\<close>. The locale \<open>step\<close> states the contract of
  \<open>core::iter::Step\<close> that the crate's three implementations promise; it is interpreted here for
  \<open>PageTableIndex\<close>, and in the theories of \<open>VirtAddr\<close> and \<open>Page\<close> for those.
\<close>

section \<open>PageTableIndex and PageOffset\<close>

definition ENTRY_COUNT :: usize where
  "ENTRY_COUNT = 512"

datatype PageTableIndex = PageTableIndex (index_u16: u16)

definition PageTableIndex_new :: "u16 \<Rightarrow> PageTableIndex option" where
  "PageTableIndex_new index = do {
     assert_that ((ucast index :: usize) < ENTRY_COUNT);
     Some (PageTableIndex index)
   }"

definition PageTableIndex_new_truncate :: "u16 \<Rightarrow> PageTableIndex" where
  "PageTableIndex_new_truncate index = PageTableIndex (index mod ucast ENTRY_COUNT)"

definition into_u64 :: "PageTableIndex \<Rightarrow> u64" where
  "into_u64 i = ucast (index_u16 i)"

definition u16_from_index :: "PageTableIndex \<Rightarrow> u16" where
  "u16_from_index i = index_u16 i"

definition u32_from_index :: "PageTableIndex \<Rightarrow> u32" where
  "u32_from_index i = ucast (index_u16 i)"

definition u64_from_index :: "PageTableIndex \<Rightarrow> u64" where
  "u64_from_index i = into_u64 i"

definition usize_from_index :: "PageTableIndex \<Rightarrow> usize" where
  "usize_from_index i = ucast (index_u16 i)"

text \<open>\<open>Step::steps_between\<close> of the primitive \<open>u16\<close>.\<close>

definition steps_between_u16 :: "u16 \<Rightarrow> u16 \<Rightarrow> usize \<times> usize option" where
  "steps_between_u16 start end =
     (if start \<le> end then (ucast (end - start), Some (ucast (end - start))) else (0, None))"

definition PageTableIndex_steps_between ::
  "PageTableIndex \<Rightarrow> PageTableIndex \<Rightarrow> usize \<times> usize option" where
  "PageTableIndex_steps_between start end = steps_between_u16 (index_u16 start) (index_u16 end)"

text \<open>
  The result is an \<open>Option\<close> inside the outcome: \<open>Some None\<close> is the returned \<open>None\<close>, and the
  constructor \<open>Self::new\<close> may panic.
\<close>

definition PageTableIndex_forward_checked ::
  "PageTableIndex \<Rightarrow> usize \<Rightarrow> PageTableIndex option option" where
  "PageTableIndex_forward_checked start count =
     (case checked_add (usize_from_index start) count of
        None \<Rightarrow> Some None
      | Some idx \<Rightarrow>
          if idx < ENTRY_COUNT then do {
            i \<leftarrow> PageTableIndex_new (ucast idx);
            Some (Some i)
          } else Some None)"

definition PageTableIndex_backward_checked ::
  "PageTableIndex \<Rightarrow> usize \<Rightarrow> PageTableIndex option option" where
  "PageTableIndex_backward_checked start count =
     (case checked_sub (usize_from_index start) count of
        None \<Rightarrow> Some None
      | Some idx \<Rightarrow> do {
          i \<leftarrow> PageTableIndex_new (ucast idx);
          Some (Some i)
        })"

datatype PageOffset = PageOffset (offset_u16: u16)

definition PageOffset_new :: "u16 \<Rightarrow> PageOffset option" where
  "PageOffset_new offset = do {
     assert_that (offset < push_bit 12 1);
     Some (PageOffset offset)
   }"

definition PageOffset_new_truncate :: "u16 \<Rightarrow> PageOffset" where
  "PageOffset_new_truncate offset = PageOffset (offset mod push_bit 12 1)"

definition u16_from_offset :: "PageOffset \<Rightarrow> u16" where
  "u16_from_offset i = offset_u16 i"

definition u32_from_offset :: "PageOffset \<Rightarrow> u32" where
  "u32_from_offset i = ucast (offset_u16 i)"

definition u64_from_offset :: "PageOffset \<Rightarrow> u64" where
  "u64_from_offset i = ucast (offset_u16 i)"

definition usize_from_offset :: "PageOffset \<Rightarrow> usize" where
  "usize_from_offset i = ucast (offset_u16 i)"

section \<open>PageTableLevel\<close>

datatype PageTableLevel = One | Two | Three | Four

primrec level_u8 :: "PageTableLevel \<Rightarrow> u8" where
  "level_u8 One = 1"
| "level_u8 Two = 2"
| "level_u8 Three = 3"
| "level_u8 Four = 4"

fun next_lower_level :: "PageTableLevel \<Rightarrow> PageTableLevel option" where
  "next_lower_level Four = Some Three"
| "next_lower_level Three = Some Two"
| "next_lower_level Two = Some One"
| "next_lower_level One = None"

fun next_higher_level :: "PageTableLevel \<Rightarrow> PageTableLevel option" where
  "next_higher_level Four = None"
| "next_higher_level Three = Some Four"
| "next_higher_level Two = Some Three"
| "next_higher_level One = Some Two"

definition table_address_space_alignment :: "PageTableLevel \<Rightarrow> u64" where
  "table_address_space_alignment level = push_bit (unat (level_u8 level * 9 + 12)) 1"

definition entry_address_space_alignment :: "PageTableLevel \<Rightarrow> u64" where
  "entry_address_space_alignment level = push_bit (unat ((level_u8 level - 1) * 9 + 12)) 1"

section \<open>Lemmas\<close>

definition index_ok :: "PageTableIndex \<Rightarrow> bool" where
  "index_ok i \<longleftrightarrow> unat (index_u16 i) < 512"

abbreviation idx :: "PageTableIndex \<Rightarrow> nat" where
  "idx i \<equiv> unat (index_u16 i)"

lemma index_ok_new_truncate [simp]: "index_ok (PageTableIndex_new_truncate i)"
  by (simp add: index_ok_def PageTableIndex_new_truncate_def ENTRY_COUNT_def unat_mod)

lemma idx_new_truncate: "idx (PageTableIndex_new_truncate i) = unat i mod 512"
  by (simp add: PageTableIndex_new_truncate_def ENTRY_COUNT_def unat_mod)

lemma PageTableIndex_eq_iff: "i = j \<longleftrightarrow> idx i = idx j"
  by (cases i; cases j) (simp add: word_unat_eq_iff)

lemma unat_usize_from_index [simp]: "unat (usize_from_index i) = idx i"
  by (simp add: usize_from_index_def unat_ucast_up)

lemma PageTableIndex_new_eq:
  "PageTableIndex_new i = (if unat i < 512 then Some (PageTableIndex i) else panic)"
  by (auto simp: PageTableIndex_new_def ENTRY_COUNT_def word_less_nat_alt unat_ucast_up)

section \<open>The contract of \<open>Step\<close>\<close>

text \<open>
  \<open>pos\<close> is the position of a value in the order the type steps through and \<open>size\<close> the number of
  values. A checked step moves the position by exactly the count, and fails exactly when there is
  no value at that distance; \<open>steps_between\<close> is the distance.
\<close>

locale step =
  fixes ok :: "'a \<Rightarrow> bool"
    and pos :: "'a \<Rightarrow> nat"
    and size_of :: nat
    and forward :: "'a \<Rightarrow> usize \<Rightarrow> 'a option option"
    and backward :: "'a \<Rightarrow> usize \<Rightarrow> 'a option option"
    and between :: "'a \<Rightarrow> 'a \<Rightarrow> usize \<times> usize option"
  assumes pos_lt: "ok a \<Longrightarrow> pos a < size_of"
    and pos_inj: "ok a \<Longrightarrow> ok b \<Longrightarrow> pos a = pos b \<Longrightarrow> a = b"
    and size_fits: "size_of \<le> 2 ^ 64"
    and forward_some: "ok a \<Longrightarrow> pos a + unat n < size_of \<Longrightarrow>
      \<exists>b. forward a n = Some (Some b) \<and> ok b \<and> pos b = pos a + unat n"
    and forward_none: "ok a \<Longrightarrow> size_of \<le> pos a + unat n \<Longrightarrow> forward a n = Some None"
    and backward_some: "ok a \<Longrightarrow> unat n \<le> pos a \<Longrightarrow>
      \<exists>b. backward a n = Some (Some b) \<and> ok b \<and> pos b = pos a - unat n"
    and backward_none: "ok a \<Longrightarrow> pos a < unat n \<Longrightarrow> backward a n = Some None"
    and between_some: "ok a \<Longrightarrow> ok b \<Longrightarrow> pos a \<le> pos b \<Longrightarrow>
      between a b = (of_nat (pos b - pos a), Some (of_nat (pos b - pos a)))"
    and between_none: "ok a \<Longrightarrow> ok b \<Longrightarrow> pos b < pos a \<Longrightarrow> between a b = (0, None)"
begin

lemma forward_eq_Some:
  assumes "ok a"
  shows "forward a n = Some (Some b) \<longleftrightarrow> ok b \<and> pos b = pos a + unat n"
proof
  assume f: "forward a n = Some (Some b)"
  with assms forward_none [of a n] have "pos a + unat n < size_of"
    by (metis not_le_imp_less option.distinct(1) option.inject)
  with assms f forward_some [of a n] show "ok b \<and> pos b = pos a + unat n"
    by auto
next
  assume b: "ok b \<and> pos b = pos a + unat n"
  then have "pos a + unat n < size_of"
    using pos_lt [of b] by simp
  with assms obtain c where "forward a n = Some (Some c)" "ok c" "pos c = pos a + unat n"
    using forward_some by blast
  with b show "forward a n = Some (Some b)"
    using pos_inj [of b c] by simp
qed

lemma backward_eq_Some:
  assumes "ok a"
  shows "backward a n = Some (Some b) \<longleftrightarrow> ok b \<and> pos a = pos b + unat n"
proof
  assume f: "backward a n = Some (Some b)"
  with assms backward_none [of a n] have "unat n \<le> pos a"
    by (metis not_le_imp_less option.distinct(1) option.inject)
  with assms f backward_some [of a n] show "ok b \<and> pos a = pos b + unat n"
    by auto
next
  assume b: "ok b \<and> pos a = pos b + unat n"
  then have "unat n \<le> pos a" by simp
  with assms obtain c where c: "backward a n = Some (Some c)" "ok c" "pos c = pos a - unat n"
    using backward_some by blast
  with b have "c = b"
    using pos_inj [of c b] by simp
  with c show "backward a n = Some (Some b)" by simp
qed

lemma forward_backward:
  assumes "ok a" and "ok b"
  shows "forward a n = Some (Some b) \<longleftrightarrow> backward b n = Some (Some a)"
  using assms by (simp add: forward_eq_Some backward_eq_Some)

lemma forward_compose:
  assumes "ok a" and "forward a m = Some (Some b)" and "forward b n = Some (Some c)"
  shows "forward a (m + n) = Some (Some c)"
proof -
  have b: "ok b" "pos b = pos a + unat m"
    using assms by (simp_all add: forward_eq_Some)
  then have c: "ok c" "pos c = pos a + unat m + unat n"
    using assms by (simp_all add: forward_eq_Some)
  have "unat m + unat n < 2 ^ 64"
    using c pos_lt [of c] size_fits by linarith
  then have "unat (m + n) = unat m + unat n"
    by (simp add: unat_add_no_wrap)
  with c assms(1) show ?thesis
    by (simp add: forward_eq_Some)
qed

lemma forward_between:
  assumes "ok a" and "ok b"
  shows "forward a n = Some (Some b) \<longleftrightarrow> between a b = (n, Some n)"
proof (cases "pos a \<le> pos b")
  case True
  have "pos b - pos a < 2 ^ 64"
    using pos_lt [OF assms(2)] size_fits by linarith
  then have eq: "of_nat (pos b - pos a) = n \<longleftrightarrow> pos b - pos a = unat n"
    using unat_of_nat_small [of "pos b - pos a", where 'a = 64] by (auto simp: word_unat_eq_iff)
  with True assms show ?thesis
    by (auto simp: forward_eq_Some between_some)
next
  case False
  with assms show ?thesis
    by (simp add: forward_eq_Some between_none)
qed

lemma forward_zero [simp]: "ok a \<Longrightarrow> forward a 0 = Some (Some a)"
  by (simp add: forward_eq_Some)

end

interpretation index_step: step index_ok idx 512
  PageTableIndex_forward_checked PageTableIndex_backward_checked PageTableIndex_steps_between
proof (unfold_locales, goal_cases)
  case (1 a)
  then show ?case by (simp add: index_ok_def)
next
  case (2 a b)
  then show ?case by (simp add: PageTableIndex_eq_iff)
next
  case 3
  show ?case by simp
next
  case (4 a n)
  let ?s = "usize_from_index a + n"
  have s: "unat ?s = idx a + unat n"
    using 4 by (intro unat_add_no_wrap [of "usize_from_index a" n, simplified]) simp
  have "unat (ucast ?s :: u16) = idx a + unat n"
    using 4 s by (simp add: unsigned_ucast_eq take_bit_nat_eq_self_iff)
  with 4 s show ?case
    by (simp add: PageTableIndex_forward_checked_def checked_add_def ENTRY_COUNT_def
        word_less_nat_alt PageTableIndex_new_eq index_ok_def)
next
  case (5 a n)
  then show ?case
    by (auto simp: PageTableIndex_forward_checked_def checked_add_def ENTRY_COUNT_def
        word_less_nat_alt unat_add_no_wrap)
next
  case (6 a n)
  have le: "n \<le> usize_from_index a"
    using 6 by (simp add: word_le_nat_alt)
  then have s: "unat (usize_from_index a - n) = idx a - unat n"
    by (simp add: unat_sub_no_wrap)
  moreover have "unat (ucast (usize_from_index a - n) :: u16) = idx a - unat n"
    using 6 s by (simp add: unsigned_ucast_eq take_bit_nat_eq_self_iff index_ok_def)
  ultimately show ?case
    using 6 le by (simp add: PageTableIndex_backward_checked_def checked_sub_def
        PageTableIndex_new_eq index_ok_def)
next
  case (7 a n)
  then show ?case
    by (simp add: PageTableIndex_backward_checked_def checked_sub_def word_le_nat_alt)
next
  case (8 a b)
  then have "index_u16 a \<le> index_u16 b"
    by (simp add: word_le_nat_alt)
  moreover from this have "ucast (index_u16 b - index_u16 a) = (of_nat (idx b - idx a) :: usize)"
    by (simp add: word_unat_eq_iff unat_ucast_up unat_sub_no_wrap unat_of_nat_small
        less_imp_diff_less unsigned_less [THEN less_trans])
  ultimately show ?case
    by (simp add: PageTableIndex_steps_between_def steps_between_u16_def)
next
  case (9 a b)
  then show ?case
    by (simp add: PageTableIndex_steps_between_def steps_between_u16_def word_le_nat_alt)
qed

end
