(* ===== verification/Addr.thy ===== *)
theory Addr
  imports Table_Index
begin

text \<open>
  \<open>addr.rs\<close>: virtual and physical addresses, their construction, alignment, arithmetic and the
  \<open>Step\<close> implementation of \<open>VirtAddr\<close>. The lemmas give the canonical-form invariant of
  \<open>VirtAddr\<close>, the numeric meaning of alignment, and the refinement of stepping (which jumps the
  gap between the two halves of the address space) to arithmetic on the 48-bit position \<open>lin\<close>.
\<close>

section \<open>Types\<close>

datatype VirtAddr = VirtAddr (va: u64)

datatype PhysAddr = PhysAddr (pa: u64)

datatype VirtAddrNotValid = VirtAddrNotValid u64

datatype PhysAddrNotValid = PhysAddrNotValid u64

instantiation VirtAddr :: linorder
begin

definition less_eq_VirtAddr :: "VirtAddr \<Rightarrow> VirtAddr \<Rightarrow> bool" where
  "a \<le> b \<longleftrightarrow> va a \<le> va b"

definition less_VirtAddr :: "VirtAddr \<Rightarrow> VirtAddr \<Rightarrow> bool" where
  "a < b \<longleftrightarrow> va a < va b"

instance
  by standard (auto simp: less_eq_VirtAddr_def less_VirtAddr_def intro: VirtAddr.expand)

end

instantiation PhysAddr :: linorder
begin

definition less_eq_PhysAddr :: "PhysAddr \<Rightarrow> PhysAddr \<Rightarrow> bool" where
  "a \<le> b \<longleftrightarrow> pa a \<le> pa b"

definition less_PhysAddr :: "PhysAddr \<Rightarrow> PhysAddr \<Rightarrow> bool" where
  "a < b \<longleftrightarrow> pa a < pa b"

instance
  by standard (auto simp: less_eq_PhysAddr_def less_PhysAddr_def intro: PhysAddr.expand)

end

section \<open>Alignment of raw addresses\<close>

definition align_down :: "u64 \<Rightarrow> u64 \<Rightarrow> u64 option" where
  "align_down addr align = do {
     assert_that (is_power_of_two align);
     Some (addr AND NOT (align - 1))
   }"

definition align_up :: "u64 \<Rightarrow> u64 \<Rightarrow> u64 option" where
  "align_up addr align = do {
     assert_that (is_power_of_two align);
     let align_mask = align - 1;
     if addr AND align_mask = 0 then Some addr
     else (case checked_add (addr OR align_mask) 1 of
             Some aligned \<Rightarrow> Some aligned
           | None \<Rightarrow> panic)
   }"

section \<open>VirtAddr\<close>

definition ADDRESS_SPACE_SIZE :: u64 where
  "ADDRESS_SPACE_SIZE = 0x1000000000000"

definition VirtAddr_new_truncate :: "u64 \<Rightarrow> VirtAddr" where
  "VirtAddr_new_truncate addr = VirtAddr (signed_drop_bit 16 (push_bit 16 addr))"

definition VirtAddr_try_new :: "u64 \<Rightarrow> VirtAddrNotValid + VirtAddr" where
  "VirtAddr_try_new addr =
     (let v = VirtAddr_new_truncate addr in
      if va v = addr then Inr v else Inl (VirtAddrNotValid addr))"

definition VirtAddr_new :: "u64 \<Rightarrow> VirtAddr option" where
  "VirtAddr_new addr =
     (case VirtAddr_try_new addr of
        Inr v \<Rightarrow> Some v
      | Inl _ \<Rightarrow> panic)"

definition VirtAddr_new_unsafe :: "u64 \<Rightarrow> VirtAddr" where
  "VirtAddr_new_unsafe addr = VirtAddr addr"

definition VirtAddr_zero :: VirtAddr where
  "VirtAddr_zero = VirtAddr 0"

definition VirtAddr_as_u64 :: "VirtAddr \<Rightarrow> u64" where
  "VirtAddr_as_u64 self = va self"

text \<open>A raw pointer is its address.\<close>

definition VirtAddr_from_ptr :: "u64 \<Rightarrow> VirtAddr option" where
  "VirtAddr_from_ptr ptr = VirtAddr_new ptr"

definition VirtAddr_as_ptr :: "VirtAddr \<Rightarrow> u64" where
  "VirtAddr_as_ptr self = VirtAddr_as_u64 self"

definition VirtAddr_as_mut_ptr :: "VirtAddr \<Rightarrow> u64" where
  "VirtAddr_as_mut_ptr self = VirtAddr_as_ptr self"

definition VirtAddr_is_null :: "VirtAddr \<Rightarrow> bool" where
  "VirtAddr_is_null self \<longleftrightarrow> va self = 0"

definition VirtAddr_align_up :: "VirtAddr \<Rightarrow> u64 \<Rightarrow> VirtAddr option" where
  "VirtAddr_align_up self align = do {
     a \<leftarrow> align_up (va self) align;
     Some (VirtAddr_new_truncate a)
   }"

definition VirtAddr_align_down_u64 :: "VirtAddr \<Rightarrow> u64 \<Rightarrow> VirtAddr option" where
  "VirtAddr_align_down_u64 self align = do {
     a \<leftarrow> align_down (va self) align;
     Some (VirtAddr_new_truncate a)
   }"

definition VirtAddr_align_down :: "VirtAddr \<Rightarrow> u64 \<Rightarrow> VirtAddr option" where
  "VirtAddr_align_down self align = VirtAddr_align_down_u64 self align"

definition VirtAddr_is_aligned_u64 :: "VirtAddr \<Rightarrow> u64 \<Rightarrow> bool option" where
  "VirtAddr_is_aligned_u64 self align = do {
     a \<leftarrow> VirtAddr_align_down_u64 self align;
     Some (VirtAddr_as_u64 a = VirtAddr_as_u64 self)
   }"

definition VirtAddr_is_aligned :: "VirtAddr \<Rightarrow> u64 \<Rightarrow> bool option" where
  "VirtAddr_is_aligned self align = VirtAddr_is_aligned_u64 self align"

definition VirtAddr_page_offset :: "VirtAddr \<Rightarrow> PageOffset" where
  "VirtAddr_page_offset self = PageOffset_new_truncate (ucast (va self))"

definition VirtAddr_p1_index :: "VirtAddr \<Rightarrow> PageTableIndex" where
  "VirtAddr_p1_index self = PageTableIndex_new_truncate (ucast (drop_bit 12 (va self)))"

definition VirtAddr_p2_index :: "VirtAddr \<Rightarrow> PageTableIndex" where
  "VirtAddr_p2_index self =
     PageTableIndex_new_truncate (ucast (drop_bit 9 (drop_bit 12 (va self))))"

definition VirtAddr_p3_index :: "VirtAddr \<Rightarrow> PageTableIndex" where
  "VirtAddr_p3_index self =
     PageTableIndex_new_truncate (ucast (drop_bit 9 (drop_bit 9 (drop_bit 12 (va self)))))"

definition VirtAddr_p4_index :: "VirtAddr \<Rightarrow> PageTableIndex" where
  "VirtAddr_p4_index self = PageTableIndex_new_truncate
     (ucast (drop_bit 9 (drop_bit 9 (drop_bit 9 (drop_bit 12 (va self))))))"

definition VirtAddr_page_table_index :: "VirtAddr \<Rightarrow> PageTableLevel \<Rightarrow> PageTableIndex" where
  "VirtAddr_page_table_index self level = PageTableIndex_new_truncate
     (ucast (drop_bit (unat ((level_u8 level - 1) * 9)) (drop_bit 12 (va self))))"

definition VirtAddr_steps_between_u64 :: "VirtAddr \<Rightarrow> VirtAddr \<Rightarrow> u64 option" where
  "VirtAddr_steps_between_u64 start end = do {
     steps \<leftarrow> checked_sub (va end) (va start);
     Some (steps AND 0xffffffffffff)
   }"

definition VirtAddr_steps_between_impl :: "VirtAddr \<Rightarrow> VirtAddr \<Rightarrow> usize \<times> usize option" where
  "VirtAddr_steps_between_impl start end =
     (case VirtAddr_steps_between_u64 start end of
        Some steps \<Rightarrow>
          (let steps = usize_try_from steps in
           ((case steps of Some s \<Rightarrow> s | None \<Rightarrow> -1), steps))
      | None \<Rightarrow> (0, None))"

text \<open>
  The checked steps return an \<open>Option\<close>; the calls of \<open>get_bits\<close> and \<open>set_bits\<close> may panic, so the
  result is an \<open>Option\<close> inside the outcome.
\<close>

definition VirtAddr_forward_checked_u64 ::
  "extern \<Rightarrow> VirtAddr \<Rightarrow> u64 \<Rightarrow> VirtAddr option option" where
  "VirtAddr_forward_checked_u64 X start count =
     (if count > ADDRESS_SPACE_SIZE then Some None
      else case checked_add (va start) count of
        None \<Rightarrow> Some None
      | Some addr \<Rightarrow> do {
          high \<leftarrow> get_bits X addr 47 64;
          if high = 0x1 then do {
            addr' \<leftarrow> set_bits X addr 47 64 0x1ffff;
            Some (Some (VirtAddr_new_unsafe addr'))
          }
          else if high = 0x2 then Some None
          else Some (Some (VirtAddr_new_unsafe addr))
        })"

definition VirtAddr_forward_checked_impl ::
  "extern \<Rightarrow> VirtAddr \<Rightarrow> usize \<Rightarrow> VirtAddr option option" where
  "VirtAddr_forward_checked_impl X start count =
     (case u64_try_from count of
        None \<Rightarrow> Some None
      | Some n \<Rightarrow> VirtAddr_forward_checked_u64 X start n)"

definition VirtAddr_backward_checked_u64 ::
  "extern \<Rightarrow> VirtAddr \<Rightarrow> u64 \<Rightarrow> VirtAddr option option" where
  "VirtAddr_backward_checked_u64 X start count =
     (if count > ADDRESS_SPACE_SIZE then Some None
      else case checked_sub (va start) count of
        None \<Rightarrow> Some None
      | Some addr \<Rightarrow> do {
          high \<leftarrow> get_bits X addr 47 64;
          if high = 0x1fffe then do {
            addr' \<leftarrow> set_bits X addr 47 64 0;
            Some (Some (VirtAddr_new_unsafe addr'))
          }
          else if high = 0x1fffd then Some None
          else Some (Some (VirtAddr_new_unsafe addr))
        })"

text \<open>The operators: \<open>VirtAddr + u64\<close>, \<open>VirtAddr - u64\<close> and \<open>VirtAddr - VirtAddr\<close>.\<close>

definition VirtAddr_add :: "VirtAddr \<Rightarrow> u64 \<Rightarrow> VirtAddr option" where
  "VirtAddr_add self rhs = do {
     sum \<leftarrow> checked_add (va self) rhs;
     VirtAddr_new sum
   }"

definition VirtAddr_add_assign :: "VirtAddr \<Rightarrow> u64 \<Rightarrow> VirtAddr option" where
  "VirtAddr_add_assign self rhs = VirtAddr_add self rhs"

definition VirtAddr_sub :: "VirtAddr \<Rightarrow> u64 \<Rightarrow> VirtAddr option" where
  "VirtAddr_sub self rhs = do {
     diff \<leftarrow> checked_sub (va self) rhs;
     VirtAddr_new diff
   }"

definition VirtAddr_sub_assign :: "VirtAddr \<Rightarrow> u64 \<Rightarrow> VirtAddr option" where
  "VirtAddr_sub_assign self rhs = VirtAddr_sub self rhs"

definition VirtAddr_sub_addr :: "VirtAddr \<Rightarrow> VirtAddr \<Rightarrow> u64 option" where
  "VirtAddr_sub_addr self rhs = checked_sub (VirtAddr_as_u64 self) (VirtAddr_as_u64 rhs)"

text \<open>\<open>impl Step for VirtAddr\<close>.\<close>

definition VirtAddr_steps_between :: "VirtAddr \<Rightarrow> VirtAddr \<Rightarrow> usize \<times> usize option" where
  "VirtAddr_steps_between start end = VirtAddr_steps_between_impl start end"

definition VirtAddr_forward_checked ::
  "extern \<Rightarrow> VirtAddr \<Rightarrow> usize \<Rightarrow> VirtAddr option option" where
  "VirtAddr_forward_checked X start count = VirtAddr_forward_checked_impl X start count"

definition VirtAddr_backward_checked ::
  "extern \<Rightarrow> VirtAddr \<Rightarrow> usize \<Rightarrow> VirtAddr option option" where
  "VirtAddr_backward_checked X start count =
     (case u64_try_from count of
        None \<Rightarrow> Some None
      | Some n \<Rightarrow> VirtAddr_backward_checked_u64 X start n)"

section \<open>PhysAddr\<close>

definition PhysAddr_new_truncate :: "u64 \<Rightarrow> PhysAddr" where
  "PhysAddr_new_truncate addr = PhysAddr (addr mod push_bit 52 1)"

definition PhysAddr_try_new :: "u64 \<Rightarrow> PhysAddrNotValid + PhysAddr" where
  "PhysAddr_try_new addr =
     (let p = PhysAddr_new_truncate addr in
      if pa p = addr then Inr p else Inl (PhysAddrNotValid addr))"

definition PhysAddr_new :: "u64 \<Rightarrow> PhysAddr option" where
  "PhysAddr_new addr =
     (case PhysAddr_try_new addr of
        Inr p \<Rightarrow> Some p
      | Inl _ \<Rightarrow> panic)"

definition PhysAddr_new_unsafe :: "u64 \<Rightarrow> PhysAddr" where
  "PhysAddr_new_unsafe addr = PhysAddr addr"

definition PhysAddr_zero :: PhysAddr where
  "PhysAddr_zero = PhysAddr 0"

definition PhysAddr_as_u64 :: "PhysAddr \<Rightarrow> u64" where
  "PhysAddr_as_u64 self = pa self"

definition PhysAddr_is_null :: "PhysAddr \<Rightarrow> bool" where
  "PhysAddr_is_null self \<longleftrightarrow> pa self = 0"

definition PhysAddr_align_up :: "PhysAddr \<Rightarrow> u64 \<Rightarrow> PhysAddr option" where
  "PhysAddr_align_up self align = do {
     a \<leftarrow> align_up (pa self) align;
     PhysAddr_new a
   }"

definition PhysAddr_align_down_u64 :: "PhysAddr \<Rightarrow> u64 \<Rightarrow> PhysAddr option" where
  "PhysAddr_align_down_u64 self align = do {
     a \<leftarrow> align_down (pa self) align;
     Some (PhysAddr a)
   }"

definition PhysAddr_align_down :: "PhysAddr \<Rightarrow> u64 \<Rightarrow> PhysAddr option" where
  "PhysAddr_align_down self align = PhysAddr_align_down_u64 self align"

definition PhysAddr_is_aligned_u64 :: "PhysAddr \<Rightarrow> u64 \<Rightarrow> bool option" where
  "PhysAddr_is_aligned_u64 self align = do {
     a \<leftarrow> PhysAddr_align_down_u64 self align;
     Some (PhysAddr_as_u64 a = PhysAddr_as_u64 self)
   }"

definition PhysAddr_is_aligned :: "PhysAddr \<Rightarrow> u64 \<Rightarrow> bool option" where
  "PhysAddr_is_aligned self align = PhysAddr_is_aligned_u64 self align"

definition PhysAddr_add :: "PhysAddr \<Rightarrow> u64 \<Rightarrow> PhysAddr option" where
  "PhysAddr_add self rhs = do {
     sum \<leftarrow> checked_add (pa self) rhs;
     PhysAddr_new sum
   }"

definition PhysAddr_add_assign :: "PhysAddr \<Rightarrow> u64 \<Rightarrow> PhysAddr option" where
  "PhysAddr_add_assign self rhs = PhysAddr_add self rhs"

definition PhysAddr_sub :: "PhysAddr \<Rightarrow> u64 \<Rightarrow> PhysAddr option" where
  "PhysAddr_sub self rhs = do {
     diff \<leftarrow> checked_sub (pa self) rhs;
     PhysAddr_new diff
   }"

definition PhysAddr_sub_assign :: "PhysAddr \<Rightarrow> u64 \<Rightarrow> PhysAddr option" where
  "PhysAddr_sub_assign self rhs = PhysAddr_sub self rhs"

definition PhysAddr_sub_addr :: "PhysAddr \<Rightarrow> PhysAddr \<Rightarrow> u64 option" where
  "PhysAddr_sub_addr self rhs = checked_sub (PhysAddr_as_u64 self) (PhysAddr_as_u64 rhs)"

section \<open>Canonical addresses\<close>

text \<open>
  Bits 48 to 63 are copies of bit 47; \<open>lin\<close> is the position of an address among the \<open>2 ^ 48\<close>
  canonical ones, in increasing order.
\<close>

definition canonical :: "VirtAddr \<Rightarrow> bool" where
  "canonical a \<longleftrightarrow> (\<forall>n\<in>{48..<64}. bit (va a) n = bit (va a) 47)"

definition lin :: "VirtAddr \<Rightarrow> nat" where
  "lin a = unat (va a) mod 2 ^ 48"

lemma new_truncate_signed: "VirtAddr_new_truncate a = VirtAddr (signed_take_bit 47 a)"
proof -
  have "signed_drop_bit 16 (push_bit 16 a) = signed_take_bit 47 a"
  proof (rule bit_word_eqI)
    fix n assume "n < LENGTH(64)"
    then show "bit (signed_drop_bit 16 (push_bit 16 a)) n = bit (signed_take_bit 47 a) n"
      by (cases "n = 47") (auto simp: bit_simps min_def)
  qed
  then show ?thesis by (simp add: VirtAddr_new_truncate_def)
qed

lemma canonical_bit: "canonical a \<Longrightarrow> 47 \<le> n \<Longrightarrow> n < 64 \<Longrightarrow> bit (va a) n = bit (va a) 47"
  by (cases "n = 47") (auto simp: canonical_def)

lemma canonical_iff_signed: "canonical a \<longleftrightarrow> signed_take_bit 47 (va a) = va a"
proof
  assume c: "canonical a"
  show "signed_take_bit 47 (va a) = va a"
  proof (rule bit_word_eqI)
    fix n assume n: "n < LENGTH(64)"
    then have "bit (signed_take_bit 47 (va a)) n = bit (va a) (min 47 n)"
      by (simp add: bit_simps)
    also have "\<dots> = bit (va a) n"
      using n canonical_bit [OF c, of n] by (cases "47 \<le> n") (simp_all add: min_def)
    finally show "bit (signed_take_bit 47 (va a)) n = bit (va a) n" .
  qed
next
  assume s: "signed_take_bit 47 (va a) = va a"
  have "bit (signed_take_bit 47 (va a)) n = bit (va a) 47" if "48 \<le> n" "n < 64" for n
    using that by (simp add: bit_simps min_def)
  with s show "canonical a" by (simp add: canonical_def)
qed

lemma len64_eq: "LENGTH(64) = 64"
  by simp

lemma all_same_iff:
  "x \<in> S \<Longrightarrow> (\<forall>n\<in>S. P n = P x) \<longleftrightarrow> (\<forall>n\<in>S. \<not> P n) \<or> (\<forall>n\<in>S. P n)"
  by blast

lemma take_bit_word_eq_self_iff: "take_bit k (v :: 'a::len word) = v \<longleftrightarrow> unat v < 2 ^ k"
proof -
  have "take_bit k v = v \<longleftrightarrow> unat v mod 2 ^ k = unat v"
    by (metis unat_take_bit unsigned_word_eqI)
  then show ?thesis
    by (metis mod_less mod_less_divisor zero_less_numeral zero_less_power)
qed

lemma unat_not: "unat (NOT (v :: u64)) = 2 ^ 64 - 1 - unat v"
proof -
  have "NOT v = - 1 - v" by (simp add: not_eq_complement)
  then have "unat (NOT v) = unat (- 1 :: u64) - unat v"
    by (simp add: unat_sub_no_wrap)
  moreover have "unat (- 1 :: u64) = 2 ^ 64 - 1"
    by (simp add: unsigned_minus_1_eq_mask mask_numeral)
  ultimately show ?thesis by simp
qed

lemma unat_lt_pow_iff_bits:
  "k \<le> 64 \<Longrightarrow> unat (v :: u64) < 2 ^ k \<longleftrightarrow> (\<forall>n\<in>{k..<64}. \<not> bit v n)"
  unfolding take_bit_word_eq_self_iff [symmetric] bit_eq_iff [of "take_bit k v"]
  by (auto simp: bit_simps)

lemma canonical_iff_unat:
  "canonical a \<longleftrightarrow> unat (va a) < 2 ^ 47 \<or> 2 ^ 64 - 2 ^ 47 \<le> unat (va a)"
proof -
  let ?v = "va a"
  have low: "(\<forall>n\<in>{47..<64}. \<not> bit ?v n) \<longleftrightarrow> unat ?v < 2 ^ 47"
    using unat_lt_pow_iff_bits [of 47 ?v] by simp
  have "(\<forall>n\<in>{47..<64}. \<not> bit (NOT ?v) n) \<longleftrightarrow> unat (NOT ?v) < 2 ^ 47"
    using unat_lt_pow_iff_bits [of 47 "NOT ?v"] by simp
  then have high: "(\<forall>n\<in>{47..<64}. bit ?v n) \<longleftrightarrow> 2 ^ 64 - 2 ^ 47 \<le> unat ?v"
    using unat_lt_64 [of ?v] by (simp add: bit_simps unat_not) arith
  have "canonical a \<longleftrightarrow> (\<forall>n\<in>{47..<64}. \<not> bit ?v n) \<or> (\<forall>n\<in>{47..<64}. bit ?v n)"
  proof -
    have "canonical a \<longleftrightarrow> (\<forall>n\<in>{47..<64}. bit ?v n = bit ?v 47)"
    proof
      assume c: "canonical a"
      show "\<forall>n\<in>{47..<64}. bit ?v n = bit ?v 47"
        by (intro ballI canonical_bit [OF c]) simp_all
    next
      assume all: "\<forall>n\<in>{47..<64}. bit ?v n = bit ?v 47"
      show "canonical a"
        unfolding canonical_def by (intro ballI all [THEN bspec]) simp
    qed
    also have "\<dots> \<longleftrightarrow> (\<forall>n\<in>{47..<64}. \<not> bit ?v n) \<or> (\<forall>n\<in>{47..<64}. bit ?v n)"
      by (rule all_same_iff) simp
    finally show ?thesis .
  qed
  with low high show ?thesis by simp
qed

lemma canonical_new_truncate [simp]: "canonical (VirtAddr_new_truncate a)"
  by (auto simp: new_truncate_signed canonical_def bit_simps)

lemma lin_new_truncate [simp]: "lin (VirtAddr_new_truncate a) = unat a mod 2 ^ 48"
proof -
  have "take_bit 48 (signed_take_bit 47 a) = take_bit 48 a"
  proof (rule bit_word_eqI)
    fix n assume "n < LENGTH(64)"
    then show "bit (take_bit 48 (signed_take_bit 47 a)) n = bit (take_bit 48 a) n"
      by (cases "n = 47") (auto simp: bit_simps min_def)
  qed
  then show ?thesis
    by (simp only: lin_def new_truncate_signed VirtAddr.sel unat_take_bit [symmetric])
qed

lemma new_truncate_id: "canonical a \<Longrightarrow> VirtAddr_new_truncate (va a) = a"
  by (simp add: new_truncate_signed canonical_iff_signed)

lemma try_new_eq: "VirtAddr_try_new a =
    (if canonical (VirtAddr a) then Inr (VirtAddr a) else Inl (VirtAddrNotValid a))"
  by (auto simp: VirtAddr_try_new_def new_truncate_signed canonical_iff_signed Let_def)

lemma VirtAddr_new_eq: "VirtAddr_new a = (if canonical (VirtAddr a) then Some (VirtAddr a) else panic)"
  by (simp add: VirtAddr_new_def try_new_eq)

lemma lin_lt [simp]: "lin a < 2 ^ 48"
  by (simp add: lin_def)

lemma mod_high_half:
  "(l + 18446462598732840960) mod 281474976710656 = l mod (281474976710656 :: nat)"
  using mod_mult_self1 [of l 65535 281474976710656] by simp

lemma canonical_unat:
  assumes "canonical a"
  shows "unat (va a) = (if lin a < 2 ^ 47 then lin a else lin a + (2 ^ 64 - 2 ^ 48))"
proof (cases "unat (va a) < 2 ^ 47")
  case True
  then show ?thesis by (simp add: lin_def)
next
  case False
  define l where "l = unat (va a) - (2 ^ 64 - 2 ^ 48)"
  have l: "unat (va a) = l + 18446462598732840960" "2 ^ 47 \<le> l" "l < 2 ^ 48"
    using assms False unat_lt_64 [of "va a"] by (simp_all add: canonical_iff_unat l_def)
  then have "lin a = l"
    by (simp add: lin_def mod_high_half)
  with l show ?thesis by simp
qed

lemma lin_inj: "canonical a \<Longrightarrow> canonical b \<Longrightarrow> lin a = lin b \<Longrightarrow> a = b"
  by (metis canonical_unat VirtAddr.expand unsigned_word_eqI)

lemma lin_less_iff: "canonical a \<Longrightarrow> canonical b \<Longrightarrow> lin a < lin b \<longleftrightarrow> a < b"
  using lin_lt [of a] lin_lt [of b]
  by (auto simp: less_VirtAddr_def word_less_nat_alt canonical_unat)

lemma lin_le_iff: "canonical a \<Longrightarrow> canonical b \<Longrightarrow> lin a \<le> lin b \<longleftrightarrow> a \<le> b"
  using lin_less_iff [of b a] by (auto simp: not_less [symmetric])

lemma canonical_of_unat:
  "unat (va a) = (if l < 2 ^ 47 then l else l + (2 ^ 64 - 2 ^ 48)) \<Longrightarrow> l < 2 ^ 48 \<Longrightarrow>
    canonical a \<and> lin a = l"
  unfolding canonical_iff_unat lin_def by (auto simp: mod_high_half split: if_splits)

section \<open>Alignment\<close>

lemma round_up_eq:
  assumes "0 < (A :: nat)"
  shows "(a + (A - 1)) div A * A = (if a mod A = 0 then a else a div A * A + A)"
proof (cases "a mod A = 0")
  case True
  then obtain q where a: "a = q * A" by (metis mod_0_imp_dvd dvd_def mult.commute)
  have "(q * A + (A - 1)) div A = q + (A - 1) div A"
    by (rule div_mult_self3) (use assms in simp)
  also have "\<dots> = q" using assms by simp
  finally show ?thesis using True a by simp
next
  case False
  have "a + (A - 1) = (a div A + 1) * A + (a mod A - 1)"
  proof -
    have "a = a div A * A + a mod A" by simp
    with assms False show ?thesis by (simp only: distrib_right)
  qed
  moreover have "((a div A + 1) * A + (a mod A - 1)) div A = a div A + 1 + (a mod A - 1) div A"
    by (rule div_mult_self3) (use assms in simp)
  moreover have "(a mod A - 1) div A = 0"
    using assms by (simp add: less_imp_diff_less)
  ultimately have "(a + (A - 1)) div A = a div A + 1"
    by (simp only: add_0_right)
  with False show ?thesis by simp
qed

lemma align_down_eq_Some:
  "align_down addr align = Some r \<longleftrightarrow>
    is_power_of_two align \<and> unat r = unat addr div unat align * unat align"
proof (cases "is_power_of_two align")
  case True
  then obtain k where k: "unat align = 2 ^ k" "align - 1 = mask k"
    by (rule is_power_of_twoE)
  then have "align_down addr align = Some (addr AND NOT (mask k))"
    using True by (simp add: align_down_def)
  with True k show ?thesis
    by (metis option.inject unat_and_not_mask unsigned_word_eqI)
qed (simp add: align_down_def)

lemma align_down_None: "align_down addr align = panic \<longleftrightarrow> \<not> is_power_of_two align"
  by (simp add: align_down_def)

lemma unat_or_mask: "unat (a OR mask k :: u64) = unat a div 2 ^ k * 2 ^ k + (2 ^ k - 1)" if "k < 64"
proof -
  have d: "(a AND NOT (mask k)) AND mask k = 0" and e: "a OR mask k = (a AND NOT (mask k)) OR mask k"
    by (rule bit_word_eqI; auto simp: bit_simps)+
  have "unat (mask k :: u64) = 2 ^ k - 1"
    using that unat_pow2 [of k, where 'a = 64] unat_sub_no_wrap [of 1 "2 ^ k :: u64"]
    by (simp add: mask_eq_exp_minus_1 word_le_nat_alt)
  with e show ?thesis
    by (simp only: unat_or_disjoint [OF d] unat_and_not_mask)
qed

lemma align_up_eq_Some:
  "align_up addr align = Some r \<longleftrightarrow>
    is_power_of_two align \<and> unat r = (unat addr + (unat align - 1)) div unat align * unat align"
proof (cases "is_power_of_two align")
  case True
  then obtain k where k: "k < 64" "unat align = 2 ^ k" "align - 1 = mask k"
    by (rule is_power_of_twoE)
  let ?A = "2 ^ k :: nat" and ?a = "unat addr"
  have m: "addr AND mask k = take_bit k addr" by (simp add: take_bit_eq_mask)
  have z: "addr AND mask k = 0 \<longleftrightarrow> ?a mod ?A = 0"
    unfolding m by (metis unat_take_bit unat_eq_zero)
  show ?thesis
  proof (cases "?a mod ?A = 0")
    case c: True
    with True k have "align_up addr align = Some addr"
      by (simp add: align_up_def z)
    moreover have "(?a + (?A - 1)) div ?A * ?A = ?a"
      using c round_up_eq [of ?A ?a] by simp
    ultimately show ?thesis
      using True k by (metis option.inject unsigned_word_eqI)
  next
    case c: False
    have up: "align_up addr align = checked_add (addr OR mask k) 1"
      using True c k by (simp add: align_up_def z split: option.split)
    have s: "unat (addr OR mask k) + 1 = ?a div ?A * ?A + ?A"
      using k by (simp add: unat_or_mask)
    have r: "(?a + (?A - 1)) div ?A * ?A = unat (addr OR mask k) + 1"
      using c s round_up_eq [of ?A ?a] by simp
    have "checked_add (addr OR mask k) 1 = Some r \<longleftrightarrow> unat r = unat (addr OR mask k) + 1"
      using unsigned_less [of r, where 'a = nat] unat_add_no_wrap [of "addr OR mask k" 1]
      by (auto simp: checked_add_eq_Some word_unat_eq_iff [of r])
    then show ?thesis
      using True k by (simp only: up r simp_thms)
  qed
qed (simp add: align_up_def)

lemma align_up_None:
  "align_up addr align = panic \<longleftrightarrow> \<not> is_power_of_two align \<or>
    2 ^ 64 \<le> (unat addr + (unat align - 1)) div unat align * unat align"
proof -
  let ?m = "(unat addr + (unat align - 1)) div unat align * unat align"
  have "align_up addr align \<noteq> panic \<longleftrightarrow> is_power_of_two align \<and> (\<exists>r :: u64. unat r = ?m)"
    by (simp only: not_None_eq align_up_eq_Some) blast
  moreover have "(\<exists>r :: u64. unat r = ?m) \<longleftrightarrow> ?m < 2 ^ 64"
  proof
    assume "\<exists>r :: u64. unat r = ?m"
    then show "?m < 2 ^ 64" using unat_lt_64 by (metis unsigned_less len64_eq)
  next
    assume "?m < 2 ^ 64"
    then have "unat (of_nat ?m :: u64) = ?m" by (intro unat_of_nat_small) simp
    then show "\<exists>r :: u64. unat r = ?m" ..
  qed
  ultimately show ?thesis by (simp only: not_less [symmetric]) blast
qed

section \<open>Stepping\<close>

lemma get_range_high: "unat (get_range (v :: u64) 47 64) = unat v div 2 ^ 47"
proof -
  have "unat v div 2 ^ 47 < 2 ^ 17"
    using unat_lt_64 [of v] by (simp add: div_less_iff_less_mult)
  then show ?thesis by (simp add: get_range_def unat_take_bit unat_drop_bit flip: drop_bit_eq_div)
qed

lemma set_range_high:
  assumes "take_bit 17 w = w"
  shows "unat (set_range (v :: u64) 47 64 w) = unat v mod 2 ^ 47 + unat w * 2 ^ 47"
proof -
  have e: "set_range v 47 64 w = take_bit 47 v OR push_bit 47 w"
    by (rule bit_word_eqI) (auto simp: set_range_def bit_simps)
  have d: "take_bit 47 v AND push_bit 47 w = 0"
    by (rule bit_word_eqI) (auto simp: bit_simps)
  have "unat w < 2 ^ 17"
    using assms by (simp only: take_bit_word_eq_self_iff)
  then have u: "unat (push_bit 47 w) = unat w * 2 ^ 47"
    by (subst push_bit_eq_mult, subst unat_mul_no_wrap) simp_all
  show ?thesis
    by (simp only: e unat_or_disjoint [OF d] unat_take_bit u)
qed

lemma space_size_less: "ADDRESS_SPACE_SIZE < n \<longleftrightarrow> 2 ^ 48 < unat n"
  by (simp add: ADDRESS_SPACE_SIZE_def word_less_nat_alt)

context extern_ok
begin

lemma forward_checked_raw:
  assumes n: "unat n \<le> 2 ^ 48" and s: "unat (va a) + unat n = s" "s < 2 ^ 64"
  shows "s div 2 ^ 47 = 1 \<Longrightarrow> \<exists>v. VirtAddr_forward_checked_u64 X a n = Some (Some (VirtAddr v)) \<and>
      unat v = s mod 2 ^ 47 + 0x1ffff * 2 ^ 47"
    and "s div 2 ^ 47 = 2 \<Longrightarrow> VirtAddr_forward_checked_u64 X a n = Some None"
    and "s div 2 ^ 47 \<noteq> 1 \<Longrightarrow> s div 2 ^ 47 \<noteq> 2 \<Longrightarrow>
      \<exists>v. VirtAddr_forward_checked_u64 X a n = Some (Some (VirtAddr v)) \<and> unat v = s"
proof -
  have u: "unat (va a + n) = s"
    using s by (simp add: unat_add_no_wrap)
  have h: "unat (get_range (va a + n) 47 64) = s div 2 ^ 47"
    by (simp only: get_range_high u)
  have w: "unat (set_range (va a + n) 47 64 0x1ffff) = s mod 2 ^ 47 + 0x1ffff * 2 ^ 47"
    by (subst set_range_high) (simp_all add: u)
  note d = VirtAddr_forward_checked_u64_def VirtAddr_new_unsafe_def space_size_less checked_add_def
    word_unat_eq_iff [of "get_range (va a + n) 47 64"]
  show "s div 2 ^ 47 = 1 \<Longrightarrow> \<exists>v. VirtAddr_forward_checked_u64 X a n = Some (Some (VirtAddr v)) \<and>
      unat v = s mod 2 ^ 47 + 0x1ffff * 2 ^ 47"
    using n s w h by (simp add: d)
  show "s div 2 ^ 47 = 2 \<Longrightarrow> VirtAddr_forward_checked_u64 X a n = Some None"
    using n s h by (simp add: d)
  show "s div 2 ^ 47 \<noteq> 1 \<Longrightarrow> s div 2 ^ 47 \<noteq> 2 \<Longrightarrow>
      \<exists>v. VirtAddr_forward_checked_u64 X a n = Some (Some (VirtAddr v)) \<and> unat v = s"
    using n s h u by (simp add: d)
qed

lemma forward_checked_some:
  assumes a: "canonical a" and n: "lin a + unat n < 2 ^ 48"
  shows "\<exists>b. VirtAddr_forward_checked_u64 X a n = Some (Some b) \<and> canonical b \<and>
    lin b = lin a + unat n"
proof -
  define s where "s = unat (va a) + unat n"
  have n': "unat n \<le> 2 ^ 48" using n by simp
  have ua: "unat (va a) = (if lin a < 2 ^ 47 then lin a else lin a + (2 ^ 64 - 2 ^ 48))"
    using a by (rule canonical_unat)
  then have s64: "s < 2 ^ 64"
    using n by (simp add: s_def split: if_splits)
  have "\<exists>v. VirtAddr_forward_checked_u64 X a n = Some (Some (VirtAddr v)) \<and>
      unat v = (if lin a + unat n < 2 ^ 47 then lin a + unat n
                else lin a + unat n + (2 ^ 64 - 2 ^ 48))"
  proof (cases "lin a < 2 ^ 47 \<and> 2 ^ 47 \<le> lin a + unat n")
    case True
    with n ua have e: "s = lin a + unat n" by (simp add: s_def)
    with True n have s1: "s div 2 ^ 47 = 1"
      by (simp add: div_nat_eqI)
    then have "s mod 2 ^ 47 = s - 2 ^ 47"
      using minus_div_mult_eq_mod [of s "2 ^ 47"] by simp
    with s1 True e show ?thesis
      using forward_checked_raw(1) [OF n' s_def [symmetric] s64] by (auto simp: not_less)
  next
    case False
    have "s div 2 ^ 47 \<noteq> 1 \<and> s div 2 ^ 47 \<noteq> 2"
      using False n ua by (auto simp: s_def split: if_splits)
    with False show ?thesis
      using forward_checked_raw(3) [OF n' s_def [symmetric] s64] ua by (auto simp: s_def)
  qed
  then show ?thesis
    using canonical_of_unat [of "VirtAddr v" "lin a + unat n" for v] n by auto
qed

lemma forward_checked_none:
  assumes a: "canonical a" and n: "2 ^ 48 \<le> lin a + unat n"
  shows "VirtAddr_forward_checked_u64 X a n = Some None"
proof (cases "2 ^ 48 < unat n \<or> 2 ^ 64 \<le> unat (va a) + unat n")
  case True
  then show ?thesis
    by (auto simp: VirtAddr_forward_checked_u64_def space_size_less checked_add_def)
next
  case False
  moreover have "unat (va a) = (if lin a < 2 ^ 47 then lin a else lin a + (2 ^ 64 - 2 ^ 48))"
    using a by (rule canonical_unat)
  ultimately have "(unat (va a) + unat n) div 2 ^ 47 = 2"
    using n by (simp add: div_nat_eqI split: if_splits)
  then show ?thesis
    using False by (intro forward_checked_raw(2) [OF _ refl]) simp_all
qed

lemma backward_checked_raw:
  assumes n: "unat n \<le> 2 ^ 48" and s: "unat n \<le> unat (va a)" "s = unat (va a) - unat n"
  shows "s div 2 ^ 47 = 0x1fffe \<Longrightarrow>
      \<exists>v. VirtAddr_backward_checked_u64 X a n = Some (Some (VirtAddr v)) \<and> unat v = s mod 2 ^ 47"
    and "s div 2 ^ 47 = 0x1fffd \<Longrightarrow> VirtAddr_backward_checked_u64 X a n = Some None"
    and "s div 2 ^ 47 \<noteq> 0x1fffe \<Longrightarrow> s div 2 ^ 47 \<noteq> 0x1fffd \<Longrightarrow>
      \<exists>v. VirtAddr_backward_checked_u64 X a n = Some (Some (VirtAddr v)) \<and> unat v = s"
proof -
  have le: "n \<le> va a" using s by (simp add: word_le_nat_alt)
  have u: "unat (va a - n) = s"
    using s le by (simp add: unat_sub_no_wrap)
  have h: "unat (get_range (va a - n) 47 64) = s div 2 ^ 47"
    by (simp only: get_range_high u)
  have w: "unat (set_range (va a - n) 47 64 0) = s mod 2 ^ 47"
    by (subst set_range_high) (simp_all add: u)
  note d = VirtAddr_backward_checked_u64_def VirtAddr_new_unsafe_def space_size_less checked_sub_def
    word_unat_eq_iff [of "get_range (va a - n) 47 64"]
  show "s div 2 ^ 47 = 0x1fffe \<Longrightarrow>
      \<exists>v. VirtAddr_backward_checked_u64 X a n = Some (Some (VirtAddr v)) \<and> unat v = s mod 2 ^ 47"
    using n le w h by (simp add: d)
  show "s div 2 ^ 47 = 0x1fffd \<Longrightarrow> VirtAddr_backward_checked_u64 X a n = Some None"
    using n le h by (simp add: d)
  show "s div 2 ^ 47 \<noteq> 0x1fffe \<Longrightarrow> s div 2 ^ 47 \<noteq> 0x1fffd \<Longrightarrow>
      \<exists>v. VirtAddr_backward_checked_u64 X a n = Some (Some (VirtAddr v)) \<and> unat v = s"
    using n le h u by (simp add: d)
qed

lemma backward_checked_some:
  assumes a: "canonical a" and n: "unat n \<le> lin a"
  shows "\<exists>b. VirtAddr_backward_checked_u64 X a n = Some (Some b) \<and> canonical b \<and>
    lin b = lin a - unat n"
proof -
  define s where "s = unat (va a) - unat n"
  have n': "unat n \<le> 2 ^ 48" using n lin_lt [of a] by simp
  have ua: "unat (va a) = (if lin a < 2 ^ 47 then lin a else lin a + (2 ^ 64 - 2 ^ 48))"
    using a by (rule canonical_unat)
  then have le: "unat n \<le> unat (va a)" using n by simp
  have "\<exists>v. VirtAddr_backward_checked_u64 X a n = Some (Some (VirtAddr v)) \<and>
      unat v = (if lin a - unat n < 2 ^ 47 then lin a - unat n
                else lin a - unat n + (2 ^ 64 - 2 ^ 48))"
  proof (cases "2 ^ 47 \<le> lin a \<and> lin a - unat n < 2 ^ 47")
    case True
    with n ua have e: "s = lin a - unat n + (2 ^ 64 - 2 ^ 48)" by (simp add: s_def)
    with True have s1: "s div 2 ^ 47 = 0x1fffe"
      by (simp add: div_nat_eqI)
    then have "s mod 2 ^ 47 = lin a - unat n"
      using e minus_div_mult_eq_mod [of s "2 ^ 47"] by simp
    with s1 True show ?thesis
      using backward_checked_raw(1) [OF n' le s_def] by auto
  next
    case False
    have "s div 2 ^ 47 \<noteq> 0x1fffe \<and> s div 2 ^ 47 \<noteq> 0x1fffd"
      using False n ua lin_lt [of a] by (auto simp: s_def split: if_splits)
    with False n show ?thesis
      using backward_checked_raw(3) [OF n' le s_def] ua by (auto simp: s_def)
  qed
  then show ?thesis
    using canonical_of_unat [of "VirtAddr v" "lin a - unat n" for v] n lin_lt [of a]
    by (auto simp: less_imp_diff_less)
qed

lemma backward_checked_none:
  assumes a: "canonical a" and n: "lin a < unat n"
  shows "VirtAddr_backward_checked_u64 X a n = Some None"
proof (cases "2 ^ 48 < unat n \<or> unat (va a) < unat n")
  case True
  then show ?thesis
    by (auto simp: VirtAddr_backward_checked_u64_def space_size_less checked_sub_def word_le_nat_alt)
next
  case False
  moreover have "unat (va a) = (if lin a < 2 ^ 47 then lin a else lin a + (2 ^ 64 - 2 ^ 48))"
    using a by (rule canonical_unat)
  ultimately have "(unat (va a) - unat n) div 2 ^ 47 = 0x1fffd"
    using n by (auto simp: div_nat_eqI split: if_splits)
  then show ?thesis
    using False by (intro backward_checked_raw(2) [OF _ _ refl]) simp_all
qed

end

lemma steps_between_u64_eq:
  assumes a: "canonical a" and b: "canonical b"
  shows "VirtAddr_steps_between_u64 a b =
    (if lin a \<le> lin b then Some (of_nat (lin b - lin a)) else None)"
proof (cases "lin a \<le> lin b")
  case True
  then have le: "va a \<le> va b"
    using a b by (simp add: lin_le_iff less_eq_VirtAddr_def)
  have m: "(0xffffffffffff :: u64) = mask 48" by (simp add: mask_numeral)
  have "(unat (va b) - unat (va a)) mod 2 ^ 48 = lin b - lin a"
  proof -
    have "unat (va b) - unat (va a) = lin b - lin a \<or>
        unat (va b) - unat (va a) = lin b - lin a + 18446462598732840960"
      using True by (auto simp: canonical_unat [OF a] canonical_unat [OF b])
    then show ?thesis
      using lin_lt [of b] mod_high_half [of "lin b - lin a"] by (elim disjE) simp_all
  qed
  then have "unat ((va b - va a) AND mask 48) = lin b - lin a"
    using le by (simp only: take_bit_eq_mask [symmetric] unat_take_bit unat_sub_no_wrap)
  moreover have "unat (of_nat (lin b - lin a) :: u64) = lin b - lin a"
    using lin_lt [of b] by (intro unat_of_nat_small) simp
  ultimately have "(va b - va a) AND mask 48 = of_nat (lin b - lin a)"
    by (metis unsigned_word_eqI)
  with le True show ?thesis
    by (simp only: VirtAddr_steps_between_u64_def checked_sub_def m) simp
next
  case False
  then have "\<not> va a \<le> va b"
    using a b by (simp add: lin_le_iff less_eq_VirtAddr_def)
  with False show ?thesis
    by (simp add: VirtAddr_steps_between_u64_def checked_sub_def)
qed

sublocale extern_ok \<subseteq> addr_step: step canonical lin "2 ^ 48"
  "VirtAddr_forward_checked X" "VirtAddr_backward_checked X" VirtAddr_steps_between
proof (unfold_locales, goal_cases)
  case (1 a)
  show ?case by (rule lin_lt)
next
  case (2 a b)
  then show ?case by (rule lin_inj)
next
  case 3
  show ?case by simp
next
  case (4 a n)
  then show ?case
    by (simp only: VirtAddr_forward_checked_def VirtAddr_forward_checked_impl_def u64_try_from_def
        option.case forward_checked_some)
next
  case (5 a n)
  then show ?case
    by (simp only: VirtAddr_forward_checked_def VirtAddr_forward_checked_impl_def u64_try_from_def
        option.case forward_checked_none)
next
  case (6 a n)
  then show ?case
    by (simp only: VirtAddr_backward_checked_def u64_try_from_def option.case backward_checked_some)
next
  case (7 a n)
  then show ?case
    by (simp only: VirtAddr_backward_checked_def u64_try_from_def option.case backward_checked_none)
next
  case (8 a b)
  then show ?case
    by (simp add: VirtAddr_steps_between_def VirtAddr_steps_between_impl_def steps_between_u64_eq
        usize_try_from_def)
next
  case (9 a b)
  then show ?case
    by (simp add: VirtAddr_steps_between_def VirtAddr_steps_between_impl_def steps_between_u64_eq)
qed

section \<open>Indices and offsets\<close>

lemma unat_ucast_u16_mod:
  "k \<le> 16 \<Longrightarrow> unat (ucast (v :: u64) :: u16) mod 2 ^ k = unat v mod 2 ^ k"
proof -
  assume "k \<le> 16"
  then have "(2 ^ k :: nat) dvd 2 ^ LENGTH(16)"
    by (intro le_imp_power_dvd) simp
  then show ?thesis
    by (simp only: unat_ucast_mod mod_mod_cancel)
qed

lemma lin_div_mod: "i + j \<le> 48 \<Longrightarrow> unat (va a) div 2 ^ i mod 2 ^ j = lin a div 2 ^ i mod 2 ^ j"
proof -
  assume "i + j \<le> 48"
  then have "take_bit j (drop_bit i (take_bit 48 (unat (va a)))) = take_bit j (drop_bit i (unat (va a)))"
    by (intro bit_eqI) (auto simp: bit_simps)
  then show ?thesis
    by (simp only: take_bit_eq_mod drop_bit_eq_div lin_def)
qed

lemma idx_truncate_drop:
  "k + 9 \<le> 48 \<Longrightarrow>
    idx (PageTableIndex_new_truncate (ucast (drop_bit k (va a)))) = lin a div 2 ^ k mod 2 ^ 9"
  using unat_ucast_u16_mod [of 9 "drop_bit k (va a)"] lin_div_mod [of k 9 a]
  by (simp add: idx_new_truncate unat_drop_bit)

lemma page_table_index_drop:
  "VirtAddr_page_table_index a One = PageTableIndex_new_truncate (ucast (drop_bit 12 (va a)))"
  "VirtAddr_page_table_index a Two = PageTableIndex_new_truncate (ucast (drop_bit 21 (va a)))"
  "VirtAddr_page_table_index a Three = PageTableIndex_new_truncate (ucast (drop_bit 30 (va a)))"
  "VirtAddr_page_table_index a Four = PageTableIndex_new_truncate (ucast (drop_bit 39 (va a)))"
  by (simp_all add: VirtAddr_page_table_index_def)

lemma page_table_index_lin:
  "idx (VirtAddr_page_table_index a One) = lin a div 2 ^ 12 mod 2 ^ 9"
  "idx (VirtAddr_page_table_index a Two) = lin a div 2 ^ 21 mod 2 ^ 9"
  "idx (VirtAddr_page_table_index a Three) = lin a div 2 ^ 30 mod 2 ^ 9"
  "idx (VirtAddr_page_table_index a Four) = lin a div 2 ^ 39 mod 2 ^ 9"
  unfolding page_table_index_drop by (rule idx_truncate_drop; simp)+

lemma page_table_index_eq:
  "VirtAddr_page_table_index a One = VirtAddr_p1_index a"
  "VirtAddr_page_table_index a Two = VirtAddr_p2_index a"
  "VirtAddr_page_table_index a Three = VirtAddr_p3_index a"
  "VirtAddr_page_table_index a Four = VirtAddr_p4_index a"
  by (simp_all add: VirtAddr_page_table_index_def VirtAddr_p1_index_def VirtAddr_p2_index_def
      VirtAddr_p3_index_def VirtAddr_p4_index_def)

lemmas index_lin = page_table_index_lin [unfolded page_table_index_eq]

lemma page_offset_lin: "unat (offset_u16 (VirtAddr_page_offset a)) = lin a mod 2 ^ 12"
  using lin_div_mod [of 0 12 a] unat_ucast_u16_mod [of 12 "va a"]
  by (simp add: VirtAddr_page_offset_def PageOffset_new_truncate_def unat_mod)

lemma index_ok_page_table_index [simp]:
  "index_ok (VirtAddr_page_table_index a l)"
  "index_ok (VirtAddr_p1_index a)" "index_ok (VirtAddr_p2_index a)"
  "index_ok (VirtAddr_p3_index a)" "index_ok (VirtAddr_p4_index a)"
  by (simp_all add: VirtAddr_page_table_index_def VirtAddr_p1_index_def VirtAddr_p2_index_def
      VirtAddr_p3_index_def VirtAddr_p4_index_def)

lemma split_indices:
  fixes x :: nat
  assumes "x div (P * (Q * (Q * Q))) < Q"
  shows "x = x div (P * (Q * (Q * Q))) mod Q * (P * (Q * (Q * Q))) +
    x div (P * (Q * Q)) mod Q * (P * (Q * Q)) + x div (P * Q) mod Q * (P * Q) +
    x div P mod Q * P + x mod P"
proof -
  define r1 r2 r3 d where "r1 = x div P mod Q" and "r2 = x div P div Q mod Q"
    and "r3 = x div P div Q div Q mod Q" and "d = x div P div Q div Q div Q"
  have e: "x = (((d * Q + r3) * Q + r2) * Q + r1) * P + x mod P"
    unfolding r1_def r2_def r3_def d_def by simp
  have m: "x div P mod Q = r1" "x div (P * Q) mod Q = r2" "x div (P * (Q * Q)) mod Q = r3"
    "x div (P * (Q * (Q * Q))) mod Q = d"
    using assms by (simp_all add: div_mult2_eq r1_def r2_def r3_def d_def)
  show ?thesis
    unfolding m by (subst (1) e) (simp add: algebra_simps)
qed

lemma lin_indices:
  "lin a = idx (VirtAddr_p4_index a) * 2 ^ 39 + idx (VirtAddr_p3_index a) * 2 ^ 30 +
     idx (VirtAddr_p2_index a) * 2 ^ 21 + idx (VirtAddr_p1_index a) * 2 ^ 12 +
     unat (offset_u16 (VirtAddr_page_offset a))"
proof -
  have "lin a div 2 ^ 39 < 2 ^ 9"
    using lin_lt [of a] by (simp add: div_less_iff_less_mult)
  then show ?thesis
    unfolding index_lin page_offset_lin
    using split_indices [of "lin a" "2 ^ 12" "2 ^ 9"] by (simp flip: power_add)
qed

section \<open>Arithmetic\<close>

lemma VirtAddr_add_eq_Some:
  "VirtAddr_add a n = Some b \<longleftrightarrow> canonical b \<and> unat (va b) = unat (va a) + unat n"
proof -
  have "VirtAddr_add a n = Some b \<longleftrightarrow>
      canonical b \<and> unat (va a) + unat n < 2 ^ 64 \<and> va b = va a + n"
    by (cases b) (auto simp: VirtAddr_add_def checked_add_def VirtAddr_new_eq split: if_splits)
  moreover have "unat (va a) + unat n < 2 ^ 64 \<and> va b = va a + n \<longleftrightarrow>
      unat (va b) = unat (va a) + unat n"
    using unat_add_no_wrap [of "va a" n] unsigned_less [of "va b", where 'a = nat]
    by (auto simp: word_unat_eq_iff)
  ultimately show ?thesis by blast
qed

lemma VirtAddr_sub_eq_Some:
  "VirtAddr_sub a n = Some b \<longleftrightarrow> canonical b \<and> unat (va a) = unat (va b) + unat n"
proof -
  have "VirtAddr_sub a n = Some b \<longleftrightarrow> canonical b \<and> n \<le> va a \<and> va b = va a - n"
    by (cases b) (auto simp: VirtAddr_sub_def checked_sub_def VirtAddr_new_eq split: if_splits)
  moreover have "n \<le> va a \<and> va b = va a - n \<longleftrightarrow> unat (va a) = unat (va b) + unat n"
    using unat_sub_no_wrap [of n "va a"] by (auto simp: word_unat_eq_iff word_le_nat_alt)
  ultimately show ?thesis by blast
qed

lemma lin_mod_pow: "k \<le> 48 \<Longrightarrow> unat (va a) mod 2 ^ k = lin a mod 2 ^ k"
  using lin_div_mod [of 0 k a] by simp

lemma div_mult_less_iff: "x div 2 ^ k * 2 ^ k < c * 2 ^ k \<longleftrightarrow> x < c * 2 ^ k" for x :: nat
  by (simp add: div_less_iff_less_mult)

lemma le_div_mult_iff: "c * 2 ^ k \<le> x div 2 ^ k * 2 ^ k \<longleftrightarrow> c * 2 ^ k \<le> x" for x :: nat
  by (simp add: less_eq_div_iff_mult_less_eq)

lemma VirtAddr_align_down_lin:
  assumes a: "canonical a" and k: "k \<le> 47"
  shows "\<exists>b. VirtAddr_align_down a (2 ^ k) = Some b \<and> canonical b \<and> lin b = lin a div 2 ^ k * 2 ^ k \<and>
    unat (va b) = unat (va a) div 2 ^ k * 2 ^ k"
proof -
  obtain r where r: "align_down (va a) (2 ^ k) = Some r" "unat r = unat (va a) div 2 ^ k * 2 ^ k"
    using k align_down_eq_Some [of "va a" "2 ^ k"] align_down_None [of "va a" "2 ^ k"]
    by (auto simp: unat_pow2)
  have e: "2 ^ 47 = (2 ^ (47 - k) * 2 ^ k :: nat)"
    "2 ^ 64 - 2 ^ 47 = ((2 ^ 17 - 1) * 2 ^ (47 - k) * 2 ^ k :: nat)"
    using k by (simp_all flip: power_add)
  have "unat r < 2 ^ 47 \<or> 2 ^ 64 - 2 ^ 47 \<le> unat r"
    using a unfolding canonical_iff_unat r(2) e(2) unfolding e(1)
    by (simp only: div_mult_less_iff le_div_mult_iff)
  then have c: "canonical (VirtAddr r)" by (simp add: canonical_iff_unat)
  then have "VirtAddr_align_down a (2 ^ k) = Some (VirtAddr r)"
    using r new_truncate_id [of "VirtAddr r"]
    by (simp add: VirtAddr_align_down_def VirtAddr_align_down_u64_def)
  moreover have "lin (VirtAddr r) = lin a div 2 ^ k * 2 ^ k"
  proof -
    have "lin (VirtAddr r) = (unat (va a) div 2 ^ k * 2 ^ k) mod 2 ^ 48"
      by (simp only: lin_def r(2) VirtAddr.sel)
    also have "\<dots> = unat (va a) mod 2 ^ 48 div 2 ^ k * 2 ^ k"
    proof -
      have "take_bit 48 (push_bit k (drop_bit k x)) = push_bit k (drop_bit k (take_bit 48 x))"
        for x :: nat
        using k by (intro bit_eqI) (auto simp: bit_simps)
      then show ?thesis
        by (simp only: take_bit_eq_mod drop_bit_eq_div push_bit_eq_mult)
    qed
    finally show ?thesis by (simp only: lin_def)
  qed
  ultimately show ?thesis using c r(2) by auto
qed

lemma VirtAddr_is_aligned_eq:
  assumes a: "canonical a" and k: "k \<le> 47"
  shows "VirtAddr_is_aligned a (2 ^ k) = Some (lin a mod 2 ^ k = 0)"
proof -
  obtain b where b: "VirtAddr_align_down a (2 ^ k) = Some b" "canonical b" "lin b = lin a div 2 ^ k * 2 ^ k"
    using VirtAddr_align_down_lin [OF assms] by blast
  have "va b = va a \<longleftrightarrow> lin b = lin a"
    using a b lin_inj by (metis VirtAddr.expand)
  also have "\<dots> \<longleftrightarrow> lin a mod 2 ^ k = 0"
    unfolding b(3) using div_mult_mod_eq [of "lin a" "2 ^ k"] by linarith
  finally show ?thesis
    using b(1) by (simp add: VirtAddr_is_aligned_def VirtAddr_is_aligned_u64_def
        VirtAddr_align_down_def VirtAddr_as_u64_def)
qed

section \<open>Physical addresses\<close>

definition phys_ok :: "PhysAddr \<Rightarrow> bool" where
  "phys_ok a \<longleftrightarrow> unat (pa a) < 2 ^ 52"

lemma phys_new_truncate: "PhysAddr_new_truncate a = PhysAddr (take_bit 52 a)"
  by (simp add: PhysAddr_new_truncate_def push_bit_eq_mult word_unat_eq_iff unat_mod unat_take_bit)

lemma phys_ok_new_truncate [simp]: "phys_ok (PhysAddr_new_truncate a)"
  using unat_take_bit [of 52 a] by (simp add: phys_new_truncate phys_ok_def)

lemma phys_try_new_eq: "PhysAddr_try_new a =
    (if phys_ok (PhysAddr a) then Inr (PhysAddr a) else Inl (PhysAddrNotValid a))"
  using take_bit_word_eq_self_iff [of 52 a]
  by (auto simp: PhysAddr_try_new_def phys_new_truncate phys_ok_def Let_def)

lemma PhysAddr_new_eq: "PhysAddr_new a = (if phys_ok (PhysAddr a) then Some (PhysAddr a) else panic)"
  by (simp add: PhysAddr_new_def phys_try_new_eq)

lemma PhysAddr_add_eq_Some:
  assumes "phys_ok a"
  shows "PhysAddr_add a n = Some b \<longleftrightarrow> phys_ok b \<and> unat (pa b) = unat (pa a) + unat n"
proof -
  have "PhysAddr_add a n = Some b \<longleftrightarrow>
      phys_ok b \<and> unat (pa a) + unat n < 2 ^ 64 \<and> pa b = pa a + n"
    by (cases b) (auto simp: PhysAddr_add_def checked_add_def PhysAddr_new_eq split: if_splits)
  moreover have "unat (pa a) + unat n < 2 ^ 64 \<and> pa b = pa a + n \<longleftrightarrow>
      unat (pa b) = unat (pa a) + unat n"
    using unat_add_no_wrap [of "pa a" n] unsigned_less [of "pa b", where 'a = nat]
    by (auto simp: word_unat_eq_iff)
  ultimately show ?thesis by blast
qed

lemma PhysAddr_sub_eq_Some:
  "PhysAddr_sub a n = Some b \<longleftrightarrow> phys_ok b \<and> unat (pa a) = unat (pa b) + unat n"
proof -
  have "PhysAddr_sub a n = Some b \<longleftrightarrow> phys_ok b \<and> n \<le> pa a \<and> pa b = pa a - n"
    by (cases b) (auto simp: PhysAddr_sub_def checked_sub_def PhysAddr_new_eq split: if_splits)
  moreover have "n \<le> pa a \<and> pa b = pa a - n \<longleftrightarrow> unat (pa a) = unat (pa b) + unat n"
    using unat_sub_no_wrap [of n "pa a"] by (auto simp: word_unat_eq_iff word_le_nat_alt)
  ultimately show ?thesis by blast
qed

lemma PhysAddr_align_down_eq_Some:
  "k < 64 \<Longrightarrow> PhysAddr_align_down a (2 ^ k) = Some b \<longleftrightarrow> unat (pa b) = unat (pa a) div 2 ^ k * 2 ^ k"
  using align_down_eq_Some [of "pa a" "2 ^ k" "pa b"] align_down_None [of "pa a" "2 ^ k"]
  by (cases b) (auto simp: PhysAddr_align_down_def PhysAddr_align_down_u64_def unat_pow2)

lemma PhysAddr_align_down_total:
  "k < 64 \<Longrightarrow> \<exists>b. PhysAddr_align_down a (2 ^ k) = Some b"
  using align_down_None [of "pa a" "2 ^ k"]
  by (auto simp: PhysAddr_align_down_def PhysAddr_align_down_u64_def)

lemma PhysAddr_is_aligned_eq:
  assumes "k < 64"
  shows "PhysAddr_is_aligned a (2 ^ k) = Some (unat (pa a) mod 2 ^ k = 0)"
proof -
  obtain b where b: "PhysAddr_align_down a (2 ^ k) = Some b"
    using PhysAddr_align_down_total [OF assms] by blast
  with assms have "unat (pa b) = unat (pa a) div 2 ^ k * 2 ^ k"
    by (simp add: PhysAddr_align_down_eq_Some)
  then have "pa b = pa a \<longleftrightarrow> unat (pa a) mod 2 ^ k = 0"
    using div_mult_mod_eq [of "unat (pa a)" "2 ^ k"] unfolding word_unat_eq_iff by linarith
  with b show ?thesis
    by (simp add: PhysAddr_is_aligned_def PhysAddr_is_aligned_u64_def PhysAddr_align_down_def
        PhysAddr_as_u64_def)
qed

end
