(* ===== verification/Page.thy ===== *)
theory Page
  imports Addr
begin

text \<open>
  \<open>structures/paging/page.rs\<close>: page sizes, pages, page arithmetic, the \<open>Step\<close> implementation of
  \<open>Page\<close> and the page ranges with their iterators. The generic parameter \<open>S\<close> of the code is an
  argument of type \<open>PageSize\<close>. The lemmas relate a page to its number (its start address in units
  of the page size, counted in the 48-bit address space).
\<close>

section \<open>Page sizes\<close>

datatype PageSize = Size4KiB | Size2MiB | Size1GiB

fun SIZE :: "PageSize \<Rightarrow> u64" where
  "SIZE Size4KiB = 4096"
| "SIZE Size2MiB = 4096 * 512"
| "SIZE Size1GiB = 4096 * 512 * 512"

fun DEBUG_STR :: "PageSize \<Rightarrow> string" where
  "DEBUG_STR Size4KiB = ''4KiB''"
| "DEBUG_STR Size2MiB = ''2MiB''"
| "DEBUG_STR Size1GiB = ''1GiB''"

text \<open>The marker trait \<open>NotGiantPageSize\<close>.\<close>

fun NotGiantPageSize :: "PageSize \<Rightarrow> bool" where
  "NotGiantPageSize Size4KiB = True"
| "NotGiantPageSize Size2MiB = True"
| "NotGiantPageSize Size1GiB = False"

section \<open>Pages\<close>

datatype Page = Page (page_start: VirtAddr)

datatype AddressNotAligned = AddressNotAligned

instantiation Page :: linorder
begin

definition less_eq_Page :: "Page \<Rightarrow> Page \<Rightarrow> bool" where
  "p \<le> q \<longleftrightarrow> page_start p \<le> page_start q"

definition less_Page :: "Page \<Rightarrow> Page \<Rightarrow> bool" where
  "p < q \<longleftrightarrow> page_start p < page_start q"

instance
  by standard (auto simp: less_eq_Page_def less_Page_def intro: Page.expand)

end

definition Page_containing_address :: "PageSize \<Rightarrow> VirtAddr \<Rightarrow> Page option" where
  "Page_containing_address S address = do {
     a \<leftarrow> VirtAddr_align_down_u64 address (SIZE S);
     Some (Page a)
   }"

definition Page_from_start_address ::
  "PageSize \<Rightarrow> VirtAddr \<Rightarrow> (AddressNotAligned + Page) option" where
  "Page_from_start_address S address = do {
     aligned \<leftarrow> VirtAddr_is_aligned_u64 address (SIZE S);
     if \<not> aligned then Some (Inl AddressNotAligned)
     else do {
       p \<leftarrow> Page_containing_address S address;
       Some (Inr p)
     }
   }"

definition Page_from_start_address_unchecked :: "VirtAddr \<Rightarrow> Page" where
  "Page_from_start_address_unchecked start_address = Page start_address"

definition Page_start_address :: "Page \<Rightarrow> VirtAddr" where
  "Page_start_address self = page_start self"

definition Page_size :: "PageSize \<Rightarrow> Page \<Rightarrow> u64" where
  "Page_size S self = SIZE S"

definition Page_p4_index :: "Page \<Rightarrow> PageTableIndex" where
  "Page_p4_index self = VirtAddr_p4_index (Page_start_address self)"

definition Page_p3_index :: "Page \<Rightarrow> PageTableIndex" where
  "Page_p3_index self = VirtAddr_p3_index (Page_start_address self)"

definition Page_p2_index :: "Page \<Rightarrow> PageTableIndex" where
  "Page_p2_index self = VirtAddr_p2_index (Page_start_address self)"

definition Page_p1_index :: "Page \<Rightarrow> PageTableIndex" where
  "Page_p1_index self = VirtAddr_p1_index (page_start self)"

definition Page_page_table_index :: "Page \<Rightarrow> PageTableLevel \<Rightarrow> PageTableIndex" where
  "Page_page_table_index self level = VirtAddr_page_table_index (Page_start_address self) level"

definition Page_steps_between_impl ::
  "PageSize \<Rightarrow> Page \<Rightarrow> Page \<Rightarrow> usize \<times> usize option" where
  "Page_steps_between_impl S start end =
     (case VirtAddr_steps_between_u64 (Page_start_address start) (Page_start_address end) of
        Some steps \<Rightarrow>
          (let steps = steps div SIZE S; steps = usize_try_from steps in
           ((case steps of Some s \<Rightarrow> s | None \<Rightarrow> -1), steps))
      | None \<Rightarrow> (0, None))"

definition Page_forward_checked_impl ::
  "extern \<Rightarrow> PageSize \<Rightarrow> Page \<Rightarrow> usize \<Rightarrow> Page option option" where
  "Page_forward_checked_impl X S start count =
     (case (do { n \<leftarrow> u64_try_from count; checked_mul n (SIZE S) }) of
        None \<Rightarrow> Some None
      | Some count \<Rightarrow> do {
          r \<leftarrow> VirtAddr_forward_checked_u64 X (page_start start) count;
          case r of
            None \<Rightarrow> Some None
          | Some start_address \<Rightarrow> Some (Some (Page start_address))
        })"

definition Page_from_page_table_indices_1gib ::
  "PageTableIndex \<Rightarrow> PageTableIndex \<Rightarrow> Page option" where
  "Page_from_page_table_indices_1gib p4_index p3_index =
     (let addr = 0;
          addr = addr OR push_bit 39 (into_u64 p4_index);
          addr = addr OR push_bit 30 (into_u64 p3_index)
      in Page_containing_address Size1GiB (VirtAddr_new_truncate addr))"

definition Page_from_page_table_indices_2mib ::
  "PageTableIndex \<Rightarrow> PageTableIndex \<Rightarrow> PageTableIndex \<Rightarrow> Page option" where
  "Page_from_page_table_indices_2mib p4_index p3_index p2_index =
     (let addr = 0;
          addr = addr OR push_bit 39 (into_u64 p4_index);
          addr = addr OR push_bit 30 (into_u64 p3_index);
          addr = addr OR push_bit 21 (into_u64 p2_index)
      in Page_containing_address Size2MiB (VirtAddr_new_truncate addr))"

definition Page_from_page_table_indices ::
  "PageTableIndex \<Rightarrow> PageTableIndex \<Rightarrow> PageTableIndex \<Rightarrow> PageTableIndex \<Rightarrow> Page option" where
  "Page_from_page_table_indices p4_index p3_index p2_index p1_index =
     (let addr = 0;
          addr = addr OR push_bit 39 (into_u64 p4_index);
          addr = addr OR push_bit 30 (into_u64 p3_index);
          addr = addr OR push_bit 21 (into_u64 p2_index);
          addr = addr OR push_bit 12 (into_u64 p1_index)
      in Page_containing_address Size4KiB (VirtAddr_new_truncate addr))"

text \<open>The operators: \<open>Page + u64\<close>, \<open>Page - u64\<close> and \<open>Page - Page\<close>.\<close>

definition Page_add :: "extern \<Rightarrow> PageSize \<Rightarrow> Page \<Rightarrow> u64 \<Rightarrow> Page option" where
  "Page_add X S self rhs = do {
     n \<leftarrow> mul_op X rhs (SIZE S);
     a \<leftarrow> VirtAddr_add (Page_start_address self) n;
     Page_containing_address S a
   }"

definition Page_add_assign :: "extern \<Rightarrow> PageSize \<Rightarrow> Page \<Rightarrow> u64 \<Rightarrow> Page option" where
  "Page_add_assign X S self rhs = Page_add X S self rhs"

definition Page_sub :: "extern \<Rightarrow> PageSize \<Rightarrow> Page \<Rightarrow> u64 \<Rightarrow> Page option" where
  "Page_sub X S self rhs = do {
     n \<leftarrow> mul_op X rhs (SIZE S);
     a \<leftarrow> VirtAddr_sub (Page_start_address self) n;
     Page_containing_address S a
   }"

definition Page_sub_assign :: "extern \<Rightarrow> PageSize \<Rightarrow> Page \<Rightarrow> u64 \<Rightarrow> Page option" where
  "Page_sub_assign X S self rhs = Page_sub X S self rhs"

definition Page_sub_page :: "PageSize \<Rightarrow> Page \<Rightarrow> Page \<Rightarrow> u64 option" where
  "Page_sub_page S self rhs = do {
     d \<leftarrow> VirtAddr_sub_addr (page_start self) (page_start rhs);
     Some (d div SIZE S)
   }"

text \<open>\<open>impl Step for Page<S>\<close>.\<close>

definition Page_steps_between :: "PageSize \<Rightarrow> Page \<Rightarrow> Page \<Rightarrow> usize \<times> usize option" where
  "Page_steps_between S start end = Page_steps_between_impl S start end"

definition Page_forward_checked ::
  "extern \<Rightarrow> PageSize \<Rightarrow> Page \<Rightarrow> usize \<Rightarrow> Page option option" where
  "Page_forward_checked X S start count = Page_forward_checked_impl X S start count"

definition Page_backward_checked ::
  "extern \<Rightarrow> PageSize \<Rightarrow> Page \<Rightarrow> usize \<Rightarrow> Page option option" where
  "Page_backward_checked X S start count =
     (case (do { n \<leftarrow> u64_try_from count; checked_mul n (SIZE S) }) of
        None \<Rightarrow> Some None
      | Some count \<Rightarrow> do {
          r \<leftarrow> VirtAddr_backward_checked_u64 X (page_start start) count;
          case r of
            None \<Rightarrow> Some None
          | Some start_address \<Rightarrow> Some (Some (Page start_address))
        })"

section \<open>Page ranges\<close>

record PageRange =
  start_page :: Page
  end_page :: Page

definition Page_range :: "Page \<Rightarrow> Page \<Rightarrow> PageRange" where
  "Page_range s e = \<lparr>start_page = s, end_page = e\<rparr>"

definition PageRange_is_empty :: "PageRange \<Rightarrow> bool" where
  "PageRange_is_empty self \<longleftrightarrow> start_page self \<ge> end_page self"

definition PageRange_len :: "PageSize \<Rightarrow> PageRange \<Rightarrow> u64 option" where
  "PageRange_len S self =
     (if \<not> PageRange_is_empty self then Page_sub_page S (end_page self) (start_page self)
      else Some 0)"

definition PageRange_size :: "extern \<Rightarrow> PageSize \<Rightarrow> PageRange \<Rightarrow> u64 option" where
  "PageRange_size X S self = do {
     n \<leftarrow> PageRange_len S self;
     mul_op X (SIZE S) n
   }"

text \<open>An iterator step returns the item and the range it leaves behind.\<close>

definition PageRange_next ::
  "extern \<Rightarrow> PageSize \<Rightarrow> PageRange \<Rightarrow> (Page option \<times> PageRange) option" where
  "PageRange_next X S self =
     (if start_page self < end_page self then do {
        let page = start_page self;
        s \<leftarrow> Page_add_assign X S (start_page self) 1;
        Some (Some page, self\<lparr>start_page := s\<rparr>)
      } else Some (None, self))"

definition PageRange_as_4kib_page_range :: "PageRange \<Rightarrow> PageRange option" where
  "PageRange_as_4kib_page_range self = do {
     s \<leftarrow> Page_containing_address Size4KiB (Page_start_address (start_page self));
     e \<leftarrow> Page_containing_address Size4KiB (Page_start_address (end_page self));
     Some \<lparr>start_page = s, end_page = e\<rparr>
   }"

record PageRangeInclusive =
  start_page_incl :: Page
  end_page_incl :: Page

definition Page_range_inclusive :: "Page \<Rightarrow> Page \<Rightarrow> PageRangeInclusive" where
  "Page_range_inclusive s e = \<lparr>start_page_incl = s, end_page_incl = e\<rparr>"

definition PageRangeInclusive_is_empty :: "PageRangeInclusive \<Rightarrow> bool" where
  "PageRangeInclusive_is_empty self \<longleftrightarrow> start_page_incl self > end_page_incl self"

definition PageRangeInclusive_len ::
  "extern \<Rightarrow> PageSize \<Rightarrow> PageRangeInclusive \<Rightarrow> u64 option" where
  "PageRangeInclusive_len X S self =
     (if \<not> PageRangeInclusive_is_empty self then do {
        n \<leftarrow> Page_sub_page S (end_page_incl self) (start_page_incl self);
        add_op X n 1
      } else Some 0)"

definition PageRangeInclusive_size ::
  "extern \<Rightarrow> PageSize \<Rightarrow> PageRangeInclusive \<Rightarrow> u64 option" where
  "PageRangeInclusive_size X S self = do {
     n \<leftarrow> PageRangeInclusive_len X S self;
     mul_op X (SIZE S) n
   }"

definition PageRangeInclusive_next ::
  "extern \<Rightarrow> PageSize \<Rightarrow> PageRangeInclusive \<Rightarrow> (Page option \<times> PageRangeInclusive) option" where
  "PageRangeInclusive_next X S self =
     (if start_page_incl self \<le> end_page_incl self then do {
        let page = start_page_incl self;
        top \<leftarrow> VirtAddr_new (-1);
        max_page_addr \<leftarrow> VirtAddr_sub top (SIZE S - 1);
        if Page_start_address (start_page_incl self) < max_page_addr then do {
          s \<leftarrow> Page_add_assign X S (start_page_incl self) 1;
          Some (Some page, self\<lparr>start_page_incl := s\<rparr>)
        } else do {
          e \<leftarrow> Page_sub_assign X S (end_page_incl self) 1;
          Some (Some page, self\<lparr>end_page_incl := e\<rparr>)
        }
      } else Some (None, self))"

section \<open>Pages and their numbers\<close>

fun size_bits :: "PageSize \<Rightarrow> nat" where
  "size_bits Size4KiB = 12"
| "size_bits Size2MiB = 21"
| "size_bits Size1GiB = 30"

lemma SIZE_eq: "SIZE S = 2 ^ size_bits S"
  by (cases S) simp_all

lemma unat_SIZE: "unat (SIZE S) = 2 ^ size_bits S"
  by (cases S) simp_all

lemma size_bits_le: "12 \<le> size_bits S" "size_bits S \<le> 30"
  by (cases S; simp)+

definition page_ok :: "PageSize \<Rightarrow> Page \<Rightarrow> bool" where
  "page_ok S p \<longleftrightarrow> canonical (page_start p) \<and> lin (page_start p) mod 2 ^ size_bits S = 0"

definition page_num :: "PageSize \<Rightarrow> Page \<Rightarrow> nat" where
  "page_num S p = lin (page_start p) div 2 ^ size_bits S"

lemma page_ok_canonical [simp]: "page_ok S p \<Longrightarrow> canonical (page_start p)"
  by (simp add: page_ok_def)

lemma lin_page_num: "page_ok S p \<Longrightarrow> lin (page_start p) = page_num S p * 2 ^ size_bits S"
  using div_mult_mod_eq [of "lin (page_start p)" "2 ^ size_bits S"]
  by (simp add: page_ok_def page_num_def)

lemma page_num_lt: "page_ok S p \<Longrightarrow> page_num S p < 2 ^ (48 - size_bits S)"
proof -
  assume "page_ok S p"
  have "lin (page_start p) < 2 ^ (48 - size_bits S) * 2 ^ size_bits S"
    using size_bits_le [of S] lin_lt [of "page_start p"] by (simp flip: power_add)
  then show ?thesis
    by (simp add: page_num_def div_less_iff_less_mult)
qed

lemma page_num_inj: "page_ok S p \<Longrightarrow> page_ok S q \<Longrightarrow> page_num S p = page_num S q \<Longrightarrow> p = q"
  by (metis lin_inj lin_page_num page_ok_canonical Page.expand)

lemma page_num_less_iff: "page_ok S p \<Longrightarrow> page_ok S q \<Longrightarrow> page_num S p < page_num S q \<longleftrightarrow> p < q"
  using lin_less_iff [of "page_start p" "page_start q"]
  by (simp add: lin_page_num less_Page_def)

lemma page_num_le_iff: "page_ok S p \<Longrightarrow> page_ok S q \<Longrightarrow> page_num S p \<le> page_num S q \<longleftrightarrow> p \<le> q"
  using page_num_less_iff [of S q p] by (auto simp: not_less [symmetric])

lemma Page_containing_address_spec:
  assumes "canonical a"
  shows "\<exists>p. Page_containing_address S a = Some p \<and> page_ok S p \<and>
    page_num S p = lin a div 2 ^ size_bits S \<and>
    unat (va (page_start p)) = unat (va a) div 2 ^ size_bits S * 2 ^ size_bits S"
proof -
  have "size_bits S \<le> 47" using size_bits_le [of S] by simp
  from VirtAddr_align_down_lin [OF assms this] show ?thesis
    by (auto simp: Page_containing_address_def SIZE_eq VirtAddr_align_down_def page_ok_def page_num_def)
qed

lemma Page_containing_start:
  assumes "page_ok S p"
  shows "Page_containing_address S (page_start p) = Some p"
proof -
  obtain q where q: "Page_containing_address S (page_start p) = Some q" "page_ok S q"
      "page_num S q = lin (page_start p) div 2 ^ size_bits S"
    using Page_containing_address_spec assms page_ok_canonical by blast
  then have "page_num S q = page_num S p" by (simp add: page_num_def)
  with q assms page_num_inj show ?thesis by blast
qed

lemma Page_from_start_address_eq:
  assumes "canonical a"
  shows "Page_from_start_address S a =
    Some (if lin a mod 2 ^ size_bits S = 0 then Inr (Page a) else Inl AddressNotAligned)"
proof -
  have k: "size_bits S \<le> 47" using size_bits_le [of S] by simp
  have "Page_containing_address S a = Some (Page a)" if "lin a mod 2 ^ size_bits S = 0"
    using that assms Page_containing_start [of S "Page a"] by (simp add: page_ok_def)
  with VirtAddr_is_aligned_eq [OF assms k] show ?thesis
    by (simp add: Page_from_start_address_def SIZE_eq VirtAddr_is_aligned_def)
qed

section \<open>Stepping through pages\<close>

lemma checked_mul_SIZE:
  "checked_mul n (SIZE S) = (if unat n * 2 ^ size_bits S < 2 ^ 64 then Some (n * SIZE S) else None)"
  by (simp add: checked_mul_def unat_SIZE)

lemma unat_mul_SIZE: "unat n * 2 ^ size_bits S < 2 ^ 64 \<Longrightarrow> unat (n * SIZE S) = unat n * 2 ^ size_bits S"
  using unat_mul_no_wrap [of n "SIZE S"] by (simp add: unat_SIZE)

lemma page_space: "2 ^ 48 = 2 ^ (48 - size_bits S) * (2 ^ size_bits S :: nat)"
  using size_bits_le [of S] by (simp flip: power_add)

lemma page_of_addr:
  "canonical a \<Longrightarrow> lin a = n * 2 ^ size_bits S \<Longrightarrow> page_ok S (Page a) \<and> page_num S (Page a) = n"
  by (simp add: page_ok_def page_num_def)

context extern_ok
begin

lemma page_forward_some:
  assumes p: "page_ok S p" and n: "page_num S p + unat n < 2 ^ (48 - size_bits S)"
  shows "\<exists>q. Page_forward_checked X S p n = Some (Some q) \<and> page_ok S q \<and>
    page_num S q = page_num S p + unat n"
proof -
  have l: "lin (page_start p) + unat n * 2 ^ size_bits S < 2 ^ 48"
    using n p by (simp add: lin_page_num page_space [of S] flip: add_mult_distrib del: power_numeral)
  then have m: "unat n * 2 ^ size_bits S < 2 ^ 64" by simp
  then have u: "unat (n * SIZE S) = unat n * 2 ^ size_bits S" by (rule unat_mul_SIZE)
  obtain b where "VirtAddr_forward_checked_u64 X (page_start p) (n * SIZE S) = Some (Some b)"
      "canonical b" "lin b = lin (page_start p) + unat n * 2 ^ size_bits S"
    using forward_checked_some [of "page_start p" "n * SIZE S"] p l u by auto
  with p m show ?thesis
    using page_of_addr [of b "page_num S p + unat n" S]
    by (simp add: Page_forward_checked_def Page_forward_checked_impl_def u64_try_from_def
        checked_mul_SIZE lin_page_num add_mult_distrib)
qed

lemma page_forward_none:
  assumes p: "page_ok S p" and n: "2 ^ (48 - size_bits S) \<le> page_num S p + unat n"
  shows "Page_forward_checked X S p n = Some None"
proof (cases "unat n * 2 ^ size_bits S < 2 ^ 64")
  case True
  have "2 ^ 48 \<le> lin (page_start p) + unat n * 2 ^ size_bits S"
    using n p by (simp add: lin_page_num page_space [of S] flip: add_mult_distrib del: power_numeral)
  then have "VirtAddr_forward_checked_u64 X (page_start p) (n * SIZE S) = Some None"
    using p True by (intro forward_checked_none) (simp_all add: unat_mul_SIZE)
  with True show ?thesis
    by (simp add: Page_forward_checked_def Page_forward_checked_impl_def u64_try_from_def
        checked_mul_SIZE)
next
  case False
  then show ?thesis
    by (simp add: Page_forward_checked_def Page_forward_checked_impl_def u64_try_from_def
        checked_mul_SIZE)
qed

lemma page_backward_some:
  assumes p: "page_ok S p" and n: "unat n \<le> page_num S p"
  shows "\<exists>q. Page_backward_checked X S p n = Some (Some q) \<and> page_ok S q \<and>
    page_num S q = page_num S p - unat n"
proof -
  have l: "unat n * 2 ^ size_bits S \<le> lin (page_start p)"
    using n p by (simp add: lin_page_num)
  then have m: "unat n * 2 ^ size_bits S < 2 ^ 64"
    using lin_lt [of "page_start p"] by simp
  then have u: "unat (n * SIZE S) = unat n * 2 ^ size_bits S" by (rule unat_mul_SIZE)
  obtain b where "VirtAddr_backward_checked_u64 X (page_start p) (n * SIZE S) = Some (Some b)"
      "canonical b" "lin b = lin (page_start p) - unat n * 2 ^ size_bits S"
    using backward_checked_some [of "page_start p" "n * SIZE S"] p l u by auto
  with p m show ?thesis
    using page_of_addr [of b "page_num S p - unat n" S]
    by (simp add: Page_backward_checked_def u64_try_from_def
        checked_mul_SIZE lin_page_num diff_mult_distrib)
qed

lemma page_backward_none:
  assumes p: "page_ok S p" and n: "page_num S p < unat n"
  shows "Page_backward_checked X S p n = Some None"
proof (cases "unat n * 2 ^ size_bits S < 2 ^ 64")
  case True
  have "lin (page_start p) < unat n * 2 ^ size_bits S"
    using n p by (simp add: lin_page_num)
  then have "VirtAddr_backward_checked_u64 X (page_start p) (n * SIZE S) = Some None"
    using p True by (intro backward_checked_none) (simp_all add: unat_mul_SIZE)
  with True show ?thesis
    by (simp add: Page_backward_checked_def u64_try_from_def checked_mul_SIZE)
next
  case False
  then show ?thesis
    by (simp add: Page_backward_checked_def u64_try_from_def checked_mul_SIZE)
qed

end

lemma Page_steps_between_eq:
  assumes p: "page_ok S p" and q: "page_ok S q"
  shows "Page_steps_between S p q = (if page_num S p \<le> page_num S q
    then (of_nat (page_num S q - page_num S p), Some (of_nat (page_num S q - page_num S p)))
    else (0, None))"
proof (cases "page_num S p \<le> page_num S q")
  case True
  let ?d = "(page_num S q - page_num S p) * 2 ^ size_bits S"
  have "lin (page_start q) - lin (page_start p) = ?d"
    using p q by (simp add: lin_page_num diff_mult_distrib)
  moreover have "?d < 2 ^ 64"
    using lin_lt [of "page_start q"] unfolding calculation [symmetric] by simp
  then have "unat (of_nat ?d :: u64) = ?d"
    using unat_of_nat_small [of ?d, where 'a = 64] by simp
  moreover from this have "of_nat ?d div SIZE S = (of_nat (page_num S q - page_num S p) :: u64)"
  proof -
    have "page_num S q - page_num S p \<le> ?d" by simp
    also note \<open>?d < 2 ^ 64\<close>
    finally have "unat (of_nat (page_num S q - page_num S p) :: u64) = page_num S q - page_num S p"
      by (intro unat_of_nat_small) simp
    with \<open>unat (of_nat ?d :: u64) = ?d\<close> show ?thesis
      by (simp add: word_unat_eq_iff unat_div unat_SIZE)
  qed
  ultimately show ?thesis
    using True p q by (simp add: Page_steps_between_def Page_steps_between_impl_def
        Page_start_address_def steps_between_u64_eq lin_page_num usize_try_from_def Let_def)
next
  case False
  with p q show ?thesis
    by (simp add: Page_steps_between_def Page_steps_between_impl_def Page_start_address_def
        steps_between_u64_eq lin_page_num)
qed

sublocale extern_ok \<subseteq> page_step: step "page_ok S" "page_num S" "2 ^ (48 - size_bits S)"
  "Page_forward_checked X S" "Page_backward_checked X S" "Page_steps_between S" for S
proof (unfold_locales, goal_cases)
  case (1 a)
  then show ?case by (rule page_num_lt)
next
  case (2 a b)
  then show ?case by (rule page_num_inj)
next
  case 3
  show ?case by (rule power_increasing) simp_all
qed (simp_all add: page_forward_some page_forward_none page_backward_some page_backward_none
    Page_steps_between_eq)

section \<open>Pages from table indices\<close>

lemma into_u64_lt: "index_ok i \<Longrightarrow> unat (into_u64 i) < 2 ^ 9"
  by (simp add: into_u64_def index_ok_def unat_ucast_up)

lemma unat_or_index:
  assumes i: "index_ok i" and k: "k + 9 \<le> 64" and acc: "2 ^ (k + 9) dvd unat acc"
  shows "unat (acc OR push_bit k (into_u64 i)) = unat acc + idx i * 2 ^ k"
proof -
  have u: "unat (into_u64 i) = idx i" "idx i < 2 ^ 9"
    using i by (simp_all add: into_u64_def index_ok_def unat_ucast_up)
  have "take_bit (k + 9) acc = 0"
    using acc unat_take_bit [of "k + 9" acc] by (simp add: unat_eq_zero [symmetric] dvd_eq_mod_eq_0)
  then have acc0: "\<not> bit acc n" if "n < k + 9" for n
    using that by (metis bit_0_eq bit_take_bit_iff bot_apply bot_bool_def)
  have i0: "\<not> bit (into_u64 i) n" if "9 \<le> n" for n
    using that u take_bit_word_eq_self_iff [of 9 "into_u64 i"]
    by (metis bit_take_bit_iff not_less)
  have d: "acc AND push_bit k (into_u64 i) = 0"
  proof (rule bit_word_eqI)
    fix n
    show "bit (acc AND push_bit k (into_u64 i)) n = bit 0 n"
      using acc0 [of n] i0 [of "n - k"] by (cases "n < k + 9") (auto simp: bit_simps)
  qed
  have "idx i * 2 ^ k < 2 ^ 9 * 2 ^ k"
    using u by simp
  also have "\<dots> \<le> 2 ^ 64"
    using k power_increasing [of "9 + k" 64 "2 :: nat"] by (simp add: power_add)
  finally have "unat (push_bit k (into_u64 i)) = idx i * 2 ^ k"
    using k u unat_mul_no_wrap [of "into_u64 i" "2 ^ k"] by (simp add: push_bit_eq_mult unat_pow2)
  then show ?thesis by (simp add: unat_or_disjoint [OF d])
qed

lemma unat_assembled:
  assumes "index_ok i4" "index_ok i3"
  shows "unat (0 OR push_bit 39 (into_u64 i4)) = idx i4 * 2 ^ 39" (is "unat ?a4 = _")
    and "unat ((0 OR push_bit 39 (into_u64 i4)) OR push_bit 30 (into_u64 i3)) =
      idx i4 * 2 ^ 39 + idx i3 * 2 ^ 30" (is "unat ?a3 = _")
    and "index_ok i2 \<Longrightarrow> unat (((0 OR push_bit 39 (into_u64 i4)) OR push_bit 30 (into_u64 i3)) OR
      push_bit 21 (into_u64 i2)) = idx i4 * 2 ^ 39 + idx i3 * 2 ^ 30 + idx i2 * 2 ^ 21"
    and "index_ok i2 \<Longrightarrow> index_ok i1 \<Longrightarrow>
      unat ((((0 OR push_bit 39 (into_u64 i4)) OR push_bit 30 (into_u64 i3)) OR
      push_bit 21 (into_u64 i2)) OR push_bit 12 (into_u64 i1)) =
      idx i4 * 2 ^ 39 + idx i3 * 2 ^ 30 + idx i2 * 2 ^ 21 + idx i1 * 2 ^ 12"
proof -
  show 4: "unat ?a4 = idx i4 * 2 ^ 39"
    using unat_or_index [of i4 39 0] assms by simp
  show 3: "unat ?a3 = idx i4 * 2 ^ 39 + idx i3 * 2 ^ 30"
    unfolding 4 [symmetric] using assms 4 by (intro unat_or_index) (simp_all add: dvd_mult)
  show 2: "unat (?a3 OR push_bit 21 (into_u64 i2)) =
      idx i4 * 2 ^ 39 + idx i3 * 2 ^ 30 + idx i2 * 2 ^ 21" if "index_ok i2"
    unfolding 3 [symmetric] using that 3 by (intro unat_or_index) (simp_all add: dvd_add dvd_mult)
  show "unat ((?a3 OR push_bit 21 (into_u64 i2)) OR push_bit 12 (into_u64 i1)) =
      idx i4 * 2 ^ 39 + idx i3 * 2 ^ 30 + idx i2 * 2 ^ 21 + idx i1 * 2 ^ 12"
    if "index_ok i2" "index_ok i1"
    unfolding 2 [OF that(1), symmetric] using that 2
    by (intro unat_or_index) (simp_all add: dvd_add dvd_mult)
qed

lemma indices_lin:
  assumes "lin a = i4 * 2 ^ 39 + i3 * 2 ^ 30 + i2 * 2 ^ 21 + i1 * 2 ^ 12"
    and "i4 < 512" "i3 < 512" "i2 < 512" "i1 < 512"
  shows "idx (VirtAddr_p4_index a) = i4" "idx (VirtAddr_p3_index a) = i3"
    "idx (VirtAddr_p2_index a) = i2" "idx (VirtAddr_p1_index a) = i1"
proof -
  have m: "x div 2 ^ k mod 2 ^ 9 = i" if "x = (h * 2 ^ 9 + i) * 2 ^ k + l" "l < 2 ^ k" "i < 512"
    for x h i l k :: nat
    using that by simp
  show "idx (VirtAddr_p4_index a) = i4"
    unfolding index_lin by (rule m [of _ 0 _ _ "i3 * 2 ^ 30 + i2 * 2 ^ 21 + i1 * 2 ^ 12"])
      (use assms in simp_all)
  show "idx (VirtAddr_p3_index a) = i3"
    unfolding index_lin by (rule m [of _ i4 _ _ "i2 * 2 ^ 21 + i1 * 2 ^ 12"])
      (use assms in simp_all)
  show "idx (VirtAddr_p2_index a) = i2"
    unfolding index_lin by (rule m [of _ "i4 * 2 ^ 9 + i3" _ _ "i1 * 2 ^ 12"])
      (use assms in simp_all)
  show "idx (VirtAddr_p1_index a) = i1"
    unfolding index_lin by (rule m [of _ "i4 * 2 ^ 18 + i3 * 2 ^ 9 + i2" _ _ 0])
      (use assms in simp_all)
qed

text \<open>The three constructors share the position of the address they assemble.\<close>

lemma assembled_page:
  assumes "Page_containing_address S (VirtAddr_new_truncate addr) = r"
    and "unat addr = n" and "n < 2 ^ 48" and "2 ^ size_bits S dvd n"
  shows "\<exists>p. r = Some p \<and> page_ok S p \<and> lin (page_start p) = n"
proof -
  have "lin (VirtAddr_new_truncate addr) = n"
    using assms(2,3) by simp
  then show ?thesis
    using Page_containing_address_spec [of "VirtAddr_new_truncate addr" S] assms(1,4)
    by (auto simp: lin_page_num)
qed

lemma from_page_table_indices_lin:
  assumes "index_ok i4" "index_ok i3" "index_ok i2" "index_ok i1"
  shows "\<exists>p. Page_from_page_table_indices i4 i3 i2 i1 = Some p \<and> page_ok Size4KiB p \<and>
    lin (page_start p) = idx i4 * 2 ^ 39 + idx i3 * 2 ^ 30 + idx i2 * 2 ^ 21 + idx i1 * 2 ^ 12"
proof (rule assembled_page)
  show "Page_containing_address Size4KiB (VirtAddr_new_truncate
      ((((0 OR push_bit 39 (into_u64 i4)) OR push_bit 30 (into_u64 i3)) OR push_bit 21 (into_u64 i2)) OR
       push_bit 12 (into_u64 i1))) = Page_from_page_table_indices i4 i3 i2 i1"
    by (simp add: Page_from_page_table_indices_def Let_def)
  show "unat ((((0 OR push_bit 39 (into_u64 i4)) OR push_bit 30 (into_u64 i3)) OR
      push_bit 21 (into_u64 i2)) OR push_bit 12 (into_u64 i1)) =
      idx i4 * 2 ^ 39 + idx i3 * 2 ^ 30 + idx i2 * 2 ^ 21 + idx i1 * 2 ^ 12"
    using assms by (intro unat_assembled)
qed (use assms in \<open>auto simp: index_ok_def intro!: dvd_add dvd_mult\<close>)

lemma from_page_table_indices_2mib_lin:
  assumes "index_ok i4" "index_ok i3" "index_ok i2"
  shows "\<exists>p. Page_from_page_table_indices_2mib i4 i3 i2 = Some p \<and> page_ok Size2MiB p \<and>
    lin (page_start p) = idx i4 * 2 ^ 39 + idx i3 * 2 ^ 30 + idx i2 * 2 ^ 21"
proof (rule assembled_page)
  show "Page_containing_address Size2MiB (VirtAddr_new_truncate
      (((0 OR push_bit 39 (into_u64 i4)) OR push_bit 30 (into_u64 i3)) OR push_bit 21 (into_u64 i2))) =
      Page_from_page_table_indices_2mib i4 i3 i2"
    by (simp add: Page_from_page_table_indices_2mib_def Let_def)
  show "unat (((0 OR push_bit 39 (into_u64 i4)) OR push_bit 30 (into_u64 i3)) OR
      push_bit 21 (into_u64 i2)) = idx i4 * 2 ^ 39 + idx i3 * 2 ^ 30 + idx i2 * 2 ^ 21"
    using assms by (intro unat_assembled)
qed (use assms in \<open>auto simp: index_ok_def intro!: dvd_add dvd_mult\<close>)

lemma from_page_table_indices_1gib_lin:
  assumes "index_ok i4" "index_ok i3"
  shows "\<exists>p. Page_from_page_table_indices_1gib i4 i3 = Some p \<and> page_ok Size1GiB p \<and>
    lin (page_start p) = idx i4 * 2 ^ 39 + idx i3 * 2 ^ 30"
proof (rule assembled_page)
  show "Page_containing_address Size1GiB (VirtAddr_new_truncate
      ((0 OR push_bit 39 (into_u64 i4)) OR push_bit 30 (into_u64 i3))) =
      Page_from_page_table_indices_1gib i4 i3"
    by (simp add: Page_from_page_table_indices_1gib_def Let_def)
  show "unat ((0 OR push_bit 39 (into_u64 i4)) OR push_bit 30 (into_u64 i3)) =
      idx i4 * 2 ^ 39 + idx i3 * 2 ^ 30"
    using assms by (intro unat_assembled)
qed (use assms in \<open>auto simp: index_ok_def intro!: dvd_add dvd_mult\<close>)

section \<open>Page arithmetic\<close>

definition same_half :: "Page \<Rightarrow> Page \<Rightarrow> bool" where
  "same_half p q \<longleftrightarrow> (lin (page_start p) < 2 ^ 47 \<longleftrightarrow> lin (page_start q) < 2 ^ 47)"

lemma page_okI:
  assumes "canonical a" and "unat (va a) mod 2 ^ size_bits S = 0"
  shows "page_ok S (Page a)"
proof -
  have "size_bits S \<le> 48" using size_bits_le [of S] by simp
  then have "lin a mod 2 ^ size_bits S = 0"
    using assms lin_mod_pow by metis
  with assms show ?thesis by (simp add: page_ok_def)
qed

lemma page_ok_unat: "page_ok S p \<Longrightarrow> unat (va (page_start p)) mod 2 ^ size_bits S = 0"
  using size_bits_le [of S] lin_mod_pow [of "size_bits S" "page_start p"]
  by (simp add: page_ok_def)

lemma mul_op_SIZE:
  "unat n * 2 ^ size_bits S < 2 ^ 64 \<Longrightarrow> mul_op X n (SIZE S) = Some (n * SIZE S)"
  by (simp add: mul_op_def checked_mul_SIZE)

lemma Page_add_eq_Some:
  assumes p: "page_ok S p" and n: "unat n * 2 ^ size_bits S < 2 ^ 64"
  shows "Page_add X S p n = Some q \<longleftrightarrow> page_ok S q \<and>
    unat (va (page_start q)) = unat (va (page_start p)) + unat n * 2 ^ size_bits S"
proof -
  have c: "Page_containing_address S a = Some (Page a) \<and> page_ok S (Page a)"
    if "canonical a" "unat (va a) = unat (va (page_start p)) + unat n * 2 ^ size_bits S" for a
  proof -
    have "page_ok S (Page a)"
      using that p page_okI [of a S] by (simp add: page_ok_unat)
    then show ?thesis using Page_containing_start [of S "Page a"] by simp
  qed
  have u: "unat (n * SIZE S) = unat n * 2 ^ size_bits S"
    using n by (rule unat_mul_SIZE)
  have "Page_add X S p n = Some q \<longleftrightarrow> (\<exists>a. VirtAddr_add (page_start p) (n * SIZE S) = Some a \<and>
      Page_containing_address S a = Some q)"
    by (auto simp: Page_add_def mul_op_SIZE [OF n] Page_start_address_def
        split: Option.bind_splits)
  also have "\<dots> \<longleftrightarrow> page_ok S q \<and>
      unat (va (page_start q)) = unat (va (page_start p)) + unat n * 2 ^ size_bits S"
    unfolding VirtAddr_add_eq_Some u using c by (metis Page.sel option.inject page_ok_canonical Page.collapse)
  finally show ?thesis .
qed

lemma Page_sub_eq_Some:
  assumes p: "page_ok S p" and n: "unat n * 2 ^ size_bits S < 2 ^ 64"
  shows "Page_sub X S p n = Some q \<longleftrightarrow> page_ok S q \<and>
    unat (va (page_start p)) = unat (va (page_start q)) + unat n * 2 ^ size_bits S"
proof -
  have c: "Page_containing_address S a = Some (Page a) \<and> page_ok S (Page a)"
    if "canonical a" "unat (va (page_start p)) = unat (va a) + unat n * 2 ^ size_bits S" for a
  proof -
    have "page_ok S (Page a)"
      using that p page_okI [of a S] page_ok_unat [of S p] by simp
    then show ?thesis using Page_containing_start [of S "Page a"] by simp
  qed
  have u: "unat (n * SIZE S) = unat n * 2 ^ size_bits S"
    using n by (rule unat_mul_SIZE)
  have "Page_sub X S p n = Some q \<longleftrightarrow> (\<exists>a. VirtAddr_sub (page_start p) (n * SIZE S) = Some a \<and>
      Page_containing_address S a = Some q)"
    by (auto simp: Page_sub_def mul_op_SIZE [OF n] Page_start_address_def
        split: Option.bind_splits)
  also have "\<dots> \<longleftrightarrow> page_ok S q \<and>
      unat (va (page_start p)) = unat (va (page_start q)) + unat n * 2 ^ size_bits S"
    unfolding VirtAddr_sub_eq_Some u using c by (metis Page.sel option.inject page_ok_canonical Page.collapse)
  finally show ?thesis .
qed

lemma same_half_unat:
  assumes "page_ok S p" "page_ok S q" "same_half p q" "page_num S q = page_num S p + n"
  shows "unat (va (page_start q)) = unat (va (page_start p)) + n * 2 ^ size_bits S"
proof -
  have "lin (page_start q) = lin (page_start p) + n * 2 ^ size_bits S"
    using assms by (simp add: lin_page_num add_mult_distrib)
  with assms show ?thesis
    by (simp add: canonical_unat same_half_def)
qed

lemma page_num_diff_fits:
  assumes "page_ok S q" "page_num S q = m + n"
  shows "n * 2 ^ size_bits S < 2 ^ 64"
proof -
  have "n * 2 ^ size_bits S \<le> lin (page_start q)"
    using assms by (simp add: lin_page_num)
  then show ?thesis using lin_lt [of "page_start q"] by simp
qed

lemma Page_add_same_half:
  assumes "page_ok S p" "page_ok S q" "same_half p q" "page_num S q = page_num S p + unat n"
  shows "Page_add X S p n = Some q"
  using assms same_half_unat [OF assms] page_num_diff_fits [OF assms(2,4)]
  by (simp add: Page_add_eq_Some)

lemma Page_sub_same_half:
  assumes "page_ok S p" "page_ok S q" "same_half p q" "page_num S q = page_num S p + unat n"
  shows "Page_sub X S q n = Some p"
  using assms same_half_unat [OF assms] page_num_diff_fits [OF assms(2,4)]
  by (simp add: Page_sub_eq_Some)

lemma Page_sub_page_eq:
  assumes "page_ok S p" "page_ok S q" "same_half p q" "page_num S p \<le> page_num S q"
  shows "Page_sub_page S q p = Some (of_nat (page_num S q - page_num S p))"
proof -
  let ?d = "page_num S q - page_num S p"
  have "page_num S q = page_num S p + ?d" using assms by simp
  then have u: "unat (va (page_start q)) = unat (va (page_start p)) + ?d * 2 ^ size_bits S"
    using assms same_half_unat by blast
  then have le: "va (page_start p) \<le> va (page_start q)"
    by (simp add: word_le_nat_alt)
  have "?d \<le> ?d * 2 ^ size_bits S" by simp
  also have "\<dots> < 2 ^ 64"
    using assms(2) \<open>page_num S q = _ + ?d\<close> by (rule page_num_diff_fits)
  finally have "?d < 2 ^ 64" .
  then have "unat (of_nat ?d :: u64) = ?d"
    by (intro unat_of_nat_small) simp
  moreover have "unat ((va (page_start q) - va (page_start p)) div SIZE S) = ?d"
    using le u by (simp add: unat_div unat_sub_no_wrap unat_SIZE)
  ultimately have "(va (page_start q) - va (page_start p)) div SIZE S = of_nat ?d"
    by (metis unsigned_word_eqI)
  with le show ?thesis
    by (simp add: Page_sub_page_def VirtAddr_sub_addr_def VirtAddr_as_u64_def checked_sub_def)
qed

section \<open>Iterating over page ranges\<close>

definition page_at :: "PageSize \<Rightarrow> nat \<Rightarrow> Page" where
  "page_at S n = Page (VirtAddr_new_truncate (of_nat (n * 2 ^ size_bits S)))"

lemma page_at:
  assumes "n < 2 ^ (48 - size_bits S)"
  shows "page_ok S (page_at S n)" and "page_num S (page_at S n) = n"
proof -
  have lt: "n * 2 ^ size_bits S < 2 ^ 48"
    using assms unfolding page_space [of S] by simp
  then have "unat (of_nat (n * 2 ^ size_bits S) :: u64) = n * 2 ^ size_bits S"
    by (intro unat_of_nat_small) simp
  with lt have "lin (page_start (page_at S n)) = n * 2 ^ size_bits S"
    by (simp add: page_at_def)
  then show "page_ok S (page_at S n)" and "page_num S (page_at S n) = n"
    by (simp_all add: page_ok_def page_num_def page_at_def)
qed

lemma page_at_num: "page_ok S p \<Longrightarrow> page_at S (page_num S p) = p"
  using page_num_inj page_at page_num_lt by metis

definition range_inv :: "PageSize \<Rightarrow> PageRange \<Rightarrow> bool" where
  "range_inv S r \<longleftrightarrow> page_ok S (start_page r) \<and> page_ok S (end_page r) \<and>
     (start_page r < end_page r \<longrightarrow> same_half (start_page r) (end_page r))"

definition range_items :: "PageSize \<Rightarrow> PageRange \<Rightarrow> Page list" where
  "range_items S r = map (page_at S) [page_num S (start_page r)..<page_num S (end_page r)]"

lemma page_between:
  assumes "page_ok S p" "page_ok S q" "page_num S p \<le> n" "n \<le> page_num S q" "same_half p q"
  shows "page_ok S (page_at S n) \<and> page_num S (page_at S n) = n \<and> same_half p (page_at S n) \<and>
    same_half (page_at S n) q"
proof -
  have n: "n < 2 ^ (48 - size_bits S)"
    using assms page_num_lt [of S q] by simp
  note at = page_at [OF n]
  have "lin (page_start p) \<le> lin (page_start (page_at S n))"
    "lin (page_start (page_at S n)) \<le> lin (page_start q)"
    using assms at by (simp_all add: lin_page_num)
  then have "same_half p (page_at S n) \<and> same_half (page_at S n) q"
    using assms(5) by (auto simp: same_half_def)
  with at show ?thesis by simp
qed

interpretation page_range_iter: iterator "range_inv S" "range_items S" "PageRange_next X S" for X S
proof (unfold_locales, goal_cases)
  case (1 r)
  then have "\<not> start_page r < end_page r"
    by (auto simp: range_inv_def range_items_def page_num_less_iff [of S, symmetric])
  then show ?case by (simp add: PageRange_next_def)
next
  case (2 r i "is")
  let ?s = "start_page r" and ?e = "end_page r"
  have lt: "page_num S ?s < page_num S ?e"
    using 2 by (auto simp: range_items_def upt_conv_Nil intro: ccontr)
  have inv: "page_ok S ?s" "page_ok S ?e" "same_half ?s ?e" "?s < ?e"
    using 2 lt by (simp_all add: range_inv_def page_num_less_iff)
  have i: "i = ?s" "is = map (page_at S) [Suc (page_num S ?s)..<page_num S ?e]"
    using 2 lt inv by (auto simp: range_items_def upt_conv_Cons page_at_num)
  let ?n = "page_at S (Suc (page_num S ?s))"
  have n: "page_ok S ?n \<and> page_num S ?n = Suc (page_num S ?s) \<and> same_half ?s ?n \<and> same_half ?n ?e"
    using inv lt by (intro page_between) simp_all
  then have "Page_add X S ?s 1 = Some ?n"
    using inv by (intro Page_add_same_half) simp_all
  with i n inv show ?case
    by (simp add: PageRange_next_def Page_add_assign_def range_inv_def range_items_def)
qed

definition incl_inv :: "PageSize \<Rightarrow> PageRangeInclusive \<Rightarrow> bool" where
  "incl_inv S r \<longleftrightarrow> page_ok S (start_page_incl r) \<and> page_ok S (end_page_incl r) \<and>
     (start_page_incl r \<le> end_page_incl r \<longrightarrow>
        same_half (start_page_incl r) (end_page_incl r) \<and>
        lin (page_start (end_page_incl r)) + 2 ^ size_bits S \<noteq> 2 ^ 47)"

definition incl_items :: "PageSize \<Rightarrow> PageRangeInclusive \<Rightarrow> Page list" where
  "incl_items S r =
     map (page_at S) [page_num S (start_page_incl r)..<Suc (page_num S (end_page_incl r))]"

lemma unat_max_page: "unat (- SIZE S) = 2 ^ 64 - 2 ^ size_bits S"
  by (cases S) simp_all

lemma max_page_addr:
  shows "VirtAddr_new (-1) = Some (VirtAddr (-1))" (is ?top)
    and "VirtAddr_sub (VirtAddr (-1)) (SIZE S - 1) = Some (VirtAddr (- SIZE S))" (is ?new)
    and "canonical (VirtAddr (- SIZE S))" (is ?can)
    and "lin (VirtAddr (- SIZE S)) = 2 ^ 48 - 2 ^ size_bits S" (is ?lin)
proof -
  show ?top
    by (simp add: VirtAddr_new_eq canonical_def)
  have u1: "unat (SIZE S - 1) = 2 ^ size_bits S - 1"
    by (cases S) simp_all
  have um: "unat (- 1 :: u64) = 2 ^ 64 - 1"
    using unat_not [of 0] by simp
  have "(2 :: nat) ^ size_bits S \<le> 2 ^ 30"
    using size_bits_le [of S] by (intro power_increasing) simp_all
  then show c: ?can and ?lin
    using canonical_of_unat [of "VirtAddr (- SIZE S)" "2 ^ 48 - 2 ^ size_bits S"]
    by (simp_all add: unat_max_page)
  show ?new
    using c \<open>2 ^ size_bits S \<le> 2 ^ 30\<close>
    by (simp only: VirtAddr_sub_eq_Some) (simp add: unat_max_page u1 um)
qed

lemma incl_next_last:
  assumes inv: "incl_inv S r" and le: "start_page_incl r \<le> end_page_incl r"
    and last: "\<not> page_start (start_page_incl r) < VirtAddr (- SIZE S)"
  shows "\<exists>r'. PageRangeInclusive_next X S r = Some (Some (start_page_incl r), r') \<and> incl_inv S r' \<and>
    incl_items S r' =
      map (page_at S) [Suc (page_num S (start_page_incl r))..<Suc (page_num S (end_page_incl r))]"
proof -
  let ?s = "start_page_incl r" and ?e = "end_page_incl r"
  let ?k = "2 ^ (48 - size_bits S) :: nat"
  have ok: "page_ok S ?s" "page_ok S ?e" using inv by (simp_all add: incl_inv_def)
  have "2 ^ 48 - 2 ^ size_bits S \<le> lin (page_start ?s)"
    using last ok lin_le_iff [of "VirtAddr (- SIZE S)" "page_start ?s"]
    by (simp add: max_page_addr)
  then have "(?k - 1) * 2 ^ size_bits S \<le> page_num S ?s * 2 ^ size_bits S"
    using ok page_space [of S] by (simp only: lin_page_num diff_mult_distrib mult_1)
  then have "?k - 1 \<le> page_num S ?s" by simp
  moreover have "page_num S ?s \<le> page_num S ?e" "page_num S ?e < ?k"
    using le ok by (simp_all add: page_num_le_iff page_num_lt)
  ultimately have nums: "page_num S ?s = ?k - 1" "page_num S ?e = ?k - 1" by linarith+
  have "(2 :: nat) ^ 18 \<le> ?k"
    using size_bits_le [of S] by (intro power_increasing) simp_all
  then have "2 \<le> ?k" by simp
  then have k2: "?k - 2 < ?k" "Suc (?k - 2) = ?k - 1" by arith+
  let ?p = "page_at S (?k - 2)"
  note p = page_at [OF k2(1)]
  have "same_half ?p ?e"
  proof -
    have "lin (page_start ?p) = 2 ^ 48 - 2 * 2 ^ size_bits S"
      "lin (page_start ?e) = 2 ^ 48 - 2 ^ size_bits S"
      using p ok nums page_space [of S] by (simp_all only: lin_page_num diff_mult_distrib mult_1)
    moreover have "(2 :: nat) ^ size_bits S \<le> 2 ^ 30"
      using size_bits_le [of S] by (intro power_increasing) simp_all
    ultimately show ?thesis unfolding same_half_def by simp linarith
  qed
  then have "Page_sub X S ?e 1 = Some ?p"
    using ok p nums k2 by (intro Page_sub_same_half) simp_all
  then have "PageRangeInclusive_next X S r = Some (Some ?s, r\<lparr>end_page_incl := ?p\<rparr>)"
    using le last max_page_addr(1) max_page_addr(2) [of S]
    by (simp add: PageRangeInclusive_next_def Page_start_address_def Page_sub_assign_def
        Let_def)
  moreover have "\<not> ?s \<le> ?p"
    using page_num_le_iff [of S ?s ?p] ok p nums k2 by simp
  ultimately show ?thesis
    using ok p nums k2 by (simp add: incl_inv_def incl_items_def)
qed

lemma incl_next_inner:
  assumes inv: "incl_inv S r" and le: "start_page_incl r \<le> end_page_incl r"
    and inner: "page_start (start_page_incl r) < VirtAddr (- SIZE S)"
  shows "\<exists>r'. PageRangeInclusive_next X S r = Some (Some (start_page_incl r), r') \<and> incl_inv S r' \<and>
    incl_items S r' =
      map (page_at S) [Suc (page_num S (start_page_incl r))..<Suc (page_num S (end_page_incl r))]"
proof -
  let ?s = "start_page_incl r" and ?e = "end_page_incl r"
  have ok: "page_ok S ?s" "page_ok S ?e" "same_half ?s ?e"
      "lin (page_start ?e) + 2 ^ size_bits S \<noteq> 2 ^ 47"
    using inv le by (simp_all add: incl_inv_def)
  have nle: "page_num S ?s \<le> page_num S ?e"
    using le ok by (simp add: page_num_le_iff)
  have "lin (page_start ?s) < 2 ^ 48 - 2 ^ size_bits S"
    using inner ok lin_less_iff [of "page_start ?s" "VirtAddr (- SIZE S)"]
    by (simp add: max_page_addr)
  then have "page_num S ?s * 2 ^ size_bits S < (2 ^ (48 - size_bits S) - 1) * 2 ^ size_bits S"
    using ok page_space [of S] by (simp only: lin_page_num diff_mult_distrib mult_1)
  then have "Suc (page_num S ?s) < 2 ^ (48 - size_bits S)" by simp
  note n = page_at [OF this]
  let ?n = "page_at S (Suc (page_num S ?s))"
  have ln: "lin (page_start ?n) = lin (page_start ?s) + 2 ^ size_bits S"
    using n ok by (simp add: lin_page_num)
  have half: "same_half ?s ?n"
  proof (rule ccontr)
    assume "\<not> same_half ?s ?n"
    then have lo: "lin (page_start ?s) < 2 ^ 47" "2 ^ 47 \<le> lin (page_start ?s) + 2 ^ size_bits S"
      using ln by (auto simp: same_half_def)
    have e: "2 ^ 47 = 2 ^ (47 - size_bits S) * (2 ^ size_bits S :: nat)"
      using size_bits_le [of S] by (simp flip: power_add)
    have "lin (page_start ?e) < 2 ^ 47" using lo ok by (simp add: same_half_def)
    then have "page_num S ?e < 2 ^ (47 - size_bits S)"
      using ok unfolding e by (simp add: lin_page_num)
    moreover have "2 ^ (47 - size_bits S) \<le> Suc (page_num S ?s)"
      using lo(2) ok unfolding e by (simp add: lin_page_num flip: mult_Suc add.commute)
    ultimately have "Suc (page_num S ?e) = 2 ^ (47 - size_bits S)" using nle by linarith
    then have "lin (page_start ?e) + 2 ^ size_bits S = 2 ^ 47"
      unfolding e using ok by (simp add: lin_page_num flip: mult_Suc add.commute)
    with ok show False by simp
  qed
  have "Page_add X S ?s 1 = Some ?n"
    using ok n half by (intro Page_add_same_half) simp_all
  then have "PageRangeInclusive_next X S r = Some (Some ?s, r\<lparr>start_page_incl := ?n\<rparr>)"
    using le inner max_page_addr(1) max_page_addr(2) [of S]
    by (simp add: PageRangeInclusive_next_def Page_start_address_def Page_add_assign_def Let_def)
  then show ?thesis
    using ok n half by (auto simp: incl_inv_def incl_items_def same_half_def)
qed

interpretation page_range_inclusive_iter:
  iterator "incl_inv S" "incl_items S" "PageRangeInclusive_next X S" for X S
proof (unfold_locales, goal_cases)
  case (1 r)
  then have "\<not> start_page_incl r \<le> end_page_incl r"
    by (auto simp: incl_inv_def incl_items_def page_num_le_iff [of S, symmetric])
  then show ?case by (simp add: PageRangeInclusive_next_def)
next
  case (2 r i "is")
  have ok: "page_ok S (start_page_incl r)" "page_ok S (end_page_incl r)"
    using 2 by (simp_all add: incl_inv_def)
  have lt: "page_num S (start_page_incl r) \<le> page_num S (end_page_incl r)"
    using 2 by (auto simp: incl_items_def intro: ccontr)
  then have le: "start_page_incl r \<le> end_page_incl r"
    using ok by (simp add: page_num_le_iff)
  have "i = start_page_incl r" "is =
      map (page_at S) [Suc (page_num S (start_page_incl r))..<Suc (page_num S (end_page_incl r))]"
    using 2 lt ok by (auto simp: incl_items_def upt_conv_Cons page_at_num simp del: upt_Suc)
  with incl_next_last [OF 2(1) le, of X] incl_next_inner [OF 2(1) le, of X] show ?case
    by blast
qed

end
