(* ===== verification/Frame.thy ===== *)
theory Frame
  imports Page
begin

text \<open>
  \<open>structures/paging/frame.rs\<close>: physical frames, their arithmetic and the frame ranges with their
  iterators. The lemmas relate a frame to its number, as in the theory of pages.
\<close>

section \<open>Frames\<close>

datatype PhysFrame = PhysFrame (frame_start: PhysAddr)

instantiation PhysFrame :: linorder
begin

definition less_eq_PhysFrame :: "PhysFrame \<Rightarrow> PhysFrame \<Rightarrow> bool" where
  "p \<le> q \<longleftrightarrow> frame_start p \<le> frame_start q"

definition less_PhysFrame :: "PhysFrame \<Rightarrow> PhysFrame \<Rightarrow> bool" where
  "p < q \<longleftrightarrow> frame_start p < frame_start q"

instance
  by standard (auto simp: less_eq_PhysFrame_def less_PhysFrame_def intro: PhysFrame.expand)

end

definition PhysFrame_from_start_address_unchecked :: "PhysAddr \<Rightarrow> PhysFrame" where
  "PhysFrame_from_start_address_unchecked start_address = PhysFrame start_address"

definition PhysFrame_from_start_address ::
  "PageSize \<Rightarrow> PhysAddr \<Rightarrow> (AddressNotAligned + PhysFrame) option" where
  "PhysFrame_from_start_address S address = do {
     aligned \<leftarrow> PhysAddr_is_aligned_u64 address (SIZE S);
     if \<not> aligned then Some (Inl AddressNotAligned)
     else Some (Inr (PhysFrame_from_start_address_unchecked address))
   }"

definition PhysFrame_containing_address :: "PageSize \<Rightarrow> PhysAddr \<Rightarrow> PhysFrame option" where
  "PhysFrame_containing_address S address = do {
     a \<leftarrow> PhysAddr_align_down_u64 address (SIZE S);
     Some (PhysFrame a)
   }"

definition PhysFrame_start_address :: "PhysFrame \<Rightarrow> PhysAddr" where
  "PhysFrame_start_address self = frame_start self"

definition PhysFrame_size :: "PageSize \<Rightarrow> PhysFrame \<Rightarrow> u64" where
  "PhysFrame_size S self = SIZE S"

text \<open>The operators: \<open>PhysFrame + u64\<close>, \<open>PhysFrame - u64\<close> and \<open>PhysFrame - PhysFrame\<close>.\<close>

definition PhysFrame_add :: "extern \<Rightarrow> PageSize \<Rightarrow> PhysFrame \<Rightarrow> u64 \<Rightarrow> PhysFrame option" where
  "PhysFrame_add X S self rhs = do {
     n \<leftarrow> mul_op X rhs (SIZE S);
     a \<leftarrow> PhysAddr_add (PhysFrame_start_address self) n;
     PhysFrame_containing_address S a
   }"

definition PhysFrame_add_assign :: "extern \<Rightarrow> PageSize \<Rightarrow> PhysFrame \<Rightarrow> u64 \<Rightarrow> PhysFrame option" where
  "PhysFrame_add_assign X S self rhs = PhysFrame_add X S self rhs"

definition PhysFrame_sub :: "extern \<Rightarrow> PageSize \<Rightarrow> PhysFrame \<Rightarrow> u64 \<Rightarrow> PhysFrame option" where
  "PhysFrame_sub X S self rhs = do {
     n \<leftarrow> mul_op X rhs (SIZE S);
     a \<leftarrow> PhysAddr_sub (PhysFrame_start_address self) n;
     PhysFrame_containing_address S a
   }"

definition PhysFrame_sub_assign :: "extern \<Rightarrow> PageSize \<Rightarrow> PhysFrame \<Rightarrow> u64 \<Rightarrow> PhysFrame option" where
  "PhysFrame_sub_assign X S self rhs = PhysFrame_sub X S self rhs"

definition PhysFrame_sub_frame :: "PageSize \<Rightarrow> PhysFrame \<Rightarrow> PhysFrame \<Rightarrow> u64 option" where
  "PhysFrame_sub_frame S self rhs = do {
     d \<leftarrow> PhysAddr_sub_addr (frame_start self) (frame_start rhs);
     Some (d div SIZE S)
   }"

section \<open>Frame ranges\<close>

record PhysFrameRange =
  start_frame :: PhysFrame
  end_frame :: PhysFrame

definition PhysFrame_range :: "PhysFrame \<Rightarrow> PhysFrame \<Rightarrow> PhysFrameRange" where
  "PhysFrame_range s e = \<lparr>start_frame = s, end_frame = e\<rparr>"

definition PhysFrameRange_is_empty :: "PhysFrameRange \<Rightarrow> bool" where
  "PhysFrameRange_is_empty self \<longleftrightarrow> start_frame self \<ge> end_frame self"

definition PhysFrameRange_len :: "PageSize \<Rightarrow> PhysFrameRange \<Rightarrow> u64 option" where
  "PhysFrameRange_len S self =
     (if \<not> PhysFrameRange_is_empty self
      then PhysFrame_sub_frame S (end_frame self) (start_frame self)
      else Some 0)"

definition PhysFrameRange_size :: "extern \<Rightarrow> PageSize \<Rightarrow> PhysFrameRange \<Rightarrow> u64 option" where
  "PhysFrameRange_size X S self = do {
     n \<leftarrow> PhysFrameRange_len S self;
     mul_op X (SIZE S) n
   }"

definition PhysFrameRange_next ::
  "extern \<Rightarrow> PageSize \<Rightarrow> PhysFrameRange \<Rightarrow> (PhysFrame option \<times> PhysFrameRange) option" where
  "PhysFrameRange_next X S self =
     (if start_frame self < end_frame self then do {
        let frame = start_frame self;
        s \<leftarrow> PhysFrame_add_assign X S (start_frame self) 1;
        Some (Some frame, self\<lparr>start_frame := s\<rparr>)
      } else Some (None, self))"

record PhysFrameRangeInclusive =
  start_frame_incl :: PhysFrame
  end_frame_incl :: PhysFrame

definition PhysFrame_range_inclusive :: "PhysFrame \<Rightarrow> PhysFrame \<Rightarrow> PhysFrameRangeInclusive" where
  "PhysFrame_range_inclusive s e = \<lparr>start_frame_incl = s, end_frame_incl = e\<rparr>"

definition PhysFrameRangeInclusive_is_empty :: "PhysFrameRangeInclusive \<Rightarrow> bool" where
  "PhysFrameRangeInclusive_is_empty self \<longleftrightarrow> start_frame_incl self > end_frame_incl self"

definition PhysFrameRangeInclusive_len ::
  "extern \<Rightarrow> PageSize \<Rightarrow> PhysFrameRangeInclusive \<Rightarrow> u64 option" where
  "PhysFrameRangeInclusive_len X S self =
     (if \<not> PhysFrameRangeInclusive_is_empty self then do {
        n \<leftarrow> PhysFrame_sub_frame S (end_frame_incl self) (start_frame_incl self);
        add_op X n 1
      } else Some 0)"

definition PhysFrameRangeInclusive_size ::
  "extern \<Rightarrow> PageSize \<Rightarrow> PhysFrameRangeInclusive \<Rightarrow> u64 option" where
  "PhysFrameRangeInclusive_size X S self = do {
     n \<leftarrow> PhysFrameRangeInclusive_len X S self;
     mul_op X (SIZE S) n
   }"

definition PhysFrameRangeInclusive_next ::
  "extern \<Rightarrow> PageSize \<Rightarrow> PhysFrameRangeInclusive \<Rightarrow>
   (PhysFrame option \<times> PhysFrameRangeInclusive) option" where
  "PhysFrameRangeInclusive_next X S self =
     (if start_frame_incl self \<le> end_frame_incl self then do {
        let frame = start_frame_incl self;
        s \<leftarrow> PhysFrame_add_assign X S (start_frame_incl self) 1;
        Some (Some frame, self\<lparr>start_frame_incl := s\<rparr>)
      } else Some (None, self))"

section \<open>Frames and their numbers\<close>

definition frame_ok :: "PageSize \<Rightarrow> PhysFrame \<Rightarrow> bool" where
  "frame_ok S f \<longleftrightarrow> phys_ok (frame_start f) \<and> unat (pa (frame_start f)) mod 2 ^ size_bits S = 0"

definition frame_num :: "PageSize \<Rightarrow> PhysFrame \<Rightarrow> nat" where
  "frame_num S f = unat (pa (frame_start f)) div 2 ^ size_bits S"

definition frame_at :: "PageSize \<Rightarrow> nat \<Rightarrow> PhysFrame" where
  "frame_at S n = PhysFrame (PhysAddr (of_nat (n * 2 ^ size_bits S)))"

lemma frame_ok_phys [simp]: "frame_ok S f \<Longrightarrow> phys_ok (frame_start f)"
  by (simp add: frame_ok_def)

lemma unat_frame_num: "frame_ok S f \<Longrightarrow> unat (pa (frame_start f)) = frame_num S f * 2 ^ size_bits S"
  using div_mult_mod_eq [of "unat (pa (frame_start f))" "2 ^ size_bits S"]
  by (simp add: frame_ok_def frame_num_def)

lemma frame_num_inj: "frame_ok S f \<Longrightarrow> frame_ok S g \<Longrightarrow> frame_num S f = frame_num S g \<Longrightarrow> f = g"
  by (metis unat_frame_num unsigned_word_eqI PhysAddr.expand PhysFrame.expand)

lemma frame_num_less_iff:
  "frame_ok S f \<Longrightarrow> frame_ok S g \<Longrightarrow> frame_num S f < frame_num S g \<longleftrightarrow> f < g"
  by (simp add: less_PhysFrame_def less_PhysAddr_def word_less_nat_alt unat_frame_num)

lemma frame_num_le_iff:
  "frame_ok S f \<Longrightarrow> frame_ok S g \<Longrightarrow> frame_num S f \<le> frame_num S g \<longleftrightarrow> f \<le> g"
  using frame_num_less_iff [of S g f] by (auto simp: not_less [symmetric])

lemma frame_space: "2 ^ 52 = 2 ^ (52 - size_bits S) * (2 ^ size_bits S :: nat)"
  using size_bits_le [of S] by (simp flip: power_add)

lemma frame_num_lt: "frame_ok S f \<Longrightarrow> frame_num S f < 2 ^ (52 - size_bits S)"
proof -
  assume "frame_ok S f"
  then have "frame_num S f * 2 ^ size_bits S < 2 ^ (52 - size_bits S) * 2 ^ size_bits S"
    unfolding frame_space [of S, symmetric] using frame_ok_phys [of S f]
    by (simp add: phys_ok_def flip: unat_frame_num)
  then show ?thesis by simp
qed

lemma frame_at:
  assumes "n < 2 ^ (52 - size_bits S)"
  shows "frame_ok S (frame_at S n)" and "frame_num S (frame_at S n) = n"
proof -
  have lt: "n * 2 ^ size_bits S < 2 ^ 52"
    using assms unfolding frame_space [of S] by simp
  then have "unat (of_nat (n * 2 ^ size_bits S) :: u64) = n * 2 ^ size_bits S"
    by (intro unat_of_nat_small) simp
  with lt show "frame_ok S (frame_at S n)" and "frame_num S (frame_at S n) = n"
    by (simp_all add: frame_at_def frame_ok_def frame_num_def phys_ok_def)
qed

lemma frame_at_num: "frame_ok S f \<Longrightarrow> frame_at S (frame_num S f) = f"
  using frame_num_inj frame_at frame_num_lt by metis

lemma PhysFrame_containing_address_eq:
  "PhysFrame_containing_address S a = Some f \<longleftrightarrow>
    unat (pa (frame_start f)) = unat (pa a) div 2 ^ size_bits S * 2 ^ size_bits S"
proof -
  have "size_bits S < 64" using size_bits_le [of S] by simp
  then have "PhysAddr_align_down a (2 ^ size_bits S) = Some (frame_start f) \<longleftrightarrow>
      unat (pa (frame_start f)) = unat (pa a) div 2 ^ size_bits S * 2 ^ size_bits S"
    by (rule PhysAddr_align_down_eq_Some)
  moreover have "PhysFrame_containing_address S a = Some f \<longleftrightarrow>
      PhysAddr_align_down a (2 ^ size_bits S) = Some (frame_start f)"
    by (cases f) (auto simp: PhysFrame_containing_address_def SIZE_eq PhysAddr_align_down_def
        split: Option.bind_splits)
  ultimately show ?thesis by (simp only:)
qed

lemma PhysFrame_containing_address_total: "\<exists>f. PhysFrame_containing_address S a = Some f"
proof -
  have "size_bits S < 64" using size_bits_le [of S] by simp
  from PhysAddr_align_down_total [OF this, of a] show ?thesis
    by (auto simp: PhysFrame_containing_address_def SIZE_eq PhysAddr_align_down_def)
qed

lemma PhysFrame_containing_frame_ok:
  "phys_ok a \<Longrightarrow> PhysFrame_containing_address S a = Some f \<Longrightarrow>
    frame_ok S f \<and> frame_num S f = unat (pa a) div 2 ^ size_bits S"
proof -
  assume a: "phys_ok a" and f: "PhysFrame_containing_address S a = Some f"
  have u: "unat (pa (frame_start f)) = unat (pa a) div 2 ^ size_bits S * 2 ^ size_bits S"
    using f by (simp only: PhysFrame_containing_address_eq)
  also have "\<dots> \<le> unat (pa a)" by simp
  also have "\<dots> < 2 ^ 52" using a by (simp only: phys_ok_def)
  finally have "phys_ok (frame_start f)" by (simp only: phys_ok_def)
  with u show ?thesis by (simp add: frame_ok_def frame_num_def)
qed

lemma PhysFrame_from_start_address_eq:
  "PhysFrame_from_start_address S a = Some
    (if unat (pa a) mod 2 ^ size_bits S = 0 then Inr (PhysFrame a) else Inl AddressNotAligned)"
proof -
  have "size_bits S < 64" using size_bits_le [of S] by simp
  from PhysAddr_is_aligned_eq [OF this, of a] show ?thesis
    by (simp add: PhysFrame_from_start_address_def SIZE_eq PhysAddr_is_aligned_def
        PhysFrame_from_start_address_unchecked_def)
qed

lemma PhysFrame_add_one:
  assumes f: "frame_ok S f" and n: "Suc (frame_num S f) < 2 ^ (52 - size_bits S)"
  shows "PhysFrame_add X S f 1 = Some (frame_at S (Suc (frame_num S f)))"
proof -
  let ?g = "frame_at S (Suc (frame_num S f))"
  note g = frame_at [OF n]
  have "unat (pa (frame_start ?g)) = unat (pa (frame_start f)) + 2 ^ size_bits S"
    using f g by (simp add: unat_frame_num)
  then have "PhysAddr_add (frame_start f) (SIZE S) = Some (frame_start ?g)"
    using f g by (simp add: PhysAddr_add_eq_Some unat_SIZE)
  moreover have "PhysFrame_containing_address S (frame_start ?g) = Some ?g"
    using g by (simp add: PhysFrame_containing_address_eq unat_frame_num)
  moreover have "mul_op X 1 (SIZE S) = Some (SIZE S)"
    using mul_op_SIZE [of 1 S X] by (cases S) simp_all
  ultimately show ?thesis
    by (simp add: PhysFrame_add_def PhysFrame_start_address_def)
qed

section \<open>Iterating over frame ranges\<close>

definition frame_range_inv :: "PageSize \<Rightarrow> PhysFrameRange \<Rightarrow> bool" where
  "frame_range_inv S r \<longleftrightarrow> frame_ok S (start_frame r) \<and> frame_ok S (end_frame r)"

definition frame_range_items :: "PageSize \<Rightarrow> PhysFrameRange \<Rightarrow> PhysFrame list" where
  "frame_range_items S r = map (frame_at S) [frame_num S (start_frame r)..<frame_num S (end_frame r)]"

interpretation frame_range_iter:
  iterator "frame_range_inv S" "frame_range_items S" "PhysFrameRange_next X S" for X S
proof (unfold_locales, goal_cases)
  case (1 r)
  then have "\<not> start_frame r < end_frame r"
    by (auto simp: frame_range_inv_def frame_range_items_def frame_num_less_iff [of S, symmetric])
  then show ?case by (simp add: PhysFrameRange_next_def)
next
  case (2 r i "is")
  let ?s = "start_frame r" and ?e = "end_frame r"
  have lt: "frame_num S ?s < frame_num S ?e"
    using 2 by (auto simp: frame_range_items_def upt_conv_Nil intro: ccontr)
  have inv: "frame_ok S ?s" "frame_ok S ?e" "?s < ?e"
    using 2 lt by (simp_all add: frame_range_inv_def frame_num_less_iff)
  have i: "i = ?s" "is = map (frame_at S) [Suc (frame_num S ?s)..<frame_num S ?e]"
    using 2 lt inv by (auto simp: frame_range_items_def upt_conv_Cons frame_at_num)
  have n: "Suc (frame_num S ?s) < 2 ^ (52 - size_bits S)"
    using lt frame_num_lt [OF inv(2)] by simp
  with i inv frame_at [OF n] show ?case
    by (simp add: PhysFrameRange_next_def PhysFrame_add_assign_def PhysFrame_add_one
        frame_range_inv_def frame_range_items_def Let_def)
qed

definition frame_incl_inv :: "PageSize \<Rightarrow> PhysFrameRangeInclusive \<Rightarrow> bool" where
  "frame_incl_inv S r \<longleftrightarrow> frame_ok S (start_frame_incl r) \<and> frame_ok S (end_frame_incl r) \<and>
     Suc (frame_num S (end_frame_incl r)) < 2 ^ (52 - size_bits S)"

definition frame_incl_items :: "PageSize \<Rightarrow> PhysFrameRangeInclusive \<Rightarrow> PhysFrame list" where
  "frame_incl_items S r =
     map (frame_at S) [frame_num S (start_frame_incl r)..<Suc (frame_num S (end_frame_incl r))]"

interpretation frame_range_inclusive_iter:
  iterator "frame_incl_inv S" "frame_incl_items S" "PhysFrameRangeInclusive_next X S" for X S
proof (unfold_locales, goal_cases)
  case (1 r)
  then have "\<not> start_frame_incl r \<le> end_frame_incl r"
    by (auto simp: frame_incl_inv_def frame_incl_items_def frame_num_le_iff [of S, symmetric])
  then show ?case by (simp add: PhysFrameRangeInclusive_next_def)
next
  case (2 r i "is")
  let ?s = "start_frame_incl r" and ?e = "end_frame_incl r"
  have lt: "frame_num S ?s \<le> frame_num S ?e"
    using 2 by (auto simp: frame_incl_items_def intro: ccontr)
  have inv: "frame_ok S ?s" "frame_ok S ?e" "?s \<le> ?e"
    using 2 lt by (simp_all add: frame_incl_inv_def frame_num_le_iff)
  have i: "i = ?s" "is = map (frame_at S) [Suc (frame_num S ?s)..<Suc (frame_num S ?e)]"
    using 2 lt inv by (auto simp: frame_incl_items_def upt_conv_Cons frame_at_num simp del: upt_Suc)
  have n: "Suc (frame_num S ?s) < 2 ^ (52 - size_bits S)"
    using lt 2 by (simp add: frame_incl_inv_def)
  with i inv frame_at [OF n] 2 show ?case
    by (simp add: PhysFrameRangeInclusive_next_def PhysFrame_add_assign_def PhysFrame_add_one
        frame_incl_inv_def frame_incl_items_def Let_def)
qed

end
