(* ===== verification/Page_Table.thy ===== *)
theory Page_Table
  imports Frame
begin

text \<open>
  \<open>structures/paging/page_table.rs\<close>: page table entries, their flags, and page tables. The lemmas
  read an entry as three independent parts: the address bits 12 to 51, the present bit and the huge
  page bit, and say which part each operation changes.
\<close>

section \<open>Flags\<close>

text \<open>A \<open>PageTableFlags\<close> value is its bits.\<close>

type_synonym PageTableFlags = u64

definition PRESENT :: PageTableFlags where "PRESENT = 1"
definition WRITABLE :: PageTableFlags where "WRITABLE = push_bit 1 1"
definition USER_ACCESSIBLE :: PageTableFlags where "USER_ACCESSIBLE = push_bit 2 1"
definition WRITE_THROUGH :: PageTableFlags where "WRITE_THROUGH = push_bit 3 1"
definition NO_CACHE :: PageTableFlags where "NO_CACHE = push_bit 4 1"
definition ACCESSED :: PageTableFlags where "ACCESSED = push_bit 5 1"
definition DIRTY :: PageTableFlags where "DIRTY = push_bit 6 1"
definition HUGE_PAGE :: PageTableFlags where "HUGE_PAGE = push_bit 7 1"
definition PAT_4KIB_PAGE :: PageTableFlags where "PAT_4KIB_PAGE = push_bit 7 1"
definition GLOBAL :: PageTableFlags where "GLOBAL = push_bit 8 1"
definition BIT_9 :: PageTableFlags where "BIT_9 = push_bit 9 1"
definition BIT_10 :: PageTableFlags where "BIT_10 = push_bit 10 1"
definition BIT_11 :: PageTableFlags where "BIT_11 = push_bit 11 1"
definition PAT_HUGE_PAGE :: PageTableFlags where "PAT_HUGE_PAGE = push_bit 12 1"
definition BIT_51 :: PageTableFlags where "BIT_51 = push_bit 51 1"
definition BIT_52 :: PageTableFlags where "BIT_52 = push_bit 52 1"
definition BIT_53 :: PageTableFlags where "BIT_53 = push_bit 53 1"
definition BIT_54 :: PageTableFlags where "BIT_54 = push_bit 54 1"
definition BIT_55 :: PageTableFlags where "BIT_55 = push_bit 55 1"
definition BIT_56 :: PageTableFlags where "BIT_56 = push_bit 56 1"
definition BIT_57 :: PageTableFlags where "BIT_57 = push_bit 57 1"
definition BIT_58 :: PageTableFlags where "BIT_58 = push_bit 58 1"
definition BIT_59 :: PageTableFlags where "BIT_59 = push_bit 59 1"
definition BIT_60 :: PageTableFlags where "BIT_60 = push_bit 60 1"
definition BIT_61 :: PageTableFlags where "BIT_61 = push_bit 61 1"
definition BIT_62 :: PageTableFlags where "BIT_62 = push_bit 62 1"
definition NO_EXECUTE :: PageTableFlags where "NO_EXECUTE = push_bit 63 1"

lemmas flag_defs = PRESENT_def WRITABLE_def USER_ACCESSIBLE_def WRITE_THROUGH_def NO_CACHE_def
  ACCESSED_def DIRTY_def HUGE_PAGE_def PAT_4KIB_PAGE_def GLOBAL_def BIT_9_def BIT_10_def
  BIT_11_def PAT_HUGE_PAGE_def BIT_51_def BIT_52_def BIT_53_def BIT_54_def BIT_55_def BIT_56_def
  BIT_57_def BIT_58_def BIT_59_def BIT_60_def BIT_61_def BIT_62_def NO_EXECUTE_def

text \<open>All declared flags, the mask of \<open>from_bits_truncate\<close>.\<close>

definition PageTableFlags_all :: PageTableFlags where
  "PageTableFlags_all = fold (OR) [PRESENT, WRITABLE, USER_ACCESSIBLE, WRITE_THROUGH, NO_CACHE,
     ACCESSED, DIRTY, HUGE_PAGE, PAT_4KIB_PAGE, GLOBAL, BIT_9, BIT_10, BIT_11, PAT_HUGE_PAGE,
     BIT_51, BIT_52, BIT_53, BIT_54, BIT_55, BIT_56, BIT_57, BIT_58, BIT_59, BIT_60, BIT_61,
     BIT_62, NO_EXECUTE] 0"

section \<open>Entries\<close>

datatype FrameError = FrameNotPresent | HugeFrame

record PageTableEntry =
  entry :: u64

definition PageTableEntry_new :: PageTableEntry where
  "PageTableEntry_new = \<lparr>entry = 0\<rparr>"

definition is_unused :: "PageTableEntry \<Rightarrow> bool" where
  "is_unused self \<longleftrightarrow> entry self = 0"

definition set_unused :: "PageTableEntry \<Rightarrow> PageTableEntry" where
  "set_unused self = self\<lparr>entry := 0\<rparr>"

definition PageTableEntry_flags :: "extern \<Rightarrow> PageTableEntry \<Rightarrow> PageTableFlags" where
  "PageTableEntry_flags X self = bitflags_from_bits_truncate X PageTableFlags_all (entry self)"

definition PageTableEntry_addr :: "PageTableEntry \<Rightarrow> PhysAddr option" where
  "PageTableEntry_addr self = PhysAddr_new (entry self AND 0x000ffffffffff000)"

definition PageTableEntry_frame :: "extern \<Rightarrow> PageTableEntry \<Rightarrow> (FrameError + PhysFrame) option" where
  "PageTableEntry_frame X self =
     (if bitflags_contains X (PageTableEntry_flags X self) PRESENT then do {
        a \<leftarrow> PageTableEntry_addr self;
        f \<leftarrow> PhysFrame_containing_address Size4KiB a;
        Some (Inr f)
      } else Some (Inl FrameNotPresent))"

definition set_addr :: "PageTableEntry \<Rightarrow> PhysAddr \<Rightarrow> PageTableFlags \<Rightarrow> PageTableEntry option" where
  "set_addr self a fl = do {
     aligned \<leftarrow> PhysAddr_is_aligned a (SIZE Size4KiB);
     assert_that aligned;
     Some (self\<lparr>entry := PhysAddr_as_u64 a OR fl\<rparr>)
   }"

definition set_frame :: "PageTableEntry \<Rightarrow> PhysFrame \<Rightarrow> PageTableFlags \<Rightarrow> PageTableEntry option" where
  "set_frame self f fl = set_addr self (PhysFrame_start_address f) fl"

definition set_flags :: "PageTableEntry \<Rightarrow> PageTableFlags \<Rightarrow> PageTableEntry option" where
  "set_flags self fl = do {
     a \<leftarrow> PageTableEntry_addr self;
     Some (self\<lparr>entry := PhysAddr_as_u64 a OR fl\<rparr>)
   }"

section \<open>Tables\<close>

record PageTable =
  entries :: "PageTableEntry list"

definition PageTable_new :: PageTable where
  "PageTable_new = \<lparr>entries = replicate (unat ENTRY_COUNT) PageTableEntry_new\<rparr>"

text \<open>The iterator over the entries: the indices 0 to 511 in order.\<close>

definition PageTable_iter :: "PageTable \<Rightarrow> PageTableEntry list" where
  "PageTable_iter self = map (\<lambda>i. entries self ! i) [0..<512]"

text \<open>The loop over \<open>iter_mut\<close>, which writes each of the 512 entries in turn.\<close>

definition PageTable_zero :: "PageTable \<Rightarrow> PageTable" where
  "PageTable_zero self =
     fold (\<lambda>i t. t\<lparr>entries := (entries t)[i := set_unused (entries t ! i)]\<rparr>) [0..<512] self"

definition PageTable_is_empty :: "PageTable \<Rightarrow> bool" where
  "PageTable_is_empty self \<longleftrightarrow> list_all is_unused (PageTable_iter self)"

text \<open>Indexing panics out of range; \<open>index_mut\<close> is the write through the returned reference.\<close>

definition PageTable_index_usize :: "PageTable \<Rightarrow> usize \<Rightarrow> PageTableEntry option" where
  "PageTable_index_usize self index =
     (if unat index < length (entries self) then Some (entries self ! unat index) else panic)"

definition PageTable_index_mut_usize ::
  "PageTable \<Rightarrow> usize \<Rightarrow> PageTableEntry \<Rightarrow> PageTable option" where
  "PageTable_index_mut_usize self index e =
     (if unat index < length (entries self)
      then Some (self\<lparr>entries := (entries self)[unat index := e]\<rparr>) else panic)"

definition PageTable_index :: "PageTable \<Rightarrow> PageTableIndex \<Rightarrow> PageTableEntry option" where
  "PageTable_index self index = PageTable_index_usize self (usize_from_index index)"

definition PageTable_index_mut ::
  "PageTable \<Rightarrow> PageTableIndex \<Rightarrow> PageTableEntry \<Rightarrow> PageTable option" where
  "PageTable_index_mut self index e = PageTable_index_mut_usize self (usize_from_index index) e"

section \<open>The parts of an entry\<close>

definition ADDR_MASK :: u64 where
  "ADDR_MASK = 0x000ffffffffff000"

definition present :: "PageTableEntry \<Rightarrow> bool" where
  "present e \<longleftrightarrow> bit (entry e) 0"

definition huge :: "PageTableEntry \<Rightarrow> bool" where
  "huge e \<longleftrightarrow> bit (entry e) 7"

definition entry_addr :: "PageTableEntry \<Rightarrow> PhysAddr" where
  "entry_addr e = PhysAddr (entry e AND ADDR_MASK)"

text \<open>Flag values that do not touch the address bits.\<close>

definition pure_flags :: "PageTableFlags \<Rightarrow> bool" where
  "pure_flags fl \<longleftrightarrow> fl AND ADDR_MASK = 0"

lemma ADDR_MASK_alt: "ADDR_MASK = mask 52 AND NOT (mask 12)"
  by (simp add: ADDR_MASK_def mask_eq_exp_minus_1)

lemma bit_ADDR_MASK: "bit ADDR_MASK n \<longleftrightarrow> 12 \<le> n \<and> n < 52"
  by (auto simp: ADDR_MASK_alt bit_simps)

lemma all_flags_alt: "PageTableFlags_all = mask 13 OR NOT (mask 51)"
  by (simp add: PageTableFlags_all_def flag_defs mask_eq_exp_minus_1)

lemma bit_all_flags: "bit PageTableFlags_all n \<longleftrightarrow> n < 64 \<and> (n < 13 \<or> 51 \<le> n)"
  by (auto simp: all_flags_alt bit_simps)

lemma entry_eqI: "entry e = entry f \<Longrightarrow> e = (f :: PageTableEntry)"
  by simp

lemma unat_mask_addr: "unat (v AND ADDR_MASK) = unat v mod 2 ^ 52 div 2 ^ 12 * 2 ^ 12"
proof -
  have "v AND ADDR_MASK = take_bit 52 v AND NOT (mask 12)"
    by (rule bit_word_eqI) (auto simp: bit_simps bit_ADDR_MASK)
  then show ?thesis
    by (simp only: unat_and_not_mask unat_take_bit)
qed

lemma entry_addr_ok: "phys_ok (entry_addr e)" "unat (pa (entry_addr e)) mod 2 ^ 12 = 0"
proof -
  have "unat (entry e) mod 2 ^ 52 div 2 ^ 12 * 2 ^ 12 \<le> unat (entry e) mod 2 ^ 52" by simp
  also have "\<dots> < 2 ^ 52" by simp
  finally show "phys_ok (entry_addr e)"
    by (simp only: phys_ok_def entry_addr_def PhysAddr.sel unat_mask_addr)
  show "unat (pa (entry_addr e)) mod 2 ^ 12 = 0"
    by (simp only: entry_addr_def PhysAddr.sel unat_mask_addr mod_mult_self2_is_0)
qed

lemma entry_frame_ok [simp]: "frame_ok Size4KiB (PhysFrame (entry_addr e))"
  using entry_addr_ok [of e] by (simp add: frame_ok_def)

lemma PageTableEntry_addr_eq [simp]: "PageTableEntry_addr e = Some (entry_addr e)"
  using entry_addr_ok(1) [of e]
  by (simp add: PageTableEntry_addr_def entry_addr_def PhysAddr_new_eq ADDR_MASK_def)

lemma containing_frame: "frame_ok S f \<Longrightarrow> PhysFrame_containing_address S (frame_start f) = Some f"
  by (simp add: PhysFrame_containing_address_eq unat_frame_num)

lemma and_single_bit: "v AND push_bit n 1 = push_bit n 1 \<longleftrightarrow> n < 64 \<longrightarrow> bit (v :: u64) n"
proof
  assume "v AND push_bit n 1 = push_bit n 1"
  then have "bit (v AND push_bit n 1) n = bit (push_bit n 1 :: u64) n" by simp
  then show "n < 64 \<longrightarrow> bit v n" by (auto simp: bit_simps)
next
  assume b: "n < 64 \<longrightarrow> bit v n"
  show "v AND push_bit n 1 = push_bit n 1"
    by (rule bit_word_eqI) (use b in \<open>auto simp: bit_simps\<close>)
qed

context extern_ok
begin

lemma flags_eq: "PageTableEntry_flags X e = entry e AND PageTableFlags_all"
  by (simp add: PageTableEntry_flags_def)

lemma contains_PRESENT [simp]: "PageTableEntry_flags X e AND PRESENT = PRESENT \<longleftrightarrow> present e"
  using and_single_bit [of "entry e AND PageTableFlags_all" 0]
  by (simp add: flags_eq PRESENT_def present_def bit_simps bit_all_flags)

lemma contains_HUGE [simp]: "PageTableEntry_flags X e AND HUGE_PAGE = HUGE_PAGE \<longleftrightarrow> huge e"
  using and_single_bit [of "entry e AND PageTableFlags_all" 7]
  by (simp add: flags_eq HUGE_PAGE_def huge_def bit_simps bit_all_flags del: push_bit_of_1)

lemma frame_eq: "PageTableEntry_frame X e =
    Some (if present e then Inr (PhysFrame (entry_addr e)) else Inl FrameNotPresent)"
  using containing_frame [OF entry_frame_ok [of e]]
  by (simp add: PageTableEntry_frame_def)

end

lemma frame_4kib_aligned: "frame_ok S f \<Longrightarrow> unat (pa (frame_start f)) mod 2 ^ 12 = 0"
proof -
  assume "frame_ok S f"
  then have "2 ^ size_bits S dvd unat (pa (frame_start f))"
    by (simp add: frame_ok_def dvd_eq_mod_eq_0)
  moreover have "(2 :: nat) ^ 12 dvd 2 ^ size_bits S"
    using size_bits_le [of S] by (intro le_imp_power_dvd)
  ultimately show ?thesis
    using dvd_trans by (simp only: dvd_eq_mod_eq_0 [symmetric]) blast
qed

lemma frame_start_bits:
  assumes "frame_ok S f"
  shows "pa (frame_start f) AND ADDR_MASK = pa (frame_start f)"
    and "n < 12 \<Longrightarrow> \<not> bit (pa (frame_start f)) n"
proof -
  have "unat (pa (frame_start f)) < 2 ^ 52"
    using frame_ok_phys [OF assms] by (simp only: phys_ok_def)
  then have "unat (pa (frame_start f) AND ADDR_MASK) = unat (pa (frame_start f))"
    using frame_4kib_aligned [OF assms] div_mult_mod_eq [of "unat (pa (frame_start f))" "2 ^ 12"]
    by (simp only: unat_mask_addr mod_less add_0_right)
  then show e: "pa (frame_start f) AND ADDR_MASK = pa (frame_start f)"
    by (rule unsigned_word_eqI)
  show "n < 12 \<Longrightarrow> \<not> bit (pa (frame_start f)) n"
    by (subst e [symmetric]) (simp add: bit_simps bit_ADDR_MASK)
qed

lemma set_addr_eq:
  assumes "frame_ok S f"
  shows "set_addr e (frame_start f) fl = Some \<lparr>entry = pa (frame_start f) OR fl\<rparr>"
proof -
  have "PhysAddr_is_aligned (frame_start f) (2 ^ 12) = Some True"
    using PhysAddr_is_aligned_eq [of 12 "frame_start f"] frame_4kib_aligned [OF assms] by simp
  then show ?thesis by (simp add: set_addr_def PhysAddr_as_u64_def)
qed

lemma set_frame_eq:
  "frame_ok S f \<Longrightarrow> set_frame e f fl = Some \<lparr>entry = pa (frame_start f) OR fl\<rparr>"
  by (simp add: set_frame_def PhysFrame_start_address_def set_addr_eq)

lemma set_flags_eq: "set_flags e fl = Some \<lparr>entry = (entry e AND ADDR_MASK) OR fl\<rparr>"
  by (simp add: set_flags_def PhysAddr_as_u64_def entry_addr_def)

lemma mapped_entry:
  assumes "frame_ok S f" and "pure_flags fl"
  defines "e \<equiv> \<lparr>entry = pa (frame_start f) OR fl\<rparr>"
  shows "entry_addr e = frame_start f" "present e \<longleftrightarrow> bit fl 0" "huge e \<longleftrightarrow> bit fl 7"
proof -
  show "entry_addr e = frame_start f"
    using assms frame_start_bits(1) [OF assms(1)]
    by (simp add: entry_addr_def pure_flags_def bit.conj_disj_distrib2)
  show "present e \<longleftrightarrow> bit fl 0" "huge e \<longleftrightarrow> bit fl 7"
    using frame_start_bits(2) [OF assms(1), of 0] frame_start_bits(2) [OF assms(1), of 7]
    by (simp_all add: e_def present_def huge_def bit_simps)
qed

lemma flag_bits:
  fixes e :: PageTableEntry
  defines "g fl \<equiv> \<lparr>entry = (entry e AND ADDR_MASK) OR fl\<rparr>"
  shows "present (g fl) \<longleftrightarrow> bit fl 0" and "huge (g fl) \<longleftrightarrow> bit fl 7"
    and "entry_addr (g fl) = PhysAddr ((entry e OR fl) AND ADDR_MASK)"
  by (simp_all add: g_def present_def huge_def entry_addr_def bit_simps bit_ADDR_MASK
      bit.conj_disj_distrib2 and.assoc)

lemma PageTable_zero_eq:
  assumes "length (entries t) = 512"
  shows "PageTable_zero t = PageTable_new"
proof -
  have "entries (fold (\<lambda>i t. t\<lparr>entries := (entries t)[i := set_unused (entries t ! i)]\<rparr>) [0..<k] t) =
      replicate k PageTableEntry_new @ drop k (entries t)" if "k \<le> 512" for k
    using that
  proof (induction k)
    case (Suc k)
    then show ?case
      using assms by (simp add: list_update_append PageTableEntry_new_def set_unused_def
          replicate_append_same [symmetric] flip: Cons_nth_drop_Suc)
  qed simp
  from this [of 512] assms show ?thesis
    by (simp add: PageTable_zero_def PageTable_new_def ENTRY_COUNT_def)
qed

lemma PageTable_is_empty_eq:
  "length (entries t) = 512 \<Longrightarrow> PageTable_is_empty t \<longleftrightarrow> (\<forall>e\<in>set (entries t). is_unused e)"
  by (auto simp: PageTable_is_empty_def PageTable_iter_def list_all_iff all_set_conv_all_nth)

lemma PageTable_index_eq:
  "length (entries t) = 512 \<Longrightarrow> index_ok i \<Longrightarrow> PageTable_index t i = Some (entries t ! idx i)"
  by (simp add: PageTable_index_def PageTable_index_usize_def index_ok_def)

lemma PageTable_index_mut_eq:
  "length (entries t) = 512 \<Longrightarrow> index_ok i \<Longrightarrow>
    PageTable_index_mut t i e = Some (t\<lparr>entries := (entries t)[idx i := e]\<rparr>)"
  by (simp add: PageTable_index_mut_def PageTable_index_mut_usize_def index_ok_def)

end
