(* ===== verification/Address_Properties.thy ===== *)
theory Address_Properties
  imports Page_Table
begin

text \<open>
  The properties of addresses, pages, frames and page table entries: the canonical form of virtual
  addresses, alignment, stepping over the gap between the halves of the address space, the page
  table indices, and the iterators over page and frame ranges.
\<close>

section \<open>The laws of \<open>Step\<close>\<close>

context step
begin

lemma step_laws:
  assumes "ok a" and "ok b"
  shows "(forward a n = Some (Some b) \<longleftrightarrow> pos b = pos a + unat n) \<and>
    (backward b n = Some (Some a) \<longleftrightarrow> pos b = pos a + unat n) \<and>
    (between a b = (n, Some n) \<longleftrightarrow> pos b = pos a + unat n) \<and>
    forward a n \<noteq> panic \<and> backward a n \<noteq> panic \<and>
    (forward a n = Some (Some b) \<and> forward b m = Some (Some c) \<longrightarrow> forward a (n + m) = Some (Some c))"
proof -
  have "forward a n \<noteq> panic"
    using forward_some [OF assms(1), of n] forward_none [OF assms(1), of n]
    by (cases "pos a + unat n < size_of") auto
  moreover have "backward a n \<noteq> panic"
    using backward_some [OF assms(1), of n] backward_none [OF assms(1), of n]
    by (cases "unat n \<le> pos a") auto
  moreover have "forward a n = Some (Some b) \<longleftrightarrow> pos b = pos a + unat n"
    using assms by (simp add: forward_eq_Some)
  ultimately show ?thesis
    using forward_compose [OF assms(1)] forward_backward [OF assms] forward_between [OF assms] by blast
qed

end

context extern_ok
begin

lemmas addr_steps = addr_step.step_laws
lemmas page_steps = page_step.step_laws

end

section \<open>Virtual addresses\<close>

text \<open>
  C22. \<open>VirtAddr::try_new\<close> accepts exactly the addresses of the two canonical halves and rejects the
  others with the address itself as the error, \<open>VirtAddr::new\<close> panics on exactly those, and
  \<open>new_truncate\<close> always gives the one canonical address with the same lower 48 bits.
\<close>

theorem virt_addr_new_exact:
  "VirtAddr_try_new a =
    (if unat a < 2 ^ 47 \<or> 2 ^ 64 - 2 ^ 47 \<le> unat a then Inr (VirtAddr a) else Inl (VirtAddrNotValid a)) \<and>
   VirtAddr_new a = (if unat a < 2 ^ 47 \<or> 2 ^ 64 - 2 ^ 47 \<le> unat a then Some (VirtAddr a) else panic) \<and>
   (VirtAddr_new_truncate a = v \<longleftrightarrow> canonical v \<and> unat (va v) mod 2 ^ 48 = unat a mod 2 ^ 48)"
proof (intro conjI)
  show "VirtAddr_new_truncate a = v \<longleftrightarrow> canonical v \<and> unat (va v) mod 2 ^ 48 = unat a mod 2 ^ 48"
    using lin_inj [of "VirtAddr_new_truncate a" v] lin_new_truncate [of a] canonical_new_truncate [of a]
    by (auto simp only: lin_def)
qed (simp_all only: try_new_eq VirtAddr_new_eq canonical_iff_unat VirtAddr.sel)

text \<open>
  C19. Stepping: from a canonical address, \<open>forward_checked\<close> by \<open>n\<close> reaches \<open>b\<close> exactly when \<open>b\<close> is
  \<open>n\<close> positions further among the canonical addresses (the gap does not count), which is exactly
  when \<open>backward_checked\<close> by \<open>n\<close> leads back and when \<open>steps_between\<close> reports \<open>n\<close>. The steps never
  panic, and two steps forward are one step by the sum.
\<close>

theorem virt_addr_step_laws:
  assumes "extern_ok X" and "canonical a" and "canonical b"
  shows "(VirtAddr_forward_checked X a n = Some (Some b) \<longleftrightarrow> lin b = lin a + unat n) \<and>
    (VirtAddr_backward_checked X b n = Some (Some a) \<longleftrightarrow> lin b = lin a + unat n) \<and>
    (VirtAddr_steps_between a b = (n, Some n) \<longleftrightarrow> lin b = lin a + unat n) \<and>
    VirtAddr_forward_checked X a n \<noteq> panic \<and> VirtAddr_backward_checked X a n \<noteq> panic \<and>
    (VirtAddr_forward_checked X a n = Some (Some b) \<and> VirtAddr_forward_checked X b m = Some (Some c) \<longrightarrow>
      VirtAddr_forward_checked X a (n + m) = Some (Some c))"
  using extern_ok.addr_steps [OF assms] .

theorem virt_addr_step_laws_witness:
  "VirtAddr_forward_checked (std_extern True) (VirtAddr 0x7ffffffffffe) 3 =
    Some (Some (VirtAddr 0xffff800000000001)) \<and>
   VirtAddr_steps_between (VirtAddr 0x7ffffffffffe) (VirtAddr 0xffff800000000001) = (3, Some 3)"
proof -
  let ?a = "VirtAddr 0x7ffffffffffe" and ?b = "VirtAddr 0xffff800000000001"
  have "canonical ?a" "canonical ?b" by (simp_all add: canonical_iff_unat)
  moreover have "lin ?b = lin ?a + unat (3 :: usize)" by (simp add: lin_def)
  ultimately show ?thesis
    using virt_addr_step_laws [OF std_extern_ok, of ?a ?b True 3] by blast
qed

lemma floor_iff:
  fixes r :: nat
  assumes "0 < A"
  shows "r = a div A * A \<longleftrightarrow> A dvd r \<and> r \<le> a \<and> a < r + A"
proof
  assume r: "r = a div A * A"
  have "r + a mod A = a" unfolding r by (rule div_mult_mod_eq)
  moreover have "a mod A < A" using assms by simp
  moreover have "A dvd r" using r by simp
  ultimately show "A dvd r \<and> r \<le> a \<and> a < r + A" by linarith
next
  assume "A dvd r \<and> r \<le> a \<and> a < r + A"
  then obtain q where q: "r = q * A" "q * A \<le> a" "a < Suc q * A"
    by (auto simp: dvd_def mult.commute)
  then have "a div A = q" by (intro div_nat_eqI) (simp_all add: mult.commute)
  with q show "r = a div A * A" by simp
qed

lemma ceil_iff:
  fixes r :: nat
  assumes "0 < A"
  shows "r = (a + (A - 1)) div A * A \<longleftrightarrow> A dvd r \<and> a \<le> r \<and> r < a + A"
  using assms by (auto simp: floor_iff)

lemma ceil_least:
  fixes a :: nat
  assumes "0 < A"
  shows "(\<exists>q. a \<le> q * A \<and> q * A < N) \<longleftrightarrow> (a + (A - 1)) div A * A < N"
proof
  assume "\<exists>q. a \<le> q * A \<and> q * A < N"
  then obtain q where q: "a \<le> q * A" "q * A < N" by blast
  have "(a + (A - 1)) div A < Suc q"
    using q assms by (subst div_less_iff_less_mult) simp_all
  then have "(a + (A - 1)) div A \<le> q" by (simp only: less_Suc_eq_le)
  then have "(a + (A - 1)) div A * A \<le> q * A" by (rule mult_le_mono1)
  also have "\<dots> < N" by (rule q(2))
  finally show "(a + (A - 1)) div A * A < N" .
next
  assume "(a + (A - 1)) div A * A < N"
  moreover have "a \<le> (a + (A - 1)) div A * A"
    using ceil_iff [OF assms, of "(a + (A - 1)) div A * A" a] by (simp only: simp_thms)
  ultimately show "\<exists>q. a \<le> q * A \<and> q * A < N" by blast
qed

lemma power_of_two_pos: "is_power_of_two align \<Longrightarrow> 0 < unat align"
  by (erule is_power_of_twoE) simp

text \<open>
  \<open>align_down\<close> and \<open>align_up\<close> panic on an alignment that is not a power of two. Otherwise
  \<open>align_down\<close> gives the greatest multiple of the alignment that is not above the address, and
  \<open>align_up\<close> the least one that is not below it, panicking exactly when no multiple fits 64 bits.
\<close>

theorem align_exact:
  "(align_down addr align = Some r \<longleftrightarrow> is_power_of_two align \<and>
      unat align dvd unat r \<and> unat r \<le> unat addr \<and> unat addr < unat r + unat align) \<and>
   (align_down addr align = panic \<longleftrightarrow> \<not> is_power_of_two align) \<and>
   (align_up addr align = Some r \<longleftrightarrow> is_power_of_two align \<and>
      unat align dvd unat r \<and> unat addr \<le> unat r \<and> unat r < unat addr + unat align) \<and>
   (align_up addr align = panic \<longleftrightarrow> \<not> (is_power_of_two align \<and>
      (\<exists>q. unat addr \<le> q * unat align \<and> q * unat align < 2 ^ 64)))"
proof (cases "is_power_of_two align")
  case True
  note pos = power_of_two_pos [OF True]
  show ?thesis
    unfolding align_down_eq_Some align_up_eq_Some align_down_None align_up_None
      ceil_iff [OF pos] ceil_least [OF pos] floor_iff [OF pos, of "unat r" "unat addr"]
    by (simp only: True simp_thms not_less)
next
  case False
  then show ?thesis
    by (simp only: align_down_eq_Some align_up_eq_Some align_down_None align_up_None simp_thms)
qed

lemma VirtAddr_align_up_cases:
  assumes a: "canonical a" and k: "k \<le> 47"
  defines "up \<equiv> (lin a + (2 ^ k - 1)) div 2 ^ k * 2 ^ k"
  shows "if up < 2 ^ 48 then \<exists>b. VirtAddr_align_up a (2 ^ k) = Some b \<and> canonical b \<and> lin b = up
    else VirtAddr_align_up a (2 ^ k) = panic"
proof -
  let ?h = "if lin a < 2 ^ 47 then 0 else 2 ^ 64 - 2 ^ 48 :: nat"
  let ?m = "(unat (va a) + (2 ^ k - 1)) div 2 ^ k * 2 ^ k"
  have u: "unat (va a) = lin a + ?h" using canonical_unat [OF a] by simp
  have d: "(2 :: nat) ^ k dvd 2 ^ 47" using k by (rule le_imp_power_dvd)
  moreover have "(2 :: nat) ^ 64 - 2 ^ 48 = 2 ^ 47 * (2 ^ 17 - 2)" by simp
  ultimately have "2 ^ k dvd ?h" by (metis dvd_0_right dvd_mult2)
  then obtain q where "?h = 2 ^ k * q" by (rule dvdE)
  then have q: "?h = q * 2 ^ k" by (simp only: mult.commute)
  have m: "?m = up + ?h"
  proof -
    have "?m = (lin a + (2 ^ k - 1) + q * 2 ^ k) div 2 ^ k * 2 ^ k"
      unfolding u q by (simp only: add_ac)
    also have "\<dots> = up + q * 2 ^ k"
      unfolding up_def using div_mult_self1 [of "2 ^ k" "lin a + (2 ^ k - 1)" q]
      by (simp only: power_not_zero numeral_neq_zero not_False_eq_True add_mult_distrib add.commute)
    finally show ?thesis using q by simp
  qed
  have le: "up \<le> b" if b: "lin a \<le> b" "2 ^ k dvd b" for b
  proof -
    obtain c where c: "b = c * 2 ^ k" using b(2) by (metis dvd_def mult.commute)
    have "lin a \<le> c * 2 ^ k \<and> c * 2 ^ k < Suc b" using b(1) c by simp
    moreover have "(0 :: nat) < 2 ^ k" by simp
    ultimately have "up < Suc b" unfolding up_def using ceil_least by blast
    then show ?thesis by (simp only: less_Suc_eq_le)
  qed
  have p: "is_power_of_two (2 ^ k)" "unat (2 ^ k :: u64) = 2 ^ k"
    using k by (simp_all add: unat_pow2)
  show ?thesis
  proof (cases "?m < 2 ^ 64")
    case True
    then have "align_up (va a) (2 ^ k) \<noteq> panic"
      by (simp only: align_up_None p not_le simp_thms)
    then obtain r where r: "align_up (va a) (2 ^ k) = Some r" by blast
    then have m': "unat r = ?m" by (simp only: align_up_eq_Some p simp_thms)
    have lt: "up < 2 ^ 48"
    proof (cases "lin a < 2 ^ 47")
      case True
      then have "up \<le> 2 ^ 47" using d by (intro le) simp_all
      then show ?thesis by simp
    next
      case False
      with \<open>?m < 2 ^ 64\<close> m show ?thesis by simp
    qed
    have "unat r mod 2 ^ 48 = up"
      using lt mod_high_half [of up] unfolding m' m by (cases "lin a < 2 ^ 47") simp_all
    then have "lin (VirtAddr_new_truncate r) = up" by (simp only: lin_new_truncate)
    with r lt show ?thesis by (simp add: VirtAddr_align_up_def)
  next
    case False
    then have "\<not> lin a < 2 ^ 47" "\<not> up < 2 ^ 48"
      using m le [of "2 ^ 47"] d by (auto split: if_splits)
    moreover have "align_up (va a) (2 ^ k) = panic"
      using False by (simp only: align_up_None p not_less simp_thms)
    ultimately show ?thesis by (simp add: VirtAddr_align_up_def)
  qed
qed

text \<open>
  Aligning a canonical address to a power of two up to \<open>2 ^ 47\<close> rounds its position among the
  canonical addresses: down always succeeds, up panics exactly at the end of the address space and
  steps from the lower half over the gap into the upper half; the result is canonical.
\<close>

theorem virt_addr_align_exact:
  assumes "canonical a" and "k \<le> 47"
  shows "(VirtAddr_align_down a (2 ^ k) = Some b \<longleftrightarrow> canonical b \<and> lin b = lin a div 2 ^ k * 2 ^ k) \<and>
    (VirtAddr_align_up a (2 ^ k) = Some b \<longleftrightarrow>
      canonical b \<and> lin b = (lin a + (2 ^ k - 1)) div 2 ^ k * 2 ^ k) \<and>
    (VirtAddr_align_up a (2 ^ k) = panic \<longleftrightarrow> 2 ^ 48 \<le> (lin a + (2 ^ k - 1)) div 2 ^ k * 2 ^ k) \<and>
    VirtAddr_is_aligned a (2 ^ k) = Some (lin a mod 2 ^ k = 0)"
proof -
  let ?up = "(lin a + (2 ^ k - 1)) div 2 ^ k * 2 ^ k"
  obtain d where "VirtAddr_align_down a (2 ^ k) = Some d" "canonical d" "lin d = lin a div 2 ^ k * 2 ^ k"
    using VirtAddr_align_down_lin [OF assms] by blast
  then have "VirtAddr_align_down a (2 ^ k) = Some b \<longleftrightarrow> canonical b \<and> lin b = lin a div 2 ^ k * 2 ^ k"
    using lin_inj [of d b] by auto
  moreover have "(VirtAddr_align_up a (2 ^ k) = Some b \<longleftrightarrow> canonical b \<and> lin b = ?up) \<and>
      (VirtAddr_align_up a (2 ^ k) = panic \<longleftrightarrow> 2 ^ 48 \<le> ?up)"
  proof (cases "?up < 2 ^ 48")
    case True
    then obtain c where "VirtAddr_align_up a (2 ^ k) = Some c" "canonical c" "lin c = ?up"
      using VirtAddr_align_up_cases [OF assms] by (auto simp only: if_True)
    with True show ?thesis using lin_inj [of c b] by (auto simp only: option.inject option.distinct not_less)
  next
    case False
    then have "VirtAddr_align_up a (2 ^ k) = panic"
      using VirtAddr_align_up_cases [OF assms] by (simp only: if_False)
    with False lin_lt [of b] show ?thesis by (auto simp only: not_less option.distinct)
  qed
  ultimately show ?thesis using VirtAddr_is_aligned_eq [OF assms] by blast
qed

theorem virt_addr_align_exact_witness:
  "VirtAddr_align_up (VirtAddr 0x7fffffffffff) (2 ^ 12) = Some (VirtAddr 0xffff800000000000) \<and>
   VirtAddr_align_up (VirtAddr 0xffffffffffffffff) (2 ^ 12) = panic"
proof -
  let ?a = "VirtAddr 0x7fffffffffff" and ?b = "VirtAddr 0xffff800000000000" and ?t = "VirtAddr 0xffffffffffffffff"
  have "canonical ?a" "canonical ?b" "canonical ?t" by (simp_all add: canonical_iff_unat)
  moreover have "lin ?b = (lin ?a + (2 ^ 12 - 1)) div 2 ^ 12 * 2 ^ 12"
    "2 ^ 48 \<le> (lin ?t + (2 ^ 12 - 1)) div 2 ^ 12 * 2 ^ 12"
    by (simp_all add: lin_def)
  ultimately show ?thesis
    using virt_addr_align_exact [of ?a 12 ?b] virt_addr_align_exact [of ?t 12 ?b]
    by (simp only: simp_thms)
qed

text \<open>
  C23. \<open>VirtAddr + u64\<close> and \<open>VirtAddr - u64\<close> are exact: the result is the canonical address at that
  distance, they undo each other, and they panic exactly when there is no canonical address at that distance. The
  difference of two addresses is their distance, and panics exactly when it is negative.
\<close>

theorem virt_addr_add_sub_exact:
  assumes "canonical a" and "canonical b"
  shows "(VirtAddr_add a n = Some b \<longleftrightarrow> unat (va b) = unat (va a) + unat n) \<and>
    (VirtAddr_sub b n = Some a \<longleftrightarrow> unat (va b) = unat (va a) + unat n) \<and>
    (VirtAddr_sub_addr b a = Some n \<longleftrightarrow> unat (va b) = unat (va a) + unat n) \<and>
    (VirtAddr_add a n = panic \<longleftrightarrow> (\<forall>c. canonical c \<longrightarrow> unat (va c) \<noteq> unat (va a) + unat n)) \<and>
    (VirtAddr_sub a n = panic \<longleftrightarrow> (\<forall>c. canonical c \<longrightarrow> unat (va a) \<noteq> unat (va c) + unat n)) \<and>
    (VirtAddr_sub_addr b a = panic \<longleftrightarrow> unat (va b) < unat (va a))"
proof -
  have "VirtAddr_sub_addr b a = Some n \<longleftrightarrow> unat (va b) = unat (va a) + unat n"
    using unat_sub_no_wrap [of "va a" "va b"]
    by (auto simp: VirtAddr_sub_addr_def VirtAddr_as_u64_def checked_sub_eq_Some word_le_nat_alt
        word_unat_eq_iff)
  moreover have "VirtAddr_add a n = panic \<longleftrightarrow> (\<forall>c. canonical c \<longrightarrow> unat (va c) \<noteq> unat (va a) + unat n)"
    using VirtAddr_add_eq_Some [of a n] by (cases "VirtAddr_add a n") auto
  moreover have "VirtAddr_sub a n = panic \<longleftrightarrow> (\<forall>c. canonical c \<longrightarrow> unat (va a) \<noteq> unat (va c) + unat n)"
    using VirtAddr_sub_eq_Some [of a n] by (cases "VirtAddr_sub a n") auto
  moreover have "VirtAddr_sub_addr b a = panic \<longleftrightarrow> unat (va b) < unat (va a)"
    by (auto simp: VirtAddr_sub_addr_def VirtAddr_as_u64_def checked_sub_def word_le_nat_alt not_le)
  ultimately show ?thesis
    using assms by (simp add: VirtAddr_add_eq_Some VirtAddr_sub_eq_Some)
qed

theorem virt_addr_add_sub_exact_witness:
  "VirtAddr_add (VirtAddr 0x1000) 0x234 = Some (VirtAddr 0x1234) \<and>
   VirtAddr_sub (VirtAddr 0x1234) 0x234 = Some (VirtAddr 0x1000) \<and>
   VirtAddr_sub (VirtAddr 0xffff800000000000) 1 = panic"
proof -
  have c: "canonical (VirtAddr 0x1000)" "canonical (VirtAddr 0x1234)" "canonical (VirtAddr 0xffff800000000000)"
    by (simp_all add: canonical_iff_unat)
  have "unat (va (VirtAddr 0xffff800000000000)) \<noteq> unat (va a) + unat (1 :: u64)" if "canonical a" for a
    using that by (auto simp: canonical_iff_unat)
  with virt_addr_add_sub_exact [OF c(1,2), where n = "0x234"] virt_addr_add_sub_exact [OF c(3,3), where n = 1]
  show ?thesis by simp
qed

section \<open>Pages\<close>

lemma zero_digits:
  fixes x :: nat
  assumes "x mod 2 ^ n = 0" and "a + b \<le> n"
  shows "x div 2 ^ a mod 2 ^ b = 0"
proof -
  obtain q where "x = 2 ^ n * q" using assms(1) by (meson mod_0_imp_dvd dvdE)
  then have "x = 2 ^ a * (2 ^ b * (2 ^ (n - (a + b)) * q))"
    using assms(2) by (simp flip: power_add mult.assoc)
  then show ?thesis by simp
qed

lemma lin_page_indices:
  assumes "page_ok S p"
  shows "lin (page_start p) = idx (Page_p4_index p) * 2 ^ 39 + idx (Page_p3_index p) * 2 ^ 30 +
    (if S = Size1GiB then 0 else idx (Page_p2_index p) * 2 ^ 21) +
    (if S = Size4KiB then idx (Page_p1_index p) * 2 ^ 12 else 0)"
proof -
  let ?a = "page_start p"
  have z: "lin ?a mod 2 ^ size_bits S = 0" using assms by (simp add: page_ok_def)
  have "unat (offset_u16 (VirtAddr_page_offset ?a)) = 0"
    unfolding page_offset_lin using zero_digits [OF z, of 0 12] size_bits_le [of S] by simp
  moreover have "S \<noteq> Size4KiB \<Longrightarrow> idx (VirtAddr_p1_index ?a) = 0"
    unfolding index_lin by (rule zero_digits [OF z]) (cases S; simp)
  moreover have "S = Size1GiB \<Longrightarrow> idx (VirtAddr_p2_index ?a) = 0"
    unfolding index_lin by (rule zero_digits [OF z]) simp
  ultimately show ?thesis
    using lin_indices [of ?a]
    by (simp add: Page_p4_index_def Page_p3_index_def Page_p2_index_def Page_p1_index_def
        Page_start_address_def)
qed

lemma assembled_page_iff:
  assumes r: "\<exists>p. r = Some p \<and> page_ok S p \<and> lin (page_start p) = n"
    and lin: "\<And>p. page_ok S p \<Longrightarrow> lin (page_start p) = n \<longleftrightarrow> I p"
  shows "r = Some p \<longleftrightarrow> page_ok S p \<and> I p"
proof -
  obtain q where q: "r = Some q" "page_ok S q" "lin (page_start q) = n" using r by blast
  have "page_ok S p \<Longrightarrow> lin (page_start p) = n \<Longrightarrow> p = q"
    using q by (intro page_num_inj [of S]) (simp_all add: page_num_def)
  with q lin show ?thesis by auto
qed

lemma indices_iff:
  assumes "index_ok i4" "index_ok i3" "index_ok i2" "index_ok i1" and "page_ok S p"
    and "S = Size1GiB \<Longrightarrow> idx i2 = 0" "S \<noteq> Size4KiB \<Longrightarrow> idx i1 = 0"
  shows "lin (page_start p) = idx i4 * 2 ^ 39 + idx i3 * 2 ^ 30 + idx i2 * 2 ^ 21 + idx i1 * 2 ^ 12 \<longleftrightarrow>
    Page_p4_index p = i4 \<and> Page_p3_index p = i3 \<and> (S \<noteq> Size1GiB \<longrightarrow> Page_p2_index p = i2) \<and>
    (S = Size4KiB \<longrightarrow> Page_p1_index p = i1)" (is "?l \<longleftrightarrow> ?r")
proof
  assume ?l
  from indices_lin [OF this] show ?r
    using assms(1-4) by (simp add: index_ok_def PageTableIndex_eq_iff Page_p4_index_def Page_p3_index_def
        Page_p2_index_def Page_p1_index_def Page_start_address_def)
next
  assume ?r
  then show ?l using lin_page_indices [OF assms(5)] assms(6,7) by (cases S) simp_all
qed

text \<open>
  A page is determined by its page table indices: assembling a 4KiB page from four indices gives
  exactly the page that has those indices, and likewise for 2MiB pages with three indices and 1GiB
  pages with two. Assembling never panics.
\<close>

theorem page_indices_roundtrip:
  assumes "index_ok i4" and "index_ok i3" and "index_ok i2" and "index_ok i1"
  shows "(Page_from_page_table_indices i4 i3 i2 i1 = Some p \<longleftrightarrow> page_ok Size4KiB p \<and>
      Page_p4_index p = i4 \<and> Page_p3_index p = i3 \<and> Page_p2_index p = i2 \<and> Page_p1_index p = i1) \<and>
    (Page_from_page_table_indices_2mib i4 i3 i2 = Some p \<longleftrightarrow> page_ok Size2MiB p \<and>
      Page_p4_index p = i4 \<and> Page_p3_index p = i3 \<and> Page_p2_index p = i2) \<and>
    (Page_from_page_table_indices_1gib i4 i3 = Some p \<longleftrightarrow> page_ok Size1GiB p \<and>
      Page_p4_index p = i4 \<and> Page_p3_index p = i3) \<and>
    Page_from_page_table_indices i4 i3 i2 i1 \<noteq> panic \<and>
    Page_from_page_table_indices_2mib i4 i3 i2 \<noteq> panic \<and> Page_from_page_table_indices_1gib i4 i3 \<noteq> panic"
proof -
  let ?z = "PageTableIndex 0"
  have z: "index_ok ?z" "idx ?z = 0" by (simp_all add: index_ok_def)
  note l4 = from_page_table_indices_lin [OF assms]
  note l2 = from_page_table_indices_2mib_lin [OF assms(1-3)]
  note l1 = from_page_table_indices_1gib_lin [OF assms(1,2)]
  have "Page_from_page_table_indices i4 i3 i2 i1 = Some p \<longleftrightarrow> page_ok Size4KiB p \<and>
      Page_p4_index p = i4 \<and> Page_p3_index p = i3 \<and> Page_p2_index p = i2 \<and> Page_p1_index p = i1"
    by (rule assembled_page_iff [OF l4]) (use indices_iff [OF assms, where S = Size4KiB] in simp)
  moreover have "Page_from_page_table_indices_2mib i4 i3 i2 = Some p \<longleftrightarrow> page_ok Size2MiB p \<and>
      Page_p4_index p = i4 \<and> Page_p3_index p = i3 \<and> Page_p2_index p = i2"
    by (rule assembled_page_iff [OF l2]) (use indices_iff [OF assms(1-3) z(1), where S = Size2MiB] z in simp)
  moreover have "Page_from_page_table_indices_1gib i4 i3 = Some p \<longleftrightarrow> page_ok Size1GiB p \<and>
      Page_p4_index p = i4 \<and> Page_p3_index p = i3"
    by (rule assembled_page_iff [OF l1]) (use indices_iff [OF assms(1,2) z(1) z(1), where S = Size1GiB] z in simp)
  ultimately show ?thesis using l4 l2 l1 by blast
qed

theorem page_indices_roundtrip_witness:
  "\<exists>p. Page_from_page_table_indices (PageTableIndex 256) (PageTableIndex 3) (PageTableIndex 2)
      (PageTableIndex 1) = Some p \<and> Page_p4_index p = PageTableIndex 256 \<and>
    Page_p1_index p = PageTableIndex 1"
proof -
  have "index_ok (PageTableIndex 256)" "index_ok (PageTableIndex 3)" "index_ok (PageTableIndex 2)"
    "index_ok (PageTableIndex 1)"
    by (simp_all add: index_ok_def)
  from page_indices_roundtrip [OF this] show ?thesis by blast
qed

text \<open>
  Stepping over pages of any size follows the laws of \<open>Step\<close>: \<open>forward_checked\<close> by \<open>n\<close> reaches
  exactly the page with the number \<open>n\<close> higher (the gap does not count), \<open>backward_checked\<close> leads
  back, \<open>steps_between\<close> is the distance, none of them panics, and steps add up.
\<close>

theorem page_step_laws:
  assumes "extern_ok X" and "page_ok S p" and "page_ok S q"
  shows "(Page_forward_checked X S p n = Some (Some q) \<longleftrightarrow> page_num S q = page_num S p + unat n) \<and>
    (Page_backward_checked X S q n = Some (Some p) \<longleftrightarrow> page_num S q = page_num S p + unat n) \<and>
    (Page_steps_between S p q = (n, Some n) \<longleftrightarrow> page_num S q = page_num S p + unat n) \<and>
    Page_forward_checked X S p n \<noteq> panic \<and> Page_backward_checked X S p n \<noteq> panic \<and>
    (Page_forward_checked X S p n = Some (Some q) \<and> Page_forward_checked X S q m = Some (Some r) \<longrightarrow>
      Page_forward_checked X S p (n + m) = Some (Some r))"
  using extern_ok.page_steps [OF assms] .

theorem page_step_laws_witness:
  "Page_forward_checked (std_extern True) Size2MiB (Page (VirtAddr 0x7fffffe00000)) 1 =
    Some (Some (Page (VirtAddr 0xffff800000000000)))"
proof -
  let ?p = "Page (VirtAddr 0x7fffffe00000)" and ?q = "Page (VirtAddr 0xffff800000000000)"
  have "page_ok Size2MiB ?p" "page_ok Size2MiB ?q"
    by (simp_all add: page_ok_def canonical_iff_unat lin_def)
  moreover have "page_num Size2MiB ?q = page_num Size2MiB ?p + unat (1 :: usize)"
    by (simp add: page_num_def lin_def)
  ultimately show ?thesis
    using page_step_laws [OF std_extern_ok, of Size2MiB ?p ?q True 1] by blast
qed

section \<open>Page ranges\<close>

lemma page_list:
  assumes "n \<le> 2 ^ (48 - size_bits S)"
  shows "sorted_wrt (<) (map (page_at S) [m..<n])"
    and "set (map (page_at S) [m..<n]) = {p. page_ok S p \<and> m \<le> page_num S p \<and> page_num S p < n}"
proof -
  have at: "page_ok S (page_at S i) \<and> page_num S (page_at S i) = i" if "i < n" for i
    using that assms page_at [of i S] by simp
  have "page_at S i < page_at S j" if "i < j" "j < n" for i j
    using that at [of i] at [of j] page_num_less_iff [of S "page_at S i" "page_at S j"] by simp
  then show "sorted_wrt (<) (map (page_at S) [m..<n])"
    by (auto simp: sorted_wrt_iff_nth_less)
  show "set (map (page_at S) [m..<n]) = {p. page_ok S p \<and> m \<le> page_num S p \<and> page_num S p < n}"
  proof (intro subset_antisym subsetI)
    fix p assume "p \<in> {p. page_ok S p \<and> m \<le> page_num S p \<and> page_num S p < n}"
    then have "p = page_at S (page_num S p)" "page_num S p \<in> set [m..<n]"
      by (simp_all add: page_at_num)
    then show "p \<in> set (map (page_at S) [m..<n])" unfolding set_map by (rule image_eqI)
  qed (use at in auto)
qed

text \<open>
  Iterating a page range whose ends lie in the same half of the address space: the iterator
  returns, in increasing order and each once, exactly the pages from the start up to but not
  including the end, then \<open>None\<close>, without panicking; \<open>len\<close> is their number.
\<close>

theorem page_range_iterates:
  assumes "page_ok S s" and "page_ok S e" and "same_half s e" and "s \<le> e"
  shows "\<exists>ps r. drain (PageRange_next X S) (Suc (page_num S e - page_num S s)) (Page_range s e) =
      Some (ps, r) \<and>
    set ps = {p. page_ok S p \<and> s \<le> p \<and> p < e} \<and> sorted_wrt (<) ps \<and>
    PageRange_len S (Page_range s e) = Some (of_nat (length ps))"
proof -
  let ?r = "Page_range s e"
  have le: "page_num S s \<le> page_num S e" using assms by (simp add: page_num_le_iff)
  have "range_inv S ?r" using assms by (simp add: range_inv_def Page_range_def)
  from page_range_iter.drain_items [OF this, of "Suc (page_num S e - page_num S s)" X]
  obtain r where r: "drain (PageRange_next X S) (Suc (page_num S e - page_num S s)) ?r =
      Some (map (page_at S) [page_num S s..<page_num S e], r)"
    by (auto simp: range_items_def Page_range_def)
  have "page_num S e \<le> 2 ^ (48 - size_bits S)" using page_num_lt [OF assms(2)] by simp
  note ps = page_list [OF this, of "page_num S s"]
  have "{p. page_ok S p \<and> page_num S s \<le> page_num S p \<and> page_num S p < page_num S e} =
      {p. page_ok S p \<and> s \<le> p \<and> p < e}"
    using assms by (auto simp: page_num_le_iff page_num_less_iff)
  moreover have "PageRange_len S ?r = Some (of_nat (page_num S e - page_num S s))"
    using assms le Page_sub_page_eq [OF assms(1-3) le]
    by (auto simp: PageRange_len_def PageRange_is_empty_def Page_range_def not_le)
  ultimately show ?thesis using r ps by auto
qed

theorem page_range_iterates_witness:
  "\<exists>ps r. drain (PageRange_next (std_extern True) Size4KiB) 3
      (Page_range (Page (VirtAddr 0x1000)) (Page (VirtAddr 0x3000))) = Some (ps, r) \<and>
    PageRange_len Size4KiB (Page_range (Page (VirtAddr 0x1000)) (Page (VirtAddr 0x3000))) =
      Some (of_nat (length ps))"
proof -
  let ?s = "Page (VirtAddr 0x1000)" and ?e = "Page (VirtAddr 0x3000)"
  have h: "page_ok Size4KiB ?s" "page_ok Size4KiB ?e" "same_half ?s ?e" "?s \<le> ?e"
    "Suc (page_num Size4KiB ?e - page_num Size4KiB ?s) = 3"
    by (simp_all add: page_ok_def canonical_iff_unat lin_def same_half_def less_eq_Page_def
        less_eq_VirtAddr_def page_num_def)
  from page_range_iterates [OF h(1-4), of "std_extern True", unfolded h(5)] show ?thesis by blast
qed

text \<open>
  C24. Iterating an inclusive page range whose ends lie in the same half and whose end is not the last
  page of the lower half: the iterator returns, in increasing order and each once, exactly the pages
  from the start to the end, also when the end is the last page of the address space.
\<close>

theorem page_range_inclusive_iterates:
  assumes "page_ok S s" and "page_ok S e" and "same_half s e" and "s \<le> e"
    and "lin (page_start e) + 2 ^ size_bits S \<noteq> 2 ^ 47"
  shows "\<exists>ps r. drain (PageRangeInclusive_next X S) (page_num S e - page_num S s + 2)
      (Page_range_inclusive s e) = Some (ps, r) \<and>
    set ps = {p. page_ok S p \<and> s \<le> p \<and> p \<le> e} \<and> sorted_wrt (<) ps"
proof -
  let ?r = "Page_range_inclusive s e" and ?n = "Suc (page_num S e)"
  have le: "page_num S s \<le> page_num S e" using assms by (simp add: page_num_le_iff)
  have "incl_inv S ?r" using assms by (simp add: incl_inv_def Page_range_inclusive_def)
  moreover have items: "incl_items S ?r = map (page_at S) [page_num S s..<?n]"
    by (simp add: incl_items_def Page_range_inclusive_def)
  moreover have "length (incl_items S ?r) < page_num S e - page_num S s + 2"
    unfolding items using le by (simp del: upt_Suc)
  ultimately obtain r where r: "drain (PageRangeInclusive_next X S) (page_num S e - page_num S s + 2) ?r =
      Some (map (page_at S) [page_num S s..<?n], r)"
    using page_range_inclusive_iter.drain_items [of S ?r] by metis
  have "?n \<le> 2 ^ (48 - size_bits S)" using page_num_lt [OF assms(2)] by simp
  note ps = page_list [OF this, of "page_num S s"]
  have "{p. page_ok S p \<and> page_num S s \<le> page_num S p \<and> page_num S p < ?n} =
      {p. page_ok S p \<and> s \<le> p \<and> p \<le> e}"
    using assms by (auto simp: page_num_le_iff less_Suc_eq_le)
  with r ps show ?thesis by metis
qed

theorem page_range_inclusive_iterates_witness:
  "\<exists>ps r. drain (PageRangeInclusive_next (std_extern True) Size4KiB) 3 (Page_range_inclusive
      (Page (VirtAddr 0xffffffffffffe000)) (Page (VirtAddr 0xfffffffffffff000))) = Some (ps, r) \<and>
    sorted_wrt (<) ps"
proof -
  let ?s = "Page (VirtAddr 0xffffffffffffe000)" and ?e = "Page (VirtAddr 0xfffffffffffff000)"
  have h: "page_ok Size4KiB ?s" "page_ok Size4KiB ?e" "same_half ?s ?e" "?s \<le> ?e"
    "lin (page_start ?e) + 2 ^ size_bits Size4KiB \<noteq> 2 ^ 47"
    "page_num Size4KiB ?e - page_num Size4KiB ?s + 2 = 3"
    by (simp_all add: page_ok_def canonical_iff_unat lin_def same_half_def less_eq_Page_def
        less_eq_VirtAddr_def page_num_def)
  from page_range_inclusive_iterates [OF h(1-5), of "std_extern True", unfolded h(6)] show ?thesis by blast
qed

lemma below_gap: "lin (page_start p) + 2 ^ size_bits S = 2 ^ 47 \<Longrightarrow> lin (page_start p) < 2 ^ 47"
  by (cases S) simp_all

lemma Page_add_at_gap:
  assumes p: "page_ok S p" and l: "lin (page_start p) + 2 ^ size_bits S = 2 ^ 47"
  shows "Page_add X S p 1 = panic"
proof -
  have u: "unat (va (page_start p)) = lin (page_start p)"
    using below_gap [OF l] p by (simp add: canonical_unat)
  have n: "unat (1 :: u64) * 2 ^ size_bits S < 2 ^ 64" by (cases S) simp_all
  have "Page_add X S p 1 \<noteq> Some q" for q
  proof
    assume "Page_add X S p 1 = Some q"
    then have "canonical (page_start q)" "unat (va (page_start q)) = 2 ^ 47"
      unfolding Page_add_eq_Some [OF p n] u l [symmetric] by (simp_all add: page_ok_def)
    then show False by (simp add: canonical_iff_unat)
  qed
  then show ?thesis by (metis not_Some_eq)
qed

text \<open>
  C25. Both iterators panic when they are at the last page of the lower half, in every build: the
  increment leaves the canonical addresses. For an inclusive range this happens even when that page
  is the end of the range, so a range that ends there cannot be iterated to its end.
\<close>

theorem page_ranges_panic_at_lower_half_end:
  assumes "page_ok S s" and "lin (page_start s) + 2 ^ size_bits S = 2 ^ 47"
  shows "(s < e \<longrightarrow> PageRange_next X S (Page_range s e) = panic) \<and>
    (s \<le> e \<longrightarrow> PageRangeInclusive_next X S (Page_range_inclusive s e) = panic)"
proof -
  have "unat (va (page_start s)) < 2 ^ 47"
    using assms(1) below_gap [OF assms(2)] by (simp add: canonical_unat)
  moreover have "2 ^ 47 \<le> unat (- SIZE S)" by (cases S) simp_all
  ultimately have "page_start s < VirtAddr (- SIZE S)"
    by (simp add: less_VirtAddr_def word_less_nat_alt)
  then show ?thesis
    using Page_add_at_gap [OF assms, of X] max_page_addr(1) max_page_addr(2) [of S]
    by (simp add: PageRange_next_def PageRangeInclusive_next_def Page_range_def Page_range_inclusive_def
        Page_add_assign_def Page_start_address_def Let_def)
qed

theorem page_ranges_panic_at_lower_half_end_witness:
  "PageRangeInclusive_next (std_extern False) Size4KiB (Page_range_inclusive
    (Page (VirtAddr 0x7ffffffff000)) (Page (VirtAddr 0x7ffffffff000))) = panic"
proof -
  let ?s = "Page (VirtAddr 0x7ffffffff000)"
  have "page_ok Size4KiB ?s" "lin (page_start ?s) + 2 ^ size_bits Size4KiB = 2 ^ 47"
    by (simp_all add: page_ok_def canonical_iff_unat lin_def)
  from page_ranges_panic_at_lower_half_end [OF this] show ?thesis by blast
qed

section \<open>Frames\<close>

lemma frame_list:
  assumes "n \<le> 2 ^ (52 - size_bits S)"
  shows "sorted_wrt (<) (map (frame_at S) [m..<n])"
    and "set (map (frame_at S) [m..<n]) = {f. frame_ok S f \<and> m \<le> frame_num S f \<and> frame_num S f < n}"
proof -
  have at: "frame_ok S (frame_at S i) \<and> frame_num S (frame_at S i) = i" if "i < n" for i
    using that assms frame_at [of i S] by simp
  have "frame_at S i < frame_at S j" if "i < j" "j < n" for i j
    using that at [of i] at [of j] frame_num_less_iff [of S "frame_at S i" "frame_at S j"] by simp
  then show "sorted_wrt (<) (map (frame_at S) [m..<n])"
    by (auto simp: sorted_wrt_iff_nth_less)
  show "set (map (frame_at S) [m..<n]) = {f. frame_ok S f \<and> m \<le> frame_num S f \<and> frame_num S f < n}"
  proof (intro subset_antisym subsetI)
    fix f assume "f \<in> {f. frame_ok S f \<and> m \<le> frame_num S f \<and> frame_num S f < n}"
    then have "f = frame_at S (frame_num S f)" "frame_num S f \<in> set [m..<n]"
      by (simp_all add: frame_at_num)
    then show "f \<in> set (map (frame_at S) [m..<n])" unfolding set_map by (rule image_eqI)
  qed (use at in auto)
qed

lemma PhysFrame_add_last:
  assumes f: "frame_ok S f" and l: "Suc (frame_num S f) = 2 ^ (52 - size_bits S)"
  shows "PhysFrame_add X S f 1 = panic"
proof -
  have "unat (pa (frame_start f)) + 2 ^ size_bits S = Suc (frame_num S f) * 2 ^ size_bits S"
    using f by (simp add: unat_frame_num)
  also have "\<dots> = 2 ^ 52" unfolding l by (rule frame_space [symmetric])
  finally have s: "unat (pa (frame_start f)) + unat (SIZE S) = 2 ^ 52" by (simp only: unat_SIZE)
  have "PhysAddr_add (frame_start f) (SIZE S) \<noteq> Some a" for a
    unfolding PhysAddr_add_eq_Some [OF frame_ok_phys [OF f]] s phys_ok_def by linarith
  then have "PhysAddr_add (frame_start f) (SIZE S) = panic" by (metis not_Some_eq)
  moreover have "mul_op X 1 (SIZE S) = Some (SIZE S)"
    using mul_op_SIZE [of 1 S X] by (cases S) simp_all
  ultimately show ?thesis by (simp add: PhysFrame_add_def PhysFrame_start_address_def)
qed

text \<open>
  Iterating frame ranges: a half-open range returns, in increasing order and each once, exactly
  the frames from the start up to but not including the end; an inclusive one includes the end,
  provided the end is not the last frame of the physical address space.
\<close>

theorem frame_ranges_iterate:
  assumes "frame_ok S s" and "frame_ok S e" and "s \<le> e"
  shows "(\<exists>fs r. drain (PhysFrameRange_next X S) (Suc (frame_num S e - frame_num S s))
      (PhysFrame_range s e) = Some (fs, r) \<and>
      set fs = {f. frame_ok S f \<and> s \<le> f \<and> f < e} \<and> sorted_wrt (<) fs) \<and>
    (Suc (frame_num S e) < 2 ^ (52 - size_bits S) \<longrightarrow>
      (\<exists>fs r. drain (PhysFrameRangeInclusive_next X S) (frame_num S e - frame_num S s + 2)
        (PhysFrame_range_inclusive s e) = Some (fs, r) \<and>
        set fs = {f. frame_ok S f \<and> s \<le> f \<and> f \<le> e} \<and> sorted_wrt (<) fs))"
proof (intro conjI impI)
  let ?r = "PhysFrame_range s e" and ?i = "PhysFrame_range_inclusive s e"
  have le: "frame_num S s \<le> frame_num S e" using assms by (simp add: frame_num_le_iff)
  have lt: "frame_num S e < 2 ^ (52 - size_bits S)" by (rule frame_num_lt [OF assms(2)])
  have inv: "frame_range_inv S ?r" using assms by (simp add: frame_range_inv_def PhysFrame_range_def)
  have items: "frame_range_items S ?r = map (frame_at S) [frame_num S s..<frame_num S e]"
    by (simp add: frame_range_items_def PhysFrame_range_def)
  have len: "length (frame_range_items S ?r) < Suc (frame_num S e - frame_num S s)"
    unfolding items by simp
  have "{f. frame_ok S f \<and> frame_num S s \<le> frame_num S f \<and> frame_num S f < frame_num S e} =
      {f. frame_ok S f \<and> s \<le> f \<and> f < e}"
    using assms by (auto simp: frame_num_le_iff frame_num_less_iff)
  with frame_range_iter.drain_items [OF inv len, of X]
    frame_list [OF less_imp_le [OF lt], of "frame_num S s"]
  show "\<exists>fs r. drain (PhysFrameRange_next X S) (Suc (frame_num S e - frame_num S s)) ?r = Some (fs, r) \<and>
      set fs = {f. frame_ok S f \<and> s \<le> f \<and> f < e} \<and> sorted_wrt (<) fs"
    unfolding items by (metis (no_types, lifting))
  assume l: "Suc (frame_num S e) < 2 ^ (52 - size_bits S)"
  have inv: "frame_incl_inv S ?i"
    using assms l by (simp add: frame_incl_inv_def PhysFrame_range_inclusive_def)
  have items: "frame_incl_items S ?i = map (frame_at S) [frame_num S s..<Suc (frame_num S e)]"
    by (simp add: frame_incl_items_def PhysFrame_range_inclusive_def)
  have len: "length (frame_incl_items S ?i) < frame_num S e - frame_num S s + 2"
    unfolding items using le by (simp del: upt_Suc)
  have "{f. frame_ok S f \<and> frame_num S s \<le> frame_num S f \<and> frame_num S f < Suc (frame_num S e)} =
      {f. frame_ok S f \<and> s \<le> f \<and> f \<le> e}"
    using assms by (auto simp: frame_num_le_iff less_Suc_eq_le)
  with frame_range_inclusive_iter.drain_items [OF inv len, of X]
    frame_list [OF less_imp_le [OF l], of "frame_num S s"]
  show "\<exists>fs r. drain (PhysFrameRangeInclusive_next X S) (frame_num S e - frame_num S s + 2) ?i =
      Some (fs, r) \<and> set fs = {f. frame_ok S f \<and> s \<le> f \<and> f \<le> e} \<and> sorted_wrt (<) fs"
    unfolding items by (metis (no_types, lifting))
qed

theorem frame_ranges_iterate_witness:
  "\<exists>fs r. drain (PhysFrameRangeInclusive_next (std_extern True) Size4KiB) 4 (PhysFrame_range_inclusive
      (PhysFrame (PhysAddr 0x1000)) (PhysFrame (PhysAddr 0x3000))) = Some (fs, r) \<and> sorted_wrt (<) fs"
proof -
  let ?s = "PhysFrame (PhysAddr 0x1000)" and ?e = "PhysFrame (PhysAddr 0x3000)"
  have h: "frame_ok Size4KiB ?s" "frame_ok Size4KiB ?e" "?s \<le> ?e"
    "Suc (frame_num Size4KiB ?e) < 2 ^ (52 - size_bits Size4KiB)"
    "frame_num Size4KiB ?e - frame_num Size4KiB ?s + 2 = 4"
    by (simp_all add: frame_ok_def phys_ok_def less_eq_PhysFrame_def less_eq_PhysAddr_def frame_num_def)
  from frame_ranges_iterate [OF h(1-3), of "std_extern True", unfolded h(5)] h(4) show ?thesis by blast
qed

text \<open>
  An inclusive frame range panics when it reaches the last frame of the physical address space,
  in every build, before it returns that frame: the increment of the start leaves the 52-bit
  addresses. (The page range has a case for its last page; the frame range has none.)
\<close>

theorem frame_range_inclusive_panics_at_last_frame:
  assumes "frame_ok S s" and "Suc (frame_num S s) = 2 ^ (52 - size_bits S)" and "s \<le> e"
  shows "PhysFrameRangeInclusive_next X S (PhysFrame_range_inclusive s e) = panic"
  using assms PhysFrame_add_last [OF assms(1,2), of X]
  by (simp add: PhysFrameRangeInclusive_next_def PhysFrame_range_inclusive_def PhysFrame_add_assign_def Let_def)

theorem frame_range_inclusive_panics_at_last_frame_witness:
  "PhysFrameRangeInclusive_next (std_extern False) Size4KiB (PhysFrame_range_inclusive
    (PhysFrame (PhysAddr 0xffffffffff000)) (PhysFrame (PhysAddr 0xffffffffff000))) = panic"
proof -
  let ?s = "PhysFrame (PhysAddr 0xffffffffff000)"
  have "frame_ok Size4KiB ?s" "Suc (frame_num Size4KiB ?s) = 2 ^ (52 - size_bits Size4KiB)" "?s \<le> ?s"
    by (simp_all add: frame_ok_def phys_ok_def frame_num_def)
  then show ?thesis by (rule frame_range_inclusive_panics_at_last_frame)
qed

section \<open>Page table entries\<close>

text \<open>
  C26. Writing a frame and flags (outside the address bits) into an entry and reading them back: the
  address is the frame's, \<open>frame\<close> gives the frame exactly when \<open>PRESENT\<close> is set, and the flags come
  back unchanged exactly when the frame's address has bits 12 and 51 clear, which are both address
  bits and declared flags. \<open>set_flags\<close> keeps the address.
\<close>

theorem entry_roundtrip:
  assumes "extern_ok X" and "frame_ok S f" and "pure_flags fl" and "pure_flags fl'"
  shows "\<exists>e'. set_frame e f fl = Some e' \<and> PageTableEntry_addr e' = Some (frame_start f) \<and>
    PageTableEntry_frame X e' = Some (if bit fl 0 then Inr f else Inl FrameNotPresent) \<and>
    (PageTableEntry_flags X e' = fl \<longleftrightarrow> \<not> bit (pa (frame_start f)) 12 \<and> \<not> bit (pa (frame_start f)) 51) \<and>
    (\<exists>e''. set_flags e' fl' = Some e'' \<and> PageTableEntry_addr e'' = Some (frame_start f))"
proof -
  let ?a = "pa (frame_start f)"
  let ?e = "\<lparr>entry = ?a OR fl\<rparr> :: PageTableEntry" and ?e' = "\<lparr>entry = ?a OR fl'\<rparr> :: PageTableEntry"
  note m = mapped_entry [OF assms(2,3)] mapped_entry [OF assms(2,4)]
  have bf: "\<not> bit fl n" if "12 \<le> n" "n < 52" for n
    using assms(3) that by (metis pure_flags_def bit_ADDR_MASK bit_and_iff bit_0_eq bot_apply bot_bool_def)
  have ba: "\<not> bit ?a n" if "n < 12 \<or> 52 \<le> n" for n
    using that frame_start_bits(1) [OF assms(2)] by (metis bit_ADDR_MASK bit_and_iff not_le)
  have "PageTableEntry_flags X ?e = fl \<longleftrightarrow> \<not> bit ?a 12 \<and> \<not> bit ?a 51"
  proof
    assume "PageTableEntry_flags X ?e = fl"
    then have "bit ((?a OR fl) AND PageTableFlags_all) n \<longleftrightarrow> bit fl n" for n
      by (simp add: extern_ok.flags_eq [OF assms(1)])
    from this [of 12] this [of 51] show "\<not> bit ?a 12 \<and> \<not> bit ?a 51"
      using bf [of 12] bf [of 51] by (simp add: bit_and_iff bit_or_iff bit_all_flags)
  next
    assume z: "\<not> bit ?a 12 \<and> \<not> bit ?a 51"
    show "PageTableEntry_flags X ?e = fl"
    proof (rule bit_word_eqI)
      fix n :: nat assume n: "n < LENGTH(64)"
      have "n < 13 \<or> 51 \<le> n \<Longrightarrow> \<not> bit ?a n" using z ba [of n] by (cases "n = 12 \<or> n = 51") auto
      then show "bit (PageTableEntry_flags X ?e) n = bit fl n"
        using n bf [of n] by (cases "n < 13 \<or> 51 \<le> n")
          (simp_all add: extern_ok.flags_eq [OF assms(1)] bit_and_iff bit_or_iff bit_all_flags)
    qed
  qed
  moreover have "set_flags ?e fl' = Some ?e'"
    using frame_start_bits(1) [OF assms(2)] assms(3)
    by (simp add: set_flags_eq pure_flags_def bit.conj_disj_distrib2)
  moreover have "PageTableEntry_frame X ?e = Some (if bit fl 0 then Inr f else Inl FrameNotPresent)"
    by (simp add: extern_ok.frame_eq [OF assms(1)] m)
  ultimately show ?thesis
    using m by (simp add: set_frame_eq [OF assms(2)])
qed

theorem entry_roundtrip_witness:
  "\<exists>e'. set_frame PageTableEntry_new (PhysFrame (PhysAddr 0x6000)) 3 = Some e' \<and>
    PageTableEntry_addr e' = Some (PhysAddr 0x6000) \<and>
    PageTableEntry_flags (std_extern True) e' = 3"
proof -
  let ?f = "PhysFrame (PhysAddr 0x6000)"
  have "frame_ok Size4KiB ?f" "pure_flags 3" by (simp_all add: frame_ok_def phys_ok_def pure_flags_def ADDR_MASK_def)
  from entry_roundtrip [OF std_extern_ok this this(2), of PageTableEntry_new True]
  show ?thesis by auto
qed

end
