(* ===== verification/Mapper.thy ===== *)
theory Mapper
  imports Page_Table
begin

text \<open>
  \<open>structures/paging/mapper/mod.rs\<close> and \<open>frame_alloc.rs\<close>: the results and errors of the mapper
  traits, the flush promises, and the provided methods \<open>translate_addr\<close>, \<open>map_to\<close> and
  \<open>identity_map\<close>, which take the required method they call as an argument.

  A mapper changes memory that holds page tables: \<open>mem\<close> gives the table behind each pointer. A
  frame allocator is a function on its own state; its contract (unique unused frames) is
  \<open>allocator_ok\<close>.
\<close>

section \<open>Results and errors\<close>

datatype MappedFrame =
    MappedFrame_Size4KiB PhysFrame
  | MappedFrame_Size2MiB PhysFrame
  | MappedFrame_Size1GiB PhysFrame

fun MappedFrame_start_address :: "MappedFrame \<Rightarrow> PhysAddr" where
  "MappedFrame_start_address (MappedFrame_Size4KiB frame) = frame_start frame"
| "MappedFrame_start_address (MappedFrame_Size2MiB frame) = frame_start frame"
| "MappedFrame_start_address (MappedFrame_Size1GiB frame) = frame_start frame"

fun MappedFrame_size :: "MappedFrame \<Rightarrow> u64" where
  "MappedFrame_size (MappedFrame_Size4KiB _) = SIZE Size4KiB"
| "MappedFrame_size (MappedFrame_Size2MiB _) = SIZE Size2MiB"
| "MappedFrame_size (MappedFrame_Size1GiB _) = SIZE Size1GiB"

datatype TranslateResult =
    Mapped MappedFrame u64 PageTableFlags
  | NotMapped
  | InvalidFrameAddress PhysAddr

datatype MapToError =
    MapTo_FrameAllocationFailed
  | MapTo_ParentEntryHugePage
  | MapTo_PageAlreadyMapped PhysFrame

datatype UnmapError =
    Unmap_ParentEntryHugePage
  | Unmap_PageNotMapped
  | Unmap_InvalidFrameAddress PhysAddr

datatype FlagUpdateError =
    FlagUpdate_PageNotMapped
  | FlagUpdate_ParentEntryHugePage

datatype TranslateError =
    Translate_PageNotMapped
  | Translate_ParentEntryHugePage
  | Translate_InvalidFrameAddress PhysAddr

section \<open>Flush promises\<close>

datatype MapperFlush = MapperFlush (flush_page: Page)

definition MapperFlush_new :: "Page \<Rightarrow> MapperFlush" where
  "MapperFlush_new page = MapperFlush page"

definition MapperFlush_page :: "MapperFlush \<Rightarrow> Page" where
  "MapperFlush_page self = flush_page self"

datatype MapperFlushAll = MapperFlushAll

definition MapperFlushAll_new :: MapperFlushAll where
  "MapperFlushAll_new = MapperFlushAll"

section \<open>Memory and allocation\<close>

type_synonym mem = "u64 \<Rightarrow> PageTable"

type_synonym 'a allocate_frame = "'a \<Rightarrow> PhysFrame option \<times> 'a"

type_synonym 'd deallocate_frame = "'d \<Rightarrow> PhysFrame \<Rightarrow> 'd"

text \<open>
  The safety contract of \<open>FrameAllocator\<close>: \<open>free a\<close> is the set of frames the allocator in state
  \<open>a\<close> may still hand out. An allocated frame is one of them and leaves the set.
\<close>

definition allocator_ok :: "'a allocate_frame \<Rightarrow> ('a \<Rightarrow> PhysFrame set) \<Rightarrow> bool" where
  "allocator_ok alloc free \<longleftrightarrow> (\<forall>a. case alloc a of
     (Some f, a') \<Rightarrow> f \<in> free a \<and> frame_ok Size4KiB f \<and> free a' \<subseteq> free a - {f}
   | (None, a') \<Rightarrow> free a' \<subseteq> free a)"

text \<open>
  The \<open>?\<close> operator on a result with a state: an error is converted and returned with the state it
  left, a value goes to the continuation.
\<close>

definition try_op ::
  "(('e + 'r) \<times> 's) option \<Rightarrow> ('e \<Rightarrow> 'f) \<Rightarrow> ('r \<Rightarrow> 's \<Rightarrow> (('f + 'q) \<times> 's) option) \<Rightarrow>
   (('f + 'q) \<times> 's) option" where
  "try_op r conv k = do {
     (x, s) \<leftarrow> r;
     case x of
       Inl e \<Rightarrow> Some (Inl (conv e), s)
     | Inr v \<Rightarrow> k v s
   }"

text \<open>The \<open>?\<close> operator on a result without a state.\<close>

definition try_pure ::
  "('e + 'r) option \<Rightarrow> ('e \<Rightarrow> 'f) \<Rightarrow> ('r \<Rightarrow> ('f + 'q) option) \<Rightarrow> ('f + 'q) option" where
  "try_pure r conv k = do {
     x \<leftarrow> r;
     case x of
       Inl e \<Rightarrow> Some (Inl (conv e))
     | Inr v \<Rightarrow> k v
   }"

lemma try_op_simps [simp]:
  "try_op None conv k = None"
  "try_op (Some (Inl e, s)) conv k = Some (Inl (conv e), s)"
  "try_op (Some (Inr v, s)) conv k = k v s"
  by (simp_all add: try_op_def)

lemma try_pure_simps [simp]:
  "try_pure None conv k = None"
  "try_pure (Some (Inl e)) conv k = Some (Inl (conv e))"
  "try_pure (Some (Inr v)) conv k = k v"
  by (simp_all add: try_pure_def)

section \<open>Provided methods\<close>

definition translate_addr :: "(VirtAddr \<Rightarrow> TranslateResult option) \<Rightarrow> VirtAddr \<Rightarrow>
    PhysAddr option option" where
  "translate_addr translate addr = do {
     r \<leftarrow> translate addr;
     case r of
       NotMapped \<Rightarrow> Some None
     | InvalidFrameAddress _ \<Rightarrow> Some None
     | Mapped frame offset _ \<Rightarrow> do {
         a \<leftarrow> PhysAddr_add (MappedFrame_start_address frame) offset;
         Some (Some a)
       }
   }"

text \<open>
  The required method is given for one page size: \<open>map_to_with_table_flags page frame flags
  parent_table_flags s\<close> on the state \<open>s\<close> of memory and allocator.
\<close>

type_synonym 's map_method = "Page \<Rightarrow> PhysFrame \<Rightarrow> PageTableFlags \<Rightarrow> PageTableFlags \<Rightarrow> 's \<Rightarrow>
    ((MapToError + MapperFlush) \<times> 's) option"

definition map_to :: "extern \<Rightarrow> 's map_method \<Rightarrow> Page \<Rightarrow> PhysFrame \<Rightarrow> PageTableFlags \<Rightarrow> 's \<Rightarrow>
    ((MapToError + MapperFlush) \<times> 's) option" where
  "map_to X map_to_with_table_flags page frame flags s =
     (let parent_table_flags = bitflags_and X flags
            (bitflags_or X (bitflags_or X PRESENT WRITABLE) USER_ACCESSIBLE)
      in map_to_with_table_flags page frame flags parent_table_flags s)"

definition identity_map :: "extern \<Rightarrow> PageSize \<Rightarrow> 's map_method \<Rightarrow> PhysFrame \<Rightarrow> PageTableFlags \<Rightarrow> 's \<Rightarrow>
    ((MapToError + MapperFlush) \<times> 's) option" where
  "identity_map X S map_to_with_table_flags frame flags s = do {
     a \<leftarrow> VirtAddr_new (PhysAddr_as_u64 (PhysFrame_start_address frame));
     page \<leftarrow> Page_containing_address S a;
     map_to X map_to_with_table_flags page frame flags s
   }"

end
