(* ===== verification/Mapped_Page_Table.thy ===== *)
theory Mapped_Page_Table
  imports Mapper
begin

text \<open>
  \<open>structures/paging/mapper/mapped_page_table.rs\<close>: the page table walker and the mapper that
  reaches each table through a mapping from frames to pointers, for the three page sizes, with
  translation and clean-up.

  A reference to a table is its pointer; a reference to an entry is the pointer of its table and
  the index. An operation on \<open>&mut self\<close> takes the memory and returns it; one that allocates also
  threads the allocator state.
\<close>

section \<open>The walker\<close>

text \<open>
  \<open>frame_to_pointer\<close> is the method of the trait \<open>PageTableFrameMapping\<close>, which a client of the
  crate provides; it may panic.
\<close>

record PageTableWalker =
  page_table_frame_mapping :: "PhysFrame \<Rightarrow> u64 option"

datatype PageTableWalkError = Walk_NotMapped | Walk_MappedToHugePage

datatype PageTableCreateError = Create_MappedToHugePage | Create_FrameAllocationFailed

fun MapToError_from_create :: "PageTableCreateError \<Rightarrow> MapToError" where
  "MapToError_from_create Create_MappedToHugePage = MapTo_ParentEntryHugePage"
| "MapToError_from_create Create_FrameAllocationFailed = MapTo_FrameAllocationFailed"

text \<open>The conversion of the deprecated \<open>HugeFrame\<close> is \<open>unreachable!()\<close>.\<close>

fun WalkError_from_frame :: "FrameError \<Rightarrow> PageTableWalkError option" where
  "WalkError_from_frame HugeFrame = panic"
| "WalkError_from_frame FrameNotPresent = Some Walk_NotMapped"

fun UnmapError_from_walk :: "PageTableWalkError \<Rightarrow> UnmapError" where
  "UnmapError_from_walk Walk_MappedToHugePage = Unmap_ParentEntryHugePage"
| "UnmapError_from_walk Walk_NotMapped = Unmap_PageNotMapped"

fun FlagUpdateError_from_walk :: "PageTableWalkError \<Rightarrow> FlagUpdateError" where
  "FlagUpdateError_from_walk Walk_MappedToHugePage = FlagUpdate_ParentEntryHugePage"
| "FlagUpdateError_from_walk Walk_NotMapped = FlagUpdate_PageNotMapped"

fun TranslateError_from_walk :: "PageTableWalkError \<Rightarrow> TranslateError" where
  "TranslateError_from_walk Walk_MappedToHugePage = Translate_ParentEntryHugePage"
| "TranslateError_from_walk Walk_NotMapped = Translate_PageNotMapped"

definition next_table ::
  "extern \<Rightarrow> PageTableWalker \<Rightarrow> PageTableEntry \<Rightarrow> (PageTableWalkError + u64) option" where
  "next_table X self e =
     (if bitflags_contains X (PageTableEntry_flags X e) HUGE_PAGE
      then Some (Inl Walk_MappedToHugePage)
      else do {
        r \<leftarrow> PageTableEntry_frame X e;
        case r of
          Inl err \<Rightarrow> do { err' \<leftarrow> WalkError_from_frame err; Some (Inl err') }
        | Inr frame \<Rightarrow> do {
            page_table_ptr \<leftarrow> page_table_frame_mapping self frame;
            Some (Inr page_table_ptr)
          }
      })"

definition next_table_mut ::
  "extern \<Rightarrow> PageTableWalker \<Rightarrow> PageTableEntry \<Rightarrow> (PageTableWalkError + u64) option" where
  "next_table_mut X self e =
     (if bitflags_contains X (PageTableEntry_flags X e) HUGE_PAGE
      then Some (Inl Walk_MappedToHugePage)
      else do {
        r \<leftarrow> PageTableEntry_frame X e;
        case r of
          Inl err \<Rightarrow> do { err' \<leftarrow> WalkError_from_frame err; Some (Inl err') }
        | Inr frame \<Rightarrow> do {
            page_table_ptr \<leftarrow> page_table_frame_mapping self frame;
            Some (Inr page_table_ptr)
          }
      })"

text \<open>Reading and writing the entry at an index of the table behind a pointer.\<close>

definition read_entry :: "mem \<Rightarrow> u64 \<Rightarrow> PageTableIndex \<Rightarrow> PageTableEntry option" where
  "read_entry m p i = PageTable_index (m p) i"

definition write_entry :: "mem \<Rightarrow> u64 \<Rightarrow> PageTableIndex \<Rightarrow> PageTableEntry \<Rightarrow> mem option" where
  "write_entry m p i e = do {
     t \<leftarrow> PageTable_index_mut (m p) i e;
     Some (m(p := t))
   }"

definition create_next_table ::
  "extern \<Rightarrow> PageTableWalker \<Rightarrow> 'a allocate_frame \<Rightarrow> u64 \<Rightarrow> PageTableIndex \<Rightarrow> PageTableFlags \<Rightarrow>
   mem \<times> 'a \<Rightarrow> ((PageTableCreateError + u64) \<times> (mem \<times> 'a)) option" where
  "create_next_table X self allocate_frame p i insert_flags s = do {
     let (m, allocator) = s;
     e \<leftarrow> read_entry m p i;
     (err, e, created, allocator) \<leftarrow>
       (if is_unused e then
          (case allocate_frame allocator of
             (Some frame, allocator) \<Rightarrow> do {
               e \<leftarrow> set_frame e frame insert_flags;
               Some (False, e, True, allocator)
             }
           | (None, allocator) \<Rightarrow> Some (True, e, False, allocator))
        else if \<not> bitflags_is_empty X insert_flags \<and>
                \<not> bitflags_contains X (PageTableEntry_flags X e) insert_flags then do {
          e \<leftarrow> set_flags e (bitflags_or X (PageTableEntry_flags X e) insert_flags);
          Some (False, e, False, allocator)
        }
        else Some (False, e, False, allocator));
     if err then Some (Inl Create_FrameAllocationFailed, (m, allocator))
     else do {
       m \<leftarrow> write_entry m p i e;
       r \<leftarrow> next_table_mut X self e;
       case r of
         Inl Walk_MappedToHugePage \<Rightarrow> Some (Inl Create_MappedToHugePage, (m, allocator))
       | Inl Walk_NotMapped \<Rightarrow> panic
       | Inr page_table \<Rightarrow>
           Some (Inr page_table,
             (if created then m(page_table := PageTable_zero (m page_table)) else m, allocator))
     }
   }"

section \<open>The mapper\<close>

record MappedPageTable =
  page_table_walker :: PageTableWalker
  level_4_table :: u64

definition MappedPageTable_new :: "u64 \<Rightarrow> (PhysFrame \<Rightarrow> u64 option) \<Rightarrow> MappedPageTable" where
  "MappedPageTable_new level_4 mapping =
     \<lparr>page_table_walker = \<lparr>page_table_frame_mapping = mapping\<rparr>, level_4_table = level_4\<rparr>"

definition map_to_1gib :: "extern \<Rightarrow> MappedPageTable \<Rightarrow> 'a allocate_frame \<Rightarrow> (mem \<times> 'a) map_method"
where
  "map_to_1gib X self allocate_frame page frame flags parent_table_flags s =
     (let p4 = level_4_table self; W = page_table_walker self in
      try_op (create_next_table X W allocate_frame p4 (Page_p4_index page) parent_table_flags s)
        MapToError_from_create (\<lambda>p3 (m, allocator). do {
          e \<leftarrow> read_entry m p3 (Page_p3_index page);
          if \<not> is_unused e then Some (Inl (MapTo_PageAlreadyMapped frame), (m, allocator))
          else do {
            e \<leftarrow> set_addr e (PhysFrame_start_address frame) (bitflags_or X flags HUGE_PAGE);
            m \<leftarrow> write_entry m p3 (Page_p3_index page) e;
            Some (Inr (MapperFlush_new page), (m, allocator))
          }
        }))"

definition map_to_2mib :: "extern \<Rightarrow> MappedPageTable \<Rightarrow> 'a allocate_frame \<Rightarrow> (mem \<times> 'a) map_method"
where
  "map_to_2mib X self allocate_frame page frame flags parent_table_flags s =
     (let p4 = level_4_table self; W = page_table_walker self in
      try_op (create_next_table X W allocate_frame p4 (Page_p4_index page) parent_table_flags s)
        MapToError_from_create (\<lambda>p3 s.
      try_op (create_next_table X W allocate_frame p3 (Page_p3_index page) parent_table_flags s)
        MapToError_from_create (\<lambda>p2 (m, allocator). do {
          e \<leftarrow> read_entry m p2 (Page_p2_index page);
          if \<not> is_unused e then Some (Inl (MapTo_PageAlreadyMapped frame), (m, allocator))
          else do {
            e \<leftarrow> set_addr e (PhysFrame_start_address frame) (bitflags_or X flags HUGE_PAGE);
            m \<leftarrow> write_entry m p2 (Page_p2_index page) e;
            Some (Inr (MapperFlush_new page), (m, allocator))
          }
        })))"

definition map_to_4kib :: "extern \<Rightarrow> MappedPageTable \<Rightarrow> 'a allocate_frame \<Rightarrow> (mem \<times> 'a) map_method"
where
  "map_to_4kib X self allocate_frame page frame flags parent_table_flags s =
     (let p4 = level_4_table self; W = page_table_walker self in
      try_op (create_next_table X W allocate_frame p4 (Page_p4_index page) parent_table_flags s)
        MapToError_from_create (\<lambda>p3 s.
      try_op (create_next_table X W allocate_frame p3 (Page_p3_index page) parent_table_flags s)
        MapToError_from_create (\<lambda>p2 s.
      try_op (create_next_table X W allocate_frame p2 (Page_p2_index page) parent_table_flags s)
        MapToError_from_create (\<lambda>p1 (m, allocator). do {
          e \<leftarrow> read_entry m p1 (Page_p1_index page);
          if \<not> is_unused e then Some (Inl (MapTo_PageAlreadyMapped frame), (m, allocator))
          else do {
            e \<leftarrow> set_frame e frame flags;
            m \<leftarrow> write_entry m p1 (Page_p1_index page) e;
            Some (Inr (MapperFlush_new page), (m, allocator))
          }
        }))))"

text \<open>\<open>map_to_with_table_flags\<close> of the three instances of \<open>Mapper\<close>.\<close>

fun map_to_with_table_flags ::
  "extern \<Rightarrow> PageSize \<Rightarrow> MappedPageTable \<Rightarrow> 'a allocate_frame \<Rightarrow> (mem \<times> 'a) map_method" where
  "map_to_with_table_flags X Size1GiB = map_to_1gib X"
| "map_to_with_table_flags X Size2MiB = map_to_2mib X"
| "map_to_with_table_flags X Size4KiB = map_to_4kib X"

text \<open>
  \<open>next_table_mut\<close> on the entry at an index, with the \<open>?\<close> operator: the memory is unchanged.
\<close>

definition walk_mut :: "extern \<Rightarrow> PageTableWalker \<Rightarrow> mem \<Rightarrow> u64 \<Rightarrow> PageTableIndex \<Rightarrow>
    ((PageTableWalkError + u64) \<times> mem) option" where
  "walk_mut X W m p i = do {
     e \<leftarrow> read_entry m p i;
     r \<leftarrow> next_table_mut X W e;
     Some (r, m)
   }"

definition unmap_1gib ::
  "extern \<Rightarrow> MappedPageTable \<Rightarrow> Page \<Rightarrow> mem \<Rightarrow> ((UnmapError + PhysFrame \<times> MapperFlush) \<times> mem) option"
where
  "unmap_1gib X self page m =
     (let p4 = level_4_table self; W = page_table_walker self in
      try_op (walk_mut X W m p4 (Page_p4_index page)) UnmapError_from_walk (\<lambda>p3 m. do {
        p3_entry \<leftarrow> read_entry m p3 (Page_p3_index page);
        let flags = PageTableEntry_flags X p3_entry;
        if \<not> bitflags_contains X flags PRESENT then Some (Inl Unmap_PageNotMapped, m)
        else if \<not> bitflags_contains X flags HUGE_PAGE then Some (Inl Unmap_ParentEntryHugePage, m)
        else do {
          a \<leftarrow> PageTableEntry_addr p3_entry;
          r \<leftarrow> PhysFrame_from_start_address Size1GiB a;
          case r of
            Inl AddressNotAligned \<Rightarrow> Some (Inl (Unmap_InvalidFrameAddress a), m)
          | Inr frame \<Rightarrow> do {
              m \<leftarrow> write_entry m p3 (Page_p3_index page) (set_unused p3_entry);
              Some (Inr (frame, MapperFlush_new page), m)
            }
        }
      }))"

definition unmap_2mib ::
  "extern \<Rightarrow> MappedPageTable \<Rightarrow> Page \<Rightarrow> mem \<Rightarrow> ((UnmapError + PhysFrame \<times> MapperFlush) \<times> mem) option"
where
  "unmap_2mib X self page m =
     (let p4 = level_4_table self; W = page_table_walker self in
      try_op (walk_mut X W m p4 (Page_p4_index page)) UnmapError_from_walk (\<lambda>p3 m.
      try_op (walk_mut X W m p3 (Page_p3_index page)) UnmapError_from_walk (\<lambda>p2 m. do {
        p2_entry \<leftarrow> read_entry m p2 (Page_p2_index page);
        let flags = PageTableEntry_flags X p2_entry;
        if \<not> bitflags_contains X flags PRESENT then Some (Inl Unmap_PageNotMapped, m)
        else if \<not> bitflags_contains X flags HUGE_PAGE then Some (Inl Unmap_ParentEntryHugePage, m)
        else do {
          a \<leftarrow> PageTableEntry_addr p2_entry;
          r \<leftarrow> PhysFrame_from_start_address Size2MiB a;
          case r of
            Inl AddressNotAligned \<Rightarrow> Some (Inl (Unmap_InvalidFrameAddress a), m)
          | Inr frame \<Rightarrow> do {
              m \<leftarrow> write_entry m p2 (Page_p2_index page) (set_unused p2_entry);
              Some (Inr (frame, MapperFlush_new page), m)
            }
        }
      })))"

definition unmap_4kib ::
  "extern \<Rightarrow> MappedPageTable \<Rightarrow> Page \<Rightarrow> mem \<Rightarrow> ((UnmapError + PhysFrame \<times> MapperFlush) \<times> mem) option"
where
  "unmap_4kib X self page m =
     (let p4 = level_4_table self; W = page_table_walker self in
      try_op (walk_mut X W m p4 (Page_p4_index page)) UnmapError_from_walk (\<lambda>p3 m.
      try_op (walk_mut X W m p3 (Page_p3_index page)) UnmapError_from_walk (\<lambda>p2 m.
      try_op (walk_mut X W m p2 (Page_p2_index page)) UnmapError_from_walk (\<lambda>p1 m. do {
        p1_entry \<leftarrow> read_entry m p1 (Page_p1_index page);
        r \<leftarrow> PageTableEntry_frame X p1_entry;
        case r of
          Inl FrameNotPresent \<Rightarrow> Some (Inl Unmap_PageNotMapped, m)
        | Inl HugeFrame \<Rightarrow> panic
        | Inr frame \<Rightarrow> do {
            m \<leftarrow> write_entry m p1 (Page_p1_index page) (set_unused p1_entry);
            Some (Inr (frame, MapperFlush_new page), m)
          }
      }))))"

fun unmap ::
  "extern \<Rightarrow> PageSize \<Rightarrow> MappedPageTable \<Rightarrow> Page \<Rightarrow> mem \<Rightarrow>
   ((UnmapError + PhysFrame \<times> MapperFlush) \<times> mem) option" where
  "unmap X Size1GiB = unmap_1gib X"
| "unmap X Size2MiB = unmap_2mib X"
| "unmap X Size4KiB = unmap_4kib X"

definition update_flags_1gib ::
  "extern \<Rightarrow> MappedPageTable \<Rightarrow> Page \<Rightarrow> PageTableFlags \<Rightarrow> mem \<Rightarrow>
   ((FlagUpdateError + MapperFlush) \<times> mem) option" where
  "update_flags_1gib X self page flags m =
     (let p4 = level_4_table self; W = page_table_walker self in
      try_op (walk_mut X W m p4 (Page_p4_index page)) FlagUpdateError_from_walk (\<lambda>p3 m. do {
        e \<leftarrow> read_entry m p3 (Page_p3_index page);
        if is_unused e then Some (Inl FlagUpdate_PageNotMapped, m)
        else do {
          e \<leftarrow> set_flags e (bitflags_or X flags HUGE_PAGE);
          m \<leftarrow> write_entry m p3 (Page_p3_index page) e;
          Some (Inr (MapperFlush_new page), m)
        }
      }))"

definition update_flags_2mib ::
  "extern \<Rightarrow> MappedPageTable \<Rightarrow> Page \<Rightarrow> PageTableFlags \<Rightarrow> mem \<Rightarrow>
   ((FlagUpdateError + MapperFlush) \<times> mem) option" where
  "update_flags_2mib X self page flags m =
     (let p4 = level_4_table self; W = page_table_walker self in
      try_op (walk_mut X W m p4 (Page_p4_index page)) FlagUpdateError_from_walk (\<lambda>p3 m.
      try_op (walk_mut X W m p3 (Page_p3_index page)) FlagUpdateError_from_walk (\<lambda>p2 m. do {
        e \<leftarrow> read_entry m p2 (Page_p2_index page);
        if is_unused e then Some (Inl FlagUpdate_PageNotMapped, m)
        else do {
          e \<leftarrow> set_flags e (bitflags_or X flags HUGE_PAGE);
          m \<leftarrow> write_entry m p2 (Page_p2_index page) e;
          Some (Inr (MapperFlush_new page), m)
        }
      })))"

definition update_flags_4kib ::
  "extern \<Rightarrow> MappedPageTable \<Rightarrow> Page \<Rightarrow> PageTableFlags \<Rightarrow> mem \<Rightarrow>
   ((FlagUpdateError + MapperFlush) \<times> mem) option" where
  "update_flags_4kib X self page flags m =
     (let p4 = level_4_table self; W = page_table_walker self in
      try_op (walk_mut X W m p4 (Page_p4_index page)) FlagUpdateError_from_walk (\<lambda>p3 m.
      try_op (walk_mut X W m p3 (Page_p3_index page)) FlagUpdateError_from_walk (\<lambda>p2 m.
      try_op (walk_mut X W m p2 (Page_p2_index page)) FlagUpdateError_from_walk (\<lambda>p1 m. do {
        e \<leftarrow> read_entry m p1 (Page_p1_index page);
        if is_unused e then Some (Inl FlagUpdate_PageNotMapped, m)
        else do {
          e \<leftarrow> set_flags e flags;
          m \<leftarrow> write_entry m p1 (Page_p1_index page) e;
          Some (Inr (MapperFlush_new page), m)
        }
      }))))"

fun update_flags ::
  "extern \<Rightarrow> PageSize \<Rightarrow> MappedPageTable \<Rightarrow> Page \<Rightarrow> PageTableFlags \<Rightarrow> mem \<Rightarrow>
   ((FlagUpdateError + MapperFlush) \<times> mem) option" where
  "update_flags X Size1GiB = update_flags_1gib X"
| "update_flags X Size2MiB = update_flags_2mib X"
| "update_flags X Size4KiB = update_flags_4kib X"

text \<open>The three instances of \<open>set_flags_p4_entry\<close> have the same body.\<close>

definition set_flags_p4_entry ::
  "MappedPageTable \<Rightarrow> Page \<Rightarrow> PageTableFlags \<Rightarrow> mem \<Rightarrow>
   ((FlagUpdateError + MapperFlushAll) \<times> mem) option" where
  "set_flags_p4_entry self page flags m = do {
     let p4 = level_4_table self;
     p4_entry \<leftarrow> read_entry m p4 (Page_p4_index page);
     if is_unused p4_entry then Some (Inl FlagUpdate_PageNotMapped, m)
     else do {
       e \<leftarrow> set_flags p4_entry flags;
       m \<leftarrow> write_entry m p4 (Page_p4_index page) e;
       Some (Inr MapperFlushAll_new, m)
     }
   }"

text \<open>The bodies of \<open>set_flags_p3_entry\<close> for 2MiB and 4KiB pages are the same.\<close>

fun set_flags_p3_entry ::
  "extern \<Rightarrow> PageSize \<Rightarrow> MappedPageTable \<Rightarrow> Page \<Rightarrow> PageTableFlags \<Rightarrow> mem \<Rightarrow>
   ((FlagUpdateError + MapperFlushAll) \<times> mem) option" where
  "set_flags_p3_entry X Size1GiB self page flags m = Some (Inl FlagUpdate_ParentEntryHugePage, m)"
| "set_flags_p3_entry X _ self page flags m =
     (let p4 = level_4_table self; W = page_table_walker self in
      try_op (walk_mut X W m p4 (Page_p4_index page)) FlagUpdateError_from_walk (\<lambda>p3 m. do {
        p3_entry \<leftarrow> read_entry m p3 (Page_p3_index page);
        if is_unused p3_entry then Some (Inl FlagUpdate_PageNotMapped, m)
        else do {
          e \<leftarrow> set_flags p3_entry flags;
          m \<leftarrow> write_entry m p3 (Page_p3_index page) e;
          Some (Inr MapperFlushAll_new, m)
        }
      }))"

fun set_flags_p2_entry ::
  "extern \<Rightarrow> PageSize \<Rightarrow> MappedPageTable \<Rightarrow> Page \<Rightarrow> PageTableFlags \<Rightarrow> mem \<Rightarrow>
   ((FlagUpdateError + MapperFlushAll) \<times> mem) option" where
  "set_flags_p2_entry X Size1GiB self page flags m = Some (Inl FlagUpdate_ParentEntryHugePage, m)"
| "set_flags_p2_entry X Size2MiB self page flags m = Some (Inl FlagUpdate_ParentEntryHugePage, m)"
| "set_flags_p2_entry X Size4KiB self page flags m =
     (let p4 = level_4_table self; W = page_table_walker self in
      try_op (walk_mut X W m p4 (Page_p4_index page)) FlagUpdateError_from_walk (\<lambda>p3 m.
      try_op (walk_mut X W m p3 (Page_p3_index page)) FlagUpdateError_from_walk (\<lambda>p2 m. do {
        p2_entry \<leftarrow> read_entry m p2 (Page_p2_index page);
        if is_unused p2_entry then Some (Inl FlagUpdate_PageNotMapped, m)
        else do {
          e \<leftarrow> set_flags p2_entry flags;
          m \<leftarrow> write_entry m p2 (Page_p2_index page) e;
          Some (Inr MapperFlushAll_new, m)
        }
      })))"

text \<open>\<open>next_table\<close> on the entry at an index.\<close>

definition walk_ref ::
  "extern \<Rightarrow> PageTableWalker \<Rightarrow> mem \<Rightarrow> u64 \<Rightarrow> PageTableIndex \<Rightarrow> (PageTableWalkError + u64) option" where
  "walk_ref X W m p i = do {
     e \<leftarrow> read_entry m p i;
     next_table X W e
   }"

text \<open>The common end of the three instances of \<open>translate_page\<close>, on the leaf entry.\<close>

definition leaf_frame :: "PageSize \<Rightarrow> PageTableEntry \<Rightarrow> (TranslateError + PhysFrame) option" where
  "leaf_frame S e =
     (if is_unused e then Some (Inl Translate_PageNotMapped)
      else do {
        a \<leftarrow> PageTableEntry_addr e;
        r \<leftarrow> PhysFrame_from_start_address S a;
        case r of
          Inl AddressNotAligned \<Rightarrow> Some (Inl (Translate_InvalidFrameAddress a))
        | Inr frame \<Rightarrow> Some (Inr frame)
      })"

definition translate_page_1gib ::
  "extern \<Rightarrow> MappedPageTable \<Rightarrow> mem \<Rightarrow> Page \<Rightarrow> (TranslateError + PhysFrame) option" where
  "translate_page_1gib X self m page =
     (let p4 = level_4_table self; W = page_table_walker self in
      try_pure (walk_ref X W m p4 (Page_p4_index page)) TranslateError_from_walk (\<lambda>p3. do {
        p3_entry \<leftarrow> read_entry m p3 (Page_p3_index page);
        leaf_frame Size1GiB p3_entry
      }))"

definition translate_page_2mib ::
  "extern \<Rightarrow> MappedPageTable \<Rightarrow> mem \<Rightarrow> Page \<Rightarrow> (TranslateError + PhysFrame) option" where
  "translate_page_2mib X self m page =
     (let p4 = level_4_table self; W = page_table_walker self in
      try_pure (walk_ref X W m p4 (Page_p4_index page)) TranslateError_from_walk (\<lambda>p3.
      try_pure (walk_ref X W m p3 (Page_p3_index page)) TranslateError_from_walk (\<lambda>p2. do {
        p2_entry \<leftarrow> read_entry m p2 (Page_p2_index page);
        leaf_frame Size2MiB p2_entry
      })))"

definition translate_page_4kib ::
  "extern \<Rightarrow> MappedPageTable \<Rightarrow> mem \<Rightarrow> Page \<Rightarrow> (TranslateError + PhysFrame) option" where
  "translate_page_4kib X self m page =
     (let p4 = level_4_table self; W = page_table_walker self in
      try_pure (walk_ref X W m p4 (Page_p4_index page)) TranslateError_from_walk (\<lambda>p3.
      try_pure (walk_ref X W m p3 (Page_p3_index page)) TranslateError_from_walk (\<lambda>p2.
      try_pure (walk_ref X W m p2 (Page_p2_index page)) TranslateError_from_walk (\<lambda>p1. do {
        p1_entry \<leftarrow> read_entry m p1 (Page_p1_index page);
        leaf_frame Size4KiB p1_entry
      }))))"

fun translate_page ::
  "extern \<Rightarrow> PageSize \<Rightarrow> MappedPageTable \<Rightarrow> mem \<Rightarrow> Page \<Rightarrow> (TranslateError + PhysFrame) option" where
  "translate_page X Size1GiB = translate_page_1gib X"
| "translate_page X Size2MiB = translate_page_2mib X"
| "translate_page X Size4KiB = translate_page_4kib X"

definition translate ::
  "extern \<Rightarrow> MappedPageTable \<Rightarrow> mem \<Rightarrow> VirtAddr \<Rightarrow> TranslateResult option" where
  "translate X self m addr = do {
     let p4 = level_4_table self;
     let W = page_table_walker self;
     r4 \<leftarrow> walk_ref X W m p4 (VirtAddr_p4_index addr);
     case r4 of
       Inl Walk_NotMapped \<Rightarrow> Some NotMapped
     | Inl Walk_MappedToHugePage \<Rightarrow> panic
     | Inr p3 \<Rightarrow> do {
         r3 \<leftarrow> walk_ref X W m p3 (VirtAddr_p3_index addr);
         case r3 of
           Inl Walk_NotMapped \<Rightarrow> Some NotMapped
         | Inl Walk_MappedToHugePage \<Rightarrow> do {
             e \<leftarrow> read_entry m p3 (VirtAddr_p3_index addr);
             a \<leftarrow> PageTableEntry_addr e;
             frame \<leftarrow> PhysFrame_containing_address Size1GiB a;
             let offset = VirtAddr_as_u64 addr AND 0x3fffffff;
             Some (Mapped (MappedFrame_Size1GiB frame) offset (PageTableEntry_flags X e))
           }
         | Inr p2 \<Rightarrow> do {
             r2 \<leftarrow> walk_ref X W m p2 (VirtAddr_p2_index addr);
             case r2 of
               Inl Walk_NotMapped \<Rightarrow> Some NotMapped
             | Inl Walk_MappedToHugePage \<Rightarrow> do {
                 e \<leftarrow> read_entry m p2 (VirtAddr_p2_index addr);
                 a \<leftarrow> PageTableEntry_addr e;
                 frame \<leftarrow> PhysFrame_containing_address Size2MiB a;
                 let offset = VirtAddr_as_u64 addr AND 0x1fffff;
                 Some (Mapped (MappedFrame_Size2MiB frame) offset (PageTableEntry_flags X e))
               }
             | Inr p1 \<Rightarrow> do {
                 p1_entry \<leftarrow> read_entry m p1 (VirtAddr_p1_index addr);
                 if is_unused p1_entry then Some NotMapped
                 else do {
                   a \<leftarrow> PageTableEntry_addr p1_entry;
                   r \<leftarrow> PhysFrame_from_start_address Size4KiB a;
                   case r of
                     Inl AddressNotAligned \<Rightarrow> Some (InvalidFrameAddress a)
                   | Inr frame \<Rightarrow>
                       Some (Mapped (MappedFrame_Size4KiB frame)
                         (u64_from_offset (VirtAddr_page_offset addr))
                         (PageTableEntry_flags X p1_entry))
                 }
               }
           }
       }
   }"

section \<open>Clean-up\<close>

text \<open>A \<open>for\<close> loop over a list of indices; the body may panic.\<close>

fun for_each :: "nat list \<Rightarrow> (nat \<Rightarrow> 's \<Rightarrow> 's option) \<Rightarrow> 's \<Rightarrow> 's option" where
  "for_each [] body s = Some s"
| "for_each (i # is) body s = do { s \<leftarrow> body i s; for_each is body s }"

text \<open>
  The inner function \<open>clean_up\<close> of \<open>clean_up_addr_range\<close>. The loop runs over the entries from the
  index of the first page to the index of the last one; \<open>entry\<close> is a reference, so it is read again
  after the recursive call.
\<close>

function clean_up_table ::
  "extern \<Rightarrow> PageTableWalker \<Rightarrow> 'd deallocate_frame \<Rightarrow> PageTableLevel \<Rightarrow> u64 \<Rightarrow> PageRangeInclusive \<Rightarrow>
   mem \<times> 'd \<Rightarrow> (bool \<times> (mem \<times> 'd)) option" where
  "clean_up_table X W deallocate_frame level page_table rng s =
     (if PageRangeInclusive_is_empty rng then Some (False, s)
      else do {
        table_addr \<leftarrow> VirtAddr_align_down (Page_start_address (start_page_incl rng))
                        (table_address_space_alignment level);
        let start = Page_page_table_index (start_page_incl rng) level;
        let end = Page_page_table_index (end_page_incl rng) level;
        (m, d) \<leftarrow> (case next_lower_level level of
            None \<Rightarrow> Some s
          | Some next_level \<Rightarrow>
              (let offset_per_entry = entry_address_space_alignment level in
               for_each [unat (usize_from_index start)..<min 512 (unat (usize_from_index end) + 1)]
                 (\<lambda>i (m, d). do {
                    r \<leftarrow> next_table_mut X W (entries (m page_table) ! i);
                    case r of
                      Inl _ \<Rightarrow> Some (m, d)
                    | Inr next_page_table \<Rightarrow> do {
                        n \<leftarrow> mul_op X offset_per_entry (of_nat i);
                        st \<leftarrow> VirtAddr_forward_checked_impl X table_addr n;
                        start \<leftarrow> st;
                        end \<leftarrow> VirtAddr_add start (offset_per_entry - 1);
                        start \<leftarrow> Page_containing_address Size4KiB start;
                        let start = max start (start_page_incl rng);
                        end \<leftarrow> Page_containing_address Size4KiB end;
                        let end = min end (end_page_incl rng);
                        (empty, (m, d)) \<leftarrow> clean_up_table X W deallocate_frame next_level
                          next_page_table (Page_range_inclusive start end) (m, d);
                        if empty then do {
                          f \<leftarrow> PageTableEntry_frame X (entries (m page_table) ! i);
                          case f of
                            Inl _ \<Rightarrow> panic
                          | Inr frame \<Rightarrow>
                              Some (m(page_table := (m page_table)\<lparr>entries :=
                                      (entries (m page_table))[i := set_unused (entries (m page_table) ! i)]\<rparr>),
                                    deallocate_frame d frame)
                        } else Some (m, d)
                      }
                  }) s));
        Some (list_all is_unused (PageTable_iter (m page_table)), (m, d))
      })"
  by pat_completeness auto

lemma next_lower_level_decreases:
  "next_lower_level level = Some next_level \<Longrightarrow> unat (level_u8 next_level) < unat (level_u8 level)"
  by (cases level) auto

termination clean_up_table
  by (relation "measure (\<lambda>(X, W, dealloc, level, p, rng, s). unat (level_u8 level))")
    (simp_all add: next_lower_level_decreases)

declare clean_up_table.simps [simp del]

definition clean_up_addr_range ::
  "extern \<Rightarrow> MappedPageTable \<Rightarrow> 'd deallocate_frame \<Rightarrow> PageRangeInclusive \<Rightarrow> mem \<times> 'd \<Rightarrow>
   (mem \<times> 'd) option" where
  "clean_up_addr_range X self deallocate_frame rng s = do {
     (_, s) \<leftarrow> clean_up_table X (page_table_walker self) deallocate_frame Four
       (level_4_table self) rng s;
     Some s
   }"

definition clean_up ::
  "extern \<Rightarrow> MappedPageTable \<Rightarrow> 'd deallocate_frame \<Rightarrow> mem \<times> 'd \<Rightarrow> (mem \<times> 'd) option" where
  "clean_up X self deallocate_frame s = do {
     a \<leftarrow> VirtAddr_new 0;
     ra \<leftarrow> Page_from_start_address Size4KiB a;
     b \<leftarrow> VirtAddr_new 0xfffffffffffff000;
     rb \<leftarrow> Page_from_start_address Size4KiB b;
     case (ra, rb) of
       (Inr first_page, Inr last_page) \<Rightarrow>
         clean_up_addr_range X self deallocate_frame
           \<lparr>start_page_incl = first_page, end_page_incl = last_page\<rparr> s
     | _ \<Rightarrow> panic
   }"

end
