(* ===== verification/Table_Tree.thy ===== *)
theory Table_Tree
  imports Mapped_Page_Table "HOL-Library.Sublist"
begin

text \<open>
  The tree of page tables as a specification of the mapper. A table is reached from the level 4
  table by a path of indices (\<open>goto\<close>), and an address is resolved along its four indices
  (\<open>resolve\<close>). The invariant \<open>tree_ok\<close> says that no two paths reach the same table. The lemmas
  give the effect of writing one entry: only paths through that entry are affected.
\<close>

section \<open>Paths\<close>

definition ent :: "mem \<Rightarrow> u64 \<Rightarrow> PageTableIndex \<Rightarrow> PageTableEntry" where
  "ent m p i = entries (m p) ! idx i"

definition child :: "PageTableWalker \<Rightarrow> PageTableEntry \<Rightarrow> u64 option" where
  "child W e = (if present e \<and> \<not> huge e
     then page_table_frame_mapping W (PhysFrame (entry_addr e)) else None)"

fun goto :: "PageTableWalker \<Rightarrow> mem \<Rightarrow> u64 \<Rightarrow> PageTableIndex list \<Rightarrow> PageTableWalkError + u64" where
  "goto W m p [] = Inr p"
| "goto W m p (i # is) =
     (if huge (ent m p i) then Inl Walk_MappedToHugePage
      else case child W (ent m p i) of
             None \<Rightarrow> Inl Walk_NotMapped
           | Some q \<Rightarrow> goto W m q is)"

datatype resolved =
    Unresolved
  | Resolved_Huge nat PageTableEntry
  | Resolved_Leaf PageTableEntry

fun resolve :: "PageTableWalker \<Rightarrow> mem \<Rightarrow> u64 \<Rightarrow> PageTableIndex list \<Rightarrow> resolved" where
  "resolve W m p [] = Unresolved"
| "resolve W m p [i] = (if is_unused (ent m p i) then Unresolved else Resolved_Leaf (ent m p i))"
| "resolve W m p (i # j # is) =
     (if huge (ent m p i) then Resolved_Huge (length (j # is)) (ent m p i)
      else case child W (ent m p i) of
             None \<Rightarrow> Unresolved
           | Some q \<Rightarrow> resolve W m q (j # is))"

abbreviation path_ok :: "PageTableIndex list \<Rightarrow> bool" where
  "path_ok P \<equiv> list_all index_ok P"

definition mem_ok :: "mem \<Rightarrow> bool" where
  "mem_ok m \<longleftrightarrow> (\<forall>p. length (entries (m p)) = 512)"

text \<open>An entry above the last level is unused, a huge page, or leads to a table.\<close>

definition entry_mapped :: "PageTableWalker \<Rightarrow> PageTableEntry \<Rightarrow> bool" where
  "entry_mapped W e \<longleftrightarrow> is_unused e \<or> huge e \<or> child W e \<noteq> None"

definition tree_ok :: "PageTableWalker \<Rightarrow> mem \<Rightarrow> u64 \<Rightarrow> bool" where
  "tree_ok W m root \<longleftrightarrow> mem_ok m \<and>
     (\<forall>P Q q. path_ok P \<longrightarrow> path_ok Q \<longrightarrow> length P \<le> 3 \<longrightarrow> length Q \<le> 3 \<longrightarrow>
        goto W m root P = Inr q \<longrightarrow> goto W m root Q = Inr q \<longrightarrow> P = Q) \<and>
     (\<forall>P q i. path_ok P \<longrightarrow> index_ok i \<longrightarrow> length P \<le> 2 \<longrightarrow> goto W m root P = Inr q \<longrightarrow>
        entry_mapped W (ent m q i)) \<and>
     (\<forall>i. index_ok i \<longrightarrow> \<not> huge (ent m root i))"

lemma tree_ok_mem [simp]: "tree_ok W m root \<Longrightarrow> mem_ok m"
  by (simp add: tree_ok_def)

lemma tree_ok_unique:
  "tree_ok W m root \<Longrightarrow> goto W m root P = Inr q \<Longrightarrow> goto W m root Q = Inr q \<Longrightarrow>
    path_ok P \<Longrightarrow> path_ok Q \<Longrightarrow> length P \<le> 3 \<Longrightarrow> length Q \<le> 3 \<Longrightarrow> P = Q"
  unfolding tree_ok_def by blast

lemma tree_ok_mapped:
  "tree_ok W m root \<Longrightarrow> goto W m root P = Inr q \<Longrightarrow> path_ok P \<Longrightarrow> index_ok i \<Longrightarrow> length P \<le> 2 \<Longrightarrow>
    entry_mapped W (ent m q i)"
  unfolding tree_ok_def by blast

lemma tree_ok_root: "tree_ok W m root \<Longrightarrow> index_ok i \<Longrightarrow> \<not> huge (ent m root i)"
  by (simp add: tree_ok_def)

lemma goto_append: "goto W m p (P @ Q) = (case goto W m p P of Inl e \<Rightarrow> Inl e | Inr q \<Rightarrow> goto W m q Q)"
  by (induction P arbitrary: p) (auto split: option.split)

lemma goto_snoc:
  "goto W m p (P @ [i]) = Inr r \<longleftrightarrow> (\<exists>q. goto W m p P = Inr q \<and> child W (ent m q i) = Some r)"
  by (auto simp: goto_append child_def split: sum.splits option.splits if_splits)

lemma resolve_append:
  "Q \<noteq> [] \<Longrightarrow> goto W m p P = Inr q \<Longrightarrow> resolve W m p (P @ Q) = resolve W m q Q"
proof (induction P arbitrary: p)
  case (Cons i P)
  then obtain j Q' where "P @ Q = j # Q'" by (cases "P @ Q") auto
  with Cons show ?case by (auto split: if_splits option.splits)
qed simp

section \<open>Changing one entry\<close>

text \<open>
  \<open>m'\<close> has the entries of \<open>m\<close> in all tables of the tree, except perhaps the entry \<open>i\<close> of the
  table \<open>q\<close>.
\<close>

definition same_except ::
  "PageTableWalker \<Rightarrow> u64 \<Rightarrow> mem \<Rightarrow> mem \<Rightarrow> u64 \<Rightarrow> PageTableIndex \<Rightarrow> bool" where
  "same_except W root m m' q i \<longleftrightarrow>
     (\<forall>Q p j. path_ok Q \<longrightarrow> length Q \<le> 3 \<longrightarrow> goto W m root Q = Inr p \<longrightarrow> index_ok j \<longrightarrow>
        (p, j) \<noteq> (q, i) \<longrightarrow> ent m' p j = ent m p j)"

lemma same_exceptD:
  "same_except W root m m' q i \<Longrightarrow> goto W m root Q = Inr p \<Longrightarrow> path_ok Q \<Longrightarrow> length Q \<le> 3 \<Longrightarrow>
    index_ok j \<Longrightarrow> p \<noteq> q \<or> j \<noteq> i \<Longrightarrow> ent m' p j = ent m p j"
  unfolding same_except_def by blast

lemma entry_avoided:
  assumes "tree_ok W m root" and "same_except W root m m' q i"
    and P: "goto W m root P = Inr q" "path_ok P" "length P \<le> 3"
    and R: "goto W m root R = Inr p" "path_ok (R @ j # Q)" "length R \<le> 3"
    and "\<not> prefix (P @ [i]) (R @ j # Q)"
  shows "ent m' p j = ent m p j"
proof -
  have "p \<noteq> q \<or> j \<noteq> i"
  proof (rule ccontr)
    assume "\<not> ?thesis"
    then have "p = q" "j = i" by auto
    then have "R = P"
      using tree_ok_unique [OF assms(1) R(1)] P R by simp
    with assms(9) \<open>j = i\<close> show False by simp
  qed
  then show ?thesis
    using same_exceptD [OF assms(2) R(1)] R by simp
qed

lemma goto_avoid_from:
  assumes "tree_ok W m root" and "same_except W root m m' q i"
    and P: "goto W m root P = Inr q" "path_ok P" "length P \<le> 3"
  shows "goto W m root R = Inr p \<Longrightarrow> path_ok (R @ Q) \<Longrightarrow> length (R @ Q) \<le> 4 \<Longrightarrow>
    \<not> prefix (P @ [i]) (R @ Q) \<Longrightarrow> goto W m' p Q = goto W m p Q"
proof (induction Q arbitrary: R p)
  case (Cons j Q)
  have e: "ent m' p j = ent m p j"
    using Cons.prems by (intro entry_avoided [OF assms, of R p j Q]) simp_all
  show ?case
  proof (cases "child W (ent m p j)")
    case None
    with e show ?thesis by simp
  next
    case (Some r)
    then have "goto W m root (R @ [j]) = Inr r"
      using Cons.prems(1) by (simp add: goto_snoc)
    with Cons.IH [of "R @ [j]" r] Cons.prems e Some show ?thesis by simp
  qed
qed simp

lemma resolve_avoid_from:
  assumes "tree_ok W m root" and "same_except W root m m' q i"
    and P: "goto W m root P = Inr q" "path_ok P" "length P \<le> 3"
  shows "goto W m root R = Inr p \<Longrightarrow> path_ok (R @ Q) \<Longrightarrow> length (R @ Q) \<le> 4 \<Longrightarrow>
    \<not> prefix (P @ [i]) (R @ Q) \<Longrightarrow> resolve W m' p Q = resolve W m p Q"
proof (induction Q arbitrary: R p)
  case (Cons j Q)
  have e: "ent m' p j = ent m p j"
    using Cons.prems by (intro entry_avoided [OF assms, of R p j Q]) simp_all
  show ?case
  proof (cases "child W (ent m p j)")
    case None
    with e show ?thesis by (cases Q) simp_all
  next
    case (Some r)
    then have "goto W m root (R @ [j]) = Inr r"
      using Cons.prems(1) by (simp add: goto_snoc)
    with Cons.IH [of "R @ [j]" r] Cons.prems e Some show ?thesis by (cases Q) simp_all
  qed
qed simp

lemmas goto_avoid = goto_avoid_from [OF _ _ _ _ _ goto.simps(1), unfolded append_Nil]
lemmas resolve_avoid = resolve_avoid_from [OF _ _ _ _ _ goto.simps(1), unfolded append_Nil]

lemma not_prefix_shorter: "length Q \<le> length P \<Longrightarrow> \<not> prefix (P @ [i]) Q"
  by (auto dest: prefix_length_le)

text \<open>Writing an entry that leads to the same table, or to no table, keeps all paths.\<close>

lemma goto_same_child:
  assumes t: "tree_ok W m root" and s: "same_except W root m m' q i"
    and P: "goto W m root P = Inr q" "path_ok P" "length P \<le> 3"
    and c: "length P = 3 \<or> child W (ent m' q i) = child W (ent m q i)"
    and Q: "path_ok Q" "length Q \<le> 3"
  shows "goto W m' root Q = Inr r \<longleftrightarrow> goto W m root Q = Inr r"
  using Q
proof (induction Q arbitrary: r rule: rev_induct)
  case (snoc j Q)
  have "child W (ent m' p j) = child W (ent m p j)" if "goto W m root Q = Inr p" for p
  proof (cases "p = q \<and> j = i")
    case True
    then have "Q = P"
      using tree_ok_unique [OF t _ P(1)] that snoc.prems P by simp
    with True c snoc.prems show ?thesis by auto
  next
    case False
    then have "ent m' p j = ent m p j"
      using same_exceptD [OF s that, of j] snoc.prems by auto
    then show ?thesis by simp
  qed
  with snoc show ?case
    by (auto simp: goto_snoc)
qed simp

lemma tree_ok_same_child:
  assumes t: "tree_ok W m root" and s: "same_except W root m m' q i" and "mem_ok m'"
    and P: "goto W m root P = Inr q" "path_ok P" "length P \<le> 3" and "index_ok i"
    and c: "length P = 3 \<or> child W (ent m' q i) = child W (ent m q i)"
    and e: "length P \<le> 2 \<Longrightarrow> entry_mapped W (ent m' q i)" "P = [] \<Longrightarrow> \<not> huge (ent m' q i)"
  shows "tree_ok W m' root"
proof -
  note g = goto_same_child [OF t s P c]
  have "entry_mapped W (ent m' p j)"
    if "path_ok Q" "index_ok j" "length Q \<le> 2" "goto W m' root Q = Inr p" for Q p j
  proof (cases "p = q \<and> j = i")
    case True
    then have "Q = P"
      using tree_ok_unique [OF t _ P(1), of Q] that P g [of Q p] by simp
    with True e that show ?thesis by simp
  next
    case False
    have "goto W m root Q = Inr p" using that g [of Q p] by simp
    with False that show ?thesis
      using same_exceptD [OF s, of Q p j] tree_ok_mapped [OF t, of Q p j] by auto
  qed
  moreover have "\<not> huge (ent m' root j)" if "index_ok j" for j
  proof (cases "root = q \<and> j = i")
    case True
    then have "P = []"
      using tree_ok_unique [OF t _ P(1), of "[]"] P by simp
    with True e show ?thesis by simp
  next
    case False
    then show ?thesis
      using that same_exceptD [OF s, of "[]" root j] tree_ok_root [OF t that] by auto
  qed
  moreover have "Q = R" if "path_ok Q" "path_ok R" "length Q \<le> 3" "length R \<le> 3"
    "goto W m' root Q = Inr p" "goto W m' root R = Inr p" for Q R p
    using that g [of Q p] g [of R p] tree_ok_unique [OF t, of Q p R] by simp
  ultimately show ?thesis
    unfolding tree_ok_def using \<open>mem_ok m'\<close> by blast
qed

text \<open>Such a write to an entry that is no leaf is invisible to \<open>resolve\<close>.\<close>

lemma resolve_same_child:
  assumes t: "tree_ok W m root" and s: "same_except W root m m' q i"
    and P: "goto W m root P = Inr q" "path_ok P" "length P \<le> 2"
    and c: "child W (ent m' q i) = child W (ent m q i)"
    and h: "\<not> huge (ent m q i)" "\<not> huge (ent m' q i)"
  shows "goto W m root R = Inr p \<Longrightarrow> path_ok (R @ Q) \<Longrightarrow> length (R @ Q) = 4 \<Longrightarrow>
    resolve W m' p Q = resolve W m p Q"
proof (induction Q arbitrary: R p)
  case (Cons j Q)
  show ?case
  proof (cases "p = q \<and> j = i")
    case True
    then have "R = P"
      using tree_ok_unique [OF t Cons.prems(1) P(1) [folded conjunct1 [OF True]]] Cons.prems P by simp
    then have "Q \<noteq> []" using Cons.prems P by auto
    then obtain k Q' where Q: "Q = k # Q'" by (cases Q) auto
    show ?thesis
    proof (cases "child W (ent m q i)")
      case None
      with True Q c h show ?thesis by simp
    next
      case (Some r)
      then have "goto W m root (R @ [j]) = Inr r"
        using Cons.prems(1) True by (simp add: goto_snoc)
      with Cons.IH [of "R @ [j]" r] Cons.prems True Q c h Some show ?thesis by simp
    qed
  next
    case False
    then have e: "ent m' p j = ent m p j"
      using same_exceptD [OF s Cons.prems(1), of j] Cons.prems by auto
    show ?thesis
    proof (cases "child W (ent m p j)")
      case None
      with e show ?thesis by (cases Q) simp_all
    next
      case (Some r)
      then have "goto W m root (R @ [j]) = Inr r"
        using Cons.prems(1) by (simp add: goto_snoc)
      with Cons.IH [of "R @ [j]" r] Cons.prems e Some show ?thesis by (cases Q) simp_all
    qed
  qed
qed simp

section \<open>Adding a table\<close>

definition tables :: "PageTableWalker \<Rightarrow> mem \<Rightarrow> u64 \<Rightarrow> u64 set" where
  "tables W m root = {q. \<exists>Q. path_ok Q \<and> length Q \<le> 3 \<and> goto W m root Q = Inr q}"

lemma tablesI: "goto W m root Q = Inr q \<Longrightarrow> path_ok Q \<Longrightarrow> length Q \<le> 3 \<Longrightarrow> q \<in> tables W m root"
  unfolding tables_def by blast

lemma unused_parts: "is_unused e \<Longrightarrow> \<not> present e \<and> \<not> huge e \<and> child W e = None"
  by (simp add: is_unused_def present_def huge_def child_def)

text \<open>
  An unused entry \<open>i\<close> of the table \<open>q\<close> at the path \<open>P\<close> is replaced by one that leads to a fresh table
  \<open>r\<close> with no used entries.
\<close>

definition adds_table :: "PageTableWalker \<Rightarrow> u64 \<Rightarrow> mem \<Rightarrow> mem \<Rightarrow> PageTableIndex list \<Rightarrow> u64 \<Rightarrow>
    PageTableIndex \<Rightarrow> u64 \<Rightarrow> bool" where
  "adds_table W root m m' P q i r \<longleftrightarrow>
     path_ok P \<and> length P \<le> 2 \<and> index_ok i \<and> goto W m root P = Inr q \<and> is_unused (ent m q i) \<and>
     same_except W root m m' q i \<and> r \<notin> tables W m root \<and>
     child W (ent m' q i) = Some r \<and> (\<forall>j. index_ok j \<longrightarrow> is_unused (ent m' r j)) \<and> mem_ok m'"

lemma adds_table_goto:
  assumes t: "tree_ok W m root" and a: "adds_table W root m m' P q i r"
    and Q: "path_ok Q" "length Q \<le> 3"
  shows "goto W m' root Q = Inr p \<longleftrightarrow> goto W m root Q = Inr p \<or> Q = P @ [i] \<and> p = r"
  using Q
proof (induction Q arbitrary: p rule: rev_induct)
  case (snoc j Q)
  have P: "path_ok P" "length P \<le> 3" "goto W m root P = Inr q" "child W (ent m q i) = None"
    and r: "\<And>j. index_ok j \<Longrightarrow> child W (ent m' r j) = None" "child W (ent m' q i) = Some r"
    and s: "same_except W root m m' q i"
    using a unused_parts by (auto simp: adds_table_def)
  have IH: "goto W m' root Q = Inr x \<longleftrightarrow> goto W m root Q = Inr x \<or> Q = P @ [i] \<and> x = r" for x
    using snoc by simp
  have same: "child W (ent m' x j) = child W (ent m x j)"
    if "goto W m root Q = Inr x" "x \<noteq> q \<or> j \<noteq> i" for x
    using same_exceptD [OF s that(1), of j] that snoc.prems by auto
  have qP: "goto W m root Q = Inr q \<longleftrightarrow> Q = P"
    using tree_ok_unique [OF t _ P(3), of Q] P snoc.prems by auto
  have "goto W m' root (Q @ [j]) = Inr p \<longleftrightarrow>
      (\<exists>x. (goto W m root Q = Inr x \<or> Q = P @ [i] \<and> x = r) \<and> child W (ent m' x j) = Some p)"
    by (simp only: goto_snoc IH)
  also have "\<dots> \<longleftrightarrow> (\<exists>x. goto W m root Q = Inr x \<and> child W (ent m' x j) = Some p)"
    using r(1) snoc.prems by auto
  also have "\<dots> \<longleftrightarrow> (\<exists>x. goto W m root Q = Inr x \<and> child W (ent m x j) = Some p) \<or>
      Q = P \<and> j = i \<and> p = r"
    using same qP P(4) r(2) by (metis option.distinct(1) option.inject)
  finally show ?case
    by (auto simp: goto_snoc)
qed simp

lemma adds_table_tables:
  assumes "tree_ok W m root" and "adds_table W root m m' P q i r"
  shows "tables W m' root = insert r (tables W m root)"
proof -
  have "path_ok (P @ [i])" "length (P @ [i]) \<le> 3"
    using assms(2) by (auto simp: adds_table_def)
  then show ?thesis
    using adds_table_goto [OF assms] unfolding tables_def by blast
qed

lemma adds_table_tree_ok:
  assumes t: "tree_ok W m root" and a: "adds_table W root m m' P q i r"
  shows "tree_ok W m' root"
proof -
  note g = adds_table_goto [OF t a]
  have P: "path_ok P" "length P \<le> 2" "goto W m root P = Inr q" "index_ok i"
    and r: "\<And>j. index_ok j \<Longrightarrow> is_unused (ent m' r j)" "child W (ent m' q i) = Some r"
    and s: "same_except W root m m' q i" and fresh: "r \<notin> tables W m root" and mem: "mem_ok m'"
    using a by (auto simp: adds_table_def)
  have notr: "goto W m root Q \<noteq> Inr r" if "path_ok Q" "length Q \<le> 3" for Q
    using fresh that tablesI by blast
  have "entry_mapped W (ent m' p j)"
    if Q: "path_ok Q" "index_ok j" "length Q \<le> 2" "goto W m' root Q = Inr p" for Q p j
  proof (cases "Q = P @ [i] \<and> p = r")
    case True
    with r Q show ?thesis by (simp add: entry_mapped_def)
  next
    case False
    then have m: "goto W m root Q = Inr p" using g [of Q p] Q by auto
    show ?thesis
    proof (cases "p = q \<and> j = i")
      case True
      with r show ?thesis by (simp add: entry_mapped_def)
    next
      case False
      then show ?thesis
        using same_exceptD [OF s m, of j] tree_ok_mapped [OF t m, of j] Q by auto
    qed
  qed
  moreover have "\<not> huge (ent m' root j)" if "index_ok j" for j
  proof (cases "root = q \<and> j = i")
    case True
    with r show ?thesis by (auto simp: child_def split: if_splits)
  next
    case False
    then show ?thesis
      using that same_exceptD [OF s, of "[]" root j] tree_ok_root [OF t that] by auto
  qed
  moreover have "Q = R" if "path_ok Q" "path_ok R" "length Q \<le> 3" "length R \<le> 3"
    "goto W m' root Q = Inr p" "goto W m' root R = Inr p" for Q R p
    using that g [of Q p] g [of R p] tree_ok_unique [OF t, of Q p R] notr by auto
  ultimately show ?thesis
    unfolding tree_ok_def using mem by blast
qed

lemma resolve_empty_table:
  assumes "\<And>j. index_ok j \<Longrightarrow> is_unused (ent m r j)" and "path_ok Q"
  shows "resolve W m r Q = Unresolved"
proof (cases Q)
  case (Cons j Q')
  then have "is_unused (ent m r j)" using assms by simp
  with Cons show ?thesis
    using unused_parts [of "ent m r j" W] by (cases Q') simp_all
qed simp

lemma adds_table_resolve:
  assumes t: "tree_ok W m root" and a: "adds_table W root m m' P q i r"
    and Q: "path_ok Q" "length Q = 4"
  shows "resolve W m' root Q = resolve W m root Q"
proof (cases "prefix (P @ [i]) Q")
  case True
  then obtain R where R: "Q = P @ i # R" by (auto elim: prefixE)
  have P: "path_ok P" "length P \<le> 2" "goto W m root P = Inr q" "is_unused (ent m q i)"
    and r: "\<And>j. index_ok j \<Longrightarrow> is_unused (ent m' r j)" "child W (ent m' q i) = Some r"
    using a by (auto simp: adds_table_def)
  have "R \<noteq> []" using R Q P by auto
  then obtain j R' where j: "R = j # R'" by (cases R) auto
  have "resolve W m root Q = Unresolved"
    using R j P unused_parts [of "ent m q i" W] by (simp add: resolve_append)
  moreover have "goto W m' root P = Inr q"
    using adds_table_goto [OF t a, of P q] P by simp
  then have "resolve W m' root Q = resolve W m' r R"
    using R j r by (simp add: resolve_append) (auto simp: child_def split: if_splits)
  moreover have "resolve W m' r R = Unresolved"
    using r R Q by (intro resolve_empty_table) simp_all
  ultimately show ?thesis by simp
next
  case False
  then show ?thesis
    using a Q by (intro resolve_avoid [OF t, of m' q i P]) (auto simp: adds_table_def)
qed

section \<open>Updating memory\<close>

definition upd :: "mem \<Rightarrow> u64 \<Rightarrow> PageTableIndex \<Rightarrow> PageTableEntry \<Rightarrow> mem" where
  "upd m q i e = m(q := (m q)\<lparr>entries := (entries (m q))[idx i := e]\<rparr>)"

lemma mem_ok_upd [simp]: "mem_ok m \<Longrightarrow> mem_ok (upd m q i e)"
  by (simp add: mem_ok_def upd_def)

lemma ent_upd:
  "mem_ok m \<Longrightarrow> index_ok i \<Longrightarrow> ent (upd m q i e) p j = (if p = q \<and> j = i then e else ent m p j)"
  by (auto simp: ent_def upd_def mem_ok_def index_ok_def PageTableIndex_eq_iff nth_list_update)

lemma ent_upd_same [simp]: "mem_ok m \<Longrightarrow> index_ok i \<Longrightarrow> ent (upd m q i e) q i = e"
  by (simp add: ent_upd)

lemma upd_id: "upd m q i (ent m q i) = m"
  by (auto simp: upd_def ent_def)

lemma same_except_upd: "mem_ok m \<Longrightarrow> index_ok i \<Longrightarrow> same_except W root m (upd m q i e) q i"
  by (auto simp: same_except_def ent_upd)

lemma read_entry_eq: "mem_ok m \<Longrightarrow> index_ok i \<Longrightarrow> read_entry m p i = Some (ent m p i)"
  by (simp add: read_entry_def PageTable_index_eq mem_ok_def ent_def)

lemma write_entry_eq: "mem_ok m \<Longrightarrow> index_ok i \<Longrightarrow> write_entry m p i e = Some (upd m p i e)"
  by (simp add: write_entry_def PageTable_index_mut_eq mem_ok_def upd_def)

lemma next_table_mut_eq: "next_table_mut X W e = next_table X W e"
  by (simp add: next_table_mut_def next_table_def)

context extern_ok
begin

lemma next_table_eq:
  assumes "entry_mapped W e"
  shows "next_table X W e = Some (if huge e then Inl Walk_MappedToHugePage
    else case child W e of None \<Rightarrow> Inl Walk_NotMapped | Some q \<Rightarrow> Inr q)"
  using assms unused_parts [of e W]
  by (auto simp: next_table_def frame_eq entry_mapped_def child_def)

end

end
