(* ===== verification/Mapper_Tree.thy ===== *)
theory Mapper_Tree
  imports Table_Tree
begin

text \<open>
  The mapper operations on a well-formed tree of tables. The state of a mapper and an allocator is
  \<open>good\<close> when the tree is well formed and the allocator owns none of its tables. The lemmas give
  \<open>create_next_table\<close> case by case, compose it along the parents of a page, and rewrite each
  operation of the mapper (for all page sizes at once) to a walk to the parent table followed by one
  step on the leaf entry.
\<close>

section \<open>The state of a mapper and its allocator\<close>

text \<open>
  The frames an allocator may still hand out are mapped, to different pointers, and none of them is
  a table of the tree.
\<close>

definition frames_ok :: "PageTableWalker \<Rightarrow> u64 \<Rightarrow> mem \<Rightarrow> PhysFrame set \<Rightarrow> bool" where
  "frames_ok W root m F \<longleftrightarrow> inj_on (page_table_frame_mapping W) F \<and>
     (\<forall>f\<in>F. \<exists>r. page_table_frame_mapping W f = Some r \<and> r \<notin> tables W m root)"

definition good :: "PageTableWalker \<Rightarrow> u64 \<Rightarrow> ('a \<Rightarrow> PhysFrame set) \<Rightarrow> mem \<times> 'a \<Rightarrow> bool" where
  "good W root free s \<longleftrightarrow> tree_ok W (fst s) root \<and> frames_ok W root (fst s) (free (snd s))"

text \<open>Flags for entries that lead to a table.\<close>

definition table_flags :: "PageTableFlags \<Rightarrow> bool" where
  "table_flags fl \<longleftrightarrow> pure_flags fl \<and> bit fl 0 \<and> \<not> bit fl 7"

lemma allocator_ok_None: "allocator_ok alloc free \<Longrightarrow> alloc a = (None, a') \<Longrightarrow> free a' \<subseteq> free a"
  unfolding allocator_ok_def by (drule spec [of _ a]) simp

lemma allocator_ok_Some:
  "allocator_ok alloc free \<Longrightarrow> alloc a = (Some f, a') \<Longrightarrow>
    f \<in> free a \<and> frame_ok Size4KiB f \<and> free a' \<subseteq> free a - {f}"
  unfolding allocator_ok_def by (drule spec [of _ a]) simp

lemma frames_ok_mono: "frames_ok W root m F \<Longrightarrow> G \<subseteq> F \<Longrightarrow> frames_ok W root m G"
  unfolding frames_ok_def by (meson inj_on_subset subset_eq)

lemma frames_ok_tables:
  "frames_ok W root m F \<Longrightarrow> tables W m' root = tables W m root \<Longrightarrow> frames_ok W root m' F"
  unfolding frames_ok_def by simp

lemma frames_ok_remove:
  assumes F: "frames_ok W root m F" and "f \<in> F" and f: "page_table_frame_mapping W f = Some r"
    and m': "tables W m' root = insert r (tables W m root)"
  shows "frames_ok W root m' (F - {f})"
proof -
  have "page_table_frame_mapping W g \<noteq> Some r" if "g \<in> F - {f}" for g
    using F that assms(2) f unfolding frames_ok_def by (metis Diff_iff inj_onD insertI1)
  with F show ?thesis
    unfolding frames_ok_def m' by (metis DiffD1 inj_on_diff insert_iff)
qed

lemma tables_cong:
  "(\<And>Q q. path_ok Q \<Longrightarrow> length Q \<le> 3 \<Longrightarrow> goto W m' root Q = Inr q \<longleftrightarrow> goto W m root Q = Inr q) \<Longrightarrow>
    tables W m' root = tables W m root"
  unfolding tables_def by blast

section \<open>Adding flags to an entry\<close>

definition add_flags :: "PageTableEntry \<Rightarrow> PageTableFlags \<Rightarrow> PageTableEntry" where
  "add_flags e fl = \<lparr>entry = (entry e AND ADDR_MASK) OR ((entry e AND PageTableFlags_all) OR fl)\<rparr>"

lemma add_flags_parts:
  assumes "pure_flags fl"
  shows "entry_addr (add_flags e fl) = entry_addr e"
    and "present (add_flags e fl) \<longleftrightarrow> present e \<or> bit fl 0"
    and "huge (add_flags e fl) \<longleftrightarrow> huge e \<or> bit fl 7"
proof -
  have "\<not> bit fl n" if "12 \<le> n" "n < 52" for n
    using assms that unfolding pure_flags_def
    by (metis bit_0_eq bit_ADDR_MASK bit_and_iff bot_apply bot_bool_def)
  then have "entry (add_flags e fl) AND ADDR_MASK = entry e AND ADDR_MASK"
    unfolding add_flags_def
    by (intro bit_word_eqI) (auto simp: bit_simps bit_ADDR_MASK bit_all_flags)
  then show "entry_addr (add_flags e fl) = entry_addr e"
    by (simp add: entry_addr_def)
  show "present (add_flags e fl) \<longleftrightarrow> present e \<or> bit fl 0"
    and "huge (add_flags e fl) \<longleftrightarrow> huge e \<or> bit fl 7"
    by (auto simp: add_flags_def present_def huge_def bit_simps bit_ADDR_MASK bit_all_flags)
qed

text \<open>The entry an existing parent entry becomes when the flags \<open>fl\<close> are inserted.\<close>

definition insert_flags :: "PageTableEntry \<Rightarrow> PageTableFlags \<Rightarrow> PageTableEntry" where
  "insert_flags e fl =
     (if fl \<noteq> 0 \<and> (entry e AND PageTableFlags_all) AND fl \<noteq> fl then add_flags e fl else e)"

lemma insert_flags_parts:
  assumes "table_flags fl"
  shows "entry_addr (insert_flags e fl) = entry_addr e" "huge (insert_flags e fl) \<longleftrightarrow> huge e"
    "present e \<Longrightarrow> present (insert_flags e fl)"
  using assms add_flags_parts [of fl e] by (auto simp: insert_flags_def table_flags_def)

lemma child_insert_flags:
  "table_flags fl \<Longrightarrow> huge e \<or> child W e \<noteq> None \<Longrightarrow> child W (insert_flags e fl) = child W e"
  using insert_flags_parts [of fl e] by (auto simp: child_def split: if_splits)

section \<open>\<open>create_next_table\<close>\<close>

context extern_ok
begin

lemma create_existing:
  assumes "mem_ok m" "index_ok i" and e: "\<not> is_unused (ent m q i)" "entry_mapped W (ent m q i)"
    and fl: "table_flags fl"
  shows "create_next_table X W alloc q i fl (m, a) = Some
    (if huge (ent m q i) then Inl Create_MappedToHugePage else Inr (the (child W (ent m q i))),
     (upd m q i (insert_flags (ent m q i) fl), a))"
proof -
  let ?e = "ent m q i" and ?e' = "insert_flags (ent m q i) fl"
  have c: "huge ?e' \<longleftrightarrow> huge ?e" "child W ?e' = child W ?e" "huge ?e \<or> child W ?e \<noteq> None"
    using e fl insert_flags_parts [OF fl, of ?e] child_insert_flags [OF fl, of ?e W]
    by (auto simp: entry_mapped_def)
  then have "entry_mapped W ?e'" by (auto simp: entry_mapped_def)
  then have "next_table_mut X W ?e' =
      Some (if huge ?e then Inl Walk_MappedToHugePage else Inr (the (child W ?e)))"
    using c by (auto simp: next_table_mut_eq next_table_eq)
  then show ?thesis
    using assms by (auto simp: create_next_table_def read_entry_eq write_entry_eq set_flags_eq
        flags_eq insert_flags_def add_flags_def bit.conj_disj_distrib2)
qed

lemma create_fails:
  assumes "mem_ok m" "index_ok i" "is_unused (ent m q i)" "alloc a = (None, a')"
  shows "create_next_table X W alloc q i fl (m, a) = Some (Inl Create_FrameAllocationFailed, (m, a'))"
  using assms by (simp add: create_next_table_def read_entry_eq)

lemma create_new:
  assumes "mem_ok m" "index_ok i" "is_unused (ent m q i)" "alloc a = (Some f, a')"
    and f: "frame_ok Size4KiB f" "page_table_frame_mapping W f = Some r" and fl: "table_flags fl"
  defines "m' \<equiv> (upd m q i \<lparr>entry = pa (frame_start f) OR fl\<rparr>)(r := PageTable_new)"
  shows "create_next_table X W alloc q i fl (m, a) = Some (Inr r, (m', a'))"
    and "child W \<lparr>entry = pa (frame_start f) OR fl\<rparr> = Some r"
proof -
  let ?e = "\<lparr>entry = pa (frame_start f) OR fl\<rparr> :: PageTableEntry"
  show c: "child W ?e = Some r"
    using f fl mapped_entry [of Size4KiB f fl] by (simp add: table_flags_def child_def)
  have "length (entries (upd m q i ?e r)) = 512"
    using mem_ok_upd [OF assms(1)] by (simp add: mem_ok_def)
  moreover have "next_table_mut X W ?e = Some (Inr r)"
    using c by (auto simp: next_table_mut_eq next_table_eq entry_mapped_def child_def split: if_splits)
  ultimately show "create_next_table X W alloc q i fl (m, a) = Some (Inr r, (m', a'))"
    using assms by (simp add: create_next_table_def read_entry_eq write_entry_eq set_frame_eq
        PageTable_zero_eq)
qed

end

section \<open>What creating parent tables keeps\<close>

text \<open>
  \<open>seen_as x y\<close>: the same resolution, up to the flags of a huge page entry.
\<close>

fun seen_as :: "resolved \<Rightarrow> resolved \<Rightarrow> bool" where
  "seen_as (Resolved_Huge n e) (Resolved_Huge k e') \<longleftrightarrow> n = k \<and> entry_addr e = entry_addr e'"
| "seen_as x y \<longleftrightarrow> x = y"

lemma seen_as_refl [simp]: "seen_as x x"
  by (cases x) simp_all

definition same_resolve :: "PageTableWalker \<Rightarrow> u64 \<Rightarrow> mem \<Rightarrow> mem \<Rightarrow> bool" where
  "same_resolve W root m m' \<longleftrightarrow>
     (\<forall>Q. path_ok Q \<longrightarrow> length Q = 4 \<longrightarrow> resolve W m' root Q = resolve W m root Q)"

definition sim_resolve :: "PageTableWalker \<Rightarrow> u64 \<Rightarrow> mem \<Rightarrow> mem \<Rightarrow> bool" where
  "sim_resolve W root m m' \<longleftrightarrow>
     (\<forall>Q. path_ok Q \<longrightarrow> length Q = 4 \<longrightarrow> seen_as (resolve W m root Q) (resolve W m' root Q))"

lemma same_sim: "same_resolve W root m m' \<Longrightarrow> sim_resolve W root m m'"
  by (simp add: same_resolve_def sim_resolve_def)

lemma same_resolve_trans:
  "same_resolve W root m m' \<Longrightarrow> same_resolve W root m' m'' \<Longrightarrow> same_resolve W root m m''"
  by (simp add: same_resolve_def)

lemma same_sim_trans:
  "same_resolve W root m m' \<Longrightarrow> sim_resolve W root m' m'' \<Longrightarrow> sim_resolve W root m m''"
  by (simp add: same_resolve_def sim_resolve_def)

text \<open>The effect of a step that creates or reuses the tables on the path \<open>P\<close>.\<close>

definition created :: "PageTableWalker \<Rightarrow> u64 \<Rightarrow> ('a \<Rightarrow> PhysFrame set) \<Rightarrow> mem \<Rightarrow> PageTableIndex list \<Rightarrow>
    (PageTableCreateError + u64) \<times> (mem \<times> 'a) \<Rightarrow> bool" where
  "created W root free m P res \<longleftrightarrow> good W root free (snd res) \<and>
     (case fst res of
        Inl _ \<Rightarrow> sim_resolve W root m (fst (snd res))
      | Inr r \<Rightarrow> same_resolve W root m (fst (snd res)) \<and> goto W (fst (snd res)) root P = Inr r)"

lemma new_table_adds:
  assumes mem: "mem_ok m" and P: "goto W m root P = Inr q" "path_ok P" "length P \<le> 2"
    and i: "index_ok i" and e: "child W e = Some r" and r: "r \<notin> tables W m root"
    and u: "is_unused (ent m q i)"
  shows "adds_table W root m ((upd m q i e)(r := PageTable_new)) P q i r"
proof -
  let ?m = "(upd m q i e)(r := PageTable_new)"
  have rq: "r \<noteq> q" using r tablesI [OF P(1,2)] P(3) by auto
  have other: "ent ?m p j = ent (upd m q i e) p j" if "p \<noteq> r" for p j
    using that by (simp add: ent_def)
  show ?thesis
    unfolding adds_table_def same_except_def
  proof (intro conjI allI impI)
    show "is_unused (ent ?m r j)" if "index_ok j" for j
      using that by (simp add: ent_def PageTable_new_def ENTRY_COUNT_def index_ok_def
          is_unused_def PageTableEntry_new_def)
    show "mem_ok ?m"
      using mem_ok_upd [OF mem, of q i e]
      by (simp add: mem_ok_def PageTable_new_def ENTRY_COUNT_def)
    show "child W (ent ?m q i) = Some r"
      using rq e mem i by (simp add: other)
    show "ent ?m p j = ent m p j" if "path_ok Q" "length Q \<le> 3" "goto W m root Q = Inr p"
      "index_ok j" "(p, j) \<noteq> (q, i)" for Q p j
    proof -
      have "p \<noteq> r" using that r tablesI by blast
      then have "ent ?m p j = ent (upd m q i e) p j" by (rule other)
      with that(5) mem i show ?thesis by (auto simp: ent_upd)
    qed
  qed (use P i u r in simp_all)
qed

lemma flagged_effects:
  assumes t: "tree_ok W m root" and P: "goto W m root P = Inr q" "path_ok P" "length P \<le> 2"
    and i: "index_ok i" and fl: "table_flags fl" and e: "\<not> is_unused (ent m q i)"
  defines "m' \<equiv> upd m q i (insert_flags (ent m q i) fl)"
  shows "tree_ok W m' root" "tables W m' root = tables W m root"
    "\<And>Q r. path_ok Q \<Longrightarrow> length Q \<le> 3 \<Longrightarrow> goto W m' root Q = Inr r \<longleftrightarrow> goto W m root Q = Inr r"
    "\<not> huge (ent m q i) \<Longrightarrow> same_resolve W root m m'"
proof -
  let ?e = "ent m q i" and ?e' = "insert_flags (ent m q i) fl"
  have em: "entry_mapped W ?e" using tree_ok_mapped [OF t P(1,2) i P(3)] .
  then have c: "huge ?e' \<longleftrightarrow> huge ?e" "child W ?e' = child W ?e"
    using e fl insert_flags_parts [OF fl, of ?e] child_insert_flags [OF fl, of ?e W]
    by (auto simp: entry_mapped_def)
  have s: "same_except W root m m' q i" "ent m' q i = ?e'" "mem_ok m'"
    unfolding m'_def using t i by (simp_all add: same_except_upd)
  have P3: "length P \<le> 3" using P by simp
  show g: "goto W m' root Q = Inr r \<longleftrightarrow> goto W m root Q = Inr r"
    if "path_ok Q" "length Q \<le> 3" for Q r
    using that c s by (intro goto_same_child [OF t s(1) P(1,2) P3]) simp_all
  show "tree_ok W m' root"
  proof (rule tree_ok_same_child [OF t s(1) s(3) P(1,2) P3 i])
    show "entry_mapped W (ent m' q i)"
      using em e c s by (auto simp: entry_mapped_def)
    show "\<not> huge (ent m' q i)" if "P = []"
      using that P(1) c s tree_ok_root [OF t i] by simp
  qed (use c s in simp)
  show "tables W m' root = tables W m root"
    using g by (rule tables_cong)
  show "same_resolve W root m m'" if "\<not> huge ?e"
    unfolding same_resolve_def
    using that c s resolve_same_child [OF t s(1) P, of "[]"] by auto
qed

lemma flagged_huge_resolve:
  assumes t: "tree_ok W m root" and P: "goto W m root P = Inr q" "path_ok P" "length P \<le> 2"
    and i: "index_ok i" and fl: "table_flags fl" and h: "huge (ent m q i)"
  shows "sim_resolve W root m (upd m q i (insert_flags (ent m q i) fl))"
  unfolding sim_resolve_def
proof (intro allI impI)
  let ?m = "upd m q i (insert_flags (ent m q i) fl)"
  fix Q assume Q: "path_ok Q" "length (Q :: PageTableIndex list) = 4"
  have s: "same_except W root m ?m q i"
    using t i by (simp add: same_except_upd)
  have P3: "length P \<le> 3" using P by simp
  show "seen_as (resolve W m root Q) (resolve W ?m root Q)"
  proof (cases "prefix (P @ [i]) Q")
    case True
    then obtain R where R: "Q = P @ i # R" by (auto elim: prefixE)
    with Q P obtain j R' where j: "R = j # R'" by (cases R) auto
    have "goto W ?m root P = goto W m root P"
      using P by (intro goto_avoid [OF t s P(1,2) P3]) (simp_all add: not_prefix_shorter)
    with P R j t i h insert_flags_parts [OF fl, of "ent m q i"] show ?thesis
      by (simp add: resolve_append)
  next
    case False
    then show ?thesis
      using Q resolve_avoid [OF t s P(1,2) P3, of Q] by simp
  qed
qed

context extern_ok
begin

lemma create_next_table_spec:
  assumes al: "allocator_ok alloc free" and g: "good W root free (m, a)"
    and P: "goto W m root P = Inr q" "path_ok P" "length P \<le> 2"
    and i: "index_ok i" and fl: "table_flags fl"
  shows "\<exists>res. create_next_table X W alloc q i fl (m, a) = Some res \<and>
    created W root free m (P @ [i]) res"
proof -
  have t: "tree_ok W m root" and fr: "frames_ok W root m (free a)"
    using g by (simp_all add: good_def)
  have mem: "mem_ok m" using t by (rule tree_ok_mem)
  consider (old) "\<not> is_unused (ent m q i)" | (fail) a' where "is_unused (ent m q i)" "alloc a = (None, a')"
    | (new) f a' where "is_unused (ent m q i)" "alloc a = (Some f, a')"
    by (metis option.exhaust surj_pair)
  then show ?thesis
  proof cases
    case old
    let ?m = "upd m q i (insert_flags (ent m q i) fl)"
    have em: "entry_mapped W (ent m q i)" using tree_ok_mapped [OF t P(1,2) i P(3)] .
    note eff = flagged_effects [OF t P i fl old]
    have "good W root free (?m, a)"
      using eff fr frames_ok_tables by (auto simp: good_def)
    moreover have "goto W ?m root (P @ [i]) = Inr (the (child W (ent m q i)))" if "\<not> huge (ent m q i)"
      using eff(3) [of "P @ [i]"] P i old em that by (auto simp: goto_snoc entry_mapped_def)
    ultimately show ?thesis
      using create_existing [OF mem i old em fl, of alloc a] eff(4) flagged_huge_resolve [OF t P i fl]
      by (auto simp: created_def)
  next
    case fail
    have "free a' \<subseteq> free a"
      using al fail(2) by (rule allocator_ok_None)
    then have "good W root free (m, a')"
      using t frames_ok_mono [OF fr] by (simp add: good_def)
    with fail show ?thesis
      using create_fails [of m i q alloc a a' W fl] mem i same_sim [of W root m m]
      by (auto simp: created_def same_resolve_def)
  next
    case new
    then have f: "f \<in> free a" "frame_ok Size4KiB f" "free a' \<subseteq> free a - {f}"
      using allocator_ok_Some [OF al new(2)] by auto
    then obtain r where r: "page_table_frame_mapping W f = Some r" "r \<notin> tables W m root"
      using fr by (auto simp: frames_ok_def)
    let ?m = "(upd m q i \<lparr>entry = pa (frame_start f) OR fl\<rparr>)(r := PageTable_new)"
    note cn = create_new [of m i q alloc a f a' W r fl, OF mem i new f(2) r(1) fl]
    have "adds_table W root m ?m P q i r"
      using cn(2) r(2) new(1) by (intro new_table_adds [OF mem P i])
    note adds = adds_table_tree_ok [OF t this] adds_table_tables [OF t this]
      adds_table_resolve [OF t this] adds_table_goto [OF t this, of "P @ [i]" r]
    have "good W root free (?m, a')"
      using adds(1) frames_ok_remove [OF fr f(1) r(1) adds(2)] f(3) frames_ok_mono
      by (auto simp: good_def)
    with cn adds(3,4) P i show ?thesis
      by (auto simp: created_def same_resolve_def)
  qed
qed

end

section \<open>Creating all parent tables\<close>

fun create_path :: "extern \<Rightarrow> PageTableWalker \<Rightarrow> 'a allocate_frame \<Rightarrow> u64 \<Rightarrow> PageTableIndex list \<Rightarrow>
    PageTableFlags \<Rightarrow> mem \<times> 'a \<Rightarrow> ((PageTableCreateError + u64) \<times> (mem \<times> 'a)) option" where
  "create_path X W alloc p [] fl s = Some (Inr p, s)"
| "create_path X W alloc p (i # is) fl s =
     try_op (create_next_table X W alloc p i fl s) id (\<lambda>q s. create_path X W alloc q is fl s)"

fun can_allocate :: "'a allocate_frame \<Rightarrow> nat \<Rightarrow> 'a \<Rightarrow> bool" where
  "can_allocate alloc 0 a \<longleftrightarrow> True"
| "can_allocate alloc (Suc n) a \<longleftrightarrow>
     (case alloc a of (None, _) \<Rightarrow> False | (Some _, a') \<Rightarrow> can_allocate alloc n a')"

context extern_ok
begin

lemma create_path_spec:
  assumes al: "allocator_ok alloc free" and fl: "table_flags fl"
  shows "good W root free (m, a) \<Longrightarrow> goto W m root P = Inr p \<Longrightarrow> path_ok (P @ Q) \<Longrightarrow>
    length (P @ Q) \<le> 3 \<Longrightarrow>
    \<exists>res. create_path X W alloc p Q fl (m, a) = Some res \<and> created W root free m (P @ Q) res"
proof (induction Q arbitrary: P p m a)
  case Nil
  then show ?case by (auto simp: created_def same_resolve_def)
next
  case (Cons i Q)
  then obtain x m' a' where x: "create_next_table X W alloc p i fl (m, a) = Some (x, (m', a'))"
      "created W root free m (P @ [i]) (x, (m', a'))"
    using create_next_table_spec [OF al, of W root m a P p i fl] fl by auto
  show ?case
  proof (cases x)
    case (Inl err)
    with x show ?thesis by (simp add: created_def)
  next
    case (Inr r)
    with x have c: "good W root free (m', a')" "same_resolve W root m m'"
        "goto W m' root (P @ [i]) = Inr r"
      by (simp_all add: created_def)
    then obtain res where "create_path X W alloc r Q fl (m', a') = Some res"
        "created W root free m' (P @ i # Q) res"
      using Cons.IH [of m' a' "P @ [i]" r] Cons.prems by auto
    with x Inr c(2) show ?thesis
      using same_resolve_trans same_sim_trans by (auto simp: created_def split: sum.splits)
  qed
qed

end

section \<open>Pages as paths\<close>

fun page_parents :: "PageSize \<Rightarrow> Page \<Rightarrow> PageTableIndex list" where
  "page_parents Size1GiB p = [Page_p4_index p]"
| "page_parents Size2MiB p = [Page_p4_index p, Page_p3_index p]"
| "page_parents Size4KiB p = [Page_p4_index p, Page_p3_index p, Page_p2_index p]"

fun page_leaf :: "PageSize \<Rightarrow> Page \<Rightarrow> PageTableIndex" where
  "page_leaf Size1GiB p = Page_p3_index p"
| "page_leaf Size2MiB p = Page_p2_index p"
| "page_leaf Size4KiB p = Page_p1_index p"

definition page_path :: "PageSize \<Rightarrow> Page \<Rightarrow> PageTableIndex list" where
  "page_path S p = page_parents S p @ [page_leaf S p]"

definition addr_path :: "VirtAddr \<Rightarrow> PageTableIndex list" where
  "addr_path a = [VirtAddr_p4_index a, VirtAddr_p3_index a, VirtAddr_p2_index a, VirtAddr_p1_index a]"

lemma Page_indices_ok [simp]:
  "index_ok (Page_p4_index p)" "index_ok (Page_p3_index p)" "index_ok (Page_p2_index p)"
  "index_ok (Page_p1_index p)"
  by (simp_all add: Page_p4_index_def Page_p3_index_def Page_p2_index_def Page_p1_index_def)

lemma page_path_ok [simp]:
  "path_ok (page_parents S p)" "index_ok (page_leaf S p)" "path_ok (page_path S p)"
  by (cases S; simp add: page_path_def)+

lemma addr_path_ok [simp]: "path_ok (addr_path a)" "length (addr_path a) = 4"
  by (simp_all add: addr_path_def)

lemma length_parents: "1 \<le> length (page_parents S p)" "length (page_parents S p) \<le> 3"
  "length (page_parents S p) = 3 \<longleftrightarrow> S = Size4KiB"
  by (cases S; simp)+

lemma index_eq_iff:
  "VirtAddr_p4_index a = VirtAddr_p4_index b \<longleftrightarrow> lin a div 2 ^ 39 mod 2 ^ 9 = lin b div 2 ^ 39 mod 2 ^ 9"
  "VirtAddr_p3_index a = VirtAddr_p3_index b \<longleftrightarrow> lin a div 2 ^ 30 mod 2 ^ 9 = lin b div 2 ^ 30 mod 2 ^ 9"
  "VirtAddr_p2_index a = VirtAddr_p2_index b \<longleftrightarrow> lin a div 2 ^ 21 mod 2 ^ 9 = lin b div 2 ^ 21 mod 2 ^ 9"
  "VirtAddr_p1_index a = VirtAddr_p1_index b \<longleftrightarrow> lin a div 2 ^ 12 mod 2 ^ 9 = lin b div 2 ^ 12 mod 2 ^ 9"
  by (simp_all only: PageTableIndex_eq_iff index_lin)

lemma div_step: "x div 2 ^ k = y div 2 ^ k \<longleftrightarrow>
    x div 2 ^ (k + 9) = y div 2 ^ (k + 9) \<and> x div 2 ^ k mod 2 ^ 9 = y div 2 ^ k mod 2 ^ 9" for x y :: nat
  by (metis div_mult2_eq div_mult_mod_eq power_add)

lemma lin_div_39: "lin a div 2 ^ 39 mod 2 ^ 9 = lin a div 2 ^ 39"
  using lin_lt [of a] by (simp add: div_less_iff_less_mult)

lemma addr_in_page:
  "prefix (page_path S p) (addr_path a) \<longleftrightarrow>
    lin a div 2 ^ size_bits S = lin (page_start p) div 2 ^ size_bits S"
proof -
  note d = div_step [of "lin a" 30 "lin (page_start p)"] div_step [of "lin a" 21 "lin (page_start p)"]
    div_step [of "lin a" 12 "lin (page_start p)"]
  have "(12 :: nat) + 9 = 21" "(21 :: nat) + 9 = 30" "(30 :: nat) + 9 = 39" by simp_all
  note d = d [unfolded this]
  show ?thesis
    by (cases S; simp only: page_path_def addr_path_def page_parents.simps page_leaf.simps
        append.simps Cons_prefix_Cons Nil_prefix size_bits.simps Page_p4_index_def Page_p3_index_def
        Page_p2_index_def Page_p1_index_def Page_start_address_def index_eq_iff lin_div_39 d)
      metis+
qed

section \<open>Reading\<close>

fun read_resolved :: "extern \<Rightarrow> VirtAddr \<Rightarrow> resolved \<Rightarrow> TranslateResult" where
  "read_resolved X a Unresolved = NotMapped"
| "read_resolved X a (Resolved_Huge n e) =
     (if n = 2
      then Mapped (MappedFrame_Size1GiB (the (PhysFrame_containing_address Size1GiB (entry_addr e))))
             (VirtAddr_as_u64 a AND 0x3fffffff) (PageTableEntry_flags X e)
      else Mapped (MappedFrame_Size2MiB (the (PhysFrame_containing_address Size2MiB (entry_addr e))))
             (VirtAddr_as_u64 a AND 0x1fffff) (PageTableEntry_flags X e))"
| "read_resolved X a (Resolved_Leaf e) =
     Mapped (MappedFrame_Size4KiB (PhysFrame (entry_addr e)))
       (u64_from_offset (VirtAddr_page_offset a)) (PageTableEntry_flags X e)"

lemma from_start_4kib: "PhysFrame_from_start_address Size4KiB (entry_addr e) =
    Some (Inr (PhysFrame (entry_addr e)))"
  using entry_addr_ok(2) [of e] by (simp add: PhysFrame_from_start_address_eq)

context extern_ok
begin

lemma walk_ref_eq:
  assumes "tree_ok W m root" "goto W m root P = Inr p" "path_ok P" "length P \<le> 2" "index_ok i"
  shows "walk_ref X W m p i = Some (if huge (ent m p i) then Inl Walk_MappedToHugePage
    else case child W (ent m p i) of None \<Rightarrow> Inl Walk_NotMapped | Some q \<Rightarrow> Inr q)"
  using assms tree_ok_mapped [OF assms(1-3,5,4)]
  by (simp add: walk_ref_def read_entry_eq next_table_eq)

lemma walk_mut_eq:
  assumes "tree_ok W m root" "goto W m root P = Inr p" "path_ok P" "length P \<le> 2" "index_ok i"
  shows "walk_mut X W m p i = Some (if huge (ent m p i) then Inl Walk_MappedToHugePage
    else case child W (ent m p i) of None \<Rightarrow> Inl Walk_NotMapped | Some q \<Rightarrow> Inr q, m)"
  using assms tree_ok_mapped [OF assms(1-3,5,4)]
  by (simp add: walk_mut_def read_entry_eq next_table_mut_eq next_table_eq)

end

fun walk_then :: "extern \<Rightarrow> PageTableWalker \<Rightarrow> (PageTableWalkError \<Rightarrow> 'e) \<Rightarrow>
    (u64 \<Rightarrow> mem \<Rightarrow> (('e + 'r) \<times> mem) option) \<Rightarrow> mem \<Rightarrow> u64 \<Rightarrow> PageTableIndex list \<Rightarrow>
    (('e + 'r) \<times> mem) option" where
  "walk_then X W conv k m p [] = k p m"
| "walk_then X W conv k m p (i # is) =
     try_op (walk_mut X W m p i) conv (\<lambda>q m. walk_then X W conv k m q is)"

fun walk_ref_then :: "extern \<Rightarrow> PageTableWalker \<Rightarrow> (PageTableWalkError \<Rightarrow> 'e) \<Rightarrow>
    (u64 \<Rightarrow> ('e + 'r) option) \<Rightarrow> mem \<Rightarrow> u64 \<Rightarrow> PageTableIndex list \<Rightarrow> ('e + 'r) option" where
  "walk_ref_then X W conv k m p [] = k p"
| "walk_ref_then X W conv k m p (i # is) =
     try_pure (walk_ref X W m p i) conv (\<lambda>q. walk_ref_then X W conv k m q is)"

context extern_ok
begin

lemma walk_then_eq:
  assumes t: "tree_ok W m root"
  shows "goto W m root P = Inr p \<Longrightarrow> path_ok (P @ Q) \<Longrightarrow> length (P @ Q) \<le> 3 \<Longrightarrow>
    walk_then X W conv k m p Q =
      (case goto W m p Q of Inl err \<Rightarrow> Some (Inl (conv err), m) | Inr q \<Rightarrow> k q m)"
proof (induction Q arbitrary: P p)
  case (Cons i Q)
  note w = walk_mut_eq [OF t Cons.prems(1), of i]
  show ?case
  proof (cases "child W (ent m p i)")
    case None
    with w Cons.prems show ?thesis by simp
  next
    case (Some q)
    then have "goto W m root (P @ [i]) = Inr q"
      using Cons.prems by (simp add: goto_snoc)
    with w Some Cons.prems Cons.IH [of "P @ [i]" q] show ?thesis
      by (auto simp: child_def split: if_splits)
  qed
qed simp

lemma walk_ref_then_eq:
  assumes t: "tree_ok W m root"
  shows "goto W m root P = Inr p \<Longrightarrow> path_ok (P @ Q) \<Longrightarrow> length (P @ Q) \<le> 3 \<Longrightarrow>
    walk_ref_then X W conv k m p Q =
      (case goto W m p Q of Inl err \<Rightarrow> Some (Inl (conv err)) | Inr q \<Rightarrow> k q)"
proof (induction Q arbitrary: P p)
  case (Cons i Q)
  note w = walk_ref_eq [OF t Cons.prems(1), of i]
  show ?case
  proof (cases "child W (ent m p i)")
    case None
    with w Cons.prems show ?thesis by simp
  next
    case (Some q)
    then have "goto W m root (P @ [i]) = Inr q"
      using Cons.prems by (simp add: goto_snoc)
    with w Some Cons.prems Cons.IH [of "P @ [i]" q] show ?thesis
      by (auto simp: child_def split: if_splits)
  qed
qed simp

lemmas walk_parents = walk_then_eq [OF _ goto.simps(1), unfolded append_Nil]
lemmas walk_ref_parents = walk_ref_then_eq [OF _ goto.simps(1), unfolded append_Nil]

lemma unmap_walk:
  "unmap X S self page m = walk_then X (page_table_walker self) UnmapError_from_walk
    (\<lambda>q m. do {
       e \<leftarrow> read_entry m q (page_leaf S page);
       if \<not> present e then Some (Inl Unmap_PageNotMapped, m)
       else if S \<noteq> Size4KiB \<and> \<not> huge e then Some (Inl Unmap_ParentEntryHugePage, m)
       else if unat (pa (entry_addr e)) mod 2 ^ size_bits S = 0 then do {
         m \<leftarrow> write_entry m q (page_leaf S page) (set_unused e);
         Some (Inr (PhysFrame (entry_addr e), MapperFlush page), m)
       }
       else Some (Inl (Unmap_InvalidFrameAddress (entry_addr e)), m)
     }) m (level_4_table self) (page_parents S page)"
proof -
  have a: "(if unat (pa (entry_addr e)) mod 2 ^ size_bits Size4KiB = 0 then x else y) = x"
    for e and x y :: "((UnmapError + PhysFrame \<times> MapperFlush) \<times> mem) option"
    using entry_addr_ok(2) [of e] by simp
  have n: "(if \<not> b then x else y) = (if b then y else x)" for b and x y :: 'z by simp
  show ?thesis
    by (cases S; simp add: n unmap_1gib_def unmap_2mib_def unmap_4kib_def MapperFlush_new_def
        PhysFrame_from_start_address_eq frame_eq a [simplified] Let_def
        if_distrib [where f = "case_sum _ _"] cong: if_cong)
qed

lemma update_flags_walk:
  "update_flags X S self page fl m = walk_then X (page_table_walker self) FlagUpdateError_from_walk
    (\<lambda>q m. do {
       e \<leftarrow> read_entry m q (page_leaf S page);
       if is_unused e then Some (Inl FlagUpdate_PageNotMapped, m)
       else do {
         e \<leftarrow> set_flags e (if S = Size4KiB then fl else fl OR HUGE_PAGE);
         m \<leftarrow> write_entry m q (page_leaf S page) e;
         Some (Inr (MapperFlush page), m)
       }
     }) m (level_4_table self) (page_parents S page)"
  by (cases S) (simp_all add: update_flags_1gib_def update_flags_2mib_def update_flags_4kib_def
      MapperFlush_new_def Let_def cong: if_cong)

lemma translate_page_walk:
  "translate_page X S self m page =
    walk_ref_then X (page_table_walker self) TranslateError_from_walk
      (\<lambda>q. do { e \<leftarrow> read_entry m q (page_leaf S page); leaf_frame S e })
      m (level_4_table self) (page_parents S page)"
  by (cases S) (simp_all add: translate_page_1gib_def translate_page_2mib_def
      translate_page_4kib_def Let_def)

lemma try_op_id: "try_op (try_op r id k) conv f = try_op r conv (\<lambda>v s. try_op (k v s) conv f)"
  by (cases r) (auto simp: try_op_def split: sum.splits)

lemma map_to_walk:
  "map_to_with_table_flags X S self alloc page frame fl pfl s =
    try_op (create_path X (page_table_walker self) alloc (level_4_table self) (page_parents S page) pfl s)
      MapToError_from_create (\<lambda>q (m, a). do {
        e \<leftarrow> read_entry m q (page_leaf S page);
        if \<not> is_unused e then Some (Inl (MapTo_PageAlreadyMapped frame), (m, a))
        else do {
          e \<leftarrow> set_addr e (frame_start frame) (if S = Size4KiB then fl else fl OR HUGE_PAGE);
          m \<leftarrow> write_entry m q (page_leaf S page) e;
          Some (Inr (MapperFlush page), (m, a))
        }
      })"
  by (cases S) (simp_all add: map_to_1gib_def map_to_2mib_def map_to_4kib_def try_op_id
      MapperFlush_new_def PhysFrame_start_address_def set_frame_def Let_def
      cong: if_cong)

lemma translate_resolve:
  assumes t: "tree_ok (page_table_walker self) m (level_4_table self)"
  shows "translate X self m a = Some (read_resolved X a
    (resolve (page_table_walker self) m (level_4_table self) (addr_path a)))"
proof -
  let ?W = "page_table_walker self" and ?r = "level_4_table self"
  let ?i4 = "VirtAddr_p4_index a" and ?i3 = "VirtAddr_p3_index a" and ?i2 = "VirtAddr_p2_index a"
  have mem: "mem_ok m" using t by (rule tree_ok_mem)
  have h4: "\<not> huge (ent m ?r ?i4)" using tree_ok_root [OF t] by simp
  have w4: "walk_ref X ?W m ?r ?i4 = Some (case child ?W (ent m ?r ?i4) of
      None \<Rightarrow> Inl Walk_NotMapped | Some q \<Rightarrow> Inr q)"
    using walk_ref_eq [OF t, of "[]" ?r ?i4] h4 by simp
  note d = translate_def addr_path_def
  show ?thesis
  proof (cases "child ?W (ent m ?r ?i4)")
    case None
    with w4 h4 show ?thesis by (simp add: d)
  next
    case p3: (Some p3)
    with h4 have g3: "goto ?W m ?r [?i4] = Inr p3" by simp
    note w3 = walk_ref_eq [OF t g3, of ?i3] and s3 = w4 h4 p3
    consider "huge (ent m p3 ?i3)" | "\<not> huge (ent m p3 ?i3)" "child ?W (ent m p3 ?i3) = None"
      | p2 where "\<not> huge (ent m p3 ?i3)" "child ?W (ent m p3 ?i3) = Some p2"
      by fastforce
    then show ?thesis
    proof cases
      case 1
      obtain f where "PhysFrame_containing_address Size1GiB (entry_addr (ent m p3 ?i3)) = Some f"
        using PhysFrame_containing_address_total by blast
      with 1 w3 s3 show ?thesis
        by (simp add: d read_entry_eq [OF mem] Let_def)
    next
      case 2
      with w3 s3 show ?thesis by (simp add: d)
    next
      case (3 p2)
      with g3 s3 have g2: "goto ?W m ?r [?i4, ?i3] = Inr p2" by simp
      note w2 = walk_ref_eq [OF t g2, of ?i2]
      obtain f where "PhysFrame_containing_address Size2MiB (entry_addr (ent m p2 ?i2)) = Some f"
        using PhysFrame_containing_address_total by blast
      with w2 3 w3 s3 show ?thesis
        by (cases "child ?W (ent m p2 ?i2)")
          (simp_all add: d read_entry_eq [OF mem] from_start_4kib Let_def child_def split: if_splits)
    qed
  qed
qed

end

section \<open>Writing a leaf\<close>

fun view :: "PageSize \<Rightarrow> PageTableEntry \<Rightarrow> resolved" where
  "view Size4KiB e = (if is_unused e then Unresolved else Resolved_Leaf e)"
| "view Size2MiB e = (if huge e then Resolved_Huge 1 e else Unresolved)"
| "view Size1GiB e = (if huge e then Resolved_Huge 2 e else Unresolved)"

text \<open>An entry in the position of a leaf of size \<open>S\<close> that leads to no table.\<close>

definition leaf_entry :: "PageTableWalker \<Rightarrow> PageSize \<Rightarrow> PageTableEntry \<Rightarrow> bool" where
  "leaf_entry W S e \<longleftrightarrow> S = Size4KiB \<or> is_unused e \<or> huge e"

lemma leaf_entry_child: "leaf_entry W S e \<Longrightarrow> S \<noteq> Size4KiB \<Longrightarrow> child W e = None"
  by (auto simp: leaf_entry_def child_def is_unused_def present_def)

lemma leaf_resolve:
  assumes g: "goto W m root (page_parents S p) = Inr q" and Q: "length Q = 4"
    and pre: "prefix (page_path S p) Q" and e: "leaf_entry W S (ent m q (page_leaf S p))"
  shows "resolve W m root Q = view S (ent m q (page_leaf S p))"
proof -
  obtain R where R: "Q = page_parents S p @ page_leaf S p # R"
    using pre by (auto simp: page_path_def elim: prefixE)
  have "resolve W m root Q = resolve W m q (page_leaf S p # R)"
    using R g by (simp add: resolve_append)
  moreover have "length R = (case S of Size4KiB \<Rightarrow> 0 | Size2MiB \<Rightarrow> 1 | Size1GiB \<Rightarrow> 2)"
    using R Q by (cases S) simp_all
  ultimately show ?thesis
    using leaf_entry_child [OF e]
    by (cases S; cases R) (auto simp: child_def split: if_splits)
qed

lemma leaf_write:
  assumes t: "tree_ok W m root" and g: "goto W m root (page_parents S p) = Inr q"
    and e: "leaf_entry W S (ent m q (page_leaf S p))" "leaf_entry W S e'"
  defines "m' \<equiv> upd m q (page_leaf S p) e'"
  shows "tree_ok W m' root" "tables W m' root = tables W m root"
    "goto W m' root (page_parents S p) = Inr q"
    "\<And>Q. path_ok Q \<Longrightarrow> length Q = 4 \<Longrightarrow> resolve W m' root Q =
      (if prefix (page_path S p) Q then view S e' else resolve W m root Q)"
proof -
  let ?P = "page_parents S p" and ?i = "page_leaf S p"
  have P: "path_ok ?P" "length ?P \<le> 3" "?P \<noteq> []" using length_parents [of S p] by auto
  have mem: "mem_ok m" using t by (rule tree_ok_mem)
  have s: "same_except W root m m' q ?i" "ent m' q ?i = e'" "mem_ok m'"
    unfolding m'_def using mem by (simp_all add: same_except_upd)
  have c: "length ?P = 3 \<or> child W (ent m' q ?i) = child W (ent m q ?i)"
    using leaf_entry_child [OF e(1)] leaf_entry_child [OF e(2)] s length_parents(3) [of S p]
    by (cases "S = Size4KiB") simp_all
  show "tree_ok W m' root"
    using e(2) s P length_parents(3) [of S p]
    by (intro tree_ok_same_child [OF t s(1) s(3) g P(1,2) _ c])
      (auto simp: leaf_entry_def entry_mapped_def)
  show "tables W m' root = tables W m root"
    using goto_same_child [OF t s(1) g P(1,2) c] by (rule tables_cong)
  show g': "goto W m' root ?P = Inr q"
    using goto_same_child [OF t s(1) g P(1,2) c P(1,2)] g by simp
  show "resolve W m' root Q = (if prefix (page_path S p) Q then view S e' else resolve W m root Q)"
    if "path_ok Q" "length Q = 4" for Q
  proof (cases "prefix (page_path S p) Q")
    case True
    then show ?thesis
      using leaf_resolve [OF g' that(2)] e(2) s by simp
  next
    case False
    then show ?thesis
      using that resolve_avoid [OF t s(1) g P(1,2), of Q] by (simp add: page_path_def)
  qed
qed

section \<open>The mapper operations on a tree\<close>

definition leaf_flags :: "PageSize \<Rightarrow> PageTableFlags \<Rightarrow> PageTableFlags" where
  "leaf_flags S fl = (if S = Size4KiB then fl else fl OR HUGE_PAGE)"

lemma bit_HUGE_PAGE: "bit HUGE_PAGE n \<longleftrightarrow> n = 7"
  unfolding HUGE_PAGE_def bit_push_bit_iff by (auto simp: bit_simps)

lemma bit_leaf_flags: "bit (leaf_flags S fl) n \<longleftrightarrow> bit fl n \<or> S \<noteq> Size4KiB \<and> n = 7"
  by (auto simp: leaf_flags_def bit_HUGE_PAGE bit_simps)

lemma pure_leaf_flags: "pure_flags fl \<Longrightarrow> pure_flags (leaf_flags S fl)"
  by (simp add: pure_flags_def leaf_flags_def bit.conj_disj_distrib2 HUGE_PAGE_def ADDR_MASK_def)

definition page_entry :: "PageSize \<Rightarrow> PhysFrame \<Rightarrow> PageTableFlags \<Rightarrow> PageTableEntry" where
  "page_entry S f fl = \<lparr>entry = pa (frame_start f) OR leaf_flags S fl\<rparr>"

lemma page_entry_parts:
  assumes "frame_ok S f" "pure_flags fl"
  shows "entry_addr (page_entry S f fl) = frame_start f"
    "present (page_entry S f fl) \<longleftrightarrow> bit fl 0"
    "huge (page_entry S f fl) \<longleftrightarrow> bit fl 7 \<or> S \<noteq> Size4KiB"
    "leaf_entry W S (page_entry S f fl)"
  using mapped_entry [OF assms(1) pure_leaf_flags [OF assms(2), of S]]
  by (auto simp: page_entry_def bit_leaf_flags leaf_entry_def)

lemma page_entry_used: "bit fl 0 \<Longrightarrow> frame_ok S f \<Longrightarrow> pure_flags fl \<Longrightarrow> \<not> is_unused (page_entry S f fl)"
  using page_entry_parts(2) [of S f fl] by (auto simp: is_unused_def present_def)

text \<open>The address space after a page has been given the leaf entry \<open>e\<close>.\<close>

definition remapped :: "PageTableWalker \<Rightarrow> u64 \<Rightarrow> PageSize \<Rightarrow> Page \<Rightarrow> PageTableEntry \<Rightarrow> mem \<Rightarrow> mem \<Rightarrow> bool" where
  "remapped W root S p e m m' \<longleftrightarrow> (\<forall>Q. path_ok Q \<longrightarrow> length Q = 4 \<longrightarrow>
     resolve W m' root Q = (if prefix (page_path S p) Q then view S e else resolve W m root Q))"

definition map_result :: "PageTableWalker \<Rightarrow> u64 \<Rightarrow> ('a \<Rightarrow> PhysFrame set) \<Rightarrow> PageSize \<Rightarrow> Page \<Rightarrow>
    PhysFrame \<Rightarrow> PageTableFlags \<Rightarrow> mem \<Rightarrow> (MapToError + MapperFlush) \<times> (mem \<times> 'a) \<Rightarrow> bool" where
  "map_result W root free S p f fl m res \<longleftrightarrow> good W root free (snd res) \<and>
     (case fst res of
        Inl _ \<Rightarrow> sim_resolve W root m (fst (snd res))
      | Inr flush \<Rightarrow> flush = MapperFlush p \<and> remapped W root S p (page_entry S f fl) m (fst (snd res)) \<and>
          (\<exists>q. goto W (fst (snd res)) root (page_parents S p) = Inr q \<and>
             ent (fst (snd res)) q (page_leaf S p) = page_entry S f fl) \<and>
          (\<forall>Q. path_ok Q \<longrightarrow> length Q = 4 \<longrightarrow> prefix (page_path S p) Q \<longrightarrow>
             resolve W m root Q = Unresolved))"

context extern_ok
begin

lemma map_to_spec:
  assumes al: "allocator_ok alloc free"
    and g: "good (page_table_walker self) (level_4_table self) free (m, a)"
    and f: "frame_ok S f" and fl: "pure_flags fl" and pfl: "table_flags pfl"
  shows "\<exists>res. map_to_with_table_flags X S self alloc p f fl pfl (m, a) = Some res \<and>
    map_result (page_table_walker self) (level_4_table self) free S p f fl m res"
proof -
  let ?W = "page_table_walker self" and ?r = "level_4_table self" and ?P = "page_parents S p"
  let ?i = "page_leaf S p"
  obtain x m' a' where x: "create_path X ?W alloc ?r ?P pfl (m, a) = Some (x, (m', a'))"
      "created ?W ?r free m ?P (x, (m', a'))"
    using create_path_spec [OF al pfl g, of "[]" ?r ?P] length_parents(2) [of S p] by auto
  show ?thesis
  proof (cases x)
    case (Inl err)
    with x show ?thesis by (simp add: map_to_walk map_result_def created_def)
  next
    case (Inr q)
    with x have c: "good ?W ?r free (m', a')" "same_resolve ?W ?r m m'" "goto ?W m' ?r ?P = Inr q"
      by (simp_all add: created_def)
    then have t: "tree_ok ?W m' ?r" and mem: "mem_ok m'"
      by (auto simp: good_def dest: tree_ok_mem)
    show ?thesis
    proof (cases "is_unused (ent m' q ?i)")
      case False
      with x Inr c mem show ?thesis
        by (simp add: map_to_walk map_result_def read_entry_eq same_sim)
    next
      case True
      let ?e = "page_entry S f fl" and ?m = "upd m' q ?i (page_entry S f fl)"
      have le: "leaf_entry ?W S (ent m' q ?i)" "leaf_entry ?W S ?e"
        using True page_entry_parts [OF f fl] by (simp_all add: leaf_entry_def)
      note w = leaf_write [OF t c(3) le]
      have "set_addr (ent m' q ?i) (frame_start f) (if S = Size4KiB then fl else fl OR HUGE_PAGE) = Some ?e"
        using set_addr_eq [OF f] by (simp add: page_entry_def leaf_flags_def)
      then have r: "map_to_with_table_flags X S self alloc p f fl pfl (m, a) =
          Some (Inr (MapperFlush p), (?m, a'))"
        using x Inr True mem by (simp add: map_to_walk read_entry_eq write_entry_eq)
      have "good ?W ?r free (?m, a')"
        using c(1) w(1,2) frames_ok_tables by (auto simp: good_def)
      moreover have "remapped ?W ?r S p ?e m ?m"
        using w(4) c(2) by (simp add: remapped_def same_resolve_def)
      moreover have "resolve ?W m ?r Q = Unresolved"
        if "path_ok Q" "length Q = 4" "prefix (page_path S p) Q" for Q
      proof -
        have "resolve ?W m ?r Q = resolve ?W m' ?r Q" using c(2) that by (simp add: same_resolve_def)
        also have "\<dots> = Unresolved"
          using leaf_resolve [OF c(3) that(2,3) le(1)] True unused_parts [of _ ?W]
          by (cases S) auto
        finally show ?thesis .
      qed
      ultimately show ?thesis
        using r w(3) mem by (auto simp: map_result_def)
    qed
  qed
qed

end

context extern_ok
begin

lemma parents_le [simp]: "length (page_parents S p) \<le> 3"
  by (rule length_parents)

lemma unmap_spec:
  assumes t: "tree_ok (page_table_walker self) m (level_4_table self)"
  shows "unmap X S self p m = Some
    (case goto (page_table_walker self) m (level_4_table self) (page_parents S p) of
       Inl err \<Rightarrow> (Inl (UnmapError_from_walk err), m)
     | Inr q \<Rightarrow> let e = ent m q (page_leaf S p) in
         if \<not> present e then (Inl Unmap_PageNotMapped, m)
         else if S \<noteq> Size4KiB \<and> \<not> huge e then (Inl Unmap_ParentEntryHugePage, m)
         else if unat (pa (entry_addr e)) mod 2 ^ size_bits S = 0
           then (Inr (PhysFrame (entry_addr e), MapperFlush p), upd m q (page_leaf S p) (set_unused e))
         else (Inl (Unmap_InvalidFrameAddress (entry_addr e)), m))"
  using tree_ok_mem [OF t]
  by (simp add: unmap_walk walk_parents [OF t] read_entry_eq write_entry_eq Let_def
      split: sum.split)

lemma update_flags_spec:
  assumes t: "tree_ok (page_table_walker self) m (level_4_table self)"
  shows "update_flags X S self p fl m = Some
    (case goto (page_table_walker self) m (level_4_table self) (page_parents S p) of
       Inl err \<Rightarrow> (Inl (FlagUpdateError_from_walk err), m)
     | Inr q \<Rightarrow> let e = ent m q (page_leaf S p) in
         if is_unused e then (Inl FlagUpdate_PageNotMapped, m)
         else (Inr (MapperFlush p),
           upd m q (page_leaf S p) \<lparr>entry = (entry e AND ADDR_MASK) OR leaf_flags S fl\<rparr>))"
  using tree_ok_mem [OF t]
  by (simp add: update_flags_walk walk_parents [OF t] read_entry_eq write_entry_eq set_flags_eq
      leaf_flags_def Let_def split: sum.split)

lemma translate_page_spec:
  assumes t: "tree_ok (page_table_walker self) m (level_4_table self)"
  shows "translate_page X S self m p = Some
    (case goto (page_table_walker self) m (level_4_table self) (page_parents S p) of
       Inl err \<Rightarrow> Inl (TranslateError_from_walk err)
     | Inr q \<Rightarrow> let e = ent m q (page_leaf S p) in
         if is_unused e then Inl Translate_PageNotMapped
         else if unat (pa (entry_addr e)) mod 2 ^ size_bits S = 0 then Inr (PhysFrame (entry_addr e))
         else Inl (Translate_InvalidFrameAddress (entry_addr e)))"
  using tree_ok_mem [OF t]
  by (simp add: translate_page_walk walk_ref_parents [OF t] read_entry_eq leaf_frame_def
      PhysFrame_from_start_address_eq Let_def split: sum.split)

lemma set_unused_leaf: "leaf_entry W S (set_unused e)" "view S (set_unused e) = Unresolved"
  by (simp add: leaf_entry_def set_unused_def is_unused_def)
    (cases S; simp add: set_unused_def is_unused_def huge_def)

lemma unmap_ok:
  assumes t: "tree_ok (page_table_walker self) m (level_4_table self)"
    and u: "unmap X S self p m = Some (Inr (f, fl), m')"
  defines "W \<equiv> page_table_walker self" and "root \<equiv> level_4_table self"
  shows "tree_ok W m' root" "tables W m' root = tables W m root" "fl = MapperFlush p" "frame_ok S f"
    "remapped W root S p PageTableEntry_new m m'"
    "\<exists>e. entry_addr e = frame_start f \<and> present e \<and> (S \<noteq> Size4KiB \<longrightarrow> huge e) \<and> (\<forall>Q. path_ok Q \<longrightarrow> length Q = 4 \<longrightarrow>
       prefix (page_path S p) Q \<longrightarrow> resolve W m root Q = view S e)"
proof -
  obtain q where q: "goto W m root (page_parents S p) = Inr q"
    and e: "present (ent m q (page_leaf S p))" "S \<noteq> Size4KiB \<longrightarrow> huge (ent m q (page_leaf S p))"
      "unat (pa (entry_addr (ent m q (page_leaf S p)))) mod 2 ^ size_bits S = 0"
      "f = PhysFrame (entry_addr (ent m q (page_leaf S p)))" "fl = MapperFlush p"
      "m' = upd m q (page_leaf S p) (set_unused (ent m q (page_leaf S p)))"
    using u unfolding unmap_spec [OF t] W_def root_def
    by (auto simp: Let_def split: sum.splits if_splits)
  let ?e = "ent m q (page_leaf S p)"
  have le: "leaf_entry W S ?e" using e by (auto simp: leaf_entry_def)
  note w = leaf_write [OF t [folded W_def root_def] q le set_unused_leaf(1)]
  have v: "view S (set_unused ?e) = view S PageTableEntry_new"
    by (cases S) (simp_all add: set_unused_def PageTableEntry_new_def is_unused_def huge_def)
  show "tree_ok W m' root" "tables W m' root = tables W m root" "fl = MapperFlush p"
    "remapped W root S p PageTableEntry_new m m'"
    using w e v by (simp_all add: remapped_def)
  show "frame_ok S f" using e entry_addr_ok(1) [of ?e] by (simp add: frame_ok_def)
  show "\<exists>e. entry_addr e = frame_start f \<and> present e \<and> (S \<noteq> Size4KiB \<longrightarrow> huge e) \<and> (\<forall>Q. path_ok Q \<longrightarrow> length Q = 4 \<longrightarrow>
       prefix (page_path S p) Q \<longrightarrow> resolve W m root Q = view S e)"
    using e leaf_resolve [OF q _ _ le] by (intro exI [of _ ?e]) simp
qed

lemma unmap_mapped:
  assumes t: "tree_ok (page_table_walker self) m (level_4_table self)"
    and q: "goto (page_table_walker self) m (level_4_table self) (page_parents S p) = Inr q"
      "ent m q (page_leaf S p) = page_entry S f fl"
    and f: "frame_ok S f" "pure_flags fl" "bit fl 0"
  shows "\<exists>m'. unmap X S self p m = Some (Inr (f, MapperFlush p), m')"
  using page_entry_parts [OF f(1,2)] f q unfolding unmap_spec [OF t]
  by (auto simp: frame_ok_def)

lemma translate_page_mapped:
  assumes t: "tree_ok (page_table_walker self) m (level_4_table self)"
    and q: "goto (page_table_walker self) m (level_4_table self) (page_parents S p) = Inr q"
      "ent m q (page_leaf S p) = page_entry S f fl"
    and f: "frame_ok S f" "pure_flags fl" "bit fl 0"
  shows "translate_page X S self m p = Some (Inr f)"
  using page_entry_parts [OF f(1,2)] page_entry_used [OF f(3,1,2)] f q
  unfolding translate_page_spec [OF t] by (auto simp: frame_ok_def)

end

section \<open>Translating an address of a mapped page\<close>

fun mapped_frame :: "PageSize \<Rightarrow> PhysFrame \<Rightarrow> MappedFrame" where
  "mapped_frame Size4KiB f = MappedFrame_Size4KiB f"
| "mapped_frame Size2MiB f = MappedFrame_Size2MiB f"
| "mapped_frame Size1GiB f = MappedFrame_Size1GiB f"

definition page_offset :: "PageSize \<Rightarrow> VirtAddr \<Rightarrow> u64" where
  "page_offset S a = take_bit (size_bits S) (va a)"

lemma offset_masks:
  "VirtAddr_as_u64 a AND 0x3fffffff = page_offset Size1GiB a"
  "VirtAddr_as_u64 a AND 0x1fffff = page_offset Size2MiB a"
  "u64_from_offset (VirtAddr_page_offset a) = page_offset Size4KiB a"
proof -
  show "VirtAddr_as_u64 a AND 0x3fffffff = page_offset Size1GiB a"
    "VirtAddr_as_u64 a AND 0x1fffff = page_offset Size2MiB a"
    by (simp_all add: VirtAddr_as_u64_def page_offset_def take_bit_eq_mask mask_eq_exp_minus_1)
  have "unat (u64_from_offset (VirtAddr_page_offset a)) = lin a mod 2 ^ 12"
    by (simp only: u64_from_offset_def) (simp add: unat_ucast_up page_offset_lin)
  also have "\<dots> = unat (page_offset Size4KiB a)"
    using lin_mod_pow [of 12 a] by (simp add: page_offset_def unat_take_bit)
  finally show "u64_from_offset (VirtAddr_page_offset a) = page_offset Size4KiB a"
    by (rule unsigned_word_eqI)
qed

context extern_ok
begin

lemma read_page_entry:
  assumes "frame_ok S f" "pure_flags fl" "bit fl 0"
  shows "read_resolved X a (view S (page_entry S f fl)) = Mapped (mapped_frame S f) (page_offset S a)
    ((pa (frame_start f) OR leaf_flags S fl) AND PageTableFlags_all)"
  using page_entry_parts [OF assms(1,2)] page_entry_used [OF assms(3,1,2)] containing_frame [OF assms(1)]
  by (cases S) (simp_all add: offset_masks flags_eq page_entry_def)

lemma translate_remapped:
  assumes "tree_ok (page_table_walker self) m (level_4_table self)"
    "tree_ok (page_table_walker self) m' (level_4_table self)"
    "remapped (page_table_walker self) (level_4_table self) S p e m m'"
  shows "translate X self m' a = (if lin a div 2 ^ size_bits S = lin (page_start p) div 2 ^ size_bits S
    then Some (read_resolved X a (view S e)) else translate X self m a)"
  using assms by (simp add: translate_resolve remapped_def addr_in_page)

lemma translate_addr_sim:
  assumes "tree_ok (page_table_walker self) m (level_4_table self)"
    "tree_ok (page_table_walker self) m' (level_4_table self)"
    "sim_resolve (page_table_walker self) (level_4_table self) m m'"
  shows "translate_addr (translate X self m') a = translate_addr (translate X self m) a"
proof -
  have "seen_as x y \<Longrightarrow> translate_addr (\<lambda>a. Some (read_resolved X a y)) a =
      translate_addr (\<lambda>a. Some (read_resolved X a x)) a" for x y
    by (cases x; cases y) (auto simp: translate_addr_def)
  with assms show ?thesis
    by (simp add: translate_addr_def translate_resolve sim_resolve_def)
qed

end

section \<open>When mapping succeeds\<close>

lemma can_allocate_Suc: "can_allocate alloc (Suc n) a \<Longrightarrow> can_allocate alloc n a"
  by (induction n arbitrary: a) (auto split: prod.splits option.splits)

lemma goto_huge_resolve:
  "goto W m p P = Inl Walk_MappedToHugePage \<Longrightarrow> Q \<noteq> [] \<Longrightarrow>
    \<exists>n e. resolve W m p (P @ Q) = Resolved_Huge n e \<and> length Q \<le> n"
proof (induction P arbitrary: p)
  case (Cons i P)
  then obtain j R where R: "P @ Q = j # R" by (cases "P @ Q") auto
  then have "length Q \<le> length (j # R)" by (metis le_add2 length_append)
  with Cons R show ?case by (auto split: if_splits option.splits)
qed simp

context extern_ok
begin

text \<open>The table after a successful step has no entry leading further, or it was there before.\<close>

lemma create_next_table_ok:
  assumes al: "allocator_ok alloc free" and g: "good W root free (m, a)"
    and P: "goto W m root P = Inr q" "path_ok P" "length P \<le> 2"
    and i: "index_ok i" and fl: "table_flags fl"
    and c: "can_allocate alloc (Suc n) a" and h: "\<not> huge (ent m q i)"
  shows "\<exists>r m' a'. create_next_table X W alloc q i fl (m, a) = Some (Inr r, (m', a')) \<and>
    can_allocate alloc n a' \<and>
    (\<forall>Q x. path_ok Q \<longrightarrow> length Q \<le> 3 \<longrightarrow> goto W m' root Q = Inr x \<longrightarrow>
       goto W m root Q = Inr x \<or> Q = P @ [i])"
proof -
  have t: "tree_ok W m root" and fr: "frames_ok W root m (free a)"
    using g by (simp_all add: good_def)
  have mem: "mem_ok m" using t by (rule tree_ok_mem)
  show ?thesis
  proof (cases "is_unused (ent m q i)")
    case False
    have em: "entry_mapped W (ent m q i)" using tree_ok_mapped [OF t P(1,2) i P(3)] .
    then show ?thesis
      using create_existing [OF mem i False em fl, of alloc a] h can_allocate_Suc [OF c]
        flagged_effects(3) [OF t P i fl False] by auto
  next
    case True
    obtain f a' where al': "alloc a = (Some f, a')" "can_allocate alloc n a'"
      using c by (auto split: prod.splits option.splits)
    then have f: "f \<in> free a" "frame_ok Size4KiB f"
      using allocator_ok_Some [OF al al'(1)] by auto
    then obtain r where r: "page_table_frame_mapping W f = Some r" "r \<notin> tables W m root"
      using fr by (auto simp: frames_ok_def)
    note cn = create_new [of m i q alloc a f a' W r fl, OF mem i True al'(1) f(2) r(1) fl]
    have "adds_table W root m ((upd m q i \<lparr>entry = pa (frame_start f) OR fl\<rparr>)(r := PageTable_new)) P q i r"
      using cn(2) r(2) True by (intro new_table_adds [OF mem P i])
    from adds_table_goto [OF t this] cn(1) al'(2) show ?thesis by blast
  qed
qed

lemma create_path_ok:
  assumes al: "allocator_ok alloc free" and fl: "table_flags fl"
    and F: "path_ok F" "length F = 4"
  shows "good W root free (m, a) \<Longrightarrow> goto W m root P = Inr p \<Longrightarrow> prefix (P @ Q) F \<Longrightarrow>
    length (P @ Q) \<le> 3 \<Longrightarrow> can_allocate alloc (length Q) a \<Longrightarrow>
    (\<And>n e. resolve W m root F = Resolved_Huge n e \<Longrightarrow> n < 4 - length (P @ Q)) \<Longrightarrow>
    \<exists>r m' a'. create_path X W alloc p Q fl (m, a) = Some (Inr r, (m', a')) \<and>
      (\<forall>R x. path_ok R \<longrightarrow> length R \<le> 3 \<longrightarrow> goto W m' root R = Inr x \<longrightarrow>
         goto W m root R = Inr x \<or> prefix R (P @ Q))"
proof (induction Q arbitrary: P p m a)
  case (Cons i Q)
  obtain T where T: "F = P @ i # (Q @ T)" using Cons.prems(3) by (auto elim: prefixE)
  then have ok: "path_ok P" "index_ok i" "path_ok Q" using F by simp_all
  have "Q @ T \<noteq> []" using T F Cons.prems(4) by auto
  have h: "\<not> huge (ent m p i)"
  proof
    assume "huge (ent m p i)"
    then have "resolve W m root F = Resolved_Huge (length (Q @ T)) (ent m p i)"
      using T Cons.prems(2) \<open>Q @ T \<noteq> []\<close> by (cases "Q @ T") (auto simp: resolve_append)
    with Cons.prems(6) T F show False by fastforce
  qed
  have l: "length P \<le> 2" using Cons.prems(4) by simp
  have c: "can_allocate alloc (Suc (length Q)) a" using Cons.prems(5) by simp
  obtain r m' a' where r: "create_next_table X W alloc p i fl (m, a) = Some (Inr r, (m', a'))"
      "can_allocate alloc (length Q) a'"
      "\<And>R x. path_ok R \<Longrightarrow> length R \<le> 3 \<Longrightarrow> goto W m' root R = Inr x \<Longrightarrow>
         goto W m root R = Inr x \<or> R = P @ [i]"
    using create_next_table_ok [OF al Cons.prems(1,2) ok(1) l ok(2) fl c h] by blast
  have cr: "created W root free m (P @ [i]) (Inr r, (m', a'))"
    using create_next_table_spec [OF al Cons.prems(1,2) ok(1) l ok(2) fl] r(1) by auto
  have "resolve W m' root F = resolve W m root F"
    using cr F by (simp add: created_def same_resolve_def)
  then obtain r' m'' a'' where "create_path X W alloc r Q fl (m', a') = Some (Inr r', (m'', a''))"
      "\<And>R x. path_ok R \<Longrightarrow> length R \<le> 3 \<Longrightarrow> goto W m'' root R = Inr x \<Longrightarrow>
         goto W m' root R = Inr x \<or> prefix R (P @ i # Q)"
    using Cons.IH [of m' a' "P @ [i]" r] Cons.prems r(2) cr
    by (auto simp: created_def)
  with r(1,3) show ?case
    by (simp add: prefix_def) (metis append.assoc append_Cons append_Nil)
qed auto

lemma map_to_ok:
  assumes al: "allocator_ok alloc free"
    and g: "good (page_table_walker self) (level_4_table self) free (m, a)"
    and f: "frame_ok S f" and fl: "pure_flags fl" and pfl: "table_flags pfl"
    and c: "can_allocate alloc (length (page_parents S p)) a"
    and un: "\<And>Q. path_ok Q \<Longrightarrow> length Q = 4 \<Longrightarrow> prefix (page_path S p) Q \<Longrightarrow>
      resolve (page_table_walker self) m (level_4_table self) Q = Unresolved"
    and nt: "S \<noteq> Size4KiB \<Longrightarrow>
      goto (page_table_walker self) m (level_4_table self) (page_path S p) = Inl Walk_NotMapped"
  shows "\<exists>m' a'. map_to_with_table_flags X S self alloc p f fl pfl (m, a) =
    Some (Inr (MapperFlush p), (m', a'))"
proof -
  let ?W = "page_table_walker self" and ?r = "level_4_table self" and ?P = "page_parents S p"
  define F where "F = page_path S p @ replicate (3 - length ?P) (page_leaf S p)"
  have "path_ok (replicate n (page_leaf S p))" for n by (simp add: list_all_length)
  then have F: "path_ok F" "length F = 4" "prefix (page_path S p) F" "prefix ?P F"
    using length_parents [of S p] by (auto simp: F_def page_path_def)
  have r0: "goto ?W m ?r [] = Inr ?r" by simp
  have l: "length ([] @ ?P) \<le> 3" by simp
  have nh: "resolve ?W m ?r F = Resolved_Huge n e \<Longrightarrow> n < 4 - length ([] @ ?P)" for n e
    using un [OF F(1-3)] by simp
  obtain q m' a' where q: "create_path X ?W alloc ?r ?P pfl (m, a) = Some (Inr q, (m', a'))"
      "\<And>R x. path_ok R \<Longrightarrow> length R \<le> 3 \<Longrightarrow> goto ?W m' ?r R = Inr x \<Longrightarrow>
         goto ?W m ?r R = Inr x \<or> prefix R ?P"
    using create_path_ok [OF al pfl F(1,2) g r0, of ?P] F(4) c l nh unfolding append_Nil by blast
  have cr: "created ?W ?r free m ?P (Inr q, (m', a'))"
    using create_path_spec [OF al pfl g r0, of ?P] q(1) by auto
  then have t: "tree_ok ?W m' ?r" and gq: "goto ?W m' ?r ?P = Inr q"
    by (simp_all add: created_def good_def)
  have res: "resolve ?W m' ?r F = Unresolved"
    using cr un [OF F(1-3)] F by (simp add: created_def same_resolve_def)
  have "is_unused (ent m' q (page_leaf S p))"
  proof (cases "S = Size4KiB")
    case True
    then have "F = ?P @ [page_leaf S p]" by (simp add: F_def page_path_def)
    then show ?thesis
      using res gq by (simp add: resolve_append split: if_splits)
  next
    case False
    then have len: "length ?P \<le> 2" using length_parents [of S p] by linarith
    then obtain k where "3 - length ?P = Suc k" by (cases "3 - length ?P") auto
    then have "resolve ?W m' ?r F = resolve ?W m' q (page_leaf S p # page_leaf S p # replicate k (page_leaf S p))"
      using gq by (simp add: F_def page_path_def resolve_append del: resolve.simps)
    with res have "\<not> huge (ent m' q (page_leaf S p))" by (auto split: if_splits)
    moreover have "child ?W (ent m' q (page_leaf S p)) = None"
    proof (rule ccontr)
      assume "child ?W (ent m' q (page_leaf S p)) \<noteq> None"
      then obtain x where "goto ?W m' ?r (page_path S p) = Inr x"
        using gq by (auto simp: page_path_def goto_snoc)
      with q(2) [of "page_path S p" x] nt [OF False] len show False
        by (auto simp: page_path_def not_prefix_shorter dest: prefix_length_le)
    qed
    ultimately show ?thesis
      using tree_ok_mapped [OF t gq _ _ len, of "page_leaf S p"] by (auto simp: entry_mapped_def)
  qed
  then show ?thesis
    using q(1) tree_ok_mem [OF t] set_addr_eq [OF f]
    by (simp add: map_to_walk read_entry_eq write_entry_eq)
qed

end

section \<open>An empty address space\<close>

lemma empty_goto:
  "(\<And>i. index_ok i \<Longrightarrow> is_unused (ent m root i)) \<Longrightarrow> path_ok Q \<Longrightarrow> goto W m root Q = Inr q \<Longrightarrow> Q = [] \<and> q = root"
  using unused_parts by (cases Q) (auto split: if_splits)

lemma tree_ok_empty:
  assumes "mem_ok m" and "\<And>i. index_ok i \<Longrightarrow> is_unused (ent m root i)"
  shows "tree_ok W m root" and "tables W m root = {root}"
proof -
  have "P = Q" if "path_ok P" "path_ok Q" "goto W m root P = Inr q" "goto W m root Q = Inr q" for P Q q
    using that empty_goto [OF assms(2)] by metis
  moreover have "entry_mapped W (ent m q i)"
    if "path_ok P" "index_ok i" "goto W m root P = Inr q" for P q i
    using that empty_goto [OF assms(2), of P W q] assms(2) by (simp add: entry_mapped_def)
  moreover have "\<not> huge (ent m root i)" if "index_ok i" for i
    using that assms(2) unused_parts by blast
  ultimately show "tree_ok W m root"
    unfolding tree_ok_def using assms(1) by blast
  show "tables W m root = {root}"
    using empty_goto [OF assms(2)] tablesI [of W m root "[]" root]
    unfolding tables_def by auto
qed

end
