(* ===== verification/Offset_Page_Table.thy ===== *)
theory Offset_Page_Table
  imports Mapper_Tree
begin

text \<open>
  \<open>structures/paging/mapper/offset_page_table.rs\<close>: the mapper for a complete mapping of physical
  memory at a fixed offset. All operations delegate to the mapped page table. The locale
  \<open>frame_mapping\<close> is the contract of \<open>PageTableFrameMapping\<close>, here met by \<open>PhysOffset\<close>.
\<close>

section \<open>The mapping\<close>

record PhysOffset =
  offset :: VirtAddr

definition frame_to_pointer :: "PhysOffset \<Rightarrow> PhysFrame \<Rightarrow> u64 option" where
  "frame_to_pointer self frame = do {
     virt \<leftarrow> VirtAddr_add (offset self) (PhysAddr_as_u64 (PhysFrame_start_address frame));
     Some (VirtAddr_as_mut_ptr virt)
   }"

text \<open>
  The table holds the mapping by value; the model keeps it beside the inner mapper, whose walker
  holds its \<open>frame_to_pointer\<close>.
\<close>

record OffsetPageTable =
  inner :: MappedPageTable
  inner_mapping :: PhysOffset

definition OffsetPageTable_new :: "u64 \<Rightarrow> VirtAddr \<Rightarrow> OffsetPageTable" where
  "OffsetPageTable_new level_4 phys_offset =
     (let phys_offset = \<lparr>offset = phys_offset\<rparr> in
      \<lparr>inner = MappedPageTable_new level_4 (frame_to_pointer phys_offset),
       inner_mapping = phys_offset\<rparr>)"

definition OffsetPageTable_phys_offset :: "OffsetPageTable \<Rightarrow> VirtAddr" where
  "OffsetPageTable_phys_offset self = offset (inner_mapping self)"

section \<open>Delegation\<close>

definition Offset_map_to_with_table_flags ::
  "extern \<Rightarrow> PageSize \<Rightarrow> OffsetPageTable \<Rightarrow> 'a allocate_frame \<Rightarrow> (mem \<times> 'a) map_method" where
  "Offset_map_to_with_table_flags X S self allocate_frame page frame flags parent_table_flags s =
     map_to_with_table_flags X S (inner self) allocate_frame page frame flags parent_table_flags s"

definition Offset_unmap :: "extern \<Rightarrow> PageSize \<Rightarrow> OffsetPageTable \<Rightarrow> Page \<Rightarrow> mem \<Rightarrow>
    ((UnmapError + PhysFrame \<times> MapperFlush) \<times> mem) option" where
  "Offset_unmap X S self page m = unmap X S (inner self) page m"

definition Offset_update_flags :: "extern \<Rightarrow> PageSize \<Rightarrow> OffsetPageTable \<Rightarrow> Page \<Rightarrow> PageTableFlags \<Rightarrow>
    mem \<Rightarrow> ((FlagUpdateError + MapperFlush) \<times> mem) option" where
  "Offset_update_flags X S self page flags m = update_flags X S (inner self) page flags m"

definition Offset_set_flags_p4_entry :: "OffsetPageTable \<Rightarrow> Page \<Rightarrow> PageTableFlags \<Rightarrow> mem \<Rightarrow>
    ((FlagUpdateError + MapperFlushAll) \<times> mem) option" where
  "Offset_set_flags_p4_entry self page flags m = set_flags_p4_entry (inner self) page flags m"

definition Offset_set_flags_p3_entry :: "extern \<Rightarrow> PageSize \<Rightarrow> OffsetPageTable \<Rightarrow> Page \<Rightarrow>
    PageTableFlags \<Rightarrow> mem \<Rightarrow> ((FlagUpdateError + MapperFlushAll) \<times> mem) option" where
  "Offset_set_flags_p3_entry X S self page flags m = set_flags_p3_entry X S (inner self) page flags m"

definition Offset_set_flags_p2_entry :: "extern \<Rightarrow> PageSize \<Rightarrow> OffsetPageTable \<Rightarrow> Page \<Rightarrow>
    PageTableFlags \<Rightarrow> mem \<Rightarrow> ((FlagUpdateError + MapperFlushAll) \<times> mem) option" where
  "Offset_set_flags_p2_entry X S self page flags m = set_flags_p2_entry X S (inner self) page flags m"

definition Offset_translate_page :: "extern \<Rightarrow> PageSize \<Rightarrow> OffsetPageTable \<Rightarrow> mem \<Rightarrow> Page \<Rightarrow>
    (TranslateError + PhysFrame) option" where
  "Offset_translate_page X S self m page = translate_page X S (inner self) m page"

definition Offset_translate :: "extern \<Rightarrow> OffsetPageTable \<Rightarrow> mem \<Rightarrow> VirtAddr \<Rightarrow> TranslateResult option" where
  "Offset_translate X self m addr = translate X (inner self) m addr"

definition Offset_clean_up :: "extern \<Rightarrow> OffsetPageTable \<Rightarrow> 'd deallocate_frame \<Rightarrow> mem \<times> 'd \<Rightarrow>
    (mem \<times> 'd) option" where
  "Offset_clean_up X self deallocate_frame s = clean_up X (inner self) deallocate_frame s"

definition Offset_clean_up_addr_range :: "extern \<Rightarrow> OffsetPageTable \<Rightarrow> 'd deallocate_frame \<Rightarrow>
    PageRangeInclusive \<Rightarrow> mem \<times> 'd \<Rightarrow> (mem \<times> 'd) option" where
  "Offset_clean_up_addr_range X self deallocate_frame rng s =
     clean_up_addr_range X (inner self) deallocate_frame rng s"

section \<open>The contract of a frame mapping\<close>

text \<open>
  \<open>D\<close> is the set of frames the mapping covers: each has a pointer, and different frames have
  different pointers.
\<close>

locale frame_mapping =
  fixes M :: "PhysFrame \<Rightarrow> u64 option"
    and D :: "PhysFrame set"
  assumes covers: "f \<in> D \<Longrightarrow> M f \<noteq> None"
    and distinct: "inj_on M D"
begin

lemma frames_okI:
  assumes "F \<subseteq> D" and "\<And>f. f \<in> F \<Longrightarrow> the (M f) \<notin> tables W m root" and "page_table_frame_mapping W = M"
  shows "frames_ok W root m F"
  unfolding frames_ok_def
proof (intro conjI ballI)
  show "inj_on (page_table_frame_mapping W) F"
    using assms(1,3) distinct inj_on_subset by blast
  show "\<exists>r. page_table_frame_mapping W f = Some r \<and> r \<notin> tables W m root" if "f \<in> F" for f
    using that assms covers by fastforce
qed

lemma entry_follows: "PhysFrame (entry_addr e) \<in> D \<Longrightarrow> page_table_frame_mapping W = M \<Longrightarrow> entry_mapped W e"
  if "present e"
  using that covers by (auto simp: entry_mapped_def child_def)

end

text \<open>The frames at which adding the offset gives a canonical address.\<close>

definition offset_frames :: "PhysOffset \<Rightarrow> PhysFrame set" where
  "offset_frames po = {f. \<exists>v. VirtAddr_add (offset po) (pa (frame_start f)) = Some v}"

interpretation offset_mapping: frame_mapping "frame_to_pointer po" "offset_frames po" for po
proof
  show "frame_to_pointer po f \<noteq> None" if "f \<in> offset_frames po" for f
    using that by (auto simp: frame_to_pointer_def offset_frames_def PhysAddr_as_u64_def
        PhysFrame_start_address_def)
  show "inj_on (frame_to_pointer po) (offset_frames po)"
  proof (rule inj_onI)
    fix f g assume fg: "f \<in> offset_frames po" "g \<in> offset_frames po"
      "frame_to_pointer po f = frame_to_pointer po g"
    then obtain v w where "VirtAddr_add (offset po) (pa (frame_start f)) = Some v"
      "VirtAddr_add (offset po) (pa (frame_start g)) = Some w" "va v = va w"
      by (auto simp: offset_frames_def frame_to_pointer_def PhysAddr_as_u64_def
          PhysFrame_start_address_def VirtAddr_as_mut_ptr_def VirtAddr_as_ptr_def VirtAddr_as_u64_def)
    then have "unat (pa (frame_start f)) = unat (pa (frame_start g))"
      by (simp add: VirtAddr_add_eq_Some)
    then show "f = g"
      by (metis unsigned_word_eqI PhysAddr.expand PhysFrame.expand)
  qed
qed

lemma offset_frames_upper:
  assumes "2 ^ 64 - 2 ^ 47 \<le> unat (va (offset po))"
  shows "f \<in> offset_frames po \<longleftrightarrow> unat (va (offset po)) + unat (pa (frame_start f)) < 2 ^ 64"
proof
  assume "f \<in> offset_frames po"
  then obtain v where "unat (va v) = unat (va (offset po)) + unat (pa (frame_start f))"
    by (auto simp: offset_frames_def VirtAddr_add_eq_Some)
  then show "unat (va (offset po)) + unat (pa (frame_start f)) < 2 ^ 64"
    using unsigned_less [of "va v", where 'a = nat] by simp
next
  let ?v = "VirtAddr (va (offset po) + pa (frame_start f))"
  assume lt: "unat (va (offset po)) + unat (pa (frame_start f)) < 2 ^ 64"
  then have "unat (va ?v) = unat (va (offset po)) + unat (pa (frame_start f))"
    by (simp add: unat_add_no_wrap)
  moreover from this have "canonical ?v"
    using assms by (simp add: canonical_iff_unat)
  ultimately show "f \<in> offset_frames po"
    unfolding offset_frames_def by (auto simp: VirtAddr_add_eq_Some)
qed

end
