(* ===== verification/Mapper_Contract.thy ===== *)
theory Mapper_Contract
  imports Offset_Page_Table
begin

text \<open>
  What the traits \<open>Mapper\<close> and \<open>Translate\<close> promise together, as the locale \<open>mapper\<close>: the laws of
  mapping, unmapping and translating pages of one size, and what a client may conclude from them
  (mapping and unmapping is a round trip, pages are independent, identity mappings translate to
  themselves). The mapped page table and the offset page table meet the contract, for all page
  sizes and every allocator that keeps the contract of \<open>FrameAllocator\<close>.
\<close>

section \<open>The contract of \<open>Mapper\<close> and \<open>Translate\<close>\<close>

definition in_page :: "PageSize \<Rightarrow> Page \<Rightarrow> VirtAddr \<Rightarrow> bool" where
  "in_page S p v \<longleftrightarrow> lin v div 2 ^ size_bits S = lin (page_start p) div 2 ^ size_bits S"

text \<open>The translation of an address in a page mapped to the frame \<open>f\<close> with the flags \<open>fl\<close>.\<close>

definition page_translation :: "PageSize \<Rightarrow> PhysFrame \<Rightarrow> PageTableFlags \<Rightarrow> VirtAddr \<Rightarrow> TranslateResult" where
  "page_translation S f fl v = Mapped (mapped_frame S f) (page_offset S v)
     ((pa (frame_start f) OR leaf_flags S fl) AND PageTableFlags_all)"

definition map_args :: "PageSize \<Rightarrow> PhysFrame \<Rightarrow> PageTableFlags \<Rightarrow> PageTableFlags \<Rightarrow> bool" where
  "map_args S f fl pfl \<longleftrightarrow> frame_ok S f \<and> pure_flags fl \<and> bit fl 0 \<and> table_flags pfl"

locale mapper = extern_ok X for X +
  fixes S :: PageSize
    and inv :: "mem \<times> 'a \<Rightarrow> bool"
    and map_op :: "(mem \<times> 'a) map_method"
    and unmap_op :: "Page \<Rightarrow> mem \<Rightarrow> ((UnmapError + PhysFrame \<times> MapperFlush) \<times> mem) option"
    and lookup_op :: "mem \<Rightarrow> Page \<Rightarrow> (TranslateError + PhysFrame) option"
    and view_op :: "mem \<Rightarrow> VirtAddr \<Rightarrow> TranslateResult option"
  assumes map_total: "inv s \<Longrightarrow> map_args S f fl pfl \<Longrightarrow> \<exists>r s'. map_op p f fl pfl s = Some (r, s') \<and> inv s'"
    and map_view: "inv (m, a) \<Longrightarrow> map_args S f fl pfl \<Longrightarrow>
      map_op p f fl pfl (m, a) = Some (Inr x, (m', a')) \<Longrightarrow>
      view_op m' v = (if in_page S p v then Some (page_translation S f fl v) else view_op m v)"
    and map_unmapped: "inv (m, a) \<Longrightarrow> map_args S f fl pfl \<Longrightarrow>
      map_op p f fl pfl (m, a) = Some (Inr x, (m', a')) \<Longrightarrow> in_page S p v \<Longrightarrow> view_op m v = Some NotMapped"
    and map_lookup: "inv (m, a) \<Longrightarrow> map_args S f fl pfl \<Longrightarrow>
      map_op p f fl pfl (m, a) = Some (Inr x, (m', a')) \<Longrightarrow> lookup_op m' p = Some (Inr f)"
    and map_error: "inv (m, a) \<Longrightarrow> map_args S f fl pfl \<Longrightarrow>
      map_op p f fl pfl (m, a) = Some (Inl err, (m', a')) \<Longrightarrow>
      translate_addr (view_op m') v = translate_addr (view_op m) v"
    and map_unmap: "inv (m, a) \<Longrightarrow> map_args S f fl pfl \<Longrightarrow>
      map_op p f fl pfl (m, a) = Some (Inr x, (m', a')) \<Longrightarrow>
      \<exists>m''. unmap_op p m' = Some (Inr (f, MapperFlush p), m'')"
    and unmap_inv: "inv (m, a) \<Longrightarrow> unmap_op p m = Some (r, m') \<Longrightarrow> inv (m', a)"
    and unmap_view: "inv (m, a) \<Longrightarrow> unmap_op p m = Some (Inr (f, x), m') \<Longrightarrow>
      view_op m' v = (if in_page S p v then Some NotMapped else view_op m v)"
begin

text \<open>Mapping a page and unmapping it again restores every translation.\<close>

lemma map_unmap_restores:
  assumes "inv (m, a)" "map_args S f fl pfl" "map_op p f fl pfl (m, a) = Some (Inr x, (m', a'))"
  shows "\<exists>m''. unmap_op p m' = Some (Inr (f, MapperFlush p), m'') \<and> inv (m'', a') \<and>
    (\<forall>v. view_op m'' v = view_op m v)"
proof -
  obtain m'' where u: "unmap_op p m' = Some (Inr (f, MapperFlush p), m'')"
    using map_unmap [OF assms] by blast
  have i: "inv (m', a')"
    using map_total [OF assms(1,2), of p] assms(3) by auto
  have "view_op m'' v = view_op m v" for v
    using unmap_view [OF i u, of v] map_view [OF assms, of v] map_unmapped [OF assms, of v] by simp
  with u unmap_inv [OF i u] show ?thesis by blast
qed

text \<open>Two pages that do not overlap can be mapped one after the other.\<close>

lemma map_two:
  assumes "inv (m, a)" "map_args S f fl pfl" "map_op p f fl pfl (m, a) = Some (Inr x, (m', a'))"
    and "map_args S g gl pgl" "map_op q g gl pgl (m', a') = Some (Inr y, (m'', a''))"
  shows "view_op m'' v = (if in_page S q v then Some (page_translation S g gl v)
    else if in_page S p v then Some (page_translation S f fl v) else view_op m v)"
proof -
  have "inv (m', a')"
    using map_total [OF assms(1,2), of p] assms(3) by auto
  then show ?thesis
    using map_view [OF _ assms(4,5)] map_view [OF assms(1-3)] by simp
qed

lemma parent_flags:
  assumes "pure_flags fl" "bit fl 0"
  shows "table_flags (fl AND ((PRESENT OR WRITABLE) OR USER_ACCESSIBLE))"
proof -
  have "((PRESENT OR WRITABLE) OR USER_ACCESSIBLE :: u64) = 7" by (simp add: flag_defs)
  moreover have "fl AND 7 AND ADDR_MASK = 0" by (simp add: ADDR_MASK_def)
  moreover have "bit (7 :: u64) 0" "\<not> bit (7 :: u64) 7" by simp_all
  ultimately show ?thesis
    using assms by (simp add: table_flags_def pure_flags_def bit_simps and.assoc)
qed

lemma map_to_args: "frame_ok S f \<Longrightarrow> pure_flags fl \<Longrightarrow> bit fl 0 \<Longrightarrow>
    \<exists>pfl. map_args S f fl pfl \<and> (\<forall>p s. map_to X map_op p f fl s = map_op p f fl pfl s)"
  using parent_flags [of fl] by (auto simp: map_to_def map_args_def Let_def)

lemma identity_map_maps:
  assumes f: "frame_ok S f" "pure_flags fl" "bit fl 0"
    and r: "identity_map X S map_op f fl s = Some res"
  shows "\<exists>p pfl. map_op p f fl pfl s = Some res \<and> map_args S f fl pfl \<and>
    lin (page_start p) div 2 ^ size_bits S = frame_num S f"
proof -
  obtain pfl where pfl: "map_args S f fl pfl" "\<And>p s. map_to X map_op p f fl s = map_op p f fl pfl s"
    using map_to_args [OF f] by blast
  let ?v = "VirtAddr (pa (frame_start f))"
  have can: "canonical ?v"
    using r by (auto simp: identity_map_def VirtAddr_new_eq PhysAddr_as_u64_def
        PhysFrame_start_address_def split: if_splits)
  obtain p where p: "Page_containing_address S ?v = Some p"
      "page_num S p = lin ?v div 2 ^ size_bits S"
    using Page_containing_address_spec [OF can, of S] by auto
  have "unat (pa (frame_start f)) < 2 ^ 52"
    using frame_ok_phys [OF f(1)] by (simp only: phys_ok_def)
  then have "lin ?v = unat (pa (frame_start f))"
    using can unfolding canonical_iff_unat by (simp add: lin_def)
  then have "lin (page_start p) div 2 ^ size_bits S = frame_num S f"
    using p(2) by (simp add: page_num_def frame_num_def)
  moreover have "map_op p f fl pfl s = Some res"
    using r p(1) can by (simp add: identity_map_def VirtAddr_new_eq PhysAddr_as_u64_def
        PhysFrame_start_address_def pfl(2))
  ultimately show ?thesis using pfl(1) by blast
qed

lemma identity_map_translates:
  assumes i: "inv (m, a)" and f: "frame_ok S f" "pure_flags fl" "bit fl 0"
    and r: "identity_map X S map_op f fl (m, a) = Some (Inr x, (m', a'))"
    and v: "unat (va v) div 2 ^ size_bits S = frame_num S f" "unat (va v) < 2 ^ 47"
  shows "translate_addr (view_op m') v = Some (Some (PhysAddr (va v)))"
proof -
  obtain p pfl where p: "map_op p f fl pfl (m, a) = Some (Inr x, (m', a'))" "map_args S f fl pfl"
      "lin (page_start p) div 2 ^ size_bits S = frame_num S f"
    using identity_map_maps [OF f r] by blast
  have "lin v = unat (va v)" using v(2) by (simp add: lin_def)
  then have "view_op m' v = Some (page_translation S f fl v)"
    using map_view [OF i p(2,1), of v] p(3) v(1) by (simp add: in_page_def)
  moreover have "MappedFrame_start_address (mapped_frame S f) = frame_start f"
    by (cases S) simp_all
  moreover have "PhysAddr_add (frame_start f) (page_offset S v) = Some (PhysAddr (va v))"
    using f(1) v div_mult_mod_eq [of "unat (va v)" "2 ^ size_bits S"]
    by (simp add: PhysAddr_add_eq_Some phys_ok_def page_offset_def unat_take_bit unat_frame_num)
  ultimately show ?thesis
    by (simp add: translate_addr_def page_translation_def)
qed

end

section \<open>The mapped page table meets the contract\<close>

context extern_ok
begin

lemma mapped_mapper:
  fixes self :: MappedPageTable and alloc :: "'a allocate_frame"
  assumes al: "allocator_ok alloc free"
  defines "W \<equiv> page_table_walker self" and "root \<equiv> level_4_table self"
  shows "mapper X S (good W root free) (map_to_with_table_flags X S self alloc) (unmap X S self)
    (translate_page X S self) (translate X self)"
proof
  let ?map = "map_to_with_table_flags X S self alloc"
  note spec = map_to_spec [OF al, of self, folded W_def root_def]
  fix s :: "mem \<times> 'a" and f fl pfl p
  assume "good W root free s" "map_args S f fl pfl"
  then show "\<exists>r s'. ?map p f fl pfl s = Some (r, s') \<and> good W root free s'"
    using spec [of "fst s" "snd s" S f fl pfl p] by (auto simp: map_args_def map_result_def)
next
  fix m :: mem and a a' :: 'a and f fl pfl p x m' v
  assume g: "good W root free (m, a)" and ar: "map_args S f fl pfl"
    and r: "map_to_with_table_flags X S self alloc p f fl pfl (m, a) = Some (Inr x, (m', a'))"
  then have res: "map_result W root free S p f fl m (Inr x, (m', a'))"
    using map_to_spec [OF al g [unfolded W_def root_def], of S f fl pfl p]
    by (auto simp: map_args_def W_def root_def)
  have t: "tree_ok W m root" "tree_ok W m' root"
    using g res by (auto simp: map_result_def good_def)
  have q: "\<exists>q. goto W m' root (page_parents S p) = Inr q \<and> ent m' q (page_leaf S p) = page_entry S f fl"
    using res by (auto simp: map_result_def)
  show "translate X self m' v =
      (if in_page S p v then Some (page_translation S f fl v) else translate X self m v)"
    using res ar t translate_remapped [of self m m' S p "page_entry S f fl" v] read_page_entry [of S f fl v]
    by (simp add: W_def root_def map_args_def map_result_def in_page_def page_translation_def)
  show "translate X self m v = Some NotMapped" if "in_page S p v"
    using that res t translate_resolve [of self m v]
    by (simp add: W_def root_def map_result_def in_page_def addr_in_page)
  show "translate_page X S self m' p = Some (Inr f)"
    using q ar t translate_page_mapped [of self m' S p _ f fl]
    by (auto simp: W_def root_def map_args_def)
  show "\<exists>m''. unmap X S self p m' = Some (Inr (f, MapperFlush p), m'')"
    using q ar t unmap_mapped [of self m' S p _ f fl]
    by (auto simp: W_def root_def map_args_def)
next
  fix m :: mem and a a' :: 'a and f fl pfl p err m' v
  assume g: "good W root free (m, a)" and ar: "map_args S f fl pfl"
    and r: "map_to_with_table_flags X S self alloc p f fl pfl (m, a) = Some (Inl err, (m', a'))"
  then have "map_result W root free S p f fl m (Inl err, (m', a'))"
    using map_to_spec [OF al g [unfolded W_def root_def], of S f fl pfl p]
    by (auto simp: map_args_def W_def root_def)
  with g show "translate_addr (translate X self m') v = translate_addr (translate X self m) v"
    by (intro translate_addr_sim) (simp_all add: W_def root_def map_result_def good_def)
next
  fix m :: mem and a :: 'a and p r m'
  assume g: "good W root free (m, a)" and u: "unmap X S self p m = Some (r, m')"
  show "good W root free (m', a)"
  proof (cases r)
    case (Inl err)
    then have "m' = m"
      using u g unmap_spec [of self m S p]
      by (auto simp: good_def W_def root_def Let_def split: sum.splits if_splits)
    with g show ?thesis by simp
  next
    case (Inr fx)
    with u g unmap_ok(1,2) [of self m S p "fst fx" "snd fx" m'] frames_ok_tables show ?thesis
      by (auto simp: good_def W_def root_def)
  qed
next
  fix m :: mem and a :: 'a and p f x m' v
  assume g: "good W root free (m, a)" and u: "unmap X S self p m = Some (Inr (f, x), m')"
  then have t: "tree_ok W m root" by (simp add: good_def)
  note o = unmap_ok [OF t [unfolded W_def root_def] u]
  have "view S PageTableEntry_new = Unresolved"
    by (cases S) (simp_all add: PageTableEntry_new_def is_unused_def huge_def)
  with translate_remapped [OF t [unfolded W_def root_def] o(1,5), of v]
  show "translate X self m' v = (if in_page S p v then Some NotMapped else translate X self m v)"
    by (simp add: in_page_def)
qed

lemma offset_mapper:
  fixes self :: OffsetPageTable and alloc :: "'a allocate_frame"
  assumes "allocator_ok alloc free"
  shows "mapper X S (good (page_table_walker (inner self)) (level_4_table (inner self)) free)
    (Offset_map_to_with_table_flags X S self alloc) (Offset_unmap X S self)
    (Offset_translate_page X S self) (Offset_translate X self)"
  unfolding Offset_map_to_with_table_flags_def Offset_unmap_def Offset_translate_page_def
    Offset_translate_def
  by (rule mapped_mapper [OF assms])

end

section \<open>An allocator\<close>

text \<open>
  A bump allocator over the 4KiB frames below a limit: its state is the number of the next frame.
\<close>

definition bump_allocate :: "nat \<Rightarrow> nat allocate_frame" where
  "bump_allocate limit n = (if n < limit then (Some (frame_at Size4KiB n), Suc n) else (None, n))"

definition bump_free :: "nat \<Rightarrow> nat \<Rightarrow> PhysFrame set" where
  "bump_free limit n = frame_at Size4KiB ` {n..<limit}"

lemma frame_at_inj:
  assumes "k < 2 ^ 40" "n < 2 ^ 40" "frame_at Size4KiB k = frame_at Size4KiB n"
  shows "k = n"
proof -
  have e: "52 - size_bits Size4KiB = 40" by simp
  have "frame_num Size4KiB (frame_at Size4KiB k) = k"
    using assms(1) by (intro frame_at(2)) (simp only: e)
  moreover have "frame_num Size4KiB (frame_at Size4KiB n) = n"
    using assms(2) by (intro frame_at(2)) (simp only: e)
  ultimately show ?thesis unfolding assms(3) by (rule trans [OF sym])
qed

lemma bump_allocator_ok: "limit \<le> 2 ^ 40 \<Longrightarrow> allocator_ok (bump_allocate limit) (bump_free limit)"
proof -
  assume l: "limit \<le> 2 ^ 40"
  have "frame_at Size4KiB n \<in> bump_free limit n \<and> frame_ok Size4KiB (frame_at Size4KiB n) \<and>
      bump_free limit (Suc n) \<subseteq> bump_free limit n - {frame_at Size4KiB n}" if n: "n < limit" for n
  proof -
    have "frame_at Size4KiB n \<noteq> frame_at Size4KiB k" if "k \<in> {Suc n..<limit}" for k
      using frame_at_inj [of n k] that n l by auto
    moreover have "frame_ok Size4KiB (frame_at Size4KiB n)"
      using n l by (intro frame_at) simp
    ultimately show ?thesis
      using n by (fastforce simp: bump_free_def image_iff)
  qed
  then show ?thesis by (simp add: allocator_ok_def bump_allocate_def)
qed

lemma bump_can_allocate: "n + k \<le> limit \<Longrightarrow> can_allocate (bump_allocate limit) k n"
  by (induction k arbitrary: n) (auto simp: bump_allocate_def)

interpretation bump_mapped: mapper "std_extern c" S
  "good (page_table_walker self) (level_4_table self) (bump_free 4096)"
  "map_to_with_table_flags (std_extern c) S self (bump_allocate 4096)" "unmap (std_extern c) S self"
  "translate_page (std_extern c) S self" "translate (std_extern c) self" for c S self
  by (rule std.mapped_mapper, rule bump_allocator_ok) simp

interpretation bump_offset: mapper "std_extern c" S
  "good (page_table_walker (inner self)) (level_4_table (inner self)) (bump_free 4096)"
  "Offset_map_to_with_table_flags (std_extern c) S self (bump_allocate 4096)"
  "Offset_unmap (std_extern c) S self" "Offset_translate_page (std_extern c) S self"
  "Offset_translate (std_extern c) self" for c S self
  by (rule std.offset_mapper, rule bump_allocator_ok) simp

section \<open>How many frames are allocated\<close>

lemma create_next_table_allocates:
  assumes "create_next_table X W alloc q i fl (m, a) = Some (r, (m', a'))"
  shows "a' = a \<or> a' = snd (alloc a)"
proof -
  obtain e where e: "read_entry m q i = Some e"
    using assms by (cases "read_entry m q i") (simp_all add: create_next_table_def)
  show ?thesis
  proof (cases "is_unused e")
    case True
    then show ?thesis
      using assms e
      by (cases "alloc a"; cases "fst (alloc a)")
        (auto simp: create_next_table_def split: Option.bind_splits sum.splits
          PageTableWalkError.splits if_splits)
  next
    case False
    then show ?thesis
      using assms e
      by (auto simp: create_next_table_def split: Option.bind_splits sum.splits
          PageTableWalkError.splits if_splits)
  qed
qed

lemma create_path_allocates:
  "create_path X W alloc p Q fl (m, a) = Some (r, (m', a')) \<Longrightarrow>
    \<exists>k\<le>length Q. a' = ((\<lambda>a. snd (alloc a)) ^^ k) a"
proof (induction Q arbitrary: p m a)
  case (Cons i Q)
  let ?f = "\<lambda>a. snd (alloc a)"
  obtain x m1 a1 where c: "create_next_table X W alloc p i fl (m, a) = Some (x, (m1, a1))"
    using Cons.prems by (cases "create_next_table X W alloc p i fl (m, a)") auto
  have "a1 = (?f ^^ 0) a \<or> a1 = (?f ^^ 1) a"
    using create_next_table_allocates [OF c] by simp
  then obtain j where j: "j \<le> 1" "a1 = (?f ^^ j) a" by (metis le_numeral_extra(4) zero_le_one)
  show ?case
  proof (cases x)
    case (Inl err)
    with c Cons.prems j show ?thesis by (intro exI [of _ j]) auto
  next
    case (Inr q)
    with c Cons.prems have "create_path X W alloc q Q fl (m1, a1) = Some (r, (m', a'))" by simp
    then obtain k where k: "k \<le> length Q" "a' = (?f ^^ k) a1" using Cons.IH by blast
    with j have "a' = (?f ^^ (k + j)) a" "k + j \<le> length (i # Q)" by (simp_all add: funpow_add)
    then show ?thesis by blast
  qed
qed (auto intro: exI [of _ 0])

context extern_ok
begin

lemma map_to_allocates:
  assumes "map_to_with_table_flags X S self alloc p f fl pfl (m, a) = Some (r, (m', a'))"
  shows "\<exists>k\<le>length (page_parents S p). a' = ((\<lambda>a. snd (alloc a)) ^^ k) a"
proof -
  obtain x m1 a1 where c: "create_path X (page_table_walker self) alloc (level_4_table self)
      (page_parents S p) pfl (m, a) = Some (x, (m1, a1))"
    using assms unfolding map_to_walk
    by (cases "create_path X (page_table_walker self) alloc (level_4_table self)
      (page_parents S p) pfl (m, a)") auto
  have "a' = a1"
    using assms c unfolding map_to_walk
    by (cases x) (auto split: Option.bind_splits if_splits)
  with create_path_allocates [OF c] show ?thesis by simp
qed

end

lemma bump_funpow: "((\<lambda>a. snd (bump_allocate limit a)) ^^ k) n \<le> n + k"
  by (induction k) (auto simp: bump_allocate_def le_Suc_eq)

end
