(* ===== verification/Mapper_Properties.thy ===== *)
theory Mapper_Properties
  imports Mapper_Contract
begin

text \<open>
  The properties of the mappers: what mapping, unmapping, flag updates and translation do to the
  address space, for the mapped page table and the offset page table. A concrete address space (an
  offset page table at the start of the upper half, with an empty level 4 table and a bump
  allocator) shows that the hypotheses can be met.
\<close>

section \<open>A concrete address space\<close>

definition demo_offset :: VirtAddr where
  "demo_offset = VirtAddr 0xffff800000000000"

definition demo_table :: OffsetPageTable where
  "demo_table = OffsetPageTable_new 0xffff800000001000 demo_offset"

definition demo_mapper :: MappedPageTable where
  "demo_mapper = inner demo_table"

definition demo_mem :: mem where
  "demo_mem = (\<lambda>_. PageTable_new)"

definition demo_page :: Page where
  "demo_page = Page (VirtAddr 0x400000)"

definition demo_frame :: PhysFrame where
  "demo_frame = PhysFrame (PhysAddr 0x6000)"

definition demo_flags :: PageTableFlags where
  "demo_flags = PRESENT OR WRITABLE"

lemma demo_parts:
  "page_table_frame_mapping (page_table_walker demo_mapper) = frame_to_pointer \<lparr>offset = demo_offset\<rparr>"
  "level_4_table demo_mapper = 0xffff800000001000" "inner demo_table = demo_mapper"
  by (simp_all add: demo_mapper_def demo_table_def OffsetPageTable_new_def MappedPageTable_new_def
      Let_def)

lemma demo_mem_ok: "mem_ok demo_mem"
  by (simp add: mem_ok_def demo_mem_def PageTable_new_def ENTRY_COUNT_def)

lemma demo_unused: "index_ok i \<Longrightarrow> is_unused (ent demo_mem p i)"
  by (simp add: ent_def demo_mem_def PageTable_new_def ENTRY_COUNT_def index_ok_def is_unused_def
      PageTableEntry_new_def)

lemma demo_args: "map_args Size4KiB demo_frame demo_flags demo_flags"
proof -
  have "demo_flags = 3" by (simp add: demo_flags_def flag_defs)
  moreover have "pure_flags 3" by (simp add: pure_flags_def ADDR_MASK_def)
  moreover have "bit (3 :: u64) 0" "\<not> bit (3 :: u64) 7" by simp_all
  moreover have "frame_ok Size4KiB demo_frame"
    by (simp add: frame_ok_def demo_frame_def phys_ok_def)
  ultimately show ?thesis by (simp add: map_args_def table_flags_def)
qed

lemma demo_pointer:
  assumes "k < 4096"
  shows "frame_at Size4KiB k \<in> offset_frames \<lparr>offset = demo_offset\<rparr>"
    and "frame_to_pointer \<lparr>offset = demo_offset\<rparr> (frame_at Size4KiB k) =
      Some (0xffff800000000000 + of_nat (k * 4096))"
proof -
  have u: "unat (of_nat (k * 4096) :: u64) = k * 4096"
    using assms by (intro unat_of_nat_small) simp
  then show mem: "frame_at Size4KiB k \<in> offset_frames \<lparr>offset = demo_offset\<rparr>"
    using assms by (subst offset_frames_upper) (simp_all add: demo_offset_def frame_at_def)
  then show "frame_to_pointer \<lparr>offset = demo_offset\<rparr> (frame_at Size4KiB k) =
      Some (0xffff800000000000 + of_nat (k * 4096))"
    by (auto simp: offset_frames_def frame_to_pointer_def VirtAddr_add_def checked_add_def
        VirtAddr_new_eq demo_offset_def frame_at_def PhysAddr_as_u64_def PhysFrame_start_address_def
        VirtAddr_as_mut_ptr_def VirtAddr_as_ptr_def VirtAddr_as_u64_def split: if_splits)
qed

lemma demo_good:
  "good (page_table_walker demo_mapper) (level_4_table demo_mapper) (bump_free 4096) (demo_mem, 2)"
proof -
  let ?W = "page_table_walker demo_mapper" and ?r = "level_4_table demo_mapper"
  have t: "tree_ok ?W demo_mem ?r" "tables ?W demo_mem ?r = {?r}"
    using tree_ok_empty [OF demo_mem_ok demo_unused] by blast+
  have "frames_ok ?W ?r demo_mem (bump_free 4096 2)"
  proof (rule offset_mapping.frames_okI [OF _ _ demo_parts(1)])
    show "bump_free 4096 2 \<subseteq> offset_frames \<lparr>offset = demo_offset\<rparr>"
      using demo_pointer(1) by (auto simp: bump_free_def)
    fix f assume "f \<in> bump_free 4096 2"
    then obtain k where k: "f = frame_at Size4KiB k" "2 \<le> k" "k < 4096"
      by (auto simp: bump_free_def)
    have "unat (of_nat (k * 4096) :: u64) = k * 4096"
      using k by (intro unat_of_nat_small) simp
    then have "unat (of_nat (k * 4096) :: u64) \<noteq> unat (0x1000 :: u64)" using k by simp
    then have "(of_nat (k * 4096) :: u64) \<noteq> 0x1000" by metis
    then have "(0xffff800000000000 + of_nat (k * 4096) :: u64) \<noteq> 0xffff800000000000 + 0x1000"
      by (simp only: add_left_cancel not_False_eq_True)
    also have "(0xffff800000000000 + 0x1000 :: u64) = ?r" by (simp add: demo_parts)
    finally show "the (frame_to_pointer \<lparr>offset = demo_offset\<rparr> f) \<notin> tables ?W demo_mem ?r"
      by (simp only: t(2) k(1) demo_pointer(2) [OF k(3)] option.sel singleton_iff not_False_eq_True)
  qed
  with t show ?thesis by (simp add: good_def)
qed

lemma demo_map_at:
  "\<exists>m' a'. map_to_with_table_flags (std_extern True) Size4KiB demo_mapper (bump_allocate 4096) p
    demo_frame demo_flags demo_flags (demo_mem, 2) = Some (Inr (MapperFlush p), (m', a'))"
proof (rule std.map_to_ok [OF bump_allocator_ok demo_good])
  show "can_allocate (bump_allocate 4096) (length (page_parents Size4KiB p)) 2"
    by (rule bump_can_allocate) simp
  show "resolve (page_table_walker demo_mapper) demo_mem (level_4_table demo_mapper) Q = Unresolved"
    if "path_ok Q" for Q
    using that by (intro resolve_empty_table demo_unused)
qed (use demo_args in \<open>simp_all add: map_args_def\<close>)

lemmas demo_map = demo_map_at [of demo_page]

lemma demo_bump: "allocator_ok (bump_allocate 4096) (bump_free 4096)"
  by (rule bump_allocator_ok) simp

lemma demo_translation: "page_translation Size4KiB demo_frame demo_flags (VirtAddr 0x400123) =
    Mapped (MappedFrame_Size4KiB demo_frame) 0x123 3"
proof -
  have "(0x6003 :: u64) AND PageTableFlags_all = 3"
    by (simp add: all_flags_alt mask_eq_exp_minus_1)
  then show ?thesis
    by (simp add: page_translation_def page_offset_def demo_frame_def demo_flags_def leaf_flags_def
        flag_defs)
qed

lemma demo_in_page: "in_page Size4KiB demo_page (VirtAddr 0x400123)"
  by (simp add: in_page_def demo_page_def lin_def)

lemma demo_tree: "tree_ok (page_table_walker demo_mapper) demo_mem (level_4_table demo_mapper)"
  using demo_good by (simp add: good_def)

text \<open>A 2MiB page at the same address, in conflict with the 4KiB page.\<close>

definition demo_large_frame :: PhysFrame where
  "demo_large_frame = PhysFrame (PhysAddr 0x600000)"

lemma demo_large_args: "map_args Size2MiB demo_large_frame demo_flags demo_flags"
  using demo_args by (simp add: map_args_def frame_ok_def demo_large_frame_def phys_ok_def)

lemma demo_large_map:
  "\<exists>m' a'. map_to_with_table_flags (std_extern True) Size2MiB demo_mapper (bump_allocate 4096) demo_page
    demo_large_frame demo_flags demo_flags (demo_mem, 2) = Some (Inr (MapperFlush demo_page), (m', a'))"
proof (rule std.map_to_ok [OF bump_allocator_ok demo_good])
  show "can_allocate (bump_allocate 4096) (length (page_parents Size2MiB demo_page)) 2"
    by (rule bump_can_allocate) simp
  show "resolve (page_table_walker demo_mapper) demo_mem (level_4_table demo_mapper) Q = Unresolved"
    if "path_ok Q" for Q
    using that by (intro resolve_empty_table demo_unused)
  show "goto (page_table_walker demo_mapper) demo_mem (level_4_table demo_mapper)
      (page_path Size2MiB demo_page) = Inl Walk_NotMapped"
    using unused_parts [OF demo_unused, of "Page_p4_index demo_page"] by (simp add: page_path_def)
qed (use demo_large_args in \<open>simp_all add: map_args_def\<close>)

lemma demo_large_translation:
  "page_translation Size2MiB demo_large_frame demo_flags (VirtAddr 0x400123) =
    Mapped (MappedFrame_Size2MiB demo_large_frame) 0x123 0x83"
proof -
  have "(0x600083 :: u64) AND PageTableFlags_all = 0x83"
    by (simp add: all_flags_alt mask_eq_exp_minus_1)
  then show ?thesis
    by (simp add: page_translation_def page_offset_def demo_large_frame_def demo_flags_def
        leaf_flags_def flag_defs)
qed

lemma demo_conflict:
  "\<exists>m1 a1 err m2 a2.
    map_to_with_table_flags (std_extern True) Size2MiB demo_mapper (bump_allocate 4096) demo_page
      demo_large_frame demo_flags demo_flags (demo_mem, 2) = Some (Inr (MapperFlush demo_page), (m1, a1)) \<and>
    map_to_with_table_flags (std_extern True) Size4KiB demo_mapper (bump_allocate 4096) demo_page
      demo_frame demo_flags demo_flags (m1, a1) = Some (Inl err, (m2, a2)) \<and>
    good (page_table_walker demo_mapper) (level_4_table demo_mapper) (bump_free 4096) (m1, a1) \<and>
    translate_addr (translate (std_extern True) demo_mapper m1) (VirtAddr 0x400123) =
      Some (Some (PhysAddr 0x600123))"
proof -
  obtain m1 a1 where r: "map_to_with_table_flags (std_extern True) Size2MiB demo_mapper
      (bump_allocate 4096) demo_page demo_large_frame demo_flags demo_flags (demo_mem, 2) =
      Some (Inr (MapperFlush demo_page), (m1, a1))"
    using demo_large_map by blast
  have g: "good (page_table_walker demo_mapper) (level_4_table demo_mapper) (bump_free 4096) (m1, a1)"
    using bump_mapped.map_total [OF demo_good demo_large_args, where c = True and p = demo_page] r by auto
  have "in_page Size2MiB demo_page (VirtAddr 0x400123)"
    by (simp add: in_page_def demo_page_def lin_def)
  then have v: "translate (std_extern True) demo_mapper m1 (VirtAddr 0x400123) =
      Some (Mapped (MappedFrame_Size2MiB demo_large_frame) 0x123 0x83)"
    using bump_mapped.map_view [OF demo_good demo_large_args r] demo_large_translation by simp
  then have "translate_addr (translate (std_extern True) demo_mapper m1) (VirtAddr 0x400123) =
      Some (Some (PhysAddr 0x600123))"
    by (simp add: translate_addr_def demo_large_frame_def PhysAddr_add_def checked_add_def
        PhysAddr_new_eq phys_ok_def)
  moreover obtain x m2 a2 where x: "map_to_with_table_flags (std_extern True) Size4KiB demo_mapper
      (bump_allocate 4096) demo_page demo_frame demo_flags demo_flags (m1, a1) = Some (x, (m2, a2))"
    using bump_mapped.map_total [OF g demo_args, where c = True and p = demo_page] by auto
  moreover have "\<exists>err. x = Inl err"
    using bump_mapped.map_unmapped [OF g demo_args, where c = True and p = demo_page and m' = m2
        and a' = a2 and v = "VirtAddr 0x400123"] x v demo_in_page by (cases x) auto
  ultimately show ?thesis using r g by blast
qed

section \<open>Reading a tree\<close>

lemma goto_unmapped_resolve:
  "goto W m p P = Inl Walk_NotMapped \<Longrightarrow> Q \<noteq> [] \<Longrightarrow> resolve W m p (P @ Q) = Unresolved"
proof (induction P arbitrary: p)
  case (Cons i P)
  then obtain j R where "P @ Q = j # R" by (cases "P @ Q") auto
  with Cons show ?case by (auto split: if_splits option.splits)
qed simp

lemma resolved_leaf:
  "resolve W m r [i, j, k, l] = Resolved_Leaf e \<Longrightarrow>
    \<exists>q. goto W m r [i, j, k] = Inr q \<and> ent m q l = e \<and> \<not> is_unused e"
  "resolve W m r [i, j, k, l] = Resolved_Huge (Suc 0) e \<Longrightarrow>
    \<exists>q. goto W m r [i, j] = Inr q \<and> ent m q k = e \<and> huge e"
  "resolve W m r [i, j, k, l] = Resolved_Huge 2 e \<Longrightarrow>
    \<exists>q. goto W m r [i] = Inr q \<and> ent m q j = e \<and> huge e"
  by (auto split: if_splits option.splits)

lemma huge_not_unused: "huge e \<Longrightarrow> \<not> is_unused e"
  by (auto simp: huge_def is_unused_def)

context extern_ok
begin

lemma translated_leaf:
  assumes t: "tree_ok (page_table_walker self) m (level_4_table self)"
    and v: "in_page S p v" "translate X self m v = Some (Mapped (mapped_frame S f) off fl)"
  shows "\<exists>q. goto (page_table_walker self) m (level_4_table self) (page_parents S p) = Inr q \<and>
    leaf_entry (page_table_walker self) S (ent m q (page_leaf S p)) \<and>
    \<not> is_unused (ent m q (page_leaf S p)) \<and>
    PhysFrame_containing_address S (entry_addr (ent m q (page_leaf S p))) = Some f \<and>
    fl = PageTableEntry_flags X (ent m q (page_leaf S p))"
proof -
  let ?W = "page_table_walker self" and ?r = "level_4_table self"
  let ?res = "resolve ?W m ?r (addr_path v)"
  have pre: "prefix (page_path S p) (addr_path v)" using v(1) by (simp add: addr_in_page in_page_def)
  have r: "read_resolved X v ?res = Mapped (mapped_frame S f) off fl"
    using v(2) translate_resolve [OF t] by simp
  have c: "PhysFrame_containing_address S a = Some (the (PhysFrame_containing_address S a))" for a
    using PhysFrame_containing_address_total [of S a] by auto
  show ?thesis
  proof (cases S)
    case Size4KiB
    then obtain e where e: "?res = Resolved_Leaf e" "f = PhysFrame (entry_addr e)"
        "fl = PageTableEntry_flags X e"
      using r by (cases ?res) (auto split: if_splits)
    obtain q where "goto ?W m ?r (page_parents S p) = Inr q" "ent m q (page_leaf S p) = e"
        "\<not> is_unused e"
      using resolved_leaf(1) [OF e(1) [unfolded addr_path_def]] pre Size4KiB
      by (auto simp: addr_path_def page_path_def simp del: goto.simps)
    with e(2,3) Size4KiB containing_frame [OF entry_frame_ok [of e]] show ?thesis
      by (auto simp: leaf_entry_def)
  next
    case Size2MiB
    then obtain n e where e: "?res = Resolved_Huge n e" "n \<noteq> 2"
        "f = the (PhysFrame_containing_address S (entry_addr e))" "fl = PageTableEntry_flags X e"
      using r by (cases ?res) (auto split: if_splits)
    have "n \<noteq> 3" using e(1) tree_ok_root [OF t] by (auto simp: addr_path_def split: if_splits option.splits)
    then have "n = Suc 0"
      using e(1,2) by (auto simp: addr_path_def split: if_splits option.splits)
    with e(1) have e1: "?res = Resolved_Huge (Suc 0) e" by simp
    obtain q where "goto ?W m ?r (page_parents S p) = Inr q" "ent m q (page_leaf S p) = e" "huge e"
      using resolved_leaf(2) [OF e1 [unfolded addr_path_def]] pre Size2MiB
      by (auto simp: addr_path_def page_path_def simp del: goto.simps)
    with e(3,4) c huge_not_unused show ?thesis by (auto simp: leaf_entry_def)
  next
    case Size1GiB
    then obtain e where e: "?res = Resolved_Huge 2 e" "f = the (PhysFrame_containing_address S (entry_addr e))"
        "fl = PageTableEntry_flags X e"
      using r by (cases ?res) (auto split: if_splits)
    obtain q where "goto ?W m ?r (page_parents S p) = Inr q" "ent m q (page_leaf S p) = e" "huge e"
      using resolved_leaf(3) [OF e(1) [unfolded addr_path_def]] pre Size1GiB
      by (auto simp: addr_path_def page_path_def simp del: goto.simps)
    with e(2,3) c huge_not_unused show ?thesis by (auto simp: leaf_entry_def)
  qed
qed

end

lemma frame_plus_offset:
  assumes "frame_ok S f"
  shows "PhysAddr_add (frame_start f) (page_offset S v) = Some (PhysAddr (pa (frame_start f) + page_offset S v))"
proof -
  let ?b = "2 ^ size_bits S :: nat"
  have o: "unat (page_offset S v) < ?b" by (simp add: page_offset_def unat_take_bit)
  have "unat (pa (frame_start f)) + unat (page_offset S v) < (frame_num S f + 1) * ?b"
    using o assms by (simp add: unat_frame_num)
  also have "\<dots> \<le> 2 ^ (52 - size_bits S) * ?b"
    using frame_num_lt [OF assms] by (intro mult_le_mono1) simp
  also have "\<dots> = 2 ^ 52" by (rule frame_space [symmetric])
  finally have lt: "unat (pa (frame_start f)) + unat (page_offset S v) < 2 ^ 52" .
  then have "unat (pa (frame_start f) + page_offset S v) = unat (pa (frame_start f)) + unat (page_offset S v)"
    by (intro unat_add_no_wrap) simp
  with lt assms show ?thesis
    by (simp add: PhysAddr_add_eq_Some phys_ok_def)
qed

lemma mapped_frame_start [simp]: "MappedFrame_start_address (mapped_frame S f) = frame_start f"
  by (cases S) simp_all

context extern_ok
begin

lemma view_addr:
  assumes "frame_ok S f" "entry_addr e = frame_start f" "present e" "S \<noteq> Size4KiB \<longrightarrow> huge e"
  shows "translate_addr (\<lambda>v. Some (read_resolved X v (view S e))) v =
    Some (Some (PhysAddr (pa (frame_start f) + page_offset S v)))"
proof -
  have "\<exists>fl. read_resolved X v (view S e) = Mapped (mapped_frame S f) (page_offset S v) fl"
    using assms containing_frame [OF assms(1)]
    by (cases S) (auto simp: offset_masks is_unused_def present_def)
  then show ?thesis
    using frame_plus_offset [OF assms(1)] by (auto simp: translate_addr_def)
qed

end

text \<open>Writing a leaf keeps the tables where they are.\<close>

lemma leaf_write_goto:
  assumes t: "tree_ok W m root" and g: "goto W m root (page_parents S p) = Inr q"
    and e: "leaf_entry W S (ent m q (page_leaf S p))" "leaf_entry W S e'" and Q: "path_ok Q" "length Q \<le> 3"
  shows "goto W (upd m q (page_leaf S p) e') root Q = Inr r \<longleftrightarrow> goto W m root Q = Inr r"
proof -
  have mem: "mem_ok m" using t by (rule tree_ok_mem)
  have s: "same_except W root m (upd m q (page_leaf S p) e') q (page_leaf S p)" using mem by (simp add: same_except_upd)
  have "length (page_parents S p) = 3 \<or>
      child W (ent (upd m q (page_leaf S p) e') q (page_leaf S p)) = child W (ent m q (page_leaf S p))"
    using leaf_entry_child [OF e(1)] leaf_entry_child [OF e(2)] mem length_parents(3) [of S p]
    by (cases "S = Size4KiB") simp_all
  from goto_same_child [OF t s g page_path_ok(1) length_parents(2) this Q] show ?thesis .
qed

lemma unused_entry: "set_unused e = PageTableEntry_new"
  by (simp add: set_unused_def PageTableEntry_new_def)

context extern_ok
begin

lemma unmap_shape:
  assumes t: "tree_ok (page_table_walker self) m (level_4_table self)"
    and u: "unmap X S self p m = Some (Inr (f, fl), m')"
  shows "\<exists>q. goto (page_table_walker self) m (level_4_table self) (page_parents S p) = Inr q \<and>
    m' = upd m q (page_leaf S p) PageTableEntry_new \<and>
    (\<forall>Q r. path_ok Q \<longrightarrow> length Q \<le> 3 \<longrightarrow> goto (page_table_walker self) m' (level_4_table self) Q = Inr r \<longleftrightarrow>
       goto (page_table_walker self) m (level_4_table self) Q = Inr r)"
proof -
  let ?W = "page_table_walker self" and ?r = "level_4_table self"
  obtain q where q: "goto ?W m ?r (page_parents S p) = Inr q"
    and e: "S \<noteq> Size4KiB \<longrightarrow> huge (ent m q (page_leaf S p))"
    and m': "m' = upd m q (page_leaf S p) PageTableEntry_new"
    using u unfolding unmap_spec [OF t] by (auto simp: Let_def unused_entry split: sum.splits if_splits)
  have le: "leaf_entry ?W S (ent m q (page_leaf S p))" "leaf_entry ?W S PageTableEntry_new"
    using e set_unused_leaf(1) [of ?W S "PageTableEntry_new"] by (auto simp: leaf_entry_def unused_entry)
  from leaf_write_goto [OF t q this] m' q show ?thesis by blast
qed

end

section \<open>Changing the flags of a mapped page\<close>

definition with_flags :: "PageSize \<Rightarrow> PageTableEntry \<Rightarrow> PageTableFlags \<Rightarrow> PageTableEntry" where
  "with_flags S e fl = \<lparr>entry = (entry e AND ADDR_MASK) OR leaf_flags S fl\<rparr>"

lemma with_flags_parts:
  "present (with_flags S e fl) \<longleftrightarrow> bit fl 0" "S \<noteq> Size4KiB \<Longrightarrow> huge (with_flags S e fl)"
  "pure_flags fl \<Longrightarrow> entry_addr (with_flags S e fl) = entry_addr e" "leaf_entry W S (with_flags S e fl)"
proof -
  show "present (with_flags S e fl) \<longleftrightarrow> bit fl 0" and h: "S \<noteq> Size4KiB \<Longrightarrow> huge (with_flags S e fl)"
    unfolding with_flags_def flag_bits by (simp_all add: bit_leaf_flags)
  then show "leaf_entry W S (with_flags S e fl)" by (auto simp: leaf_entry_def)
  show "entry_addr (with_flags S e fl) = entry_addr e" if "pure_flags fl"
    using pure_leaf_flags [OF that, of S]
    unfolding with_flags_def flag_bits by (simp add: pure_flags_def entry_addr_def bit.conj_disj_distrib2)
qed

context extern_ok
begin

lemma update_flags_ok:
  assumes t: "tree_ok (page_table_walker self) m (level_4_table self)"
    and v: "in_page S p v" "translate X self m v = Some (Mapped (mapped_frame S f) off fl0)"
  shows "\<exists>q m'. goto (page_table_walker self) m (level_4_table self) (page_parents S p) = Inr q \<and>
    PhysFrame_containing_address S (entry_addr (ent m q (page_leaf S p))) = Some f \<and>
    update_flags X S self p fl m = Some (Inr (MapperFlush p), m') \<and>
    tree_ok (page_table_walker self) m' (level_4_table self) \<and>
    tables (page_table_walker self) m' (level_4_table self) = tables (page_table_walker self) m (level_4_table self) \<and>
    remapped (page_table_walker self) (level_4_table self) S p
      (with_flags S (ent m q (page_leaf S p)) fl) m m'"
proof -
  obtain q where q: "goto (page_table_walker self) m (level_4_table self) (page_parents S p) = Inr q"
    "leaf_entry (page_table_walker self) S (ent m q (page_leaf S p))"
    "\<not> is_unused (ent m q (page_leaf S p))"
    "PhysFrame_containing_address S (entry_addr (ent m q (page_leaf S p))) = Some f"
    using translated_leaf [OF t v] by blast
  let ?e = "with_flags S (ent m q (page_leaf S p)) fl"
  have le: "leaf_entry (page_table_walker self) S ?e" by (rule with_flags_parts)
  note w = leaf_write [OF t q(1,2) le]
  have "update_flags X S self p fl m = Some (Inr (MapperFlush p), upd m q (page_leaf S p) ?e)"
    unfolding update_flags_spec [OF t] using q by (simp add: with_flags_def)
  then show ?thesis
    using q w by (auto simp: remapped_def)
qed

lemma read_with_flags:
  assumes "bit fl 0" "PhysFrame_containing_address S (entry_addr (with_flags S e fl)) = Some f"
  shows "read_resolved X v (view S (with_flags S e fl)) =
    Mapped (mapped_frame S f) (page_offset S v) (entry (with_flags S e fl) AND PageTableFlags_all)"
proof -
  let ?e = "with_flags S e fl"
  have "present ?e" using assms(1) by (simp add: with_flags_parts)
  then have "\<not> is_unused ?e" by (auto simp: present_def is_unused_def)
  moreover have "PhysFrame (entry_addr ?e) = f" if "S = Size4KiB"
    using that assms(2) containing_frame [OF entry_frame_ok [of ?e]] by simp
  moreover have "huge ?e" if "S \<noteq> Size4KiB" using that by (rule with_flags_parts)
  ultimately show ?thesis
    using assms(2) by (cases S) (simp_all add: offset_masks flags_eq)
qed

end

section \<open>Mapping\<close>

text \<open>
  C1. After a successful \<open>map_to_with_table_flags\<close>, every address of the page translates to the same
  offset in the given frame, and the translation of every other address is what it was. The flags are the
  given ones, with \<open>HUGE_PAGE\<close> added for the large sizes, and with bits 12 and 51 of the frame address, which
  the flags of an entry include (the given flags must not use these two bits).
\<close>

theorem map_to_translates:
  assumes "extern_ok X" and "allocator_ok alloc free"
    and "good (page_table_walker self) (level_4_table self) free (m, a)"
    and "map_args S frame flags parent_flags"
    and "map_to_with_table_flags X S self alloc page frame flags parent_flags (m, a) =
      Some (Inr flush, (m', a'))"
  shows "translate X self m' v =
    (if in_page S page v then Some (page_translation S frame flags v) else translate X self m v)"
  by (rule mapper.map_view [OF extern_ok.mapped_mapper [OF assms(1,2)] assms(3-5)])

theorem map_to_translates_witness:
  "\<exists>m' a'. map_to_with_table_flags (std_extern True) Size4KiB demo_mapper (bump_allocate 4096) demo_page
      demo_frame demo_flags demo_flags (demo_mem, 2) = Some (Inr (MapperFlush demo_page), (m', a')) \<and>
    translate (std_extern True) demo_mapper m' (VirtAddr 0x400123) =
      Some (Mapped (MappedFrame_Size4KiB demo_frame) 0x123 3)"
proof -
  obtain m' a' where r: "map_to_with_table_flags (std_extern True) Size4KiB demo_mapper
      (bump_allocate 4096) demo_page demo_frame demo_flags demo_flags (demo_mem, 2) =
      Some (Inr (MapperFlush demo_page), (m', a'))"
    using demo_map by blast
  with map_to_translates [OF std_extern_ok demo_bump demo_good demo_args r, of "VirtAddr 0x400123"]
  show ?thesis by (auto simp: demo_in_page demo_translation)
qed

text \<open>
  C2. \<open>map_to_with_table_flags\<close> never panics on a well-formed tree and valid arguments, and whatever
  its result, the tree stays well formed (no two paths reach the same table) and the allocator owns
  none of its tables.
\<close>

theorem map_to_keeps_tree:
  assumes "extern_ok X" and "allocator_ok alloc free"
    and "good (page_table_walker self) (level_4_table self) free s"
    and "map_args S frame flags parent_flags"
  shows "\<exists>r s'. map_to_with_table_flags X S self alloc page frame flags parent_flags s = Some (r, s') \<and>
    good (page_table_walker self) (level_4_table self) free s'"
  by (rule mapper.map_total [OF extern_ok.mapped_mapper [OF assms(1,2)] assms(3,4)])

theorem map_to_keeps_tree_witness:
  "\<exists>r s'. map_to_with_table_flags (std_extern False) Size4KiB demo_mapper (bump_allocate 4096) demo_page
      demo_frame demo_flags demo_flags (demo_mem, 2) = Some (r, s') \<and>
    good (page_table_walker demo_mapper) (level_4_table demo_mapper) (bump_free 4096) s'"
  by (rule map_to_keeps_tree [OF std_extern_ok demo_bump demo_good demo_args])

text \<open>
  C8. When \<open>map_to_with_table_flags\<close> fails, whatever the error, every virtual address still
  translates to the physical address it translated to before.
\<close>

theorem map_to_error_keeps_addresses:
  assumes "extern_ok X" and "allocator_ok alloc free"
    and "good (page_table_walker self) (level_4_table self) free (m, a)"
    and "map_args S frame flags parent_flags"
    and "map_to_with_table_flags X S self alloc page frame flags parent_flags (m, a) =
      Some (Inl err, (m', a'))"
  shows "translate_addr (translate X self m') v = translate_addr (translate X self m) v"
  by (rule mapper.map_error [OF extern_ok.mapped_mapper [OF assms(1,2)] assms(3-5)])

theorem map_to_error_keeps_addresses_witness:
  "\<exists>m1 a1 err m2 a2.
    map_to_with_table_flags (std_extern True) Size2MiB demo_mapper (bump_allocate 4096) demo_page
      demo_large_frame demo_flags demo_flags (demo_mem, 2) = Some (Inr (MapperFlush demo_page), (m1, a1)) \<and>
    map_to_with_table_flags (std_extern True) Size4KiB demo_mapper (bump_allocate 4096) demo_page
      demo_frame demo_flags demo_flags (m1, a1) = Some (Inl err, (m2, a2)) \<and>
    translate_addr (translate (std_extern True) demo_mapper m2) (VirtAddr 0x400123) =
      Some (Some (PhysAddr 0x600123))"
proof -
  obtain m1 a1 err m2 a2 where r: "map_to_with_table_flags (std_extern True) Size2MiB demo_mapper
      (bump_allocate 4096) demo_page demo_large_frame demo_flags demo_flags (demo_mem, 2) =
      Some (Inr (MapperFlush demo_page), (m1, a1))"
    "map_to_with_table_flags (std_extern True) Size4KiB demo_mapper (bump_allocate 4096) demo_page
      demo_frame demo_flags demo_flags (m1, a1) = Some (Inl err, (m2, a2))"
    "good (page_table_walker demo_mapper) (level_4_table demo_mapper) (bump_free 4096) (m1, a1)"
    "translate_addr (translate (std_extern True) demo_mapper m1) (VirtAddr 0x400123) =
      Some (Some (PhysAddr 0x600123))"
    using demo_conflict by blast
  with map_to_error_keeps_addresses [OF std_extern_ok demo_bump r(3) demo_args r(2), of "VirtAddr 0x400123"]
  show ?thesis by auto
qed

text \<open>
  C9. When the page is not mapped and the allocator can deliver one frame for each level above the
  page (three for a 4KiB page, two for 2MiB, one for 1GiB), \<open>map_to_with_table_flags\<close> succeeds and
  returns the flush promise for the page.
\<close>

theorem map_to_succeeds:
  assumes "extern_ok X" and "allocator_ok alloc free"
    and g: "good (page_table_walker self) (level_4_table self) free (m, a)"
    and args: "map_args S frame flags parent_flags"
    and un: "translate_page X S self m page = Some (Inl Translate_PageNotMapped)"
    and "can_allocate alloc (case S of Size4KiB \<Rightarrow> 3 | Size2MiB \<Rightarrow> 2 | Size1GiB \<Rightarrow> 1) a"
  shows "\<exists>m' a'. map_to_with_table_flags X S self alloc page frame flags parent_flags (m, a) =
    Some (Inr (MapperFlush page), (m', a'))"
proof -
  let ?W = "page_table_walker self" and ?r = "level_4_table self" and ?P = "page_parents S page"
  have t: "tree_ok ?W m ?r" using g by (simp add: good_def)
  have c: "can_allocate alloc (length ?P) a" using assms(6)
    by (cases S) (simp_all add: numeral_3_eq_3 numeral_2_eq_2)
  have "goto ?W m ?r ?P = Inl Walk_NotMapped \<or>
      (\<exists>q. goto ?W m ?r ?P = Inr q \<and> is_unused (ent m q (page_leaf S page)))"
    using un unfolding extern_ok.translate_page_spec [OF assms(1) t]
    by (auto simp: Let_def split: sum.splits if_splits elim: TranslateError_from_walk.elims)
  then show ?thesis
  proof (elim disjE exE conjE)
    assume n: "goto ?W m ?r ?P = Inl Walk_NotMapped"
    have "resolve ?W m ?r Q = Unresolved" if "prefix (page_path S page) Q" for Q
      using that goto_unmapped_resolve [OF n] by (auto simp: page_path_def elim!: prefixE)
    then show ?thesis
      using args n by (intro extern_ok.map_to_ok [OF assms(1,2) g])
        (auto simp: map_args_def c page_path_def goto_append)
  next
    fix q assume q: "goto ?W m ?r ?P = Inr q" "is_unused (ent m q (page_leaf S page))"
    have "resolve ?W m ?r Q = Unresolved" if "prefix (page_path S page) Q" "length Q = 4" for Q
      using leaf_resolve [OF q(1) that(2,1)] q(2) unused_parts [OF q(2), of ?W]
      by (cases S) (auto simp: leaf_entry_def)
    then show ?thesis
      using args q unused_parts [OF q(2), of ?W] by (intro extern_ok.map_to_ok [OF assms(1,2) g])
        (auto simp: map_args_def c page_path_def goto_append)
  qed
qed

theorem map_to_succeeds_witness:
  "\<exists>m' a'. map_to_with_table_flags (std_extern False) Size4KiB demo_mapper (bump_allocate 4096) demo_page
    demo_frame demo_flags demo_flags (demo_mem, 2) = Some (Inr (MapperFlush demo_page), (m', a'))"
proof (rule map_to_succeeds [OF std_extern_ok demo_bump demo_good demo_args])
  show "translate_page (std_extern False) Size4KiB demo_mapper demo_mem demo_page =
      Some (Inl Translate_PageNotMapped)"
    using unused_parts [OF demo_unused, of _ _ "page_table_walker demo_mapper"]
    unfolding std.translate_page_spec [OF demo_tree] by simp
  show "can_allocate (bump_allocate 4096) (case Size4KiB of Size4KiB \<Rightarrow> 3 | Size2MiB \<Rightarrow> 2 | Size1GiB \<Rightarrow> 1) 2"
    by (rule bump_can_allocate) simp
qed

text \<open>
  C3. Mapping a page and then unmapping it gives back the frame and the flush promise of the page,
  and restores the translation of every address.
\<close>

theorem map_unmap_roundtrip:
  assumes "extern_ok X" and "allocator_ok alloc free"
    and "good (page_table_walker self) (level_4_table self) free (m, a)"
    and "map_args S frame flags parent_flags"
    and "map_to_with_table_flags X S self alloc page frame flags parent_flags (m, a) =
      Some (Inr flush, (m', a'))"
  shows "\<exists>m''. unmap X S self page m' = Some (Inr (frame, MapperFlush page), m'') \<and>
    good (page_table_walker self) (level_4_table self) free (m'', a') \<and>
    (\<forall>v. translate X self m'' v = translate X self m v)"
  by (rule mapper.map_unmap_restores [OF extern_ok.mapped_mapper [OF assms(1,2)] assms(3-5)])

theorem map_unmap_roundtrip_witness:
  "\<exists>m' a' m''. map_to_with_table_flags (std_extern True) Size4KiB demo_mapper (bump_allocate 4096)
      demo_page demo_frame demo_flags demo_flags (demo_mem, 2) =
      Some (Inr (MapperFlush demo_page), (m', a')) \<and>
    unmap (std_extern True) Size4KiB demo_mapper demo_page m' =
      Some (Inr (demo_frame, MapperFlush demo_page), m'')"
proof -
  obtain m' a' where r: "map_to_with_table_flags (std_extern True) Size4KiB demo_mapper
      (bump_allocate 4096) demo_page demo_frame demo_flags demo_flags (demo_mem, 2) =
      Some (Inr (MapperFlush demo_page), (m', a'))"
    using demo_map by blast
  with map_unmap_roundtrip [OF std_extern_ok demo_bump demo_good demo_args r] show ?thesis by blast
qed

text \<open>
  C7. A successful \<open>unmap\<close> returns the frame the page was mapped to and the flush promise of the page;
  afterwards no address of the page is mapped, and every other translation is unchanged. It clears the
  entry of the page and no other, and the tree of tables keeps its shape: every path leads to the table it
  led to before, so that no parent table is unlinked.
\<close>

theorem unmap_removes_page:
  assumes X: "extern_ok X" and t: "tree_ok (page_table_walker self) m (level_4_table self)"
    and u: "unmap X S self page m = Some (Inr (frame, flush), m')"
  shows "flush = MapperFlush page \<and> frame_ok S frame \<and>
    tree_ok (page_table_walker self) m' (level_4_table self) \<and>
    (\<forall>P q. path_ok P \<longrightarrow> length P \<le> 3 \<longrightarrow> goto (page_table_walker self) m' (level_4_table self) P = Inr q \<longleftrightarrow>
       goto (page_table_walker self) m (level_4_table self) P = Inr q) \<and>
    (\<exists>q. goto (page_table_walker self) m (level_4_table self) (page_parents S page) = Inr q \<and>
       (\<forall>p i. ent m' p i = (if p = q \<and> i = page_leaf S page then PageTableEntry_new else ent m p i))) \<and>
    (\<forall>v. translate X self m' v = (if in_page S page v then Some NotMapped else translate X self m v)) \<and>
    (\<forall>v. in_page S page v \<longrightarrow> translate_addr (translate X self m) v =
       Some (Some (PhysAddr (pa (frame_start frame) + page_offset S v))))"
proof -
  note o = extern_ok.unmap_ok [OF X t u]
  have n: "view S PageTableEntry_new = Unresolved"
    by (cases S) (simp_all add: PageTableEntry_new_def is_unused_def huge_def)
  have "translate X self m' v = (if in_page S page v then Some NotMapped else translate X self m v)" for v
    using extern_ok.translate_remapped [OF X t o(1,5), of v] n by (simp add: in_page_def)
  moreover have "translate_addr (translate X self m) v =
      Some (Some (PhysAddr (pa (frame_start frame) + page_offset S v)))" if v: "in_page S page v" for v
  proof -
    have pre: "prefix (page_path S page) (addr_path v)"
      using v by (simp add: in_page_def addr_in_page)
    obtain e where e: "entry_addr e = frame_start frame" "present e" "S \<noteq> Size4KiB \<longrightarrow> huge e"
      "resolve (page_table_walker self) m (level_4_table self) (addr_path v) = view S e"
      using o(6) pre addr_path_ok by blast
    then show ?thesis
      using extern_ok.view_addr [OF X o(4) e(1-3), of v]
      by (simp add: translate_addr_def extern_ok.translate_resolve [OF X t])
  qed
  moreover obtain q where q: "goto (page_table_walker self) m (level_4_table self) (page_parents S page) = Inr q"
      "m' = upd m q (page_leaf S page) PageTableEntry_new"
      "\<forall>Q r. path_ok Q \<longrightarrow> length Q \<le> 3 \<longrightarrow> goto (page_table_walker self) m' (level_4_table self) Q = Inr r \<longleftrightarrow>
         goto (page_table_walker self) m (level_4_table self) Q = Inr r"
    using extern_ok.unmap_shape [OF X t u] by blast
  moreover have "\<forall>p i. ent m' p i = (if p = q \<and> i = page_leaf S page then PageTableEntry_new else ent m p i)"
    using tree_ok_mem [OF t] by (simp add: q(2) ent_upd)
  ultimately show ?thesis using o by blast
qed

theorem unmap_removes_page_witness:
  "\<exists>m1 m2. unmap (std_extern True) Size4KiB demo_mapper demo_page m1 =
      Some (Inr (demo_frame, MapperFlush demo_page), m2) \<and>
    translate (std_extern True) demo_mapper m2 (VirtAddr 0x400123) = Some NotMapped \<and>
    (\<exists>q. goto (page_table_walker demo_mapper) m2 (level_4_table demo_mapper) (page_parents Size4KiB demo_page) = Inr q) \<and>
    translate_addr (translate (std_extern True) demo_mapper m1) (VirtAddr 0x400123) =
      Some (Some (PhysAddr 0x6123))"
proof -
  obtain m1 a1 where r: "map_to_with_table_flags (std_extern True) Size4KiB demo_mapper
      (bump_allocate 4096) demo_page demo_frame demo_flags demo_flags (demo_mem, 2) =
      Some (Inr (MapperFlush demo_page), (m1, a1))"
    using demo_map by blast
  obtain m2 where u: "unmap (std_extern True) Size4KiB demo_mapper demo_page m1 =
      Some (Inr (demo_frame, MapperFlush demo_page), m2)"
    using bump_mapped.map_unmap [OF demo_good demo_args r] by blast
  have t: "tree_ok (page_table_walker demo_mapper) m1 (level_4_table demo_mapper)"
    using bump_mapped.map_total [OF demo_good demo_args, where c = True and p = demo_page] r
    by (auto simp: good_def)
  have "pa (frame_start demo_frame) + page_offset Size4KiB (VirtAddr 0x400123) = 0x6123"
    by (simp add: demo_frame_def page_offset_def)
  then have "translate (std_extern True) demo_mapper m2 (VirtAddr 0x400123) = Some NotMapped"
    "translate_addr (translate (std_extern True) demo_mapper m1) (VirtAddr 0x400123) =
      Some (Some (PhysAddr 0x6123))"
    using unmap_removes_page [OF std_extern_ok t u] demo_in_page by simp_all
  moreover obtain q where "goto (page_table_walker demo_mapper) m1 (level_4_table demo_mapper) (page_parents Size4KiB demo_page) = Inr q"
    using unmap_removes_page [OF std_extern_ok t u] by blast
  then have "goto (page_table_walker demo_mapper) m2 (level_4_table demo_mapper) (page_parents Size4KiB demo_page) = Inr q"
    using unmap_removes_page [OF std_extern_ok t u] page_path_ok(1) length_parents(2) by blast
  ultimately show ?thesis using u by blast
qed

text \<open>
  After a successful \<open>map_to_with_table_flags\<close>, \<open>translate_page\<close> returns the mapped frame.
\<close>

theorem map_to_translate_page:
  assumes "extern_ok X" and "allocator_ok alloc free"
    and "good (page_table_walker self) (level_4_table self) free (m, a)"
    and "map_args S frame flags parent_flags"
    and "map_to_with_table_flags X S self alloc page frame flags parent_flags (m, a) =
      Some (Inr flush, (m', a'))"
  shows "translate_page X S self m' page = Some (Inr frame)"
  by (rule mapper.map_lookup [OF extern_ok.mapped_mapper [OF assms(1,2)] assms(3-5)])

theorem map_to_translate_page_witness:
  "\<exists>m' a'. map_to_with_table_flags (std_extern True) Size2MiB demo_mapper (bump_allocate 4096) demo_page
      demo_large_frame demo_flags demo_flags (demo_mem, 2) = Some (Inr (MapperFlush demo_page), (m', a')) \<and>
    translate_page (std_extern True) Size2MiB demo_mapper m' demo_page = Some (Inr demo_large_frame)"
proof -
  obtain m' a' where r: "map_to_with_table_flags (std_extern True) Size2MiB demo_mapper
      (bump_allocate 4096) demo_page demo_large_frame demo_flags demo_flags (demo_mem, 2) =
      Some (Inr (MapperFlush demo_page), (m', a'))"
    using demo_large_map by blast
  with map_to_translate_page [OF std_extern_ok demo_bump demo_good demo_large_args r] show ?thesis
    by blast
qed

section \<open>Flags\<close>

text \<open>
  C10. On a mapped page of size \<open>S\<close>, \<open>update_flags\<close> succeeds: afterwards each address of the page
  translates to the same frame and offset with exactly the given flags (and \<open>HUGE_PAGE\<close> for the
  large sizes); no old flag survives but bits 12 and 51, which are bits of the frame address. Every other
  translation is unchanged.
\<close>

theorem update_flags_effect:
  assumes X: "extern_ok X" and t: "tree_ok (page_table_walker self) m (level_4_table self)"
    and v: "in_page S page v" "translate X self m v = Some (Mapped (mapped_frame S frame) off old_flags)"
    and fl: "pure_flags new_flags" "bit new_flags 0"
  shows "\<exists>m'. update_flags X S self page new_flags m = Some (Inr (MapperFlush page), m') \<and>
    tree_ok (page_table_walker self) m' (level_4_table self) \<and>
    (\<forall>w. translate X self m' w =
      (if in_page S page w
       then Some (Mapped (mapped_frame S frame) (page_offset S w)
              ((leaf_flags S new_flags AND PageTableFlags_all) OR (old_flags AND ADDR_MASK)))
       else translate X self m w))"
proof -
  let ?W = "page_table_walker self" and ?r = "level_4_table self"
  obtain q m' where q: "goto ?W m ?r (page_parents S page) = Inr q"
    "PhysFrame_containing_address S (entry_addr (ent m q (page_leaf S page))) = Some frame"
    "update_flags X S self page new_flags m = Some (Inr (MapperFlush page), m')" "tree_ok ?W m' ?r"
    "remapped ?W ?r S page (with_flags S (ent m q (page_leaf S page)) new_flags) m m'"
    using extern_ok.update_flags_ok [OF X t v] by blast
  let ?e = "ent m q (page_leaf S page)"
  have old: "old_flags = entry ?e AND PageTableFlags_all"
    using extern_ok.translated_leaf [OF X t v] q(1) by (simp add: extern_ok.flags_eq [OF X])
  have "entry_addr (with_flags S ?e new_flags) = entry_addr ?e"
    using fl(1) by (rule with_flags_parts)
  moreover have "entry (with_flags S ?e new_flags) AND PageTableFlags_all =
      (leaf_flags S new_flags AND PageTableFlags_all) OR (old_flags AND ADDR_MASK)"
    unfolding old with_flags_def by (rule bit_word_eqI) (auto simp: bit_and_iff bit_or_iff)
  ultimately have "read_resolved X w (view S (with_flags S ?e new_flags)) =
      Mapped (mapped_frame S frame) (page_offset S w)
        ((leaf_flags S new_flags AND PageTableFlags_all) OR (old_flags AND ADDR_MASK))" for w
    using extern_ok.read_with_flags [OF X fl(2), of S ?e frame w] q(2) by simp
  with q show ?thesis
    using extern_ok.translate_remapped [OF X t q(4,5)] by (auto simp: in_page_def)
qed

text \<open>The 4KiB demo page, once mapped.\<close>

lemma demo_mapped:
  "\<exists>m. tree_ok (page_table_walker demo_mapper) m (level_4_table demo_mapper) \<and>
    translate (std_extern True) demo_mapper m (VirtAddr 0x400123) =
      Some (Mapped (mapped_frame Size4KiB demo_frame) 0x123 3)"
proof -
  obtain m a where r: "map_to_with_table_flags (std_extern True) Size4KiB demo_mapper
      (bump_allocate 4096) demo_page demo_frame demo_flags demo_flags (demo_mem, 2) =
      Some (Inr (MapperFlush demo_page), (m, a))"
    using demo_map by blast
  have "tree_ok (page_table_walker demo_mapper) m (level_4_table demo_mapper)"
    using bump_mapped.map_total [OF demo_good demo_args, where c = True and p = demo_page] r
    by (auto simp: good_def)
  moreover have "translate (std_extern True) demo_mapper m (VirtAddr 0x400123) =
      Some (Mapped (mapped_frame Size4KiB demo_frame) 0x123 3)"
    using bump_mapped.map_view [OF demo_good demo_args r] demo_in_page demo_translation by simp
  ultimately show ?thesis by blast
qed

theorem update_flags_effect_witness:
  "\<exists>m m'. translate (std_extern True) demo_mapper m (VirtAddr 0x400123) =
      Some (Mapped (MappedFrame_Size4KiB demo_frame) 0x123 3) \<and>
    update_flags (std_extern True) Size4KiB demo_mapper demo_page PRESENT m =
      Some (Inr (MapperFlush demo_page), m') \<and>
    translate (std_extern True) demo_mapper m' (VirtAddr 0x400123) =
      Some (Mapped (MappedFrame_Size4KiB demo_frame) 0x123 1)"
proof -
  obtain m where m: "tree_ok (page_table_walker demo_mapper) m (level_4_table demo_mapper)"
    "translate (std_extern True) demo_mapper m (VirtAddr 0x400123) =
      Some (Mapped (mapped_frame Size4KiB demo_frame) 0x123 3)"
    using demo_mapped by blast
  have f: "pure_flags PRESENT" "bit PRESENT 0"
    by (simp_all add: PRESENT_def pure_flags_def ADDR_MASK_def)
  have "page_offset Size4KiB (VirtAddr 0x400123) = 0x123" by (simp add: page_offset_def)
  moreover have "(leaf_flags Size4KiB PRESENT AND PageTableFlags_all) OR (3 AND ADDR_MASK) = 1"
    by (simp add: leaf_flags_def PRESENT_def ADDR_MASK_def all_flags_alt mask_eq_exp_minus_1)
  ultimately show ?thesis
    using update_flags_effect [OF std_extern_ok m(1) demo_in_page m(2) f] m(2) demo_in_page by fastforce
qed

section \<open>Several pages\<close>

text \<open>
  Two pages mapped one after the other both translate to their frames (the second mapping wins
  nowhere else than on its own page), and all other translations are as before both calls.
\<close>

theorem map_two_pages:
  assumes "extern_ok X" and "allocator_ok alloc free"
    and "good (page_table_walker self) (level_4_table self) free (m, a)"
    and "map_args S frame1 flags1 parent1"
    and "map_to_with_table_flags X S self alloc page1 frame1 flags1 parent1 (m, a) = Some (Inr x, (m', a'))"
    and "map_args S frame2 flags2 parent2"
    and "map_to_with_table_flags X S self alloc page2 frame2 flags2 parent2 (m', a') = Some (Inr y, (m'', a''))"
  shows "translate X self m'' v =
    (if in_page S page2 v then Some (page_translation S frame2 flags2 v)
     else if in_page S page1 v then Some (page_translation S frame1 flags1 v) else translate X self m v)"
  by (rule mapper.map_two [OF extern_ok.mapped_mapper [OF assms(1,2)] assms(3-7)])

definition demo_page2 :: Page where
  "demo_page2 = Page (VirtAddr 0x401000)"

lemma demo_map_both:
  "\<exists>m1 a1 m2 a2. map_to_with_table_flags (std_extern True) Size4KiB demo_mapper (bump_allocate 4096)
      demo_page demo_frame demo_flags demo_flags (demo_mem, 2) =
      Some (Inr (MapperFlush demo_page), (m1, a1)) \<and>
    map_to_with_table_flags (std_extern True) Size4KiB demo_mapper (bump_allocate 4096)
      demo_page2 demo_frame demo_flags demo_flags (m1, a1) = Some (Inr (MapperFlush demo_page2), (m2, a2))"
proof -
  let ?W = "page_table_walker demo_mapper" and ?r = "level_4_table demo_mapper"
  obtain m1 a1 where r: "map_to_with_table_flags (std_extern True) Size4KiB demo_mapper
      (bump_allocate 4096) demo_page demo_frame demo_flags demo_flags (demo_mem, 2) =
      Some (Inr (MapperFlush demo_page), (m1, a1))"
    using demo_map by blast
  have g: "good ?W ?r (bump_free 4096) (m1, a1)"
    using bump_mapped.map_total [OF demo_good demo_args, where c = True and p = demo_page] r by auto
  obtain k where "k \<le> Suc (Suc (Suc 0))" "a1 = ((\<lambda>a. snd (bump_allocate 4096 a)) ^^ k) 2"
    using std.map_to_allocates [OF r] by auto
  then have "a1 \<le> 5" using bump_funpow [of k 4096 2] by simp
  then have "can_allocate (bump_allocate 4096) (length (page_parents Size4KiB demo_page2)) a1"
    by (intro bump_can_allocate) simp
  moreover have v: "translate (std_extern True) demo_mapper m1 (VirtAddr 0x401000) = Some NotMapped"
  proof -
    have "\<not> in_page Size4KiB demo_page (VirtAddr 0x401000)"
      by (simp add: in_page_def demo_page_def lin_def)
    moreover have "translate (std_extern True) demo_mapper demo_mem (VirtAddr 0x401000) = Some NotMapped"
      by (simp add: std.translate_resolve [OF demo_tree] resolve_empty_table [OF demo_unused])
    ultimately show ?thesis
      using bump_mapped.map_view [OF demo_good demo_args r] by simp
  qed
  have "resolve ?W m1 ?r Q = Unresolved"
    if "path_ok Q" "length Q = 4" "prefix (page_path Size4KiB demo_page2) Q" for Q
  proof -
    have "Q = addr_path (VirtAddr 0x401000)"
      using that by (auto simp: page_path_def addr_path_def demo_page2_def Page_p4_index_def
          Page_p3_index_def Page_p2_index_def Page_p1_index_def Page_start_address_def elim!: prefixE)
    moreover have "tree_ok ?W m1 ?r" using g by (simp add: good_def)
    ultimately show ?thesis
      using v by (cases "resolve ?W m1 ?r Q") (auto simp: std.translate_resolve split: if_splits)
  qed
  ultimately show ?thesis
    using r std.map_to_ok [OF demo_bump g, of Size4KiB demo_frame demo_flags demo_flags demo_page2]
      demo_args by (auto simp: map_args_def)
qed

theorem map_two_pages_witness:
  "\<exists>m1 a1 m2 a2. map_to_with_table_flags (std_extern True) Size4KiB demo_mapper (bump_allocate 4096)
      demo_page demo_frame demo_flags demo_flags (demo_mem, 2) =
      Some (Inr (MapperFlush demo_page), (m1, a1)) \<and>
    map_to_with_table_flags (std_extern True) Size4KiB demo_mapper (bump_allocate 4096)
      demo_page2 demo_frame demo_flags demo_flags (m1, a1) =
      Some (Inr (MapperFlush demo_page2), (m2, a2)) \<and>
    translate (std_extern True) demo_mapper m2 (VirtAddr 0x400123) =
      Some (Mapped (MappedFrame_Size4KiB demo_frame) 0x123 3)"
proof -
  obtain m1 a1 m2 a2 where r: "map_to_with_table_flags (std_extern True) Size4KiB demo_mapper
      (bump_allocate 4096) demo_page demo_frame demo_flags demo_flags (demo_mem, 2) =
      Some (Inr (MapperFlush demo_page), (m1, a1))"
    "map_to_with_table_flags (std_extern True) Size4KiB demo_mapper (bump_allocate 4096)
      demo_page2 demo_frame demo_flags demo_flags (m1, a1) = Some (Inr (MapperFlush demo_page2), (m2, a2))"
    using demo_map_both by blast
  have "\<not> in_page Size4KiB demo_page2 (VirtAddr 0x400123)"
    by (simp add: in_page_def demo_page2_def lin_def)
  with map_two_pages [OF std_extern_ok demo_bump demo_good demo_args r(1) demo_args r(2),
      of "VirtAddr 0x400123"] r demo_in_page demo_translation
  show ?thesis by auto
qed

text \<open>
  A call of \<open>map_to_with_table_flags\<close> asks the allocator at most three times for a 4KiB page, twice
  for a 2MiB page and once for a 1GiB page, and its state is otherwise untouched.
\<close>

theorem map_to_allocations:
  assumes "extern_ok X"
    and "map_to_with_table_flags X S self alloc page frame flags parent_flags (m, a) = Some (r, (m', a'))"
  shows "\<exists>k. k \<le> (case S of Size4KiB \<Rightarrow> 3 | Size2MiB \<Rightarrow> 2 | Size1GiB \<Rightarrow> 1) \<and>
    a' = ((\<lambda>a. snd (alloc a)) ^^ k) a"
  using extern_ok.map_to_allocates [OF assms]
  by (cases S) (auto simp: numeral_3_eq_3 numeral_2_eq_2)

theorem map_to_allocations_witness:
  "\<exists>m' a' k. map_to_with_table_flags (std_extern True) Size2MiB demo_mapper (bump_allocate 4096) demo_page
      demo_large_frame demo_flags demo_flags (demo_mem, 2) = Some (Inr (MapperFlush demo_page), (m', a')) \<and>
    k \<le> 2 \<and> a' = ((\<lambda>a. snd (bump_allocate 4096 a)) ^^ k) 2"
proof -
  obtain m' a' where r: "map_to_with_table_flags (std_extern True) Size2MiB demo_mapper
      (bump_allocate 4096) demo_page demo_large_frame demo_flags demo_flags (demo_mem, 2) =
      Some (Inr (MapperFlush demo_page), (m', a'))"
    using demo_large_map by blast
  with map_to_allocations [OF std_extern_ok r] show ?thesis by auto
qed

text \<open>
  An identity mapping of a frame in the lower half makes every address of the frame translate to
  itself.
\<close>

theorem identity_map_translates_to_itself:
  assumes "extern_ok X" and "allocator_ok alloc free"
    and "good (page_table_walker self) (level_4_table self) free (m, a)"
    and "frame_ok S frame" and "pure_flags flags" and "bit flags 0"
    and "identity_map X S (map_to_with_table_flags X S self alloc) frame flags (m, a) =
      Some (Inr flush, (m', a'))"
    and "unat (va v) div 2 ^ size_bits S = frame_num S frame" and "unat (va v) < 2 ^ 47"
  shows "translate_addr (translate X self m') v = Some (Some (PhysAddr (va v)))"
  by (rule mapper.identity_map_translates [OF extern_ok.mapped_mapper [OF assms(1,2)] assms(3-9)])

lemma demo_identity:
  "\<exists>flush m' a'. identity_map (std_extern True) Size4KiB
    (map_to_with_table_flags (std_extern True) Size4KiB demo_mapper (bump_allocate 4096))
    demo_frame demo_flags (demo_mem, 2) = Some (Inr flush, (m', a'))"
proof -
  have v: "VirtAddr_new 0x6000 = Some (VirtAddr 0x6000)"
    by (simp add: VirtAddr_new_eq canonical_iff_unat)
  have "page_ok Size4KiB (Page (VirtAddr 0x6000))"
    by (simp add: page_ok_def canonical_iff_unat lin_def)
  from Page_containing_start [OF this]
  have p: "Page_containing_address Size4KiB (VirtAddr 0x6000) = Some (Page (VirtAddr 0x6000))" by simp
  have "demo_flags AND ((PRESENT OR WRITABLE) OR USER_ACCESSIBLE) = demo_flags"
    by (simp add: demo_flags_def flag_defs)
  with v p demo_map_at [of "Page (VirtAddr 0x6000)"] show ?thesis
    by (simp add: identity_map_def map_to_def demo_frame_def PhysAddr_as_u64_def
        PhysFrame_start_address_def Let_def) blast
qed

theorem identity_map_translates_to_itself_witness:
  "\<exists>flush m' a'. identity_map (std_extern True) Size4KiB
      (map_to_with_table_flags (std_extern True) Size4KiB demo_mapper (bump_allocate 4096))
      demo_frame demo_flags (demo_mem, 2) = Some (Inr flush, (m', a')) \<and>
    translate_addr (translate (std_extern True) demo_mapper m') (VirtAddr 0x6789) =
      Some (Some (PhysAddr 0x6789))"
proof -
  obtain flush m' a' where r: "identity_map (std_extern True) Size4KiB
      (map_to_with_table_flags (std_extern True) Size4KiB demo_mapper (bump_allocate 4096))
      demo_frame demo_flags (demo_mem, 2) = Some (Inr flush, (m', a'))"
    using demo_identity by blast
  have a: "frame_ok Size4KiB demo_frame" "pure_flags demo_flags" "bit demo_flags 0"
    using demo_args by (simp_all add: map_args_def)
  have "unat (va (VirtAddr 0x6789)) div 2 ^ size_bits Size4KiB = frame_num Size4KiB demo_frame"
    "unat (va (VirtAddr 0x6789)) < 2 ^ 47"
    by (simp_all add: frame_num_def demo_frame_def)
  from identity_map_translates_to_itself [OF std_extern_ok demo_bump demo_good a r this] r
  show ?thesis by auto
qed

section \<open>Behaviour at the edges\<close>

context extern_ok
begin

text \<open>The walk that creates parent tables, up to an entry of a huge page.\<close>

lemma create_path_huge:
  assumes fl: "table_flags fl" and i: "index_ok i"
  shows "tree_ok W m root \<Longrightarrow> goto W m root P = Inr p \<Longrightarrow> path_ok (P @ Q) \<Longrightarrow> length (P @ Q) \<le> 2 \<Longrightarrow>
    goto W m root (P @ Q) = Inr q \<Longrightarrow> huge (ent m q i) \<Longrightarrow>
    \<exists>m'. create_path X W alloc p (Q @ i # R) fl (m, a) =
        Some (Inl Create_MappedToHugePage, (upd m' q i (insert_flags (ent m q i) fl), a)) \<and>
      tree_ok W m' root \<and> goto W m' root (P @ Q) = Inr q \<and> ent m' q i = ent m q i \<and> same_resolve W root m m'"
proof (induction Q arbitrary: P p m)
  case Nil
  then have u: "\<not> is_unused (ent m q i)" "entry_mapped W (ent m q i)"
    using huge_not_unused by (auto simp: entry_mapped_def)
  from Nil have "p = q" "mem_ok m" by (auto dest: tree_ok_mem)
  then show ?case
    using create_existing [OF _ i u fl, of alloc a] Nil
    by (intro exI [of _ m]) (simp add: same_resolve_def)
next
  case (Cons j Q)
  note t = Cons.prems(1) and gp = Cons.prems(2)
  have ok: "path_ok P" "index_ok j" "length P \<le> 2" using Cons.prems(3,4) by simp_all
  obtain r where r: "child W (ent m p j) = Some r"
    using Cons.prems(5) gp by (auto simp: goto_append split: if_splits option.splits)
  then have e: "\<not> is_unused (ent m p j)" "\<not> huge (ent m p j)"
    using unused_parts [of "ent m p j" W] by (auto simp: child_def split: if_splits)
  have em: "entry_mapped W (ent m p j)" using tree_ok_mapped [OF t gp ok] .
  let ?m = "upd m p j (insert_flags (ent m p j) fl)"
  note eff = flagged_effects [OF t gp ok(1,3,2) fl e(1)]
  have g: "goto W ?m root (P @ [j]) = Inr r" "goto W ?m root ((P @ [j]) @ Q) = Inr q"
    using eff(3) [of "P @ [j]" r] eff(3) [of "P @ j # Q" q] Cons.prems(3-5) gp r by (simp_all add: goto_snoc)
  have "(p, j) \<noteq> (q, i)" using e(2) Cons.prems(6) by auto
  then have h: "ent ?m q i = ent m q i" using tree_ok_mem [OF t] ok(2) by (auto simp: ent_upd)
  obtain m' where m': "create_path X W alloc r (Q @ i # R) fl (?m, a) =
        Some (Inl Create_MappedToHugePage, (upd m' q i (insert_flags (ent m q i) fl), a))"
      "tree_ok W m' root" "goto W m' root (P @ j # Q) = Inr q" "ent m' q i = ent m q i" "same_resolve W root ?m m'"
    using Cons.IH [OF eff(1) g(1) _ _ g(2)] Cons.prems(3,4,6) unfolding h by auto
  have "create_next_table X W alloc p j fl (m, a) = Some (Inr r, (?m, a))"
    using create_existing [OF tree_ok_mem [OF t] ok(2) e(1) em fl, of alloc a] e(2) r by simp
  with m' same_resolve_trans [OF eff(4) [OF e(2)] m'(5)] show ?case by auto
qed

end

lemma parents_of_larger:
  "size_bits S < size_bits T \<Longrightarrow> \<exists>R. page_parents S p = page_parents T p @ page_leaf T p # R"
  by (cases S; cases T) simp_all

lemma flags_inserted: "fl AND PageTableFlags_all = fl \<Longrightarrow>
  entry (insert_flags e fl) AND PageTableFlags_all = (entry e AND PageTableFlags_all) OR fl"
proof -
  assume fl: "fl AND PageTableFlags_all = fl"
  have b: "bit PageTableFlags_all n" if "bit fl n" for n
    using that fl by (metis bit_and_iff)
  show ?thesis
  proof (cases "fl = 0 \<or> (entry e AND PageTableFlags_all) AND fl = fl")
    case True
    then have "bit (entry e AND PageTableFlags_all) n" if "bit fl n" for n
      using that by (metis bit_and_iff bit_0_eq bot_apply bot_bool_def)
    then have "(entry e AND PageTableFlags_all) OR fl = entry e AND PageTableFlags_all"
      by (intro bit_word_eqI) (auto simp: bit_or_iff)
    with True show ?thesis by (auto simp: insert_flags_def)
  next
    case False
    then have "insert_flags e fl = add_flags e fl" by (simp add: insert_flags_def)
    then show ?thesis
      by (simp add: add_flags_def) (rule bit_word_eqI, auto simp: bit_and_iff bit_or_iff dest: b)
  qed
qed

text \<open>
  C16. A \<open>map_to\<close> of a page inside a huge page fails with \<open>ParentEntryHugePage\<close>, but not before it has
  inserted the flags for the parent tables into the entry of the huge page: from then on every address
  of the huge page translates with these flags added, so that parent flags with \<open>WRITABLE\<close> or
  \<open>USER_ACCESSIBLE\<close> make the huge page writable or accessible to user mode. No other translation changes and
  no frame is allocated.
\<close>

theorem failed_map_changes_huge_page:
  assumes X: "extern_ok X" and t: "tree_ok (page_table_walker self) m (level_4_table self)"
    and v: "in_page T page v" "translate X self m v = Some (Mapped (mapped_frame T huge_frame) off old_flags)"
    and S: "size_bits S < size_bits T"
    and fl: "table_flags parent_flags" "parent_flags AND PageTableFlags_all = parent_flags"
  shows "\<exists>m'. map_to_with_table_flags X S self alloc page frame flags parent_flags (m, a) =
      Some (Inl MapTo_ParentEntryHugePage, (m', a)) \<and>
    tree_ok (page_table_walker self) m' (level_4_table self) \<and>
    (\<forall>w. translate X self m' w =
      (if in_page T page w
       then Some (Mapped (mapped_frame T huge_frame) (page_offset T w) (old_flags OR parent_flags))
       else translate X self m w))"
proof -
  let ?W = "page_table_walker self" and ?r = "level_4_table self" and ?i = "page_leaf T page"
  have T: "T \<noteq> Size4KiB" using S by (cases S) auto
  obtain q where q: "goto ?W m ?r (page_parents T page) = Inr q" "leaf_entry ?W T (ent m q ?i)"
    "\<not> is_unused (ent m q ?i)" "PhysFrame_containing_address T (entry_addr (ent m q ?i)) = Some huge_frame"
    "old_flags = PageTableEntry_flags X (ent m q ?i)"
    using extern_ok.translated_leaf [OF X t v] by blast
  let ?e = "insert_flags (ent m q ?i) parent_flags"
  note parts = insert_flags_parts [OF fl(1), of "ent m q ?i"]
  have h: "huge (ent m q ?i)" "huge ?e" using q(2,3) T parts(2) by (auto simp: leaf_entry_def)
  obtain R where R: "page_parents S page = page_parents T page @ ?i # R" using parents_of_larger [OF S] by blast
  have l: "length ([] @ page_parents T page) \<le> 2" using T by (cases T) simp_all
  obtain m' where m': "create_path X ?W alloc ?r (page_parents S page) parent_flags (m, a) =
        Some (Inl Create_MappedToHugePage, (upd m' q ?i ?e, a))"
      "tree_ok ?W m' ?r" "goto ?W m' ?r (page_parents T page) = Inr q" "ent m' q ?i = ent m q ?i"
      "same_resolve ?W ?r m m'"
    using extern_ok.create_path_huge [OF X fl(1) page_path_ok(2) t goto.simps(1) _ l, where q = q and alloc = alloc and R = R and a = a]
      q(1) h(1) R by auto
  have "leaf_entry ?W T ?e" using h(2) by (simp add: leaf_entry_def)
  note w = leaf_write [OF m'(2,3) q(2) [folded m'(4)] this]
  have "remapped ?W ?r T page ?e m (upd m' q ?i ?e)"
    using w(4) m'(5) by (simp add: remapped_def same_resolve_def)
  from extern_ok.translate_remapped [OF X t w(1) this]
  have "translate X self (upd m' q ?i ?e) w = (if in_page T page w
      then Some (read_resolved X w (view T ?e)) else translate X self m w)" for w
    by (simp add: in_page_def)
  moreover have "read_resolved X w (view T ?e) =
      Mapped (mapped_frame T huge_frame) (page_offset T w) (old_flags OR parent_flags)" for w
    using T h(2) q(4,5) parts(1) flags_inserted [OF fl(2)]
    by (cases T) (simp_all add: extern_ok.flags_eq [OF X] offset_masks)
  moreover have "map_to_with_table_flags X S self alloc page frame flags parent_flags (m, a) =
      Some (Inl MapTo_ParentEntryHugePage, (upd m' q ?i ?e, a))"
    using m'(1) by (simp add: extern_ok.map_to_walk [OF X])
  ultimately show ?thesis using w(1) by auto
qed

theorem failed_map_changes_huge_page_witness:
  "\<exists>m1 a1 m2. map_to_with_table_flags (std_extern True) Size2MiB demo_mapper (bump_allocate 4096) demo_page
      demo_large_frame demo_flags demo_flags (demo_mem, 2) = Some (Inr (MapperFlush demo_page), (m1, a1)) \<and>
    translate (std_extern True) demo_mapper m1 (VirtAddr 0x400123) =
      Some (Mapped (MappedFrame_Size2MiB demo_large_frame) 0x123 0x83) \<and>
    map_to_with_table_flags (std_extern True) Size4KiB demo_mapper (bump_allocate 4096) demo_page
      demo_frame demo_flags 7 (m1, a1) = Some (Inl MapTo_ParentEntryHugePage, (m2, a1)) \<and>
    translate (std_extern True) demo_mapper m2 (VirtAddr 0x400123) =
      Some (Mapped (MappedFrame_Size2MiB demo_large_frame) 0x123 0x87)"
proof -
  obtain m1 a1 where r: "map_to_with_table_flags (std_extern True) Size2MiB demo_mapper
      (bump_allocate 4096) demo_page demo_large_frame demo_flags demo_flags (demo_mem, 2) =
      Some (Inr (MapperFlush demo_page), (m1, a1))"
    using demo_large_map by blast
  have t: "tree_ok (page_table_walker demo_mapper) m1 (level_4_table demo_mapper)"
    using bump_mapped.map_total [OF demo_good demo_large_args, where c = True and p = demo_page] r
    by (auto simp: good_def)
  have i: "in_page Size2MiB demo_page (VirtAddr 0x400123)" by (simp add: in_page_def demo_page_def lin_def)
  have tr: "translate (std_extern True) demo_mapper m1 (VirtAddr 0x400123) =
      Some (Mapped (mapped_frame Size2MiB demo_large_frame) 0x123 0x83)"
    using bump_mapped.map_view [OF demo_good demo_large_args r] i demo_large_translation by simp
  have fl: "table_flags 7" "7 AND PageTableFlags_all = 7"
    by (simp_all add: table_flags_def pure_flags_def ADDR_MASK_def all_flags_alt mask_eq_exp_minus_1)
  have "page_offset Size2MiB (VirtAddr 0x400123) = 0x123" by (simp add: page_offset_def)
  moreover obtain m2 where "map_to_with_table_flags (std_extern True) Size4KiB demo_mapper (bump_allocate 4096)
      demo_page demo_frame demo_flags 7 (m1, a1) = Some (Inl MapTo_ParentEntryHugePage, (m2, a1))"
    "\<forall>w. translate (std_extern True) demo_mapper m2 w = (if in_page Size2MiB demo_page w
       then Some (Mapped (mapped_frame Size2MiB demo_large_frame) (page_offset Size2MiB w) (0x83 OR 7))
       else translate (std_extern True) demo_mapper m1 w)"
    using failed_map_changes_huge_page [OF std_extern_ok t i tr _ fl, where S = Size4KiB and alloc = "bump_allocate 4096"
        and frame = demo_frame and flags = demo_flags and a = a1] by auto
  ultimately show ?thesis using r tr i by auto
qed

lemma table_entry_replaced:
  assumes t: "tree_ok W m root" and S: "S \<noteq> Size4KiB"
    and q: "goto W m root (page_parents S p) = Inr q" and e: "leaf_entry W S e'"
  shows "path_ok Q \<Longrightarrow> length Q = 4 \<Longrightarrow> prefix (page_path S p) Q \<Longrightarrow>
    resolve W (upd m q (page_leaf S p) e') root Q = view S e'"
proof -
  let ?P = "page_parents S p" and ?i = "page_leaf S p"
  let ?m' = "upd m q ?i e'"
  assume Q: "path_ok Q" "length Q = 4" "prefix (page_path S p) Q"
  have P: "path_ok ?P" "length ?P \<le> 3" using length_parents [of S p] by auto
  have s: "same_except W root m ?m' q ?i" using tree_ok_mem [OF t] by (simp add: same_except_upd)
  have "goto W ?m' root ?P = Inr q"
    using goto_avoid_from [OF t s q P, of "[]" root ?P] P q by simp
  then show ?thesis using leaf_resolve [of W ?m' root S p q Q] Q e tree_ok_mem [OF t] by simp
qed

text \<open>
  C17. \<open>update_flags\<close> of a 2MiB or 1GiB page whose entry leads to a table does not report
  \<open>PageNotMapped\<close>, as \<open>unmap\<close> of the same page reports an error: it succeeds and sets \<open>HUGE_PAGE\<close> in that entry. From then
  on every address of the page is resolved by a huge page at the frame of the table: all mappings in
  the table are lost and the table itself is exposed as data.
\<close>

theorem update_flags_replaces_table:
  assumes X: "extern_ok X" and t: "tree_ok (page_table_walker self) m (level_4_table self)" and S: "S \<noteq> Size4KiB"
    and q: "goto (page_table_walker self) m (level_4_table self) (page_parents S page @ [page_leaf S page]) = Inr table"
    and fl: "pure_flags flags"
  shows "\<exists>m' e err. update_flags X S self page flags m = Some (Inr (MapperFlush page), m') \<and>
    page_table_frame_mapping (page_table_walker self) (PhysFrame (entry_addr e)) = Some table \<and> huge e \<and>
    (\<forall>v. in_page S page v \<longrightarrow>
      resolve (page_table_walker self) m' (level_4_table self) (addr_path v) = view S e) \<and>
    unmap X S self page m = Some (Inl err, m)"
proof -
  let ?W = "page_table_walker self" and ?r = "level_4_table self" and ?i = "page_leaf S page"
  obtain q where q: "goto ?W m ?r (page_parents S page) = Inr q" "child ?W (ent m q ?i) = Some table"
    using q unfolding goto_snoc by blast
  let ?e = "with_flags S (ent m q ?i) flags"
  have c: "present (ent m q ?i)" "\<not> huge (ent m q ?i)"
      "page_table_frame_mapping ?W (PhysFrame (entry_addr (ent m q ?i))) = Some table"
    using q(2) by (auto simp: child_def split: if_splits)
  have "update_flags X S self page flags m = Some (Inr (MapperFlush page), upd m q ?i ?e)"
    using c(1) unfolding extern_ok.update_flags_spec [OF X t] q(1)
    by (auto simp: Let_def with_flags_def is_unused_def present_def)
  moreover have "resolve ?W (upd m q ?i ?e) ?r (addr_path v) = view S ?e" if "in_page S page v" for v
    using that by (intro table_entry_replaced [OF t S q(1)] with_flags_parts) (simp_all add: in_page_def addr_in_page)
  moreover have "unmap X S self page m = Some (Inl Unmap_ParentEntryHugePage, m)"
    using c S unfolding extern_ok.unmap_spec [OF X t] q(1) by (simp add: Let_def)
  ultimately show ?thesis
    using with_flags_parts(2) [OF S] with_flags_parts(3) [OF fl] c(3) by (intro exI [of _ "upd m q ?i ?e"] exI [of _ ?e]) simp
qed

theorem update_flags_replaces_table_witness:
  "\<exists>m m' e. translate (std_extern True) demo_mapper m (VirtAddr 0x400123) =
      Some (Mapped (MappedFrame_Size4KiB demo_frame) 0x123 3) \<and>
    update_flags (std_extern True) Size2MiB demo_mapper demo_page demo_flags m = Some (Inr (MapperFlush demo_page), m') \<and>
    resolve (page_table_walker demo_mapper) m' (level_4_table demo_mapper) (addr_path (VirtAddr 0x400123)) =
      Resolved_Huge 1 e"
proof -
  let ?W = "page_table_walker demo_mapper" and ?r = "level_4_table demo_mapper"
  obtain m a where r: "map_to_with_table_flags (std_extern True) Size4KiB demo_mapper
      (bump_allocate 4096) demo_page demo_frame demo_flags demo_flags (demo_mem, 2) =
      Some (Inr (MapperFlush demo_page), (m, a))"
    using demo_map by blast
  have f: "frame_ok Size4KiB demo_frame" "pure_flags demo_flags" "table_flags demo_flags"
    using demo_args by (simp_all add: map_args_def)
  have "map_result ?W ?r (bump_free 4096) Size4KiB demo_page demo_frame demo_flags demo_mem (Inr (MapperFlush demo_page), (m, a))"
    using std.map_to_spec [OF demo_bump demo_good f, of True demo_page] r by auto
  then obtain q where t: "tree_ok ?W m ?r" and q: "goto ?W m ?r (page_parents Size4KiB demo_page) = Inr q"
    by (auto simp: map_result_def good_def)
  have "page_parents Size2MiB demo_page @ [page_leaf Size2MiB demo_page] = page_parents Size4KiB demo_page" by simp
  with q have "goto ?W m ?r (page_parents Size2MiB demo_page @ [page_leaf Size2MiB demo_page]) = Inr q" by metis
  from update_flags_replaces_table [OF std_extern_ok t _ this f(2), of True] obtain m' e where
    "update_flags (std_extern True) Size2MiB demo_mapper demo_page demo_flags m = Some (Inr (MapperFlush demo_page), m')"
    "huge e" "\<forall>v. in_page Size2MiB demo_page v \<longrightarrow> resolve ?W m' ?r (addr_path v) = view Size2MiB e"
    by auto
  moreover have "in_page Size2MiB demo_page (VirtAddr 0x400123)"
    by (simp add: in_page_def demo_page_def lin_def)
  moreover have "translate (std_extern True) demo_mapper m (VirtAddr 0x400123) =
      Some (Mapped (MappedFrame_Size4KiB demo_frame) 0x123 3)"
    using bump_mapped.map_view [OF demo_good demo_args r] demo_in_page demo_translation by simp
  ultimately show ?thesis by fastforce
qed

text \<open>
  C18. A mapped 2MiB or 1GiB page with the \<open>PAT_HUGE_PAGE\<close> flag cannot be unmapped: bit 12 is read as
  part of the frame address, so \<open>unmap\<close> and \<open>translate_page\<close> report an invalid frame address,
  although \<open>translate\<close> returns the frame.
\<close>

theorem pat_huge_page_cannot_be_unmapped:
  assumes X: "extern_ok X" and t: "tree_ok (page_table_walker self) m (level_4_table self)"
    and v: "in_page S page v" "translate X self m v = Some (Mapped (mapped_frame S frame) off fl)"
    and fl: "bitflags_contains X fl PRESENT" "bitflags_contains X fl PAT_HUGE_PAGE" and S: "S \<noteq> Size4KiB"
  shows "\<exists>addr. unmap X S self page m = Some (Inl (Unmap_InvalidFrameAddress addr), m) \<and>
    translate_page X S self m page = Some (Inl (Translate_InvalidFrameAddress addr))"
proof -
  let ?W = "page_table_walker self" and ?r = "level_4_table self"
  obtain q where q: "goto ?W m ?r (page_parents S page) = Inr q"
    "leaf_entry ?W S (ent m q (page_leaf S page))" "\<not> is_unused (ent m q (page_leaf S page))"
    "fl = PageTableEntry_flags X (ent m q (page_leaf S page))"
    using extern_ok.translated_leaf [OF X t v] by blast
  let ?e = "ent m q (page_leaf S page)"
  have p: "present ?e" using fl(1) q(4) extern_ok.contains_PRESENT [OF X] by (simp add: extern_ok.contains [OF X])
  have "bit (entry ?e AND PageTableFlags_all) 12"
    using fl(2) q(4) and_single_bit [of "entry ?e AND PageTableFlags_all" 12]
    by (simp add: extern_ok.contains [OF X] extern_ok.flags_eq [OF X] PAT_HUGE_PAGE_def)
  then have b: "bit (pa (entry_addr ?e)) 12"
    by (simp add: entry_addr_def bit_and_iff bit_ADDR_MASK)
  have "unat (pa (entry_addr ?e)) mod 2 ^ size_bits S \<noteq> 0"
  proof
    assume "unat (pa (entry_addr ?e)) mod 2 ^ size_bits S = 0"
    then have "take_bit (size_bits S) (pa (entry_addr ?e)) = 0"
      by (metis unat_take_bit unat_eq_zero)
    moreover have "12 < size_bits S" using S by (cases S) simp_all
    ultimately show False using b by (metis bit_take_bit_iff bit_0_eq bot_apply bot_bool_def)
  qed
  moreover have "huge ?e" using q(2,3) S by (simp add: leaf_entry_def)
  ultimately show ?thesis
    unfolding extern_ok.unmap_spec [OF X t] extern_ok.translate_page_spec [OF X t]
    using q p by simp
qed

lemma bit_PRESENT: "bit PRESENT n \<longleftrightarrow> n = 0"
  unfolding PRESENT_def bit_push_bit_iff by (auto simp: bit_simps)

lemma bit_PAT_HUGE_PAGE: "bit PAT_HUGE_PAGE n \<longleftrightarrow> n = 12"
  unfolding PAT_HUGE_PAGE_def bit_push_bit_iff by (auto simp: bit_simps)

lemma demo_pat:
  "\<exists>m f fl. tree_ok (page_table_walker demo_mapper) m (level_4_table demo_mapper) \<and>
    translate (std_extern True) demo_mapper m (VirtAddr 0x400123) =
      Some (Mapped (mapped_frame Size2MiB f) 0x123 fl) \<and>
    bitflags_contains (std_extern True) fl PRESENT \<and> bitflags_contains (std_extern True) fl PAT_HUGE_PAGE"
proof -
  let ?W = "page_table_walker demo_mapper" and ?r = "level_4_table demo_mapper"
  let ?v = "VirtAddr 0x400123" and ?fl = "PRESENT OR PAT_HUGE_PAGE"
  have iv: "in_page Size2MiB demo_page ?v" by (simp add: in_page_def demo_page_def lin_def)
  obtain m1 a1 where r: "map_to_with_table_flags (std_extern True) Size2MiB demo_mapper
      (bump_allocate 4096) demo_page demo_large_frame demo_flags demo_flags (demo_mem, 2) =
      Some (Inr (MapperFlush demo_page), (m1, a1))"
    using demo_large_map by blast
  have t: "tree_ok ?W m1 ?r"
    using bump_mapped.map_total [OF demo_good demo_large_args, where c = True and p = demo_page] r
    by (auto simp: good_def)
  have "translate (std_extern True) demo_mapper m1 ?v =
      Some (Mapped (mapped_frame Size2MiB demo_large_frame) 0x123 0x83)"
    using bump_mapped.map_view [OF demo_good demo_large_args r] iv demo_large_translation by simp
  from std.update_flags_ok [OF t iv this, of ?fl] obtain e m' where e: "tree_ok ?W m' ?r"
    "remapped ?W ?r Size2MiB demo_page (with_flags Size2MiB e ?fl) m1 m'" by blast
  let ?e = "with_flags Size2MiB e ?fl"
  obtain f where f: "PhysFrame_containing_address Size2MiB (entry_addr ?e) = Some f"
    using PhysFrame_containing_address_total by blast
  have b: "bit ?fl 0" by (simp add: bit_or_iff bit_PRESENT)
  have "bit (entry ?e) 0" "bit (entry ?e) 12"
    by (simp_all add: with_flags_def leaf_flags_def bit_or_iff bit_and_iff bit_PRESENT bit_PAT_HUGE_PAGE)
  then have fl: "(entry ?e AND PageTableFlags_all) AND PRESENT = PRESENT"
    "(entry ?e AND PageTableFlags_all) AND PAT_HUGE_PAGE = PAT_HUGE_PAGE"
    by (auto intro!: bit_word_eqI simp: bit_and_iff bit_PRESENT bit_PAT_HUGE_PAGE bit_all_flags)
  have "translate (std_extern True) demo_mapper m' ?v =
      Some (Mapped (mapped_frame Size2MiB f) 0x123 (entry ?e AND PageTableFlags_all))"
    using std.translate_remapped [OF t e, where a = ?v] std.read_with_flags [OF b f, where v = ?v] iv
    by (simp add: in_page_def page_offset_def)
  with e(1) fl show ?thesis by auto
qed

theorem pat_huge_page_cannot_be_unmapped_witness:
  "\<exists>m f fl addr. translate (std_extern True) demo_mapper m (VirtAddr 0x400123) =
      Some (Mapped (MappedFrame_Size2MiB f) 0x123 fl) \<and>
    unmap (std_extern True) Size2MiB demo_mapper demo_page m = Some (Inl (Unmap_InvalidFrameAddress addr), m)"
proof -
  obtain m f fl where m: "tree_ok (page_table_walker demo_mapper) m (level_4_table demo_mapper)"
    "translate (std_extern True) demo_mapper m (VirtAddr 0x400123) =
      Some (Mapped (mapped_frame Size2MiB f) 0x123 fl)"
    "bitflags_contains (std_extern True) fl PRESENT" "bitflags_contains (std_extern True) fl PAT_HUGE_PAGE"
    using demo_pat by blast
  have "in_page Size2MiB demo_page (VirtAddr 0x400123)" by (simp add: in_page_def demo_page_def lin_def)
  from pat_huge_page_cannot_be_unmapped [OF std_extern_ok m(1) this m(2-4)] m(2)
  show ?thesis by auto
qed

text \<open>
  With parent flags that lack \<open>PRESENT\<close>, such as the \<open>USER_ACCESSIBLE\<close> of the documentation's
  example for \<open>map_to_with_table_flags\<close>, the call panics as soon as a parent table is missing, after
  the frame for it has been allocated.
\<close>

theorem parent_flags_without_present_panic:
  assumes X: "extern_ok X" and m: "mem_ok m"
    and u: "is_unused (ent m (level_4_table self) (Page_p4_index page))"
    and al: "alloc a = (Some new_frame, a')" "frame_ok Size4KiB new_frame"
    and fl: "pure_flags parent_flags" "\<not> bit parent_flags 0" "\<not> bit parent_flags 7"
  shows "map_to_with_table_flags X S self alloc page frame flags parent_flags (m, a) = panic"
proof -
  let ?e = "\<lparr>entry = pa (frame_start new_frame) OR parent_flags\<rparr> :: PageTableEntry"
  have "\<not> present ?e" "\<not> huge ?e"
    using mapped_entry [OF al(2) fl(1)] fl by simp_all
  then have "next_table_mut X W ?e = Some (Inl Walk_NotMapped)" for W
    by (simp add: next_table_mut_eq next_table_def extern_ok.frame_eq [OF X] extern_ok.contains [OF X]
        extern_ok.contains_HUGE [OF X])
  then have "create_next_table X W alloc (level_4_table self) (Page_p4_index page) parent_flags (m, a) = panic" for W
    using m u al by (simp add: create_next_table_def read_entry_eq write_entry_eq set_frame_eq)
  then show ?thesis
    by (cases S) (simp_all add: map_to_1gib_def map_to_2mib_def map_to_4kib_def)
qed

theorem parent_flags_without_present_panic_witness:
  "map_to_with_table_flags (std_extern False) Size4KiB demo_mapper (bump_allocate 4096) demo_page
    demo_frame demo_flags USER_ACCESSIBLE (demo_mem, 2) = panic"
proof -
  have fl: "USER_ACCESSIBLE = 4" by (simp add: USER_ACCESSIBLE_def)
  have "pure_flags 4" "\<not> bit (4 :: u64) 0" "\<not> bit (4 :: u64) 7"
    by (simp_all add: pure_flags_def ADDR_MASK_def)
  moreover have "bump_allocate 4096 2 = (Some (frame_at Size4KiB 2), 3)" by (simp add: bump_allocate_def)
  moreover have "frame_ok Size4KiB (frame_at Size4KiB 2)" by (rule frame_at) simp
  ultimately show ?thesis
    using parent_flags_without_present_panic [OF std_extern_ok demo_mem_ok demo_unused, where
        self = demo_mapper and page = demo_page and alloc = "bump_allocate 4096" and a = 2 and
        parent_flags = USER_ACCESSIBLE and S = Size4KiB]
    by (simp add: fl)
qed

section \<open>The offset page table\<close>

text \<open>
  For an offset in the upper half, the offset page table reaches exactly the frames that end up
  below the top of the address space; different frames have different pointers, and the pointer is
  the offset plus the physical address.
\<close>

theorem phys_offset_pointers:
  assumes "2 ^ 64 - 2 ^ 47 \<le> unat (va (offset po))"
  shows "(frame_to_pointer po f \<noteq> panic \<longleftrightarrow> unat (va (offset po)) + unat (pa (frame_start f)) < 2 ^ 64) \<and>
    (frame_to_pointer po f = Some p \<longrightarrow> unat p = unat (va (offset po)) + unat (pa (frame_start f))) \<and>
    (frame_to_pointer po f = Some p \<and> frame_to_pointer po g = Some p \<longrightarrow> f = g)"
proof -
  have d: "frame_to_pointer po f \<noteq> panic \<longleftrightarrow> f \<in> offset_frames po" for f
    by (auto simp: frame_to_pointer_def offset_frames_def PhysAddr_as_u64_def PhysFrame_start_address_def
        split: Option.bind_splits)
  moreover have "unat p = unat (va (offset po)) + unat (pa (frame_start f))" if ptr: "frame_to_pointer po f = Some p"
  proof -
    obtain v where "VirtAddr_add (offset po) (pa (frame_start f)) = Some v" "p = va v"
      using ptr by (cases "VirtAddr_add (offset po) (pa (frame_start f))")
        (simp_all add: frame_to_pointer_def PhysAddr_as_u64_def PhysFrame_start_address_def
          VirtAddr_as_mut_ptr_def VirtAddr_as_ptr_def VirtAddr_as_u64_def)
    then show ?thesis by (simp add: VirtAddr_add_eq_Some)
  qed
  moreover have "f = g" if "frame_to_pointer po f = Some p" "frame_to_pointer po g = Some p"
    using inj_onD [OF offset_mapping.distinct, of po f g] that d [of f] d [of g] by simp
  ultimately show ?thesis using offset_frames_upper [OF assms] by blast
qed

theorem phys_offset_pointers_witness:
  "frame_to_pointer \<lparr>offset = demo_offset\<rparr> (frame_at Size4KiB 7) = Some 0xffff800000007000 \<and>
   frame_to_pointer \<lparr>offset = demo_offset\<rparr> (PhysFrame (PhysAddr 0x800000000000)) = panic"
proof -
  have "2 ^ 64 - 2 ^ 47 \<le> unat (va (offset \<lparr>offset = demo_offset\<rparr>))" by (simp add: demo_offset_def)
  from phys_offset_pointers [OF this, of "PhysFrame (PhysAddr 0x800000000000)"]
  have "frame_to_pointer \<lparr>offset = demo_offset\<rparr> (PhysFrame (PhysAddr 0x800000000000)) = panic"
    by (simp add: demo_offset_def)
  with demo_pointer(2) [of 7] show ?thesis by simp
qed

end
