(* ===== verification/Recursive_Page_Table.thy ===== *)
theory Recursive_Page_Table
  imports Mapped_Page_Table
begin

text \<open>
  \<open>structures/paging/mapper/recursive_page_table.rs\<close>: the mapper that reaches every page table through
  a level 4 entry that points to the level 4 table itself.

  The code dereferences virtual addresses of page tables, so memory is the physical one (\<open>mem\<close> by the
  address of the frame) and each access goes through the address translation of the CPU, a parameter
  \<open>mmu\<close>: \<open>mmu m w v\<close> is the physical address of the table that a read (a write, when \<open>w\<close>) through the
  pointer \<open>v\<close> touches, and \<open>None\<close> is a page fault. \<open>Cr3::read\<close> is an argument of \<open>new\<close>.
\<close>

section \<open>Accesses through the CPU\<close>

type_synonym mmu = "mem \<Rightarrow> bool \<Rightarrow> u64 \<Rightarrow> u64 option"

definition read_at :: "mmu \<Rightarrow> mem \<Rightarrow> u64 \<Rightarrow> PageTableIndex \<Rightarrow> PageTableEntry option" where
  "read_at mmu m p i = do { q \<leftarrow> mmu m False p; read_entry m q i }"

definition write_at :: "mmu \<Rightarrow> mem \<Rightarrow> u64 \<Rightarrow> PageTableIndex \<Rightarrow> PageTableEntry \<Rightarrow> mem option" where
  "write_at mmu m p i e = do { q \<leftarrow> mmu m True p; write_entry m q i e }"

section \<open>Addresses of the page tables\<close>

definition p3_page :: "Page \<Rightarrow> PageTableIndex \<Rightarrow> Page option" where
  "p3_page page recursive_index =
     Page_from_page_table_indices recursive_index recursive_index recursive_index (Page_p4_index page)"

definition p3_ptr :: "Page \<Rightarrow> PageTableIndex \<Rightarrow> u64 option" where
  "p3_ptr page recursive_index = do {
     p \<leftarrow> p3_page page recursive_index;
     Some (VirtAddr_as_mut_ptr (Page_start_address p))
   }"

definition p2_page :: "Page \<Rightarrow> PageTableIndex \<Rightarrow> Page option" where
  "p2_page page recursive_index =
     Page_from_page_table_indices recursive_index recursive_index (Page_p4_index page)
       (Page_p3_index page)"

definition p2_ptr :: "Page \<Rightarrow> PageTableIndex \<Rightarrow> u64 option" where
  "p2_ptr page recursive_index = do {
     p \<leftarrow> p2_page page recursive_index;
     Some (VirtAddr_as_mut_ptr (Page_start_address p))
   }"

definition p1_page :: "Page \<Rightarrow> PageTableIndex \<Rightarrow> Page option" where
  "p1_page page recursive_index =
     Page_from_page_table_indices recursive_index (Page_p4_index page) (Page_p3_index page)
       (Page_p2_index page)"

definition p1_ptr :: "Page \<Rightarrow> PageTableIndex \<Rightarrow> u64 option" where
  "p1_ptr page recursive_index = do {
     p \<leftarrow> p1_page page recursive_index;
     Some (VirtAddr_as_mut_ptr (Page_start_address p))
   }"

section \<open>The recursive page table\<close>

text \<open>\<open>rec_p4\<close> is the address in the reference \<open>p4\<close>.\<close>

record RecursivePageTable =
  rec_p4 :: u64
  recursive_index :: PageTableIndex

datatype InvalidPageTable = NotRecursive | NotActive

definition RecursivePageTable_new ::
  "extern \<Rightarrow> mmu \<Rightarrow> PhysFrame \<Rightarrow> u64 \<Rightarrow> mem \<Rightarrow> (InvalidPageTable + RecursivePageTable) option" where
  "RecursivePageTable_new X mmu cr3 table m = do {
     a \<leftarrow> VirtAddr_new table;
     page \<leftarrow> Page_containing_address Size4KiB a;
     let ri = Page_p4_index page;
     if Page_p3_index page \<noteq> ri \<or> Page_p2_index page \<noteq> ri \<or> Page_p1_index page \<noteq> ri
     then Some (Inl NotRecursive)
     else do {
       e \<leftarrow> read_at mmu m table ri;
       f \<leftarrow> PageTableEntry_frame X e;
       if Inr cr3 \<noteq> f then Some (Inl NotActive)
       else Some (Inr \<lparr>rec_p4 = table, recursive_index = ri\<rparr>)
     }
   }"

definition RecursivePageTable_new_unchecked :: "u64 \<Rightarrow> PageTableIndex \<Rightarrow> RecursivePageTable" where
  "RecursivePageTable_new_unchecked table ri = \<lparr>rec_p4 = table, recursive_index = ri\<rparr>"

definition Rec_create_next_table ::
  "extern \<Rightarrow> mmu \<Rightarrow> 'a allocate_frame \<Rightarrow> u64 \<Rightarrow> PageTableIndex \<Rightarrow> Page \<Rightarrow> PageTableFlags \<Rightarrow>
   mem \<times> 'a \<Rightarrow> ((MapToError + u64) \<times> (mem \<times> 'a)) option" where
  "Rec_create_next_table X mmu allocate_frame p i next_table_page insert_flags s = do {
     let (m, allocator) = s;
     e \<leftarrow> read_at mmu m p i;
     try_op
       (if is_unused e then
          (case allocate_frame allocator of
             (Some frame, allocator) \<Rightarrow> do {
               e \<leftarrow> set_frame e frame (bitflags_or X (bitflags_or X PRESENT WRITABLE) insert_flags);
               m \<leftarrow> write_at mmu m p i e;
               Some (Inr (e, True), (m, allocator))
             }
           | (None, allocator) \<Rightarrow> Some (Inl MapTo_FrameAllocationFailed, (m, allocator)))
        else if \<not> bitflags_is_empty X insert_flags \<and>
                \<not> bitflags_contains X (PageTableEntry_flags X e) insert_flags then do {
          e \<leftarrow> set_flags e (bitflags_or X (PageTableEntry_flags X e) insert_flags);
          m \<leftarrow> write_at mmu m p i e;
          Some (Inr (e, False), (m, allocator))
        }
        else Some (Inr (e, False), (m, allocator)))
       id (\<lambda>(e, created) (m, allocator).
         if bitflags_contains X (PageTableEntry_flags X e) HUGE_PAGE
         then Some (Inl MapTo_ParentEntryHugePage, (m, allocator))
         else do {
           let page_table_ptr = VirtAddr_as_mut_ptr (Page_start_address next_table_page);
           m \<leftarrow> (if created then do {
                    q \<leftarrow> mmu m True page_table_ptr;
                    Some (m(q := PageTable_zero (m q)))
                  } else Some m);
           Some (Inr page_table_ptr, (m, allocator))
         })
   }"

definition Rec_map_to_1gib ::
  "extern \<Rightarrow> mmu \<Rightarrow> RecursivePageTable \<Rightarrow> 'a allocate_frame \<Rightarrow> (mem \<times> 'a) map_method" where
  "Rec_map_to_1gib X mmu self allocate_frame page frame flags parent_table_flags s = do {
     let p4 = rec_p4 self;
     p3_page \<leftarrow> p3_page page (recursive_index self);
     try_op (Rec_create_next_table X mmu allocate_frame p4 (Page_p4_index page) p3_page
         parent_table_flags s) id (\<lambda>p3 (m, allocator). do {
       e \<leftarrow> read_at mmu m p3 (Page_p3_index page);
       if \<not> is_unused e then Some (Inl (MapTo_PageAlreadyMapped frame), (m, allocator))
       else do {
         e \<leftarrow> set_addr e (PhysFrame_start_address frame) (bitflags_or X flags HUGE_PAGE);
         m \<leftarrow> write_at mmu m p3 (Page_p3_index page) e;
         Some (Inr (MapperFlush_new page), (m, allocator))
       }
     })
   }"

definition Rec_map_to_2mib ::
  "extern \<Rightarrow> mmu \<Rightarrow> RecursivePageTable \<Rightarrow> 'a allocate_frame \<Rightarrow> (mem \<times> 'a) map_method" where
  "Rec_map_to_2mib X mmu self allocate_frame page frame flags parent_table_flags s = do {
     let p4 = rec_p4 self;
     p3_page \<leftarrow> p3_page page (recursive_index self);
     try_op (Rec_create_next_table X mmu allocate_frame p4 (Page_p4_index page) p3_page
         parent_table_flags s) id (\<lambda>p3 s. do {
       p2_page \<leftarrow> p2_page page (recursive_index self);
       try_op (Rec_create_next_table X mmu allocate_frame p3 (Page_p3_index page) p2_page
           parent_table_flags s) id (\<lambda>p2 (m, allocator). do {
         e \<leftarrow> read_at mmu m p2 (Page_p2_index page);
         if \<not> is_unused e then Some (Inl (MapTo_PageAlreadyMapped frame), (m, allocator))
         else do {
           e \<leftarrow> set_addr e (PhysFrame_start_address frame) (bitflags_or X flags HUGE_PAGE);
           m \<leftarrow> write_at mmu m p2 (Page_p2_index page) e;
           Some (Inr (MapperFlush_new page), (m, allocator))
         }
       })
     })
   }"

definition Rec_map_to_4kib ::
  "extern \<Rightarrow> mmu \<Rightarrow> RecursivePageTable \<Rightarrow> 'a allocate_frame \<Rightarrow> (mem \<times> 'a) map_method" where
  "Rec_map_to_4kib X mmu self allocate_frame page frame flags parent_table_flags s = do {
     let p4 = rec_p4 self;
     p3_page \<leftarrow> p3_page page (recursive_index self);
     try_op (Rec_create_next_table X mmu allocate_frame p4 (Page_p4_index page) p3_page
         parent_table_flags s) id (\<lambda>p3 s. do {
       p2_page \<leftarrow> p2_page page (recursive_index self);
       try_op (Rec_create_next_table X mmu allocate_frame p3 (Page_p3_index page) p2_page
           parent_table_flags s) id (\<lambda>p2 s. do {
         p1_page \<leftarrow> p1_page page (recursive_index self);
         try_op (Rec_create_next_table X mmu allocate_frame p2 (Page_p2_index page) p1_page
             parent_table_flags s) id (\<lambda>p1 (m, allocator). do {
           e \<leftarrow> read_at mmu m p1 (Page_p1_index page);
           if \<not> is_unused e then Some (Inl (MapTo_PageAlreadyMapped frame), (m, allocator))
           else do {
             e \<leftarrow> set_frame e frame flags;
             m \<leftarrow> write_at mmu m p1 (Page_p1_index page) e;
             Some (Inr (MapperFlush_new page), (m, allocator))
           }
         })
       })
     })
   }"

fun Rec_map_to_with_table_flags ::
  "extern \<Rightarrow> mmu \<Rightarrow> PageSize \<Rightarrow> RecursivePageTable \<Rightarrow> 'a allocate_frame \<Rightarrow> (mem \<times> 'a) map_method" where
  "Rec_map_to_with_table_flags X mmu Size1GiB = Rec_map_to_1gib X mmu"
| "Rec_map_to_with_table_flags X mmu Size2MiB = Rec_map_to_2mib X mmu"
| "Rec_map_to_with_table_flags X mmu Size4KiB = Rec_map_to_4kib X mmu"

text \<open>
  The check of \<open>unmap\<close> on a parent entry: \<open>Some err\<close> when the method returns there with an error.
\<close>

definition unmap_parent_error :: "extern \<Rightarrow> PageTableEntry \<Rightarrow> UnmapError option option" where
  "unmap_parent_error X e =
     (if bitflags_contains X (PageTableEntry_flags X e) HUGE_PAGE
      then Some (Some Unmap_ParentEntryHugePage)
      else do {
        r \<leftarrow> PageTableEntry_frame X e;
        case r of
          Inl FrameNotPresent \<Rightarrow> Some (Some Unmap_PageNotMapped)
        | Inl HugeFrame \<Rightarrow> panic
        | Inr _ \<Rightarrow> Some None
      })"

definition Rec_unmap_1gib ::
  "extern \<Rightarrow> mmu \<Rightarrow> RecursivePageTable \<Rightarrow> Page \<Rightarrow> mem \<Rightarrow>
   ((UnmapError + PhysFrame \<times> MapperFlush) \<times> mem) option" where
  "Rec_unmap_1gib X mmu self page m = do {
     let p4 = rec_p4 self;
     p4_entry \<leftarrow> read_at mmu m p4 (Page_p4_index page);
     c \<leftarrow> unmap_parent_error X p4_entry;
     case c of Some err \<Rightarrow> Some (Inl err, m) | None \<Rightarrow> do {
       p3 \<leftarrow> p3_ptr page (recursive_index self);
       p3_entry \<leftarrow> read_at mmu m p3 (Page_p3_index page);
       let flags = PageTableEntry_flags X p3_entry;
       if \<not> bitflags_contains X flags PRESENT then Some (Inl Unmap_PageNotMapped, m)
       else if \<not> bitflags_contains X flags HUGE_PAGE then Some (Inl Unmap_ParentEntryHugePage, m)
       else do {
         a \<leftarrow> PageTableEntry_addr p3_entry;
         r \<leftarrow> PhysFrame_from_start_address Size1GiB a;
         case r of
           Inl AddressNotAligned \<Rightarrow> Some (Inl (Unmap_InvalidFrameAddress a), m)
         | Inr frame \<Rightarrow> do {
             m \<leftarrow> write_at mmu m p3 (Page_p3_index page) (set_unused p3_entry);
             Some (Inr (frame, MapperFlush_new page), m)
           }
       }
     }
   }"

definition Rec_unmap_2mib ::
  "extern \<Rightarrow> mmu \<Rightarrow> RecursivePageTable \<Rightarrow> Page \<Rightarrow> mem \<Rightarrow>
   ((UnmapError + PhysFrame \<times> MapperFlush) \<times> mem) option" where
  "Rec_unmap_2mib X mmu self page m = do {
     let p4 = rec_p4 self;
     p4_entry \<leftarrow> read_at mmu m p4 (Page_p4_index page);
     c \<leftarrow> unmap_parent_error X p4_entry;
     case c of Some err \<Rightarrow> Some (Inl err, m) | None \<Rightarrow> do {
       p3 \<leftarrow> p3_ptr page (recursive_index self);
       p3_entry \<leftarrow> read_at mmu m p3 (Page_p3_index page);
       c \<leftarrow> unmap_parent_error X p3_entry;
       case c of Some err \<Rightarrow> Some (Inl err, m) | None \<Rightarrow> do {
         p2 \<leftarrow> p2_ptr page (recursive_index self);
         p2_entry \<leftarrow> read_at mmu m p2 (Page_p2_index page);
         let flags = PageTableEntry_flags X p2_entry;
         if \<not> bitflags_contains X flags PRESENT then Some (Inl Unmap_PageNotMapped, m)
         else if \<not> bitflags_contains X flags HUGE_PAGE then Some (Inl Unmap_ParentEntryHugePage, m)
         else do {
           a \<leftarrow> PageTableEntry_addr p2_entry;
           r \<leftarrow> PhysFrame_from_start_address Size2MiB a;
           case r of
             Inl AddressNotAligned \<Rightarrow> Some (Inl (Unmap_InvalidFrameAddress a), m)
           | Inr frame \<Rightarrow> do {
               m \<leftarrow> write_at mmu m p2 (Page_p2_index page) (set_unused p2_entry);
               Some (Inr (frame, MapperFlush_new page), m)
             }
         }
       }
     }
   }"

definition Rec_unmap_4kib ::
  "extern \<Rightarrow> mmu \<Rightarrow> RecursivePageTable \<Rightarrow> Page \<Rightarrow> mem \<Rightarrow>
   ((UnmapError + PhysFrame \<times> MapperFlush) \<times> mem) option" where
  "Rec_unmap_4kib X mmu self page m = do {
     let p4 = rec_p4 self;
     p4_entry \<leftarrow> read_at mmu m p4 (Page_p4_index page);
     c \<leftarrow> unmap_parent_error X p4_entry;
     case c of Some err \<Rightarrow> Some (Inl err, m) | None \<Rightarrow> do {
       p3 \<leftarrow> p3_ptr page (recursive_index self);
       p3_entry \<leftarrow> read_at mmu m p3 (Page_p3_index page);
       c \<leftarrow> unmap_parent_error X p3_entry;
       case c of Some err \<Rightarrow> Some (Inl err, m) | None \<Rightarrow> do {
         p2 \<leftarrow> p2_ptr page (recursive_index self);
         p2_entry \<leftarrow> read_at mmu m p2 (Page_p2_index page);
         c \<leftarrow> unmap_parent_error X p2_entry;
         case c of Some err \<Rightarrow> Some (Inl err, m) | None \<Rightarrow> do {
           p1 \<leftarrow> p1_ptr page (recursive_index self);
           p1_entry \<leftarrow> read_at mmu m p1 (Page_p1_index page);
           r \<leftarrow> PageTableEntry_frame X p1_entry;
           case r of
             Inl FrameNotPresent \<Rightarrow> Some (Inl Unmap_PageNotMapped, m)
           | Inl HugeFrame \<Rightarrow> panic
           | Inr frame \<Rightarrow> do {
               m \<leftarrow> write_at mmu m p1 (Page_p1_index page) (set_unused p1_entry);
               Some (Inr (frame, MapperFlush_new page), m)
             }
         }
       }
     }
   }"

fun Rec_unmap ::
  "extern \<Rightarrow> mmu \<Rightarrow> PageSize \<Rightarrow> RecursivePageTable \<Rightarrow> Page \<Rightarrow> mem \<Rightarrow>
   ((UnmapError + PhysFrame \<times> MapperFlush) \<times> mem) option" where
  "Rec_unmap X mmu Size1GiB = Rec_unmap_1gib X mmu"
| "Rec_unmap X mmu Size2MiB = Rec_unmap_2mib X mmu"
| "Rec_unmap X mmu Size4KiB = Rec_unmap_4kib X mmu"

definition Rec_update_flags_1gib ::
  "extern \<Rightarrow> mmu \<Rightarrow> RecursivePageTable \<Rightarrow> Page \<Rightarrow> PageTableFlags \<Rightarrow> mem \<Rightarrow>
   ((FlagUpdateError + MapperFlush) \<times> mem) option" where
  "Rec_update_flags_1gib X mmu self page flags m = do {
     let p4 = rec_p4 self;
     e4 \<leftarrow> read_at mmu m p4 (Page_p4_index page);
     if is_unused e4 then Some (Inl FlagUpdate_PageNotMapped, m)
     else do {
       p3 \<leftarrow> p3_ptr page (recursive_index self);
       e3 \<leftarrow> read_at mmu m p3 (Page_p3_index page);
       if is_unused e3 then Some (Inl FlagUpdate_PageNotMapped, m)
       else do {
         e \<leftarrow> set_flags e3 (bitflags_or X flags HUGE_PAGE);
         m \<leftarrow> write_at mmu m p3 (Page_p3_index page) e;
         Some (Inr (MapperFlush_new page), m)
       }
     }
   }"

definition Rec_update_flags_2mib ::
  "extern \<Rightarrow> mmu \<Rightarrow> RecursivePageTable \<Rightarrow> Page \<Rightarrow> PageTableFlags \<Rightarrow> mem \<Rightarrow>
   ((FlagUpdateError + MapperFlush) \<times> mem) option" where
  "Rec_update_flags_2mib X mmu self page flags m = do {
     let p4 = rec_p4 self;
     e4 \<leftarrow> read_at mmu m p4 (Page_p4_index page);
     if is_unused e4 then Some (Inl FlagUpdate_PageNotMapped, m)
     else do {
       p3 \<leftarrow> p3_ptr page (recursive_index self);
       e3 \<leftarrow> read_at mmu m p3 (Page_p3_index page);
       if is_unused e3 then Some (Inl FlagUpdate_PageNotMapped, m)
       else do {
         p2 \<leftarrow> p2_ptr page (recursive_index self);
         e2 \<leftarrow> read_at mmu m p2 (Page_p2_index page);
         if is_unused e2 then Some (Inl FlagUpdate_PageNotMapped, m)
         else do {
           e \<leftarrow> set_flags e2 (bitflags_or X flags HUGE_PAGE);
           m \<leftarrow> write_at mmu m p2 (Page_p2_index page) e;
           Some (Inr (MapperFlush_new page), m)
         }
       }
     }
   }"

definition Rec_update_flags_4kib ::
  "extern \<Rightarrow> mmu \<Rightarrow> RecursivePageTable \<Rightarrow> Page \<Rightarrow> PageTableFlags \<Rightarrow> mem \<Rightarrow>
   ((FlagUpdateError + MapperFlush) \<times> mem) option" where
  "Rec_update_flags_4kib X mmu self page flags m = do {
     let p4 = rec_p4 self;
     e4 \<leftarrow> read_at mmu m p4 (Page_p4_index page);
     if is_unused e4 then Some (Inl FlagUpdate_PageNotMapped, m)
     else do {
       p3 \<leftarrow> p3_ptr page (recursive_index self);
       e3 \<leftarrow> read_at mmu m p3 (Page_p3_index page);
       if is_unused e3 then Some (Inl FlagUpdate_PageNotMapped, m)
       else do {
         p2 \<leftarrow> p2_ptr page (recursive_index self);
         e2 \<leftarrow> read_at mmu m p2 (Page_p2_index page);
         if is_unused e2 then Some (Inl FlagUpdate_PageNotMapped, m)
         else do {
           p1 \<leftarrow> p1_ptr page (recursive_index self);
           e1 \<leftarrow> read_at mmu m p1 (Page_p1_index page);
           if is_unused e1 then Some (Inl FlagUpdate_PageNotMapped, m)
           else do {
             e \<leftarrow> set_flags e1 flags;
             m \<leftarrow> write_at mmu m p1 (Page_p1_index page) e;
             Some (Inr (MapperFlush_new page), m)
           }
         }
       }
     }
   }"

fun Rec_update_flags ::
  "extern \<Rightarrow> mmu \<Rightarrow> PageSize \<Rightarrow> RecursivePageTable \<Rightarrow> Page \<Rightarrow> PageTableFlags \<Rightarrow> mem \<Rightarrow>
   ((FlagUpdateError + MapperFlush) \<times> mem) option" where
  "Rec_update_flags X mmu Size1GiB = Rec_update_flags_1gib X mmu"
| "Rec_update_flags X mmu Size2MiB = Rec_update_flags_2mib X mmu"
| "Rec_update_flags X mmu Size4KiB = Rec_update_flags_4kib X mmu"

text \<open>The three instances of \<open>set_flags_p4_entry\<close> have the same body.\<close>

definition Rec_set_flags_p4_entry ::
  "mmu \<Rightarrow> RecursivePageTable \<Rightarrow> Page \<Rightarrow> PageTableFlags \<Rightarrow> mem \<Rightarrow>
   ((FlagUpdateError + MapperFlushAll) \<times> mem) option" where
  "Rec_set_flags_p4_entry mmu self page flags m = do {
     let p4 = rec_p4 self;
     e4 \<leftarrow> read_at mmu m p4 (Page_p4_index page);
     if is_unused e4 then Some (Inl FlagUpdate_PageNotMapped, m)
     else do {
       e \<leftarrow> set_flags e4 flags;
       m \<leftarrow> write_at mmu m p4 (Page_p4_index page) e;
       Some (Inr MapperFlushAll_new, m)
     }
   }"

text \<open>The bodies of \<open>set_flags_p3_entry\<close> for 2MiB and 4KiB pages are the same.\<close>

fun Rec_set_flags_p3_entry ::
  "mmu \<Rightarrow> PageSize \<Rightarrow> RecursivePageTable \<Rightarrow> Page \<Rightarrow> PageTableFlags \<Rightarrow> mem \<Rightarrow>
   ((FlagUpdateError + MapperFlushAll) \<times> mem) option" where
  "Rec_set_flags_p3_entry mmu Size1GiB self page flags m =
     Some (Inl FlagUpdate_ParentEntryHugePage, m)"
| "Rec_set_flags_p3_entry mmu _ self page flags m = do {
     let p4 = rec_p4 self;
     e4 \<leftarrow> read_at mmu m p4 (Page_p4_index page);
     if is_unused e4 then Some (Inl FlagUpdate_PageNotMapped, m)
     else do {
       p3 \<leftarrow> p3_ptr page (recursive_index self);
       e3 \<leftarrow> read_at mmu m p3 (Page_p3_index page);
       if is_unused e3 then Some (Inl FlagUpdate_PageNotMapped, m)
       else do {
         e \<leftarrow> set_flags e3 flags;
         m \<leftarrow> write_at mmu m p3 (Page_p3_index page) e;
         Some (Inr MapperFlushAll_new, m)
       }
     }
   }"

fun Rec_set_flags_p2_entry ::
  "mmu \<Rightarrow> PageSize \<Rightarrow> RecursivePageTable \<Rightarrow> Page \<Rightarrow> PageTableFlags \<Rightarrow> mem \<Rightarrow>
   ((FlagUpdateError + MapperFlushAll) \<times> mem) option" where
  "Rec_set_flags_p2_entry mmu Size1GiB self page flags m =
     Some (Inl FlagUpdate_ParentEntryHugePage, m)"
| "Rec_set_flags_p2_entry mmu Size2MiB self page flags m =
     Some (Inl FlagUpdate_ParentEntryHugePage, m)"
| "Rec_set_flags_p2_entry mmu Size4KiB self page flags m = do {
     let p4 = rec_p4 self;
     e4 \<leftarrow> read_at mmu m p4 (Page_p4_index page);
     if is_unused e4 then Some (Inl FlagUpdate_PageNotMapped, m)
     else do {
       p3 \<leftarrow> p3_ptr page (recursive_index self);
       e3 \<leftarrow> read_at mmu m p3 (Page_p3_index page);
       if is_unused e3 then Some (Inl FlagUpdate_PageNotMapped, m)
       else do {
         p2 \<leftarrow> p2_ptr page (recursive_index self);
         e2 \<leftarrow> read_at mmu m p2 (Page_p2_index page);
         if is_unused e2 then Some (Inl FlagUpdate_PageNotMapped, m)
         else do {
           e \<leftarrow> set_flags e2 flags;
           m \<leftarrow> write_at mmu m p2 (Page_p2_index page) e;
           Some (Inr MapperFlushAll_new, m)
         }
       }
     }
   }"

definition Rec_translate_page_1gib ::
  "mmu \<Rightarrow> RecursivePageTable \<Rightarrow> mem \<Rightarrow> Page \<Rightarrow> (TranslateError + PhysFrame) option" where
  "Rec_translate_page_1gib mmu self m page = do {
     let p4 = rec_p4 self;
     e4 \<leftarrow> read_at mmu m p4 (Page_p4_index page);
     if is_unused e4 then Some (Inl Translate_PageNotMapped)
     else do {
       p3 \<leftarrow> p3_ptr page (recursive_index self);
       p3_entry \<leftarrow> read_at mmu m p3 (Page_p3_index page);
       leaf_frame Size1GiB p3_entry
     }
   }"

definition Rec_translate_page_2mib ::
  "mmu \<Rightarrow> RecursivePageTable \<Rightarrow> mem \<Rightarrow> Page \<Rightarrow> (TranslateError + PhysFrame) option" where
  "Rec_translate_page_2mib mmu self m page = do {
     let p4 = rec_p4 self;
     e4 \<leftarrow> read_at mmu m p4 (Page_p4_index page);
     if is_unused e4 then Some (Inl Translate_PageNotMapped)
     else do {
       p3 \<leftarrow> p3_ptr page (recursive_index self);
       e3 \<leftarrow> read_at mmu m p3 (Page_p3_index page);
       if is_unused e3 then Some (Inl Translate_PageNotMapped)
       else do {
         p2 \<leftarrow> p2_ptr page (recursive_index self);
         p2_entry \<leftarrow> read_at mmu m p2 (Page_p2_index page);
         leaf_frame Size2MiB p2_entry
       }
     }
   }"

definition Rec_translate_page_4kib ::
  "mmu \<Rightarrow> RecursivePageTable \<Rightarrow> mem \<Rightarrow> Page \<Rightarrow> (TranslateError + PhysFrame) option" where
  "Rec_translate_page_4kib mmu self m page = do {
     let p4 = rec_p4 self;
     e4 \<leftarrow> read_at mmu m p4 (Page_p4_index page);
     if is_unused e4 then Some (Inl Translate_PageNotMapped)
     else do {
       p3 \<leftarrow> p3_ptr page (recursive_index self);
       e3 \<leftarrow> read_at mmu m p3 (Page_p3_index page);
       if is_unused e3 then Some (Inl Translate_PageNotMapped)
       else do {
         p2 \<leftarrow> p2_ptr page (recursive_index self);
         e2 \<leftarrow> read_at mmu m p2 (Page_p2_index page);
         if is_unused e2 then Some (Inl Translate_PageNotMapped)
         else do {
           p1 \<leftarrow> p1_ptr page (recursive_index self);
           p1_entry \<leftarrow> read_at mmu m p1 (Page_p1_index page);
           leaf_frame Size4KiB p1_entry
         }
       }
     }
   }"

fun Rec_translate_page ::
  "mmu \<Rightarrow> PageSize \<Rightarrow> RecursivePageTable \<Rightarrow> mem \<Rightarrow> Page \<Rightarrow> (TranslateError + PhysFrame) option" where
  "Rec_translate_page mmu Size1GiB = Rec_translate_page_1gib mmu"
| "Rec_translate_page mmu Size2MiB = Rec_translate_page_2mib mmu"
| "Rec_translate_page mmu Size4KiB = Rec_translate_page_4kib mmu"

definition Rec_translate ::
  "extern \<Rightarrow> mmu \<Rightarrow> RecursivePageTable \<Rightarrow> mem \<Rightarrow> VirtAddr \<Rightarrow> TranslateResult option" where
  "Rec_translate X mmu self m addr = do {
     page \<leftarrow> Page_containing_address Size4KiB addr;
     let p4 = rec_p4 self;
     p4_entry \<leftarrow> read_at mmu m p4 (VirtAddr_p4_index addr);
     if is_unused p4_entry then Some NotMapped
     else if bitflags_contains X (PageTableEntry_flags X p4_entry) HUGE_PAGE then panic
     else do {
       p3 \<leftarrow> p3_ptr page (recursive_index self);
       p3_entry \<leftarrow> read_at mmu m p3 (VirtAddr_p3_index addr);
       if is_unused p3_entry then Some NotMapped
       else if bitflags_contains X (PageTableEntry_flags X p3_entry) HUGE_PAGE then do {
         entry \<leftarrow> read_at mmu m p3 (VirtAddr_p3_index addr);
         a \<leftarrow> PageTableEntry_addr entry;
         frame \<leftarrow> PhysFrame_containing_address Size1GiB a;
         let offset = VirtAddr_as_u64 addr AND 0x3fffffff;
         Some (Mapped (MappedFrame_Size1GiB frame) offset (PageTableEntry_flags X entry))
       }
       else do {
         p2 \<leftarrow> p2_ptr page (recursive_index self);
         p2_entry \<leftarrow> read_at mmu m p2 (VirtAddr_p2_index addr);
         if is_unused p2_entry then Some NotMapped
         else if bitflags_contains X (PageTableEntry_flags X p2_entry) HUGE_PAGE then do {
           entry \<leftarrow> read_at mmu m p2 (VirtAddr_p2_index addr);
           a \<leftarrow> PageTableEntry_addr entry;
           frame \<leftarrow> PhysFrame_containing_address Size2MiB a;
           let offset = VirtAddr_as_u64 addr AND 0x1fffff;
           Some (Mapped (MappedFrame_Size2MiB frame) offset (PageTableEntry_flags X entry))
         }
         else do {
           p1 \<leftarrow> p1_ptr page (recursive_index self);
           p1_entry \<leftarrow> read_at mmu m p1 (VirtAddr_p1_index addr);
           if is_unused p1_entry then Some NotMapped
           else do {
             a \<leftarrow> PageTableEntry_addr p1_entry;
             r \<leftarrow> PhysFrame_from_start_address Size4KiB a;
             case r of
               Inl AddressNotAligned \<Rightarrow> Some (InvalidFrameAddress a)
             | Inr frame \<Rightarrow>
                 Some (Mapped (MappedFrame_Size4KiB frame)
                   (u64_from_offset (VirtAddr_page_offset addr))
                   (PageTableEntry_flags X p1_entry))
           }
         }
       }
     }
   }"

section \<open>Clean-up\<close>

text \<open>The pointer of the table below an entry of a table of this level: the array of \<open>p1_ptr\<close>, \<open>p2_ptr\<close>
  and \<open>p3_ptr\<close> indexed by \<open>level as usize - 2\<close>.\<close>

fun level_ptr :: "PageTableLevel \<Rightarrow> Page \<Rightarrow> PageTableIndex \<Rightarrow> u64 option" where
  "level_ptr One page ri = panic"
| "level_ptr Two page ri = p1_ptr page ri"
| "level_ptr Three page ri = p2_ptr page ri"
| "level_ptr Four page ri = p3_ptr page ri"

function Rec_clean_up_table ::
  "extern \<Rightarrow> mmu \<Rightarrow> 'd deallocate_frame \<Rightarrow> PageTableIndex \<Rightarrow> u64 \<Rightarrow> PageTableLevel \<Rightarrow>
   PageRangeInclusive \<Rightarrow> mem \<times> 'd \<Rightarrow> (bool \<times> (mem \<times> 'd)) option" where
  "Rec_clean_up_table X mmu deallocate_frame ri page_table level rng s =
     (if PageRangeInclusive_is_empty rng then Some (False, s)
      else do {
        table_addr \<leftarrow> VirtAddr_align_down (Page_start_address (start_page_incl rng))
                        (table_address_space_alignment level);
        let start = Page_page_table_index (start_page_incl rng) level;
        let end = Page_page_table_index (end_page_incl rng) level;
        (m, d) \<leftarrow> (case next_lower_level level of
            None \<Rightarrow> Some s
          | Some next_level \<Rightarrow>
              (let offset_per_entry = entry_address_space_alignment level in
               for_each (filter (\<lambda>i. \<not> (level = Four \<and> i = unat (usize_from_index ri)))
                   [unat (usize_from_index start)..<min 512 (unat (usize_from_index end) + 1)])
                 (\<lambda>i (m, d). do {
                    e \<leftarrow> read_at mmu m page_table (PageTableIndex (of_nat i));
                    if bitflags_contains X (PageTableEntry_flags X e) HUGE_PAGE then Some (m, d)
                    else do {
                      f \<leftarrow> PageTableEntry_frame X e;
                      case f of
                        Inl _ \<Rightarrow> Some (m, d)
                      | Inr frame \<Rightarrow> do {
                          n \<leftarrow> mul_op X offset_per_entry (of_nat i);
                          st \<leftarrow> VirtAddr_forward_checked_impl X table_addr n;
                          start \<leftarrow> st;
                          end \<leftarrow> VirtAddr_add start (offset_per_entry - 1);
                          start \<leftarrow> Page_containing_address Size4KiB start;
                          let start = max start (start_page_incl rng);
                          end \<leftarrow> Page_containing_address Size4KiB end;
                          let end = min end (end_page_incl rng);
                          next_page_table \<leftarrow> level_ptr level start ri;
                          (empty, (m, d)) \<leftarrow> Rec_clean_up_table X mmu deallocate_frame ri
                            next_page_table next_level (Page_range_inclusive start end) (m, d);
                          if empty then do {
                            e \<leftarrow> read_at mmu m page_table (PageTableIndex (of_nat i));
                            m \<leftarrow> write_at mmu m page_table (PageTableIndex (of_nat i)) (set_unused e);
                            Some (m, deallocate_frame d frame)
                          } else Some (m, d)
                        }
                    }
                  }) s));
        q \<leftarrow> mmu m False page_table;
        Some (list_all is_unused (PageTable_iter (m q)), (m, d))
      })"
  by pat_completeness auto

termination Rec_clean_up_table
  by (relation "measure (\<lambda>(X, mmu, dealloc, ri, p, level, rng, s). unat (level_u8 level))")
    (simp_all add: next_lower_level_decreases)

declare Rec_clean_up_table.simps [simp del]

definition Rec_clean_up_addr_range ::
  "extern \<Rightarrow> mmu \<Rightarrow> RecursivePageTable \<Rightarrow> 'd deallocate_frame \<Rightarrow> PageRangeInclusive \<Rightarrow> mem \<times> 'd \<Rightarrow>
   (mem \<times> 'd) option" where
  "Rec_clean_up_addr_range X mmu self deallocate_frame rng s = do {
     (_, s) \<leftarrow> Rec_clean_up_table X mmu deallocate_frame (recursive_index self) (rec_p4 self) Four rng s;
     Some s
   }"

definition Rec_clean_up ::
  "extern \<Rightarrow> mmu \<Rightarrow> RecursivePageTable \<Rightarrow> 'd deallocate_frame \<Rightarrow> mem \<times> 'd \<Rightarrow> (mem \<times> 'd) option" where
  "Rec_clean_up X mmu self deallocate_frame s = do {
     a \<leftarrow> VirtAddr_new 0;
     ra \<leftarrow> Page_from_start_address Size4KiB a;
     b \<leftarrow> VirtAddr_new 0xfffffffffffff000;
     rb \<leftarrow> Page_from_start_address Size4KiB b;
     case (ra, rb) of
       (Inr first_page, Inr last_page) \<Rightarrow>
         Rec_clean_up_addr_range X mmu self deallocate_frame
           \<lparr>start_page_incl = first_page, end_page_incl = last_page\<rparr> s
     | _ \<Rightarrow> panic
   }"

end
