(* ===== verification/Recursive_Tree.thy ===== *)
theory Recursive_Tree
  imports Recursive_Page_Table Mapper_Tree
begin

text \<open>
  The recursive page table refines the mapped page table on physical memory. The CPU is described by
  the contract \<open>mmu_ok\<close>: an access through a page resolves to the frame that the walk of its four
  levels (\<open>hw_walk\<close>) ends at. In a memory that is \<open>recursive_ok\<close> (an entry of the level 4 table leads
  back to that table, the rest is a well-formed tree, and the entries that lead to tables are
  writable) the pointers of the code resolve to the tables they stand for, so each operation is the
  one of the mapped page table on the memory with the recursive entry hidden.
\<close>

section \<open>The walk of the CPU\<close>

definition writable :: "PageTableEntry \<Rightarrow> bool" where
  "writable e \<longleftrightarrow> bit (entry e) 1"

fun hw_walk :: "mem \<Rightarrow> bool \<Rightarrow> u64 \<Rightarrow> PageTableIndex list \<Rightarrow> u64 option" where
  "hw_walk m w p [] = Some p"
| "hw_walk m w p (i # is) =
     (let e = ent m p i in
      if present e \<and> (w \<longrightarrow> writable e) \<and> (is = [] \<or> \<not> huge e)
      then hw_walk m w (pa (entry_addr e)) is else None)"

text \<open>
  What the code relies on about the CPU: a page of the address space whose walk ends at a frame is
  accessed in that frame. The last step of a walk ignores bit 7, which is not the huge page bit in
  an entry of a level 1 table.
\<close>

locale mmu_ok =
  fixes mmu :: mmu and cr3 :: u64
  assumes mmu_walk: "mem_ok m \<Longrightarrow> page_ok Size4KiB p \<Longrightarrow>
    hw_walk m w cr3 (addr_path (page_start p)) = Some q \<Longrightarrow> mmu m w (va (page_start p)) = Some q"

text \<open>A CPU without other mappings of the tables meets the contract.\<close>

definition cpu_mmu :: "u64 \<Rightarrow> mmu" where
  "cpu_mmu cr3 m w v = hw_walk m w cr3 (addr_path (VirtAddr v))"

interpretation cpu: mmu_ok "cpu_mmu cr3" cr3 for cr3
  by unfold_locales (simp add: cpu_mmu_def)

text \<open>The walker of a mapped page table that accesses physical memory directly.\<close>

definition phys_walker :: PageTableWalker where
  "phys_walker = \<lparr>page_table_frame_mapping = (\<lambda>f. Some (pa (frame_start f)))\<rparr>"

lemma child_phys [simp]:
  "child phys_walker e = (if present e \<and> \<not> huge e then Some (pa (entry_addr e)) else None)"
  by (simp add: child_def phys_walker_def)

lemma hw_walk_goto:
  assumes "goto phys_walker n p Q = Inr q"
    and "\<And>R j t. prefix (R @ [j]) Q \<Longrightarrow> goto phys_walker n p R = Inr t \<Longrightarrow>
      ent m t j = ent n t j \<and> writable (ent n t j)"
  shows "hw_walk m w p Q = Some q"
  using assms
proof (induction Q arbitrary: p)
  case (Cons i Q)
  have "ent m p i = ent n p i" "writable (ent n p i)"
    using Cons.prems(2) [of "[]" i p] by simp_all
  moreover have g: "present (ent n p i)" "\<not> huge (ent n p i)" "goto phys_walker n (pa (entry_addr (ent n p i))) Q = Inr q"
    using Cons.prems(1) by (auto split: if_splits)
  moreover have "hw_walk m w (pa (entry_addr (ent n p i))) Q = Some q"
    using g Cons.prems(2) [of "i # _"] by (intro Cons.IH) auto
  ultimately show ?case by simp
qed simp

lemma hw_walk_replicate:
  assumes "present e" "writable e" "\<not> huge e" "entry_addr e = PhysAddr root" "ent m root ri = e"
  shows "hw_walk m w root (replicate k ri @ Q) = hw_walk m w root Q"
  using assms by (induction k) auto

section \<open>Hiding the recursive entry\<close>

definition recursive_entry :: "u64 \<Rightarrow> PageTableEntry \<Rightarrow> bool" where
  "recursive_entry root e \<longleftrightarrow> present e \<and> writable e \<and> \<not> huge e \<and> entry_addr e = PhysAddr root"

definition hide :: "u64 \<Rightarrow> PageTableIndex \<Rightarrow> mem \<Rightarrow> mem" where
  "hide root ri m = upd m root ri PageTableEntry_new"

definition parents_writable :: "u64 \<Rightarrow> mem \<Rightarrow> bool" where
  "parents_writable root n \<longleftrightarrow> (\<forall>P q i. path_ok P \<longrightarrow> index_ok i \<longrightarrow> length P \<le> 2 \<longrightarrow>
     goto phys_walker n root P = Inr q \<longrightarrow> child phys_walker (ent n q i) \<noteq> None \<longrightarrow> writable (ent n q i))"

definition recursive_ok :: "u64 \<Rightarrow> PageTableIndex \<Rightarrow> mem \<Rightarrow> bool" where
  "recursive_ok root ri m \<longleftrightarrow> index_ok ri \<and> tree_ok phys_walker (hide root ri m) root \<and>
     parents_writable root (hide root ri m) \<and> recursive_entry root (ent m root ri)"

lemma mem_ok_hide [simp]: "mem_ok (hide root ri m) \<longleftrightarrow> mem_ok m"
  by (auto simp: mem_ok_def hide_def upd_def)

lemma ent_hide:
  "mem_ok m \<Longrightarrow> index_ok ri \<Longrightarrow>
    ent (hide root ri m) p j = (if p = root \<and> j = ri then PageTableEntry_new else ent m p j)"
  by (simp add: hide_def ent_upd)

lemma idx_inj [simp]: "idx i = idx j \<longleftrightarrow> i = j"
  by (simp add: PageTableIndex_eq_iff)

lemma upd_commute:
  "(q, i) \<noteq> (p, j) \<Longrightarrow> upd (upd m q i e) p j e' = upd (upd m p j e') q i e"
  by (auto simp: upd_def fun_eq_iff list_update_swap)

lemma hide_upd: "(q, i) \<noteq> (root, ri) \<Longrightarrow> hide root ri (upd m q i e) = upd (hide root ri m) q i e"
  unfolding hide_def by (rule upd_commute)

lemma hide_new_table: "r \<noteq> root \<Longrightarrow> hide root ri (m(r := t)) = (hide root ri m)(r := t)"
  by (simp add: hide_def upd_def fun_upd_twist)

lemma recursive_okD:
  assumes "recursive_ok root ri m"
  shows "index_ok ri" "tree_ok phys_walker (hide root ri m) root" "mem_ok m"
    "recursive_entry root (ent m root ri)"
  using assms tree_ok_mem [of phys_walker "hide root ri m" root] by (simp_all add: recursive_ok_def)

lemma parents_writableD:
  "recursive_ok root ri m \<Longrightarrow> goto phys_walker (hide root ri m) root P = Inr q \<Longrightarrow> path_ok P \<Longrightarrow>
    index_ok i \<Longrightarrow> length P \<le> 2 \<Longrightarrow> present (ent (hide root ri m) q i) \<Longrightarrow>
    \<not> huge (ent (hide root ri m) q i) \<Longrightarrow> writable (ent (hide root ri m) q i)"
  unfolding recursive_ok_def parents_writable_def by (metis child_phys option.distinct(1))

text \<open>A path that does not start with the recursive index never meets the recursive entry.\<close>

lemma path_entry:
  assumes r: "recursive_ok root ri m" and g: "goto phys_walker (hide root ri m) root R = Inr p"
    and R: "path_ok R" "length R \<le> 3" and j: "R = [] \<Longrightarrow> j \<noteq> ri"
  shows "(p, j) \<noteq> (root, ri)" "ent (hide root ri m) p j = ent m p j"
proof -
  have "R = []" if "p = root"
    using tree_ok_unique [OF recursive_okD(2) [OF r] g, of "[]"] R that by simp
  with j show "(p, j) \<noteq> (root, ri)" by auto
  then show "ent (hide root ri m) p j = ent m p j"
    using recursive_okD(1,3) [OF r] by (auto simp: ent_hide)
qed


section \<open>The pointers resolve\<close>

text \<open>The page at which the table with the path \<open>P\<close> is accessed, and its address.\<close>

definition table_page :: "PageTableIndex \<Rightarrow> PageTableIndex list \<Rightarrow> Page option" where
  "table_page ri P = (case replicate (4 - length P) ri @ P of
     [a, b, c, d] \<Rightarrow> Page_from_page_table_indices a b c d
   | _ \<Rightarrow> None)"

definition table_ptr :: "PageTableIndex \<Rightarrow> PageTableIndex list \<Rightarrow> u64 option" where
  "table_ptr ri P = map_option (\<lambda>p. va (page_start p)) (table_page ri P)"

lemma page_table_page:
  "p3_page page ri = table_page ri [Page_p4_index page]"
  "p2_page page ri = table_page ri [Page_p4_index page, Page_p3_index page]"
  "p1_page page ri = table_page ri [Page_p4_index page, Page_p3_index page, Page_p2_index page]"
  by (simp_all add: table_page_def p3_page_def p2_page_def p1_page_def numeral_eq_Suc)

lemma ptr_table_ptr:
  "p3_ptr page ri = table_ptr ri [Page_p4_index page]"
  "p2_ptr page ri = table_ptr ri [Page_p4_index page, Page_p3_index page]"
  "p1_ptr page ri = table_ptr ri [Page_p4_index page, Page_p3_index page, Page_p2_index page]"
  by (simp_all add: table_ptr_def p3_ptr_def p2_ptr_def p1_ptr_def page_table_page
      VirtAddr_as_mut_ptr_def VirtAddr_as_ptr_def VirtAddr_as_u64_def Page_start_address_def
      map_option_case split: option.split)

lemma assembled_path:
  assumes "path_ok [a, b, c, d]"
  shows "\<exists>p. Page_from_page_table_indices a b c d = Some p \<and> page_ok Size4KiB p \<and>
    addr_path (page_start p) = [a, b, c, d]"
proof -
  obtain p where p: "Page_from_page_table_indices a b c d = Some p" "page_ok Size4KiB p"
      "lin (page_start p) = idx a * 2 ^ 39 + idx b * 2 ^ 30 + idx c * 2 ^ 21 + idx d * 2 ^ 12"
    using from_page_table_indices_lin [of a b c d] assms by auto
  have "idx a < 512" "idx b < 512" "idx c < 512" "idx d < 512"
    using assms by (simp_all add: index_ok_def)
  from indices_lin [OF p(3) this] have "addr_path (page_start p) = [a, b, c, d]"
    by (simp only: addr_path_def PageTableIndex_eq_iff list.inject simp_thms)
  with p show ?thesis by blast
qed

lemma length_4E:
  assumes "length Q = 4"
  obtains a b c d where "Q = [a, b, c, d]"
  using assms by (auto simp: numeral_eq_Suc length_Suc_conv)

lemma table_ptr_path:
  assumes "path_ok P" "index_ok ri" "length P \<le> 3"
  shows "\<exists>p. table_page ri P = Some p \<and> table_ptr ri P = Some (va (page_start p)) \<and>
    page_ok Size4KiB p \<and> addr_path (page_start p) = replicate (4 - length P) ri @ P"
proof -
  let ?Q = "replicate (4 - length P) ri @ P"
  have "length ?Q = 4" using assms by simp
  then obtain a b c d where Q: "?Q = [a, b, c, d]"
    by (rule length_4E)
  moreover have "path_ok ?Q" using assms by (auto simp: list_all_iff)
  ultimately show ?thesis
    using assembled_path [of a b c d] by (auto simp: table_ptr_def table_page_def)
qed

context mmu_ok
begin

lemma table_ptr_mmu:
  assumes "path_ok P" "index_ok ri" "length P \<le> 3" and "mem_ok m"
    and "recursive_entry cr3 (ent m cr3 ri)" and "hw_walk m w cr3 P = Some q"
    and "table_ptr ri P = Some v"
  shows "mmu m w v = Some q"
proof -
  obtain p where p: "table_ptr ri P = Some (va (page_start p))" "page_ok Size4KiB p"
      "addr_path (page_start p) = replicate (4 - length P) ri @ P"
    using table_ptr_path [OF assms(1-3)] by blast
  have "hw_walk m w cr3 (replicate (4 - length P) ri @ P) = Some q"
    using assms(5,6) by (subst hw_walk_replicate) (auto simp: recursive_entry_def)
  with p assms(4,7) mmu_walk [of m p w q] show ?thesis by simp
qed

text \<open>The tables above \<open>q\<close> are those of a well-formed memory; \<open>q\<close> itself may hold anything.\<close>

lemma table_ptr_below:
  assumes r: "recursive_ok cr3 ri m" and g: "goto phys_walker (hide cr3 ri m) cr3 P = Inr q"
    and P: "path_ok P" "length P \<le> 3" "P \<noteq> []" "hd P \<noteq> ri" and v: "table_ptr ri P = Some v"
    and m': "mem_ok m'" "\<And>t. t \<noteq> q \<Longrightarrow> m' t = m t"
  shows "mmu m' w v = Some q"
proof (rule table_ptr_mmu [OF P(1) _ P(2)])
  let ?n = "hide cr3 ri m"
  have above: "t \<noteq> q" if t: "goto phys_walker ?n cr3 R = Inr t" and j: "prefix (R @ [j]) P" for R j t
  proof -
    obtain S where "P = R @ j # S" using j by (auto elim: prefixE)
    then show ?thesis
      using tree_ok_unique [OF recursive_okD(2) [OF r] t, of P] g P by auto
  qed
  then have "cr3 \<noteq> q" using P(3) above [of "[]" cr3 "hd P"] by (cases P) auto
  then show "recursive_entry cr3 (ent m' cr3 ri)"
    using recursive_okD(4) [OF r] m'(2) by (simp add: ent_def)
  show "hw_walk m' w cr3 P = Some q"
  proof (rule hw_walk_goto [OF g])
    fix R j t assume j: "prefix (R @ [j]) P" and t: "goto phys_walker ?n cr3 R = Inr t"
    then obtain S where S: "P = R @ j # S" by (auto elim: prefixE)
    have R: "path_ok R" "length R \<le> 2" "index_ok j" using S P by auto
    have "ent ?n t j = ent m t j"
      using S P R by (intro path_entry(2) [OF r t]) auto
    moreover have "ent m' t j = ent m t j"
      using above [OF t j] m'(2) by (simp add: ent_def)
    moreover have "goto phys_walker ?n t (j # S) = Inr q"
      using g t S by (simp add: goto_append)
    then have "present (ent ?n t j)" "\<not> huge (ent ?n t j)" by (auto split: if_splits)
    then have "writable (ent ?n t j)"
      by (rule parents_writableD [OF r t R(1,3,2)])
    ultimately show "ent m' t j = ent ?n t j \<and> writable (ent ?n t j)" by simp
  qed
qed (use recursive_okD [OF r] v m'(1) in auto)

lemma table_ptr_goto:
  assumes r: "recursive_ok cr3 ri m" and g: "goto phys_walker (hide cr3 ri m) cr3 P = Inr q"
    and P: "path_ok P" "length P \<le> 3" "P = [] \<or> hd P \<noteq> ri" and v: "table_ptr ri P = Some v"
  shows "mmu m w v = Some q"
proof (cases "P = []")
  case True
  then show ?thesis
    using table_ptr_mmu [OF P(1) _ P(2), of ri m w q v] recursive_okD [OF r] g v by simp
next
  case False
  then show ?thesis
    using table_ptr_below [OF r g P(1,2) _ _ v, of m] P recursive_okD(3) [OF r] by simp
qed

end

section \<open>Creating tables\<close>

lemma bit_insert: "bit ((PRESENT OR WRITABLE) OR fl) n \<longleftrightarrow> n = 0 \<or> n = 1 \<or> bit fl n"
proof -
  have "bit PRESENT n \<longleftrightarrow> n = 0" "bit WRITABLE n \<longleftrightarrow> n = 1"
    unfolding PRESENT_def WRITABLE_def bit_push_bit_iff by (auto simp: bit_simps)
  then show ?thesis by (simp only: bit_or_iff disj_assoc)
qed

lemma table_flags_insert:
  assumes "pure_flags fl" "\<not> bit fl 7"
  shows "table_flags ((PRESENT OR WRITABLE) OR fl)"
proof -
  have "PRESENT AND ADDR_MASK = 0" "WRITABLE AND ADDR_MASK = 0"
    by (simp_all add: PRESENT_def WRITABLE_def ADDR_MASK_def)
  with assms show ?thesis
    by (simp add: table_flags_def pure_flags_def bit.conj_disj_distrib2 bit_insert)
qed

lemma add_flags_writable: "writable (add_flags e fl) \<longleftrightarrow> writable e \<or> bit fl 1"
  by (auto simp: add_flags_def writable_def bit_simps bit_ADDR_MASK bit_all_flags)

lemma bit_nonzero: "bit x k \<Longrightarrow> x \<noteq> 0" for x :: u64
  by auto

lemma contains_bits: "x AND y = y \<longleftrightarrow> (\<forall>k. bit y k \<longrightarrow> bit x k)" for x y :: u64
proof
  assume "x AND y = y"
  then show "\<forall>k. bit y k \<longrightarrow> bit x k" by (metis bit_and_iff)
next
  assume "\<forall>k. bit y k \<longrightarrow> bit x k"
  then show "x AND y = y" by (intro bit_word_eqI) (auto simp: bit_and_iff)
qed

lemma insert_flags_same:
  assumes "present e" "writable e"
  shows "insert_flags e ((PRESENT OR WRITABLE) OR fl) = insert_flags e fl"
proof -
  let ?x = "entry e AND PageTableFlags_all" and ?fl = "(PRESENT OR WRITABLE) OR fl"
  have b: "bit ?x 0" "bit ?x 1"
    using assms by (simp_all add: present_def writable_def bit_simps bit_all_flags)
  have "?x AND ?fl = ?fl \<longleftrightarrow> ?x AND fl = fl"
    unfolding contains_bits bit_insert using b by auto
  moreover have "?fl \<noteq> 0" using bit_insert [of fl 0] bit_nonzero [of ?fl 0] by blast
  moreover have "?x OR ?fl = ?x OR fl"
  proof (rule bit_word_eqI)
    show "bit (?x OR ?fl) k = bit (?x OR fl) k" for k
      unfolding bit_or_iff [of ?x] bit_insert using b by auto
  qed
  then have "add_flags e ?fl = add_flags e fl" by (simp add: add_flags_def)
  ultimately show ?thesis by (auto simp: insert_flags_def)
qed

lemma insert_flags_writable: "bit fl 1 \<Longrightarrow> writable (insert_flags e fl)"
proof (cases "(entry e AND PageTableFlags_all) AND fl = fl")
  case True
  assume "bit fl 1"
  with True have "bit (entry e) 1" unfolding contains_bits by (auto simp: bit_and_iff)
  with True show ?thesis by (simp add: insert_flags_def writable_def)
next
  case False
  assume "bit fl 1"
  then have "fl \<noteq> 0" by (rule bit_nonzero)
  with False \<open>bit fl 1\<close> show ?thesis by (simp add: insert_flags_def add_flags_writable)
qed


section \<open>What the operations keep\<close>

lemma writable_same_goto:
  assumes w: "parents_writable root n"
    and g: "\<And>Q t. path_ok Q \<Longrightarrow> length Q \<le> 2 \<Longrightarrow> goto phys_walker n' root Q = Inr t \<Longrightarrow>
      goto phys_walker n root Q = Inr t \<or> (\<forall>j. index_ok j \<longrightarrow> is_unused (ent n' t j))"
    and e: "\<And>Q t j. path_ok Q \<Longrightarrow> length Q \<le> 2 \<Longrightarrow> index_ok j \<Longrightarrow> goto phys_walker n root Q = Inr t \<Longrightarrow>
      ent n' t j = ent n t j \<or> child phys_walker (ent n' t j) = None \<or> writable (ent n' t j)"
  shows "parents_writable root n'"
  unfolding parents_writable_def
proof (intro allI impI)
  fix Q t j
  assume Q: "path_ok Q" "index_ok j" "length Q \<le> 2" "goto phys_walker n' root Q = Inr t"
    and c: "child phys_walker (ent n' t j) \<noteq> None"
  have "\<not> is_unused (ent n' t j)" using c unused_parts [of "ent n' t j" phys_walker] by auto
  then have "goto phys_walker n root Q = Inr t" using g [OF Q(1,3,4)] Q(2) by blast
  with e [OF Q(1,3,2)] w c Q show "writable (ent n' t j)"
    unfolding parents_writable_def by metis
qed

lemma recursive_ok_same:
  assumes r: "recursive_ok root ri m" and "tree_ok phys_walker (hide root ri m') root"
    and "parents_writable root (hide root ri m')" and "ent m' root ri = ent m root ri"
  shows "recursive_ok root ri m'"
  using assms by (simp add: recursive_ok_def)

lemma recursive_ok_flagged:
  assumes r: "recursive_ok root ri m" and P: "goto phys_walker (hide root ri m) root P = Inr q"
      "path_ok P" "length P \<le> 2" and i: "index_ok i" "P = [] \<Longrightarrow> i \<noteq> ri"
    and fl: "table_flags fl" "bit fl 1" and e: "\<not> is_unused (ent m q i)"
  defines "m' \<equiv> upd m q i (insert_flags (ent m q i) fl)"
  shows "hide root ri m' = upd (hide root ri m) q i (insert_flags (ent (hide root ri m) q i) fl)"
    "recursive_ok root ri m'"
proof -
  let ?n = "hide root ri m"
  note t = recursive_okD [OF r]
  have q: "(q, i) \<noteq> (root, ri)" "ent ?n q i = ent m q i"
    using path_entry [OF r P(1,2) _ i(2)] P(3) by auto
  show h: "hide root ri m' = upd ?n q i (insert_flags (ent ?n q i) fl)"
    unfolding m'_def hide_upd [OF q(1)] q(2) ..
  note eff = flagged_effects [OF t(2) P i(1) fl(1), folded h, unfolded q(2), OF e]
  show "recursive_ok root ri m'"
  proof (rule recursive_ok_same [OF r eff(1)])
    show "parents_writable root (hide root ri m')"
    proof (rule writable_same_goto)
      show "parents_writable root ?n" using r by (simp add: recursive_ok_def)
      fix Q s j assume "path_ok Q" "length Q \<le> 2" "index_ok j"
      show "ent (hide root ri m') s j = ent ?n s j \<or> child phys_walker (ent (hide root ri m') s j) = None
          \<or> writable (ent (hide root ri m') s j)"
        using t(3) i(1) insert_flags_writable [OF fl(2)] by (auto simp: h ent_upd)
    qed (use eff(3) in auto)
    show "ent m' root ri = ent m root ri"
      using q(1) t(1,3) i(1) by (auto simp: m'_def ent_upd)
  qed
qed

lemma recursive_ok_added:
  assumes r: "recursive_ok root ri m" and P: "goto phys_walker (hide root ri m) root P = Inr q"
      "path_ok P" "length P \<le> 2" and i: "index_ok i" "P = [] \<Longrightarrow> i \<noteq> ri"
    and u: "is_unused (ent m q i)" and e: "child phys_walker e = Some t" "writable e"
    and t: "t \<notin> tables phys_walker (hide root ri m) root"
  defines "m' \<equiv> (upd m q i e)(t := PageTable_new)"
  shows "hide root ri m' = (upd (hide root ri m) q i e)(t := PageTable_new)"
    "recursive_ok root ri m'" "goto phys_walker (hide root ri m') root (P @ [i]) = Inr t"
    "tables phys_walker (hide root ri m') root = insert t (tables phys_walker (hide root ri m) root)"
proof -
  let ?n = "hide root ri m"
  note ok = recursive_okD [OF r]
  have q: "(q, i) \<noteq> (root, ri)" "ent ?n q i = ent m q i"
    using path_entry [OF r P(1,2) _ i(2)] P(3) by auto
  have "root \<in> tables phys_walker ?n root" by (rule tablesI [of _ _ _ "[]"]) simp_all
  with t have tr: "t \<noteq> root" by auto
  show h: "hide root ri m' = (upd ?n q i e)(t := PageTable_new)"
    unfolding m'_def hide_new_table [OF tr] hide_upd [OF q(1)] ..
  have a: "adds_table phys_walker root ?n (hide root ri m') P q i t"
    unfolding h using ok(3) u q(2) by (intro new_table_adds [OF _ P i(1) e(1) t]) simp_all
  note g = adds_table_goto [OF ok(2) a]
  show "tables phys_walker (hide root ri m') root = insert t (tables phys_walker ?n root)"
    by (rule adds_table_tables [OF ok(2) a])
  show "goto phys_walker (hide root ri m') root (P @ [i]) = Inr t"
    using g [of "P @ [i]" t] P i by simp
  show "recursive_ok root ri m'"
  proof (rule recursive_ok_same [OF r adds_table_tree_ok [OF ok(2) a]])
    show "parents_writable root (hide root ri m')"
    proof (rule writable_same_goto)
      show "parents_writable root ?n" using r by (simp add: recursive_ok_def)
      fix Q s j assume Q: "path_ok Q" "length Q \<le> 2"
      show "goto phys_walker ?n root Q = Inr s \<or> (\<forall>j. index_ok j \<longrightarrow> is_unused (ent (hide root ri m') s j))"
        if "goto phys_walker (hide root ri m') root Q = Inr s"
        using g [of Q s] Q that a by (auto simp: adds_table_def)
      show "ent (hide root ri m') s j = ent ?n s j \<or> child phys_walker (ent (hide root ri m') s j) = None
          \<or> writable (ent (hide root ri m') s j)" if "index_ok j" "goto phys_walker ?n root Q = Inr s"
      proof -
        have "s \<noteq> t" using t that(2) Q tablesI [OF that(2)] by auto
        then have "ent (hide root ri m') s j = ent (upd ?n q i e) s j"
          by (simp add: h ent_def)
        then show ?thesis using ok(3) i(1) e(2) by (auto simp: ent_upd)
      qed
    qed
    have "ent m' root ri = ent (upd m q i e) root ri" using tr by (simp add: m'_def ent_def)
    then show "ent m' root ri = ent m root ri"
      using q(1) ok(1,3) i(1) by (auto simp: ent_upd)
  qed
qed

lemma recursive_ok_leaf:
  assumes r: "recursive_ok root ri m"
    and g: "goto phys_walker (hide root ri m) root (page_parents S p) = Inr q"
    and e: "leaf_entry phys_walker S (ent m q (page_leaf S p))" "leaf_entry phys_walker S e"
  defines "m' \<equiv> upd m q (page_leaf S p) e"
  shows "hide root ri m' = upd (hide root ri m) q (page_leaf S p) e" "recursive_ok root ri m'"
proof -
  let ?n = "hide root ri m" and ?i = "page_leaf S p"
  note ok = recursive_okD [OF r]
  have ne: "page_parents S p \<noteq> []" "path_ok (page_parents S p)" "length (page_parents S p) \<le> 3"
    using length_parents [of S p] by auto
  have q: "(q, ?i) \<noteq> (root, ri)" "ent ?n q ?i = ent m q ?i"
    using path_entry [OF r g ne(2,3), of ?i] ne(1) by auto
  show h: "hide root ri m' = upd ?n q ?i e"
    unfolding m'_def hide_upd [OF q(1)] ..
  note w = leaf_write [OF ok(2) g, folded h, unfolded q(2), OF e, folded h]
  have "tables phys_walker (hide root ri m') root = tables phys_walker ?n root" by (rule w(2))
  show "recursive_ok root ri m'"
  proof (rule recursive_ok_same [OF r w(1)])
    have s: "same_except phys_walker root ?n (hide root ri m') q ?i"
      unfolding h using ok(3) by (intro same_except_upd) simp_all
    have c: "length (page_parents S p) = 3 \<or>
        child phys_walker (ent (hide root ri m') q ?i) = child phys_walker (ent ?n q ?i)"
      using leaf_entry_child [OF e(1)] leaf_entry_child [OF e(2)] q(2) ok(3) length_parents(3) [of S p]
      by (cases "S = Size4KiB") (simp_all add: h)
    show "parents_writable root (hide root ri m')"
    proof (rule writable_same_goto)
      show "parents_writable root ?n" using r by (simp add: recursive_ok_def)
      fix Q s' j assume Q: "path_ok Q" "length Q \<le> 2"
      show "goto phys_walker ?n root Q = Inr s' \<or> (\<forall>j. index_ok j \<longrightarrow> is_unused (ent (hide root ri m') s' j))"
        if "goto phys_walker (hide root ri m') root Q = Inr s'"
        using that goto_same_child [OF ok(2) s g ne(2,3) c, of Q s'] Q by simp
      show "ent (hide root ri m') s' j = ent ?n s' j \<or> child phys_walker (ent (hide root ri m') s' j) = None
          \<or> writable (ent (hide root ri m') s' j)" if "index_ok j" "goto phys_walker ?n root Q = Inr s'"
      proof (cases "s' = q \<and> j = ?i")
        case True
        then have "Q = page_parents S p"
          using tree_ok_unique [OF ok(2) that(2), of "page_parents S p"] g ne Q by simp
        then have "S \<noteq> Size4KiB" using Q(2) length_parents(3) [of S p] by auto
        then show ?thesis
          using True leaf_entry_child [OF e(2)] ok(3) by (simp add: h)
      next
        case False
        then show ?thesis using ok(3) by (auto simp: h ent_upd)
      qed
    qed
    show "ent m' root ri = ent m root ri"
      using q(1) ok(1,3) by (auto simp: m'_def ent_upd)
  qed
qed


section \<open>The operations on a recursive table\<close>

locale recursive_table = extern_ok X + mmu_ok mmu root for X mmu root +
  fixes self :: RecursivePageTable
  assumes index_ri: "index_ok (recursive_index self)"
    and p4_address: "table_ptr (recursive_index self) [] = Some (rec_p4 self)"

context recursive_table
begin

lemma read_at_path:
  assumes r: "recursive_ok root (recursive_index self) m"
    and g: "goto phys_walker (hide root (recursive_index self) m) root P = Inr q"
    and P: "path_ok P" "length P \<le> 3" "hd (P @ [i]) \<noteq> recursive_index self" "index_ok i"
    and v: "table_ptr (recursive_index self) P = Some v"
  shows "read_at mmu m v i = Some (ent m q i)" "write_at mmu m v i e = Some (upd m q i e)"
    "ent (hide root (recursive_index self) m) q i = ent m q i"
proof -
  have "mmu m w v = Some q" for w
    using P by (intro table_ptr_goto [OF r g P(1,2) _ v]) (cases P; simp)
  then show "read_at mmu m v i = Some (ent m q i)" "write_at mmu m v i e = Some (upd m q i e)"
    using recursive_okD(3) [OF r] P(4)
    by (simp_all add: read_at_def write_at_def read_entry_eq write_entry_eq)
  show "ent (hide root (recursive_index self) m) q i = ent m q i"
    using P(3) by (intro path_entry(2) [OF r g P(1,2)]) (cases P; simp)
qed

lemma Rec_create_existing:
  assumes r: "recursive_ok root (recursive_index self) m"
    and g: "goto phys_walker (hide root (recursive_index self) m) root P = Inr q"
    and P: "path_ok P" "length P \<le> 2" "hd (P @ [i]) \<noteq> recursive_index self" "index_ok i"
    and v: "table_ptr (recursive_index self) P = Some v"
    and e: "\<not> is_unused (ent m q i)" "\<not> huge (ent m q i)" and fl: "pure_flags fl" "\<not> bit fl 7"
  defines "m' \<equiv> upd m q i (insert_flags (ent m q i) fl)"
  shows "Rec_create_next_table X mmu alloc v i np fl (m, a) = Some (Inr (va (page_start np)), (m', a))"
    "create_next_table X phys_walker alloc q i ((PRESENT OR WRITABLE) OR fl)
       (hide root (recursive_index self) m, a) =
     Some (Inr (pa (entry_addr (ent m q i))), (hide root (recursive_index self) m', a))"
    "recursive_ok root (recursive_index self) m'"
proof -
  let ?ri = "recursive_index self" and ?fl = "(PRESENT OR WRITABLE) OR fl" and ?e = "ent m q i"
  let ?n = "hide root ?ri m"
  have P3: "length P \<le> 3" and Pi: "P = [] \<Longrightarrow> i \<noteq> ?ri" using P by auto
  note ac = read_at_path [OF r g P(1) P3 P(3,4) v]
  have fl': "table_flags ?fl" "bit ?fl 1" using table_flags_insert [OF fl] bit_insert [of fl 1] by simp_all
  have em: "entry_mapped phys_walker ?e"
    using tree_ok_mapped [OF recursive_okD(2) [OF r] g P(1,4,2)] by (simp add: ac(3))
  then have pr: "present ?e" using e by (auto simp: entry_mapped_def split: if_splits)
  then have wr: "writable ?e"
    using parents_writableD [OF r g P(1,4,2)] e by (simp add: ac(3))
  have same: "insert_flags ?e ?fl = insert_flags ?e fl" using pr wr by (rule insert_flags_same)
  note ok = recursive_ok_flagged [OF r g P(1,2,4) Pi fl' e(1), unfolded same, folded m'_def]
  show "recursive_ok root ?ri m'" by (rule ok(2))
  show "create_next_table X phys_walker alloc q i ?fl (?n, a) =
      Some (Inr (pa (entry_addr ?e)), (hide root ?ri m', a))"
    using create_existing [of ?n i q phys_walker ?fl alloc a] recursive_okD(3) [OF r] P(4) e em fl' ok(1) pr
    by (simp add: ac(3) same)
  have h: "\<not> huge (insert_flags ?e fl)"
    using insert_flags_parts(2) [OF fl'(1), of ?e] e by (simp add: same)
  have "Rec_create_next_table X mmu alloc v i np fl (m, a) = Some (Inr (va (page_start np)),
      (if fl \<noteq> 0 \<and> (entry ?e AND PageTableFlags_all) AND fl \<noteq> fl then upd m q i (add_flags ?e fl) else m, a))"
    using e h [unfolded insert_flags_def add_flags_def]
    by (auto simp: Rec_create_next_table_def ac set_flags_eq flags_eq [of ?e]
        add_flags_def Page_start_address_def VirtAddr_as_mut_ptr_def VirtAddr_as_ptr_def
        VirtAddr_as_u64_def split: if_splits)
  also have "\<dots> = Some (Inr (va (page_start np)), (m', a))"
    by (simp add: m'_def insert_flags_def upd_id)
  finally show "Rec_create_next_table X mmu alloc v i np fl (m, a) = Some (Inr (va (page_start np)), (m', a))" .
qed

lemma Rec_create_fails:
  assumes r: "recursive_ok root (recursive_index self) m"
    and g: "goto phys_walker (hide root (recursive_index self) m) root P = Inr q"
    and P: "path_ok P" "length P \<le> 2" "hd (P @ [i]) \<noteq> recursive_index self" "index_ok i"
    and v: "table_ptr (recursive_index self) P = Some v"
    and e: "is_unused (ent m q i)" and al: "alloc a = (None, a')"
  shows "Rec_create_next_table X mmu alloc v i np fl (m, a) =
      Some (Inl MapTo_FrameAllocationFailed, (m, a'))"
    "create_next_table X phys_walker alloc q i fl' (hide root (recursive_index self) m, a) =
      Some (Inl Create_FrameAllocationFailed, (hide root (recursive_index self) m, a'))"
proof -
  have P3: "length P \<le> 3" using P by simp
  note ac = read_at_path [OF r g P(1) P3 P(3,4) v]
  show "Rec_create_next_table X mmu alloc v i np fl (m, a) =
      Some (Inl MapTo_FrameAllocationFailed, (m, a'))"
    using e al by (simp add: Rec_create_next_table_def ac)
  show "create_next_table X phys_walker alloc q i fl' (hide root (recursive_index self) m, a) =
      Some (Inl Create_FrameAllocationFailed, (hide root (recursive_index self) m, a'))"
    using recursive_okD(3) [OF r] P(4) e al by (intro create_fails) (simp_all add: ac(3))
qed

lemma Rec_create_new:
  assumes r: "recursive_ok root (recursive_index self) m"
    and g: "goto phys_walker (hide root (recursive_index self) m) root P = Inr q"
    and P: "path_ok P" "length P \<le> 2" "hd (P @ [i]) \<noteq> recursive_index self" "index_ok i"
    and v: "table_ptr (recursive_index self) P = Some v"
    and np: "table_ptr (recursive_index self) (P @ [i]) = Some (va (page_start np))"
    and e: "is_unused (ent m q i)" and al: "alloc a = (Some f, a')" and f: "frame_ok Size4KiB f"
      "pa (frame_start f) \<notin> tables phys_walker (hide root (recursive_index self) m) root"
    and fl: "pure_flags fl" "\<not> bit fl 7"
  defines "t \<equiv> pa (frame_start f)"
  defines "m' \<equiv> (upd m q i \<lparr>entry = t OR ((PRESENT OR WRITABLE) OR fl)\<rparr>)(t := PageTable_new)"
  shows "Rec_create_next_table X mmu alloc v i np fl (m, a) = Some (Inr (va (page_start np)), (m', a'))"
    "create_next_table X phys_walker alloc q i ((PRESENT OR WRITABLE) OR fl)
       (hide root (recursive_index self) m, a) =
     Some (Inr t, (hide root (recursive_index self) m', a'))"
    "recursive_ok root (recursive_index self) m'"
proof -
  let ?ri = "recursive_index self" and ?fl = "(PRESENT OR WRITABLE) OR fl"
  let ?n = "hide root ?ri m" and ?e = "\<lparr>entry = t OR ((PRESENT OR WRITABLE) OR fl)\<rparr> :: PageTableEntry"
  let ?m = "upd m q i ?e"
  have P3: "length P \<le> 3" and Pi: "P = [] \<Longrightarrow> i \<noteq> ?ri" using P by auto
  note ac = read_at_path [OF r g P(1) P3 P(3,4) v] and ok = recursive_okD [OF r]
  have fl': "table_flags ?fl" "bit ?fl 1" using table_flags_insert [OF fl] bit_insert [of fl 1] by simp_all
  have w: "page_table_frame_mapping phys_walker f = Some t" by (simp add: phys_walker_def t_def)
  have u: "is_unused (ent ?n q i)" using e by (simp add: ac(3))
  note cn = create_new [of ?n i q alloc a f a' phys_walker t ?fl, OF _ P(4) u al f(1) w fl'(1), folded t_def]
  have c: "child phys_walker ?e = Some t" using cn(2) ok(3) by simp
  have "writable ?e" using fl'(2) by (simp add: writable_def bit_or_iff)
  note ad = recursive_ok_added [OF r g P(1,2,4) Pi e c this f(2) [folded t_def], folded m'_def]
  show "recursive_ok root ?ri m'" by (rule ad(2))
  show "create_next_table X phys_walker alloc q i ?fl (?n, a) = Some (Inr t, (hide root ?ri m', a'))"
    using cn(1) ok(3) by (simp add: ad(1))
  have mok: "mem_ok ?m" using ok(3) by simp
  have "mmu ?m True (va (page_start np)) = Some t"
  proof (rule table_ptr_below [OF ad(2,3) _ _ _ _ np])
    show "path_ok (P @ [i])" "length (P @ [i]) \<le> 3" "P @ [i] \<noteq> []" using P by auto
    show "?m s = m' s" if "s \<noteq> t" for s using that by (simp add: m'_def)
  qed (use P mok in auto)
  moreover have "PageTable_zero (?m t) = PageTable_new"
    using mok by (intro PageTable_zero_eq) (simp add: mem_ok_def)
  moreover have "\<not> huge ?e" using c by (auto split: if_splits)
  ultimately show "Rec_create_next_table X mmu alloc v i np fl (m, a) = Some (Inr (va (page_start np)), (m', a'))"
    using e al f(1) by (simp add: Rec_create_next_table_def ac set_frame_eq Page_start_address_def
        VirtAddr_as_mut_ptr_def VirtAddr_as_ptr_def VirtAddr_as_u64_def m'_def flip: t_def)
qed

end

subsection \<open>Creating the parents of a page\<close>

fun Rec_create_path :: "extern \<Rightarrow> mmu \<Rightarrow> 'a allocate_frame \<Rightarrow> PageTableIndex \<Rightarrow> PageTableIndex list \<Rightarrow> u64 \<Rightarrow>
    PageTableIndex list \<Rightarrow> PageTableFlags \<Rightarrow> mem \<times> 'a \<Rightarrow> ((MapToError + u64) \<times> (mem \<times> 'a)) option" where
  "Rec_create_path X mmu alloc ri P v [] fl s = Some (Inr v, s)"
| "Rec_create_path X mmu alloc ri P v (i # Q) fl s = do {
     np \<leftarrow> table_page ri (P @ [i]);
     try_op (Rec_create_next_table X mmu alloc v i np fl s) id
       (\<lambda>v s. Rec_create_path X mmu alloc ri (P @ [i]) v Q fl s)
   }"

lemma try_op_bind: "try_op (Option.bind r k) conv f = Option.bind r (\<lambda>x. try_op (k x) conv f)"
  by (cases r) simp_all

text \<open>A huge page above the end of the path \<open>P\<close> is met on the way.\<close>

lemma resolve_huge_less: "resolve W m p Q = Resolved_Huge k e \<Longrightarrow> k < length Q"
  by (induction W m p Q rule: resolve.induct) (auto split: if_splits option.splits)

lemma resolve_huge_goto:
  "resolve W m p (P @ Q) = Resolved_Huge k e \<Longrightarrow> length Q \<le> k \<Longrightarrow> Q \<noteq> [] \<Longrightarrow>
    goto W m p P = Inl Walk_MappedToHugePage"
proof (induction P arbitrary: p)
  case Nil
  then show ?case using resolve_huge_less [of W m p Q k e] by simp
next
  case (Cons i P)
  then obtain j R where "P @ Q = j # R" by (cases "P @ Q") auto
  with Cons show ?case by (auto split: if_splits option.splits)
qed

context recursive_table
begin

lemma Rec_create_step:
  assumes al: "allocator_ok alloc free" and r: "recursive_ok root (recursive_index self) m"
    and fr: "frames_ok phys_walker root (hide root (recursive_index self) m) (free a)"
    and g: "goto phys_walker (hide root (recursive_index self) m) root P = Inr q"
    and P: "path_ok P" "length P \<le> 2" "hd (P @ [i]) \<noteq> recursive_index self" "index_ok i"
    and h: "\<not> huge (ent m q i)"
    and v: "table_ptr (recursive_index self) P = Some v"
    and np: "table_ptr (recursive_index self) (P @ [i]) = Some (va (page_start np))"
    and fl: "pure_flags fl" "\<not> bit fl 7"
  shows "\<exists>x m' a'. create_next_table X phys_walker alloc q i ((PRESENT OR WRITABLE) OR fl)
       (hide root (recursive_index self) m, a) = Some (x, (hide root (recursive_index self) m', a')) \<and>
     Rec_create_next_table X mmu alloc v i np fl (m, a) = Some
       (case x of Inl err \<Rightarrow> Inl (MapToError_from_create err) | Inr _ \<Rightarrow> Inr (va (page_start np)), (m', a')) \<and>
     recursive_ok root (recursive_index self) m'"
proof (cases "is_unused (ent m q i)")
  case False
  note c = Rec_create_existing [OF r g P v False h fl]
  show ?thesis using c(1) [of alloc np a] c(2) [of alloc a] c(3)
    by (intro exI [of _ "Inr (pa (entry_addr (ent m q i)))"]
        exI [of _ "upd m q i (insert_flags (ent m q i) fl)"] exI [of _ a]) simp
next
  case u: True
  show ?thesis
  proof (cases "fst (alloc a)")
    case None
    then obtain a' where a: "alloc a = (None, a')" by (cases "alloc a") auto
    note c = Rec_create_fails [OF r g P v u, where alloc = alloc and a = a and a' = a', OF a]
    show ?thesis using c(1) [of np fl] c(2) r
      by (intro exI [of _ "Inl Create_FrameAllocationFailed"] exI [of _ m] exI [of _ a']) simp
  next
    case (Some f)
    then obtain a' where a: "alloc a = (Some f, a')" by (cases "alloc a") auto
    then have f: "f \<in> free a" "frame_ok Size4KiB f"
      using allocator_ok_Some [OF al a] by auto
    then have "pa (frame_start f) \<notin> tables phys_walker (hide root (recursive_index self) m) root"
      using fr by (auto simp: frames_ok_def phys_walker_def)
    note c = Rec_create_new [OF r g P v np u, where alloc = alloc and a = a and a' = a', OF a f(2) this fl]
    show ?thesis using c
      by (intro exI [of _ "Inr (pa (frame_start f))"]) auto
  qed
qed

lemma Rec_create_path_refines:
  assumes al: "allocator_ok alloc free" and fl: "pure_flags fl" "\<not> bit fl 7"
    and F: "path_ok F" "length F = 4" "hd F \<noteq> recursive_index self"
  shows "recursive_ok root (recursive_index self) m \<Longrightarrow>
    good phys_walker root free (hide root (recursive_index self) m, a) \<Longrightarrow>
    goto phys_walker (hide root (recursive_index self) m) root P = Inr q \<Longrightarrow>
    table_ptr (recursive_index self) P = Some v \<Longrightarrow> prefix (P @ Q) F \<Longrightarrow> length (P @ Q) \<le> 3 \<Longrightarrow>
    (\<And>n e. resolve phys_walker (hide root (recursive_index self) m) root F = Resolved_Huge n e \<Longrightarrow>
       n < 4 - length (P @ Q)) \<Longrightarrow>
    \<exists>x m' a' w. create_path X phys_walker alloc q Q ((PRESENT OR WRITABLE) OR fl)
       (hide root (recursive_index self) m, a) = Some (x, (hide root (recursive_index self) m', a')) \<and>
     table_ptr (recursive_index self) (P @ Q) = Some w \<and>
     Rec_create_path X mmu alloc (recursive_index self) P v Q fl (m, a) = Some
       (case x of Inl err \<Rightarrow> Inl (MapToError_from_create err) | Inr _ \<Rightarrow> Inr w, (m', a')) \<and>
     recursive_ok root (recursive_index self) m'"
proof (induction Q arbitrary: P q v m a)
  case Nil
  then show ?case by auto
next
  case (Cons i Q)
  let ?ri = "recursive_index self" and ?fl = "(PRESENT OR WRITABLE) OR fl"
  let ?n = "hide root ?ri m"
  obtain T where T: "F = P @ i # (Q @ T)" using Cons.prems(5) by (auto elim: prefixE)
  then have ok: "path_ok P" "index_ok i" "path_ok Q" "length P \<le> 2" "length P \<le> 3"
    using F Cons.prems(6) by simp_all
  have hd: "hd (P @ [i]) \<noteq> ?ri" using T F(3) by (cases P) simp_all
  have "Q @ T \<noteq> []" using T F Cons.prems(6) by auto
  note g = Cons.prems(3)
  have h: "\<not> huge (ent ?n q i)"
  proof
    assume "huge (ent ?n q i)"
    then have "resolve phys_walker ?n root F = Resolved_Huge (length (Q @ T)) (ent ?n q i)"
      using T g \<open>Q @ T \<noteq> []\<close> by (cases "Q @ T") (auto simp: resolve_append)
    with Cons.prems(7) T F show False by fastforce
  qed
  then have h': "\<not> huge (ent m q i)"
    using read_at_path(3) [OF Cons.prems(1) g ok(1,5) hd ok(2) Cons.prems(4)] by simp
  obtain np where np: "table_page ?ri (P @ [i]) = Some np" "table_ptr ?ri (P @ [i]) = Some (va (page_start np))"
    using table_ptr_path [of "P @ [i]" ?ri] ok index_ri by auto
  have fr: "frames_ok phys_walker root ?n (free a)" using Cons.prems(2) by (simp add: good_def)
  obtain x m' a' where x: "create_next_table X phys_walker alloc q i ?fl (?n, a) = Some (x, (hide root ?ri m', a'))"
      "Rec_create_next_table X mmu alloc v i np fl (m, a) = Some
         (case x of Inl err \<Rightarrow> Inl (MapToError_from_create err) | Inr _ \<Rightarrow> Inr (va (page_start np)), (m', a'))"
      "recursive_ok root ?ri m'"
    using Rec_create_step [OF al Cons.prems(1) fr g ok(1,4) hd ok(2) h' Cons.prems(4) np(2) fl] by blast
  have cr: "created phys_walker root free ?n (P @ [i]) (x, (hide root ?ri m', a'))"
    using create_next_table_spec [OF al Cons.prems(2) g ok(1,4,2) table_flags_insert [OF fl]] x(1) by auto
  obtain w where w: "table_ptr ?ri (P @ i # Q) = Some w"
    using table_ptr_path [of "P @ i # Q" ?ri] ok index_ri Cons.prems(6) by auto
  show ?case
  proof (cases x)
    case (Inl err)
    with x np w show ?thesis by (intro exI [of _ x] exI [of _ m'] exI [of _ a'] exI [of _ w]) simp
  next
    case (Inr t)
    then have c: "good phys_walker root free (hide root ?ri m', a')"
        "goto phys_walker (hide root ?ri m') root (P @ [i]) = Inr t"
        "resolve phys_walker (hide root ?ri m') root F = resolve phys_walker ?n root F"
      using cr F by (simp_all add: created_def same_resolve_def)
    have pre: "prefix ((P @ [i]) @ Q) F" "length ((P @ [i]) @ Q) \<le> 3"
      using Cons.prems(5,6) by simp_all
    note IH = Cons.IH [OF x(3) c(1,2) np(2) pre, unfolded c(3)]
    have nh: "n < 4 - length ((P @ [i]) @ Q)" if "resolve phys_walker ?n root F = Resolved_Huge n e" for n e
      using Cons.prems(7) [OF that] by simp
    from IH [OF nh] Inr x np show ?thesis by auto
  qed
qed

end


subsection \<open>Refinement of the mapped page table\<close>

text \<open>The mapped page table on physical memory.\<close>

definition physical :: "u64 \<Rightarrow> MappedPageTable" where
  "physical root = \<lparr>page_table_walker = phys_walker, level_4_table = root\<rparr>"

lemma physical_simps [simp]: "page_table_walker (physical root) = phys_walker"
  "level_4_table (physical root) = root"
  by (simp_all add: physical_def)

context extern_ok
begin

lemma Rec_map_to_walk:
  "Rec_map_to_with_table_flags X mmu S self alloc page frame fl pfl s =
    try_op (Rec_create_path X mmu alloc (recursive_index self) [] (rec_p4 self) (page_parents S page) pfl s)
      id (\<lambda>q (m, a). do {
        e \<leftarrow> read_at mmu m q (page_leaf S page);
        if \<not> is_unused e then Some (Inl (MapTo_PageAlreadyMapped frame), (m, a))
        else do {
          e \<leftarrow> set_addr e (frame_start frame) (if S = Size4KiB then fl else fl OR HUGE_PAGE);
          m \<leftarrow> write_at mmu m q (page_leaf S page) e;
          Some (Inr (MapperFlush page), (m, a))
        }
      })"
  by (cases S) (simp_all add: Rec_map_to_1gib_def Rec_map_to_2mib_def Rec_map_to_4kib_def try_op_bind
      try_op_id page_table_page MapperFlush_new_def PhysFrame_start_address_def set_frame_def Let_def
      cong: if_cong)

end

definition whole_path :: "PageSize \<Rightarrow> Page \<Rightarrow> PageTableIndex list" where
  "whole_path S p = page_path S p @ replicate (3 - length (page_parents S p)) (page_leaf S p)"

lemma whole_path:
  "path_ok (whole_path S p)" "length (whole_path S p) = 4" "prefix (page_parents S p) (whole_path S p)"
  "hd (whole_path S p) = Page_p4_index p"
proof -
  have "path_ok (replicate n (page_leaf S p))" for n by (simp add: list_all_length)
  then show "path_ok (whole_path S p)" by (simp add: whole_path_def)
  show "length (whole_path S p) = 4" "prefix (page_parents S p) (whole_path S p)"
    using length_parents [of S p] by (simp_all add: whole_path_def page_path_def)
  show "hd (whole_path S p) = Page_p4_index p"
    by (cases S) (simp_all add: whole_path_def page_path_def)
qed

context recursive_table
begin

lemma Rec_map_to_refines:
  assumes al: "allocator_ok alloc free" and r: "recursive_ok root (recursive_index self) m"
    and g: "good phys_walker root free (hide root (recursive_index self) m, a)"
    and f: "frame_ok S f" and fl: "pure_flags fl" "pure_flags pfl" "\<not> bit pfl 7"
    and i4: "Page_p4_index p \<noteq> recursive_index self"
    and nh: "goto phys_walker (hide root (recursive_index self) m) root (page_parents S p)
      \<noteq> Inl Walk_MappedToHugePage"
  shows "\<exists>res m' a'. map_to_with_table_flags X S (physical root) alloc p f fl
      ((PRESENT OR WRITABLE) OR pfl) (hide root (recursive_index self) m, a) =
        Some (res, (hide root (recursive_index self) m', a')) \<and>
    Rec_map_to_with_table_flags X mmu S self alloc p f fl pfl (m, a) = Some (res, (m', a')) \<and>
    recursive_ok root (recursive_index self) m'"
proof -
  let ?ri = "recursive_index self" and ?P = "page_parents S p" and ?i = "page_leaf S p"
  let ?n = "hide root ?ri m" and ?F = "whole_path S p"
  obtain T where T: "?F = ?P @ T" using whole_path(3) [of S p] by (auto elim: prefixE)
  have l: "length ?P \<le> 3" by simp
  have "length ?P + length T = 4" using whole_path(2) [of S p] T by (metis length_append)
  with l have T'': "length T = 4 - length ?P" "0 < length T" by linarith+
  then have T': "T \<noteq> []" by blast
  have h: "n < 4 - length ?P" if "resolve phys_walker ?n root ?F = Resolved_Huge n e" for n e
    using resolve_huge_goto [of phys_walker ?n root ?P T n e] that T T' T''(1) nh by fastforce
  have hF: "hd ?F \<noteq> ?ri" using i4 by (simp add: whole_path(4))
  obtain x m' a' w where x: "create_path X phys_walker alloc root ?P ((PRESENT OR WRITABLE) OR pfl) (?n, a) =
        Some (x, (hide root ?ri m', a'))" "table_ptr ?ri ?P = Some w"
      "Rec_create_path X mmu alloc ?ri [] (rec_p4 self) ?P pfl (m, a) = Some
        (case x of Inl err \<Rightarrow> Inl (MapToError_from_create err) | Inr _ \<Rightarrow> Inr w, (m', a'))"
      "recursive_ok root ?ri m'"
    using Rec_create_path_refines [OF al fl(2,3) whole_path(1,2) hF r g goto.simps(1) p4_address,
        of ?P, unfolded append_Nil, OF whole_path(3) l] h by metis
  have cr: "created phys_walker root free ?n ?P (x, (hide root ?ri m', a'))"
    using create_path_spec [OF al table_flags_insert [OF fl(2,3)] g goto.simps(1), of ?P] x(1) by auto
  show ?thesis
  proof (cases x)
    case (Inl err)
    with x show ?thesis by (simp add: map_to_walk Rec_map_to_walk)
  next
    case (Inr q)
    with cr have gq: "goto phys_walker (hide root ?ri m') root ?P = Inr q" by (simp add: created_def)
    have hd: "hd (?P @ [?i]) \<noteq> ?ri" using i4 by (cases S) simp_all
    note ac = read_at_path [OF x(4) gq page_path_ok(1) l hd page_path_ok(2) x(2)]
    note mem = recursive_okD(3) [OF x(4)]
    show ?thesis
    proof (cases "is_unused (ent m' q ?i)")
      case False
      with x Inr ac mem show ?thesis
        by (simp add: map_to_walk Rec_map_to_walk read_entry_eq)
    next
      case True
      let ?e = "page_entry S f fl"
      have e: "set_addr e (frame_start f) (if S = Size4KiB then fl else fl OR HUGE_PAGE) = Some ?e" for e
        using set_addr_eq [OF f] by (simp add: page_entry_def leaf_flags_def)
      have le: "leaf_entry phys_walker S (ent m' q ?i)" "leaf_entry phys_walker S ?e"
        using True page_entry_parts [OF f fl(1)] by (simp_all add: leaf_entry_def)
      note lf = recursive_ok_leaf [OF x(4) gq le]
      show ?thesis
        using x Inr ac mem True lf e
        by (intro exI [of _ "Inr (MapperFlush p)"] exI [of _ "upd m' q ?i ?e"] exI [of _ a'])
          (simp add: map_to_walk Rec_map_to_walk read_entry_eq write_entry_eq)
    qed
  qed
qed

end

subsection \<open>Walking to the parent of a page\<close>

text \<open>
  The other operations look at the entries on the way down: \<open>chk\<close> is \<open>Some r\<close> when the method returns
  \<open>r\<close> at an entry.
\<close>

fun Rec_walk :: "mmu \<Rightarrow> PageTableIndex \<Rightarrow> (PageTableEntry \<Rightarrow> 'r option option) \<Rightarrow> (u64 \<Rightarrow> 'r option) \<Rightarrow> mem \<Rightarrow>
    PageTableIndex list \<Rightarrow> u64 \<Rightarrow> PageTableIndex list \<Rightarrow> 'r option" where
  "Rec_walk mmu ri chk k m P v [] = k v"
| "Rec_walk mmu ri chk k m P v (i # Q) = do {
     e \<leftarrow> read_at mmu m v i;
     c \<leftarrow> chk e;
     case c of Some r \<Rightarrow> Some r | None \<Rightarrow> do {
       w \<leftarrow> table_ptr ri (P @ [i]);
       Rec_walk mmu ri chk k m (P @ [i]) w Q
     }
   }"

context recursive_table
begin

lemma Rec_walk_eq:
  assumes r: "recursive_ok root (recursive_index self) m"
    and chk: "\<And>e. present e \<Longrightarrow> \<not> huge e \<Longrightarrow> chk e = Some None"
      "\<And>e. is_unused e \<Longrightarrow> chk e = Some (Some (err Walk_NotMapped))"
    and huge: "(\<forall>e. huge e \<longrightarrow> chk e = Some (Some (err Walk_MappedToHugePage))) \<or>
      goto phys_walker (hide root (recursive_index self) m) root F \<noteq> Inl Walk_MappedToHugePage"
    and F: "path_ok F" "length F \<le> 3" "hd F \<noteq> recursive_index self"
  shows "goto phys_walker (hide root (recursive_index self) m) root P = Inr q \<Longrightarrow>
    table_ptr (recursive_index self) P = Some v \<Longrightarrow> F = P @ Q \<Longrightarrow> table_ptr (recursive_index self) F = Some w \<Longrightarrow>
    Rec_walk mmu (recursive_index self) chk k m P v Q =
      (case goto phys_walker (hide root (recursive_index self) m) q Q of
         Inl e \<Rightarrow> Some (err e) | Inr _ \<Rightarrow> k w)"
proof (induction Q arbitrary: P q v)
  case (Cons i Q)
  let ?ri = "recursive_index self" and ?n = "hide root (recursive_index self) m"
  have P: "path_ok P" "length P \<le> 2" "length P \<le> 3" "index_ok i" "hd (P @ [i]) \<noteq> ?ri" "path_ok (P @ [i])"
    "length (P @ [i]) \<le> 3"
    using Cons.prems(3) F by (auto simp: hd_append split: if_splits)
  note ac = read_at_path [OF r Cons.prems(1) P(1,3,5,4) Cons.prems(2)]
  have "entry_mapped phys_walker (ent ?n q i)"
    using tree_ok_mapped [OF recursive_okD(2) [OF r] Cons.prems(1) P(1,4,2)] .
  then consider (unused) "is_unused (ent ?n q i)" | (huge) "huge (ent ?n q i)"
    | (table) "present (ent ?n q i)" "\<not> huge (ent ?n q i)"
    by (auto simp: entry_mapped_def split: if_splits)
  then show ?case
  proof cases
    case unused
    with unused_parts [of "ent ?n q i" phys_walker] ac chk show ?thesis by simp
  next
    case h: huge
    then have "goto phys_walker ?n root F = Inl Walk_MappedToHugePage"
      using Cons.prems(1,3) by (simp add: goto_append)
    with huge h ac show ?thesis by auto
  next
    case table
    then have g: "goto phys_walker ?n root (P @ [i]) = Inr (pa (entry_addr (ent ?n q i)))"
      using Cons.prems(1) by (simp add: goto_snoc)
    obtain u where "table_ptr ?ri (P @ [i]) = Some u"
      using table_ptr_path [OF P(6) index_ri P(7)] by blast
    with Cons.IH [OF g this] Cons.prems table ac chk show ?thesis by simp
  qed
qed simp

end

context extern_ok
begin

lemma unmap_parent_error_eq: "unmap_parent_error X e =
    Some (if huge e then Some Unmap_ParentEntryHugePage
      else if present e then None else Some Unmap_PageNotMapped)"
  by (simp add: unmap_parent_error_def frame_eq)

lemma Rec_unmap_walk:
  "Rec_unmap X mmu S self page m = Rec_walk mmu (recursive_index self)
    (\<lambda>e. Some (if huge e then Some (Inl Unmap_ParentEntryHugePage, m)
       else if present e then None else Some (Inl Unmap_PageNotMapped, m)))
    (\<lambda>v. do {
       e \<leftarrow> read_at mmu m v (page_leaf S page);
       if \<not> present e then Some (Inl Unmap_PageNotMapped, m)
       else if S \<noteq> Size4KiB \<and> \<not> huge e then Some (Inl Unmap_ParentEntryHugePage, m)
       else if unat (pa (entry_addr e)) mod 2 ^ size_bits S = 0 then do {
         m \<leftarrow> write_at mmu m v (page_leaf S page) (set_unused e);
         Some (Inr (PhysFrame (entry_addr e), MapperFlush page), m)
       }
       else Some (Inl (Unmap_InvalidFrameAddress (entry_addr e)), m)
     }) m [] (rec_p4 self) (page_parents S page)"
proof -
  have a: "(if unat (pa (entry_addr e)) mod 2 ^ size_bits Size4KiB = 0 then x else y) = x"
    for e and x y :: "((UnmapError + PhysFrame \<times> MapperFlush) \<times> mem) option"
    using entry_addr_ok(2) [of e] by simp
  have n: "(if \<not> b then x else y) = (if b then y else x)" for b and x y :: 'z by simp
  show ?thesis
    by (cases S; simp add: n Rec_unmap_1gib_def Rec_unmap_2mib_def Rec_unmap_4kib_def MapperFlush_new_def
        PhysFrame_from_start_address_eq frame_eq a [simplified] Let_def unmap_parent_error_eq ptr_table_ptr
        if_distrib [where f = "case_sum _ _"] if_distrib [where f = "case_option _ _"] cong: if_cong)
qed

lemma Rec_update_flags_walk:
  "Rec_update_flags X mmu S self page fl m = Rec_walk mmu (recursive_index self)
    (\<lambda>e. Some (if is_unused e then Some (Inl FlagUpdate_PageNotMapped, m) else None))
    (\<lambda>v. do {
       e \<leftarrow> read_at mmu m v (page_leaf S page);
       if is_unused e then Some (Inl FlagUpdate_PageNotMapped, m)
       else do {
         e \<leftarrow> set_flags e (leaf_flags S fl);
         m \<leftarrow> write_at mmu m v (page_leaf S page) e;
         Some (Inr (MapperFlush page), m)
       }
     }) m [] (rec_p4 self) (page_parents S page)"
  by (cases S) (simp_all add: Rec_update_flags_1gib_def Rec_update_flags_2mib_def
      Rec_update_flags_4kib_def MapperFlush_new_def Let_def leaf_flags_def ptr_table_ptr
      if_distrib [where f = "case_option _ _"] cong: if_cong)

end

lemma Rec_translate_page_walk:
  "Rec_translate_page mmu S self m page = Rec_walk mmu (recursive_index self)
    (\<lambda>e. Some (if is_unused e then Some (Inl Translate_PageNotMapped) else None))
    (\<lambda>v. do { e \<leftarrow> read_at mmu m v (page_leaf S page); leaf_frame S e })
    m [] (rec_p4 self) (page_parents S page)"
  by (cases S) (simp_all add: Rec_translate_page_1gib_def Rec_translate_page_2mib_def
      Rec_translate_page_4kib_def Let_def ptr_table_ptr
      if_distrib [where f = "case_option _ _"] cong: if_cong)

context recursive_table
begin

lemma Rec_walk_parents:
  assumes r: "recursive_ok root (recursive_index self) m" and i4: "Page_p4_index p \<noteq> recursive_index self"
    and chk: "\<And>e. present e \<Longrightarrow> \<not> huge e \<Longrightarrow> chk e = Some None"
      "\<And>e. is_unused e \<Longrightarrow> chk e = Some (Some (err Walk_NotMapped))"
    and huge: "(\<forall>e. huge e \<longrightarrow> chk e = Some (Some (err Walk_MappedToHugePage))) \<or>
      goto phys_walker (hide root (recursive_index self) m) root (page_parents S p) \<noteq> Inl Walk_MappedToHugePage"
  shows "\<exists>w. table_ptr (recursive_index self) (page_parents S p) = Some w \<and>
    Rec_walk mmu (recursive_index self) chk k m [] (rec_p4 self) (page_parents S p) =
      (case goto phys_walker (hide root (recursive_index self) m) root (page_parents S p) of
         Inl e \<Rightarrow> Some (err e) | Inr _ \<Rightarrow> k w)"
proof -
  have P: "path_ok (page_parents S p)" "length (page_parents S p) \<le> 3" "hd (page_parents S p) \<noteq> recursive_index self"
    using i4 by (simp_all, cases S) simp_all
  obtain w where w: "table_ptr (recursive_index self) (page_parents S p) = Some w"
    using table_ptr_path [OF P(1) index_ri P(2)] by blast
  with Rec_walk_eq [OF r chk huge P goto.simps(1) p4_address append_Nil [symmetric] w, of k] show ?thesis
    by simp
qed

lemma leaf_access:
  assumes r: "recursive_ok root (recursive_index self) m" and i4: "Page_p4_index p \<noteq> recursive_index self"
    and g: "goto phys_walker (hide root (recursive_index self) m) root (page_parents S p) = Inr q"
    and w: "table_ptr (recursive_index self) (page_parents S p) = Some w"
  shows "read_at mmu m w (page_leaf S p) = Some (ent m q (page_leaf S p))"
    "write_at mmu m w (page_leaf S p) e = Some (upd m q (page_leaf S p) e)"
    "ent (hide root (recursive_index self) m) q (page_leaf S p) = ent m q (page_leaf S p)"
proof -
  have hd: "hd (page_parents S p @ [page_leaf S p]) \<noteq> recursive_index self" using i4 by (cases S) simp_all
  show "read_at mmu m w (page_leaf S p) = Some (ent m q (page_leaf S p))"
    "write_at mmu m w (page_leaf S p) e = Some (upd m q (page_leaf S p) e)"
    "ent (hide root (recursive_index self) m) q (page_leaf S p) = ent m q (page_leaf S p)"
    by (rule read_at_path [OF r g page_path_ok(1) parents_le hd page_path_ok(2) w])+
qed

lemma Rec_unmap_spec:
  assumes r: "recursive_ok root (recursive_index self) m" and i4: "Page_p4_index p \<noteq> recursive_index self"
  shows "Rec_unmap X mmu S self p m = Some
    (case goto phys_walker (hide root (recursive_index self) m) root (page_parents S p) of
       Inl err \<Rightarrow> (Inl (UnmapError_from_walk err), m)
     | Inr q \<Rightarrow> let e = ent m q (page_leaf S p) in
         if \<not> present e then (Inl Unmap_PageNotMapped, m)
         else if S \<noteq> Size4KiB \<and> \<not> huge e then (Inl Unmap_ParentEntryHugePage, m)
         else if unat (pa (entry_addr e)) mod 2 ^ size_bits S = 0
           then (Inr (PhysFrame (entry_addr e), MapperFlush p), upd m q (page_leaf S p) (set_unused e))
         else (Inl (Unmap_InvalidFrameAddress (entry_addr e)), m))"
proof -
  let ?k = "\<lambda>v. do {
       e \<leftarrow> read_at mmu m v (page_leaf S p);
       if \<not> present e then Some (Inl Unmap_PageNotMapped, m)
       else if S \<noteq> Size4KiB \<and> \<not> huge e then Some (Inl Unmap_ParentEntryHugePage, m)
       else if unat (pa (entry_addr e)) mod 2 ^ size_bits S = 0 then do {
         m \<leftarrow> write_at mmu m v (page_leaf S p) (set_unused e);
         Some (Inr (PhysFrame (entry_addr e), MapperFlush p), m)
       }
       else Some (Inl (Unmap_InvalidFrameAddress (entry_addr e)), m)
     }"
  let ?chk = "\<lambda>e. Some (if huge e then Some (Inl Unmap_ParentEntryHugePage, m)
          else if present e then None else Some (Inl Unmap_PageNotMapped, m))" and ?err = "\<lambda>e. (Inl (UnmapError_from_walk e), m)"
  have c: "?chk e = Some None" if "present e" "\<not> huge e" for e
    using that unused_parts [of e phys_walker] by auto
  have u: "?chk e = Some (Some (?err Walk_NotMapped))" if "is_unused e" for e
    using that unused_parts [of e phys_walker] by simp
  have h: "(\<forall>e. huge e \<longrightarrow> ?chk e = Some (Some (?err Walk_MappedToHugePage))) \<or>
      goto phys_walker (hide root (recursive_index self) m) root (page_parents S p) \<noteq> Inl Walk_MappedToHugePage"
    by simp
  obtain w where w: "table_ptr (recursive_index self) (page_parents S p) = Some w"
    "Rec_unmap X mmu S self p m =
      (case goto phys_walker (hide root (recursive_index self) m) root (page_parents S p) of
         Inl e \<Rightarrow> Some (Inl (UnmapError_from_walk e), m) | Inr _ \<Rightarrow> ?k w)"
    unfolding Rec_unmap_walk
    using Rec_walk_parents [OF r i4 c u h, where k = ?k] by blast
  show ?thesis
    unfolding w(2) using leaf_access [OF r i4 _ w(1)]
    by (auto simp: Let_def split: sum.split)
qed

lemma Rec_update_flags_spec:
  assumes r: "recursive_ok root (recursive_index self) m" and i4: "Page_p4_index p \<noteq> recursive_index self"
    and nh: "goto phys_walker (hide root (recursive_index self) m) root (page_parents S p)
      \<noteq> Inl Walk_MappedToHugePage"
  shows "Rec_update_flags X mmu S self p fl m = Some
    (case goto phys_walker (hide root (recursive_index self) m) root (page_parents S p) of
       Inl err \<Rightarrow> (Inl FlagUpdate_PageNotMapped, m)
     | Inr q \<Rightarrow> let e = ent m q (page_leaf S p) in
         if is_unused e then (Inl FlagUpdate_PageNotMapped, m)
         else (Inr (MapperFlush p),
           upd m q (page_leaf S p) \<lparr>entry = (entry e AND ADDR_MASK) OR leaf_flags S fl\<rparr>))"
proof -
  let ?k = "\<lambda>v. do {
       e \<leftarrow> read_at mmu m v (page_leaf S p);
       if is_unused e then Some (Inl FlagUpdate_PageNotMapped, m)
       else do {
         e \<leftarrow> set_flags e (leaf_flags S fl);
         m \<leftarrow> write_at mmu m v (page_leaf S p) e;
         Some (Inr (MapperFlush p), m)
       }
     }"
  let ?chk = "\<lambda>e. Some (if is_unused e then Some (Inl FlagUpdate_PageNotMapped, m) else None)" and ?err = "\<lambda>e. (Inl FlagUpdate_PageNotMapped, m)"
  have c: "?chk e = Some None" if "present e" "\<not> huge e" for e
    using that unused_parts [of e phys_walker] by auto
  have u: "?chk e = Some (Some (?err Walk_NotMapped))" if "is_unused e" for e
    using that unused_parts [of e phys_walker] by simp
  have h: "(\<forall>e. huge e \<longrightarrow> ?chk e = Some (Some (?err Walk_MappedToHugePage))) \<or>
      goto phys_walker (hide root (recursive_index self) m) root (page_parents S p) \<noteq> Inl Walk_MappedToHugePage"
    using nh by simp
  obtain w where w: "table_ptr (recursive_index self) (page_parents S p) = Some w"
    "Rec_update_flags X mmu S self p fl m =
      (case goto phys_walker (hide root (recursive_index self) m) root (page_parents S p) of
         Inl e \<Rightarrow> Some (Inl FlagUpdate_PageNotMapped, m) | Inr _ \<Rightarrow> ?k w)"
    unfolding Rec_update_flags_walk
    using Rec_walk_parents [OF r i4 c u h, where k = ?k] by blast
  show ?thesis
    unfolding w(2) using leaf_access [OF r i4 _ w(1)]
    by (auto simp: Let_def set_flags_eq split: sum.split)
qed

lemma Rec_translate_page_spec:
  assumes r: "recursive_ok root (recursive_index self) m" and i4: "Page_p4_index p \<noteq> recursive_index self"
    and nh: "goto phys_walker (hide root (recursive_index self) m) root (page_parents S p)
      \<noteq> Inl Walk_MappedToHugePage"
  shows "Rec_translate_page mmu S self m p =
    translate_page X S (physical root) (hide root (recursive_index self) m) p"
proof -
  let ?k = "\<lambda>v. do { e \<leftarrow> read_at mmu m v (page_leaf S p); leaf_frame S e }"
  let ?chk = "\<lambda>e. Some (if is_unused e then Some (Inl Translate_PageNotMapped) else None)" and ?err = "\<lambda>e. Inl Translate_PageNotMapped"
  have c: "?chk e = Some None" if "present e" "\<not> huge e" for e
    using that unused_parts [of e phys_walker] by auto
  have u: "?chk e = Some (Some (?err Walk_NotMapped))" if "is_unused e" for e
    using that unused_parts [of e phys_walker] by simp
  have h: "(\<forall>e. huge e \<longrightarrow> ?chk e = Some (Some (?err Walk_MappedToHugePage))) \<or>
      goto phys_walker (hide root (recursive_index self) m) root (page_parents S p) \<noteq> Inl Walk_MappedToHugePage"
    using nh by simp
  obtain w where w: "table_ptr (recursive_index self) (page_parents S p) = Some w"
    "Rec_translate_page mmu S self m p =
      (case goto phys_walker (hide root (recursive_index self) m) root (page_parents S p) of
         Inl e \<Rightarrow> Some (Inl Translate_PageNotMapped) | Inr _ \<Rightarrow> ?k w)"
    unfolding Rec_translate_page_walk
    using Rec_walk_parents [OF r i4 c u h, where k = ?k] by blast
  have t: "tree_ok (page_table_walker (physical root)) (hide root (recursive_index self) m)
      (level_4_table (physical root))"
    using recursive_okD(2) [OF r] by simp
  have err: "TranslateError_from_walk e = Translate_PageNotMapped"
    if "goto phys_walker (hide root (recursive_index self) m) root (page_parents S p) = Inl e" for e
    using that nh by (cases e) simp_all
  show ?thesis
    unfolding w(2) translate_page_spec [OF t] using leaf_access [OF r i4 _ w(1)] err
    by (auto simp: Let_def leaf_frame_def PhysFrame_from_start_address_eq split: sum.split)
qed

lemma Rec_unmap_refines:
  assumes r: "recursive_ok root (recursive_index self) m" and i4: "Page_p4_index p \<noteq> recursive_index self"
  shows "\<exists>res m'. unmap X S (physical root) p (hide root (recursive_index self) m) =
      Some (res, hide root (recursive_index self) m') \<and>
    Rec_unmap X mmu S self p m = Some (res, m') \<and> recursive_ok root (recursive_index self) m'"
proof -
  let ?ri = "recursive_index self" and ?n = "hide root (recursive_index self) m" and ?i = "page_leaf S p"
  have t: "tree_ok (page_table_walker (physical root)) ?n (level_4_table (physical root))"
    using recursive_okD(2) [OF r] by simp
  note spec = unmap_spec [OF t, of S p] Rec_unmap_spec [OF r i4, of S]
  show ?thesis
  proof (cases "goto phys_walker ?n root (page_parents S p)")
    case (Inl err)
    with spec r show ?thesis by auto
  next
    case (Inr q)
    obtain w where "table_ptr ?ri (page_parents S p) = Some w"
      using table_ptr_path [OF page_path_ok(1) index_ri parents_le] by blast
    then have e: "ent ?n q ?i = ent m q ?i" by (rule leaf_access(3) [OF r i4 Inr])
    show ?thesis
    proof (cases "present (ent m q ?i) \<and> (S \<noteq> Size4KiB \<longrightarrow> huge (ent m q ?i)) \<and>
        unat (pa (entry_addr (ent m q ?i))) mod 2 ^ size_bits S = 0")
      case True
      then have "leaf_entry phys_walker S (ent m q ?i)" by (auto simp: leaf_entry_def)
      note lf = recursive_ok_leaf [OF r Inr this set_unused_leaf(1), of "ent m q ?i"]
      from True spec Inr e lf show ?thesis
        by (intro exI [of _ "Inr (PhysFrame (entry_addr (ent m q ?i)), MapperFlush p)"]
            exI [of _ "upd m q ?i (set_unused (ent m q ?i))"]) (auto simp: Let_def)
    next
      case False
      with spec Inr e r show ?thesis by (auto simp: Let_def)
    qed
  qed
qed

lemma Rec_update_flags_refines:
  assumes r: "recursive_ok root (recursive_index self) m" and i4: "Page_p4_index p \<noteq> recursive_index self"
    and nh: "goto phys_walker (hide root (recursive_index self) m) root (page_parents S p)
      \<noteq> Inl Walk_MappedToHugePage"
  shows "\<exists>res m'. update_flags X S (physical root) p fl (hide root (recursive_index self) m) =
      Some (res, hide root (recursive_index self) m') \<and>
    Rec_update_flags X mmu S self p fl m = Some (res, m')"
proof -
  let ?ri = "recursive_index self" and ?n = "hide root (recursive_index self) m" and ?i = "page_leaf S p"
  have t: "tree_ok (page_table_walker (physical root)) ?n (level_4_table (physical root))"
    using recursive_okD(2) [OF r] by simp
  note spec = update_flags_spec [OF t, of S p fl] Rec_update_flags_spec [OF r i4 nh, of fl]
  show ?thesis
  proof (cases "goto phys_walker ?n root (page_parents S p)")
    case (Inl err)
    with nh have "err = Walk_NotMapped" by (cases err) simp_all
    with Inl spec show ?thesis by auto
  next
    case (Inr q)
    obtain w where "table_ptr ?ri (page_parents S p) = Some w"
      using table_ptr_path [OF page_path_ok(1) index_ri parents_le] by blast
    then have e: "ent ?n q ?i = ent m q ?i" by (rule leaf_access(3) [OF r i4 Inr])
    have "(q, ?i) \<noteq> (root, ?ri)"
      using path_entry(1) [OF r Inr page_path_ok(1) parents_le, of ?i] length_parents(1) [of S p] by fastforce
    then have "hide root ?ri (upd m q ?i x) = upd ?n q ?i x" for x by (rule hide_upd)
    with spec Inr e show ?thesis by (auto simp: Let_def)
  qed
qed

lemma containing_page_indices:
  assumes "canonical a"
  shows "\<exists>p. Page_containing_address Size4KiB a = Some p \<and> Page_p4_index p = VirtAddr_p4_index a \<and>
    Page_p3_index p = VirtAddr_p3_index a \<and> Page_p2_index p = VirtAddr_p2_index a \<and>
    Page_p1_index p = VirtAddr_p1_index a"
proof -
  obtain p where p: "Page_containing_address Size4KiB a = Some p" "page_num Size4KiB p = lin a div 2 ^ size_bits Size4KiB"
    using Page_containing_address_spec [OF assms, of Size4KiB] by auto
  then have "prefix (page_path Size4KiB p) (addr_path a)"
    by (simp only: addr_in_page page_num_def)
  then show ?thesis
    using p(1) by (simp add: page_path_def addr_path_def)
qed

lemma Rec_translate_refines:
  assumes r: "recursive_ok root (recursive_index self) m" and a: "canonical a"
    and i4: "VirtAddr_p4_index a \<noteq> recursive_index self"
  shows "Rec_translate X mmu self m a = translate X (physical root) (hide root (recursive_index self) m) a"
proof -
  let ?ri = "recursive_index self" and ?n = "hide root (recursive_index self) m"
  let ?i4 = "VirtAddr_p4_index a" and ?i3 = "VirtAddr_p3_index a" and ?i2 = "VirtAddr_p2_index a"
    and ?i1 = "VirtAddr_p1_index a"
  obtain p where p: "Page_containing_address Size4KiB a = Some p" "Page_p4_index p = ?i4"
      "Page_p3_index p = ?i3" "Page_p2_index p = ?i2"
    using containing_page_indices [OF a] by blast
  note t = recursive_okD(2) [OF r]
  have t': "tree_ok (page_table_walker (physical root)) ?n (level_4_table (physical root))" using t by simp
  have tr: "translate X (physical root) ?n a = Some (read_resolved X a (resolve phys_walker ?n root (addr_path a)))"
    using translate_resolve [OF t'] by simp
  obtain v3 v2 v1 where v: "table_ptr ?ri [?i4] = Some v3" "table_ptr ?ri [?i4, ?i3] = Some v2"
      "table_ptr ?ri [?i4, ?i3, ?i2] = Some v1"
    using table_ptr_path [of "[?i4]" ?ri] table_ptr_path [of "[?i4, ?i3]" ?ri]
      table_ptr_path [of "[?i4, ?i3, ?i2]" ?ri] index_ri by auto
  have r4: "read_at mmu m (rec_p4 self) ?i4 = Some (ent ?n root ?i4)"
    using read_at_path(1,3) [OF r goto.simps(1) _ _ _ _ p4_address, of ?i4] i4 by simp
  have cases: "is_unused (ent ?n q i) \<and> child phys_walker (ent ?n q i) = None \<and> \<not> huge (ent ?n q i) \<or>
      huge (ent ?n q i) \<and> \<not> is_unused (ent ?n q i) \<or>
      \<not> is_unused (ent ?n q i) \<and> present (ent ?n q i) \<and> \<not> huge (ent ?n q i)"
    if "goto phys_walker ?n root P = Inr q" "path_ok P" "length P \<le> 2" "index_ok i" for P q i
    using tree_ok_mapped [OF t that(1,2,4,3)] unused_parts [of "ent ?n q i" phys_walker]
    by (auto simp: entry_mapped_def split: if_splits)
  note d = Rec_translate_def addr_path_def ptr_table_ptr p v r4
  have h4: "\<not> huge (ent ?n root ?i4)" using tree_ok_root [OF t] by simp
  show ?thesis
  proof (cases "is_unused (ent ?n root ?i4)")
    case True
    with h4 unused_parts [of "ent ?n root ?i4" phys_walker] show ?thesis
      unfolding tr by (simp add: d)
  next
    case e4: False
    then have p4: "present (ent ?n root ?i4)" using cases [of "[]" root ?i4] h4 by simp
    define q3 where "q3 = pa (entry_addr (ent ?n root ?i4))"
    have g3: "goto phys_walker ?n root [?i4] = Inr q3" using p4 h4 by (simp add: q3_def)
    have r3: "read_at mmu m v3 ?i3 = Some (ent ?n q3 ?i3)"
      using read_at_path(1,3) [OF r g3 _ _ _ _ v(1), of ?i3] i4 by simp
    note s4 = e4 p4 h4 q3_def [symmetric]
    show ?thesis
    proof (cases "is_unused (ent ?n q3 ?i3) \<or> huge (ent ?n q3 ?i3)")
      case True
      obtain f where "PhysFrame_containing_address Size1GiB (entry_addr (ent ?n q3 ?i3)) = Some f"
        using PhysFrame_containing_address_total by blast
      with True cases [OF g3, of ?i3] r3 s4 show ?thesis
        unfolding tr by (auto simp: d Let_def)
    next
      case e3: False
      then have p3: "present (ent ?n q3 ?i3)" using cases [OF g3, of ?i3] by simp
      define q2 where "q2 = pa (entry_addr (ent ?n q3 ?i3))"
      have g2: "goto phys_walker ?n root [?i4, ?i3] = Inr q2" using s4 e3 p3 by (simp add: q2_def)
      have r2: "read_at mmu m v2 ?i2 = Some (ent ?n q2 ?i2)"
        using read_at_path(1,3) [OF r g2 _ _ _ _ v(2), of ?i2] i4 by simp
      note s3 = s4 e3 p3 q2_def [symmetric]
      show ?thesis
      proof (cases "is_unused (ent ?n q2 ?i2) \<or> huge (ent ?n q2 ?i2)")
        case True
        obtain f where "PhysFrame_containing_address Size2MiB (entry_addr (ent ?n q2 ?i2)) = Some f"
          using PhysFrame_containing_address_total by blast
        with True cases [OF g2, of ?i2] r3 r2 s3 show ?thesis
          unfolding tr by (auto simp: d Let_def)
      next
        case e2: False
        then have p2: "present (ent ?n q2 ?i2)" using cases [OF g2, of ?i2] by simp
        define q1 where "q1 = pa (entry_addr (ent ?n q2 ?i2))"
        have g1: "goto phys_walker ?n root [?i4, ?i3, ?i2] = Inr q1" using s3 e2 p2 by (simp add: q1_def)
        have r1: "read_at mmu m v1 ?i1 = Some (ent ?n q1 ?i1)"
          using read_at_path(1,3) [OF r g1 _ _ _ _ v(3), of ?i1] i4 by simp
        with r3 r2 s3 e2 p2 q1_def [symmetric] show ?thesis
          unfolding tr by (simp add: d Let_def from_start_4kib)
      qed
    qed
  qed
qed

end

end
