(* ===== verification/Offset_Properties.thy ===== *)
theory Offset_Properties
  imports Mapper_Properties Recursive_Tree
begin

text \<open>
  The offset page table accesses a table at the physical address \<open>p\<close> through the virtual address
  \<open>offset + p\<close>. The refinement shows that this is right: seen in physical memory, its operations are
  those of a mapped page table that finds the table of a frame at the physical address of the frame.
\<close>

section \<open>Physical memory behind the offset\<close>

text \<open>The tables at their physical addresses, where \<open>m\<close> has them at their virtual addresses.\<close>

definition phys_view :: "u64 \<Rightarrow> mem \<Rightarrow> mem" where
  "phys_view off m = (\<lambda>p. m (off + p))"

lemma phys_view_upd: "phys_view off (m(off + p := t)) = (phys_view off m)(p := t)"
  by (auto simp: phys_view_def fun_eq_iff)

text \<open>\<open>g\<close> does on the physical view what \<open>f\<close> does, if \<open>f\<close> does not panic.\<close>

definition sim_by :: "('y \<Rightarrow> 'z) \<Rightarrow> 'y option \<Rightarrow> 'z option \<Rightarrow> bool" where
  "sim_by h f g \<longleftrightarrow> (\<forall>y. f = Some y \<longrightarrow> g = Some (h y))"

lemma sim_by_simps [simp]: "sim_by h None g" "sim_by h (Some y) g \<longleftrightarrow> g = Some (h y)"
  by (auto simp: sim_by_def)

lemma sim_by_refl [simp]: "sim_by id f f"
  by (simp add: sim_by_def)

lemma sim_byD: "sim_by h f g \<Longrightarrow> f = Some y \<Longrightarrow> g = Some (h y)"
  by (simp add: sim_by_def)

lemma sim_by_bind:
  "sim_by h f g \<Longrightarrow> (\<And>y. f = Some y \<Longrightarrow> sim_by k (F y) (G (h y))) \<Longrightarrow> sim_by k (Option.bind f F) (Option.bind g G)"
  by (cases f) auto

lemma sim_by_same_bind:
  "(\<And>y. f = Some y \<Longrightarrow> sim_by k (F y) (G y)) \<Longrightarrow> sim_by k (Option.bind f F) (Option.bind f G)"
  by (cases f) auto

text \<open>A walker that finds the table of a frame at a fixed distance from its physical address.\<close>

locale offset_walker = extern_ok X for X +
  fixes W :: PageTableWalker and off :: u64
  assumes pointer: "page_table_frame_mapping W f = Some r \<Longrightarrow> r = off + pa (frame_start f)"
begin

abbreviation view_ptr :: "'e + u64 \<Rightarrow> 'e + u64" where
  "view_ptr \<equiv> map_sum id (\<lambda>r. r - off)"

lemma read_entry_view: "read_entry (phys_view off m) p i = read_entry m (off + p) i"
  by (simp add: read_entry_def phys_view_def)

lemma write_entry_view: "sim_by (phys_view off) (write_entry m (off + p) i e) (write_entry (phys_view off m) p i e)"
proof (cases "PageTable_index_mut (m (off + p)) i e")
  case (Some t)
  then have "PageTable_index_mut (phys_view off m p) i e = Some t" by (simp add: phys_view_def)
  with Some show ?thesis by (simp add: write_entry_def phys_view_upd)
qed (simp add: write_entry_def)

lemma next_table_view: "sim_by view_ptr (next_table X W e) (next_table X phys_walker e)"
  "sim_by view_ptr (next_table_mut X W e) (next_table_mut X phys_walker e)"
proof -
  show "sim_by view_ptr (next_table X W e) (next_table X phys_walker e)"
  proof (cases "\<exists>f. PageTableEntry_frame X e = Some (Inr f)")
    case True
    then obtain f where f: "PageTableEntry_frame X e = Some (Inr f)" ..
    show ?thesis
      using f pointer [of f] by (cases "page_table_frame_mapping W f") (simp_all add: next_table_def phys_walker_def)
  next
    case False
    then have "next_table X W e = next_table X phys_walker e"
      by (cases "PageTableEntry_frame X e") (auto simp: next_table_def split: sum.splits)
    moreover have "next_table X W e \<noteq> Some (Inr r)" for r
      using False by (cases "PageTableEntry_frame X e")
        (auto simp: next_table_def split: sum.splits Option.bind_splits)
    ultimately show ?thesis
      unfolding sim_by_def by (metis map_sum.simps(1) id_apply sum.exhaust)
  qed
  then show "sim_by view_ptr (next_table_mut X W e) (next_table_mut X phys_walker e)"
    by (simp add: next_table_mut_eq)
qed

section \<open>The walks\<close>

lemma walk_ref_view: "sim_by view_ptr (walk_ref X W m (off + p) i) (walk_ref X phys_walker (phys_view off m) p i)"
  unfolding walk_ref_def read_entry_view by (intro sim_by_same_bind next_table_view)

lemma walk_mut_view: "sim_by (map_prod view_ptr (phys_view off))
    (walk_mut X W m (off + p) i) (walk_mut X phys_walker (phys_view off m) p i)"
  unfolding walk_mut_def read_entry_view by (intro sim_by_same_bind sim_by_bind [OF next_table_view(2)]) simp

lemma create_next_table_view: "sim_by (map_prod view_ptr (map_prod (phys_view off) id))
    (create_next_table X W alloc (off + p) i fl (m, a)) (create_next_table X phys_walker alloc p i fl (phys_view off m, a))"
proof -
  have z: "phys_view off (m'(r := PageTable_zero (m' r))) =
      (phys_view off m')(r - off := PageTable_zero (phys_view off m' (r - off)))" for m' r
    using phys_view_upd [of off m' "r - off"] by (simp add: phys_view_def)
  show ?thesis
    unfolding create_next_table_def Let_def prod.case read_entry_view
    by (intro sim_by_same_bind)
      (auto intro!: sim_by_bind [OF write_entry_view] sim_by_bind [OF next_table_view(2)]
        split: sum.split PageTableWalkError.split simp: z)
qed

lemma try_op_view:
  assumes f: "sim_by (map_prod view_ptr h) f g"
    and k: "\<And>q s. sim_by (map_prod id h) (k (off + q) s) (k' q (h s))"
  shows "sim_by (map_prod id h) (try_op f conv k) (try_op g conv k')"
proof (cases f)
  case (Some y)
  obtain x s where y: "y = (x, s)" by (cases y)
  then have "g = Some (view_ptr x, h s)" using f Some by simp
  with Some y k [of "projr x - off" s] show ?thesis by (cases x) simp_all
qed simp

lemma create_path_view: "sim_by (map_prod view_ptr (map_prod (phys_view off) id))
    (create_path X W alloc (off + p) P fl (m, a)) (create_path X phys_walker alloc p P fl (phys_view off m, a))"
proof (induction P arbitrary: p m a)
  case (Cons i P)
  show ?case
  proof (cases "create_next_table X W alloc (off + p) i fl (m, a)")
    case (Some y)
    obtain x m' a' where y: "y = (x, (m', a'))" by (metis prod.exhaust)
    have c: "create_next_table X phys_walker alloc p i fl (phys_view off m, a) = Some (view_ptr x, (phys_view off m', a'))"
      using sim_byD [OF create_next_table_view Some] y by simp
    show ?thesis
    proof (cases x)
      case (Inl err)
      with Some y c show ?thesis by simp
    next
      case (Inr r)
      with Some y c Cons.IH [of "r - off" m' a'] show ?thesis by simp
    qed
  qed simp
qed simp

lemma walk_then_view:
  assumes "\<And>q m. sim_by (map_prod id (phys_view off)) (k (off + q) m) (k' q (phys_view off m))"
  shows "sim_by (map_prod id (phys_view off)) (walk_then X W conv k m (off + p) P)
    (walk_then X phys_walker conv k' (phys_view off m) p P)"
proof (induction P arbitrary: p m)
  case Nil
  show ?case unfolding walk_then.simps by (rule assms)
next
  case (Cons i P)
  show ?case unfolding walk_then.simps by (rule try_op_view [OF walk_mut_view]) (rule Cons.IH)
qed

lemma walk_ref_then_view:
  assumes "\<And>q. sim_by id (k (off + q)) (k' q)"
  shows "sim_by id (walk_ref_then X W conv k m (off + p) P)
    (walk_ref_then X phys_walker conv k' (phys_view off m) p P)"
proof (induction P arbitrary: p)
  case Nil
  show ?case unfolding walk_ref_then.simps by (rule assms)
next
  case (Cons i P)
  show ?case
  proof (cases "walk_ref X W m (off + p) i")
    case (Some x)
    then have "walk_ref X phys_walker (phys_view off m) p i = Some (view_ptr x)" by (rule sim_byD [OF walk_ref_view])
    with Some Cons.IH [of "projr x - off"] show ?thesis
      by (cases x) simp_all
  qed simp
qed

section \<open>The operations\<close>

lemma map_to_view:
  assumes "page_table_walker self = W" "level_4_table self = off + root"
  shows "sim_by (map_prod id (map_prod (phys_view off) id))
    (map_to_with_table_flags X S self alloc page frame fl pfl (m, a))
    (map_to_with_table_flags X S (physical root) alloc page frame fl pfl (phys_view off m, a))"
  unfolding map_to_walk assms physical_simps
  by (rule try_op_view [OF create_path_view])
    (auto simp: read_entry_view intro!: sim_by_same_bind sim_by_bind [OF write_entry_view])

lemma unmap_view:
  assumes "page_table_walker self = W" "level_4_table self = off + root"
  shows "sim_by (map_prod id (phys_view off)) (unmap X S self page m) (unmap X S (physical root) page (phys_view off m))"
  unfolding unmap_walk assms physical_simps
  by (rule walk_then_view) (auto simp: read_entry_view intro!: sim_by_same_bind sim_by_bind [OF write_entry_view])

lemma update_flags_view:
  assumes "page_table_walker self = W" "level_4_table self = off + root"
  shows "sim_by (map_prod id (phys_view off)) (update_flags X S self page fl m)
    (update_flags X S (physical root) page fl (phys_view off m))"
  unfolding update_flags_walk assms physical_simps
  by (rule walk_then_view) (auto simp: read_entry_view intro!: sim_by_same_bind sim_by_bind [OF write_entry_view])

lemma translate_page_view:
  assumes "page_table_walker self = W" "level_4_table self = off + root"
  shows "sim_by id (translate_page X S self m page) (translate_page X S (physical root) (phys_view off m) page)"
  unfolding translate_page_walk assms physical_simps
  by (rule walk_ref_then_view) (simp add: read_entry_view sim_by_def)

lemma translate_view:
  assumes "page_table_walker self = W" "level_4_table self = off + root"
  shows "sim_by id (translate X self m v) (translate X (physical root) (phys_view off m) v)"
proof -
  have step: "sim_by id (Option.bind (walk_ref X W m r i) F) (Option.bind (walk_ref X phys_walker (phys_view off m) (r - off) i) G)"
    if "\<And>q. sim_by id (F (Inr q)) (G (Inr (q - off)))" "\<And>e. sim_by id (F (Inl e)) (G (Inl e))"
    for r i and F G :: "PageTableWalkError + u64 \<Rightarrow> TranslateResult option"
    using walk_ref_view [of m "r - off" i] that
    by (intro sim_by_bind [where h = view_ptr]) (auto split: sum.split simp: sim_by_def map_sum_def)
  have rd: "read_entry (phys_view off m) (r - off) i = read_entry m r i" for r i
    using read_entry_view [of m "r - off" i] by simp
  have root: "root = (off + root) - off" by simp
  show ?thesis
    unfolding translate_def assms physical_simps Let_def
    by (subst root) (rule step | simp add: rd split: PageTableWalkError.split)+
qed

end
section \<open>The offset page table\<close>

text \<open>\<open>PhysOffset\<close> adds the offset to the physical address.\<close>

lemma frame_to_pointer_view:
  "frame_to_pointer po f = Some r \<Longrightarrow> r = va (offset po) + pa (frame_start f)"
proof -
  assume "frame_to_pointer po f = Some r"
  then obtain v where v: "VirtAddr_add (offset po) (pa (frame_start f)) = Some v" "r = va v"
    by (cases "VirtAddr_add (offset po) (pa (frame_start f))")
      (simp_all add: frame_to_pointer_def PhysAddr_as_u64_def PhysFrame_start_address_def
        VirtAddr_as_mut_ptr_def VirtAddr_as_ptr_def VirtAddr_as_u64_def)
  then have "unat r = unat (va (offset po)) + unat (pa (frame_start f))"
    by (simp add: VirtAddr_add_eq_Some)
  moreover from this have "unat (va (offset po) + pa (frame_start f)) = unat (va (offset po)) + unat (pa (frame_start f))"
    using unsigned_less [of r, where 'a = nat] by (intro unat_add_no_wrap) simp
  ultimately show ?thesis by (simp add: word_unat_eq_iff)
qed

lemma offset_walker_ok:
  "extern_ok X \<Longrightarrow> offset_walker X \<lparr>page_table_frame_mapping = frame_to_pointer po\<rparr> (va (offset po))"
  by (intro offset_walker.intro offset_walker_axioms.intro) (simp_all add: frame_to_pointer_view)

interpretation std_offset: offset_walker "std_extern c" "\<lparr>page_table_frame_mapping = frame_to_pointer po\<rparr>"
  "va (offset po)" for c po
  by (rule offset_walker_ok) simp

text \<open>
  C15. The offset page table created by \<open>new\<close> works on the right tables. Let \<open>root\<close> be the physical address
  of the level 4 table, that is its pointer minus the offset, and look at memory at physical addresses:
  there, mapping, unmapping, updating flags and translating through the offset page table do exactly what
  the mapped page table does that finds each table at its physical address, with the same result and the
  same frames allocated, and without a panic.
\<close>

theorem offset_page_table_refines_physical:
  assumes X: "extern_ok X" and al: "allocator_ok alloc free"
    and g: "good (page_table_walker (inner self)) (level_4_table (inner self)) free (m, a)"
    and args: "map_args S frame flags parent_flags"
    and self: "self = OffsetPageTable_new level_4 phys_offset"
  defines "root \<equiv> level_4 - va phys_offset" and "at_phys \<equiv> phys_view (va phys_offset)"
  shows "(\<exists>r m' a'. Offset_map_to_with_table_flags X S self alloc page frame flags parent_flags (m, a) =
        Some (r, (m', a')) \<and>
      map_to_with_table_flags X S (physical root) alloc page frame flags parent_flags (at_phys m, a) =
        Some (r, (at_phys m', a'))) \<and>
    (\<exists>r m'. Offset_unmap X S self page m = Some (r, m') \<and>
      unmap X S (physical root) page (at_phys m) = Some (r, at_phys m')) \<and>
    (\<exists>r m'. Offset_update_flags X S self page flags m = Some (r, m') \<and>
      update_flags X S (physical root) page flags (at_phys m) = Some (r, at_phys m')) \<and>
    (\<exists>r. Offset_translate_page X S self m page = Some r \<and>
      translate_page X S (physical root) (at_phys m) page = Some r) \<and>
    (\<exists>r. Offset_translate X self m v = Some r \<and> translate X (physical root) (at_phys m) v = Some r)"
proof -
  let ?W = "\<lparr>page_table_frame_mapping = frame_to_pointer \<lparr>offset = phys_offset\<rparr>\<rparr>"
  have s: "page_table_walker (inner self) = ?W" "level_4_table (inner self) = va phys_offset + root"
    by (simp_all add: self OffsetPageTable_new_def MappedPageTable_new_def Let_def root_def)
  note ow = offset_walker_ok [OF X, of "\<lparr>offset = phys_offset\<rparr>", simplified]
  note sim = offset_walker.map_to_view [OF ow s] offset_walker.unmap_view [OF ow s]
    offset_walker.update_flags_view [OF ow s] offset_walker.translate_page_view [OF ow s]
    offset_walker.translate_view [OF ow s]
  note t = g [unfolded good_def fst_conv, THEN conjunct1]
  obtain r m' a' where map: "map_to_with_table_flags X S (inner self) alloc page frame flags parent_flags (m, a) = Some (r, (m', a'))"
    using mapper.map_total [OF extern_ok.mapped_mapper [OF X al] g args, of page] by auto
  have some: "\<exists>r m'. x = Some (r, m')" if "x = Some y" for x :: "('r \<times> mem) option" and y
    using that by (cases y) simp
  obtain r1 m1 where unmap: "unmap X S (inner self) page m = Some (r1, m1)"
    using some [OF extern_ok.unmap_spec [OF X t, of S page]] by blast
  obtain r2 m2 where flags: "update_flags X S (inner self) page flags m = Some (r2, m2)"
    using some [OF extern_ok.update_flags_spec [OF X t, of S page flags]] by blast
  note lookup = extern_ok.translate_page_spec [OF X t, of S page] and tr = extern_ok.translate_resolve [OF X t, of v]
  show ?thesis
    unfolding at_phys_def Offset_map_to_with_table_flags_def Offset_unmap_def Offset_update_flags_def
      Offset_translate_page_def Offset_translate_def
    using map unmap flags sim_byD [OF sim(1) map] sim_byD [OF sim(2) unmap] sim_byD [OF sim(3) flags]
      sim_byD [OF sim(4) lookup] lookup sim_byD [OF sim(5) tr] tr
    by (intro conjI) (simp_all only: id_apply map_prod_simp option.inject, blast+)
qed

theorem offset_page_table_refines_physical_witness:
  "\<exists>m' a'. Offset_map_to_with_table_flags (std_extern True) Size4KiB demo_table (bump_allocate 4096)
      demo_page demo_frame demo_flags demo_flags (demo_mem, 2) = Some (Inr (MapperFlush demo_page), (m', a')) \<and>
    map_to_with_table_flags (std_extern True) Size4KiB (physical 0x1000) (bump_allocate 4096)
      demo_page demo_frame demo_flags demo_flags (phys_view 0xffff800000000000 demo_mem, 2) =
      Some (Inr (MapperFlush demo_page), (phys_view 0xffff800000000000 m', a'))"
proof -
  obtain m' a' where r: "Offset_map_to_with_table_flags (std_extern True) Size4KiB demo_table
      (bump_allocate 4096) demo_page demo_frame demo_flags demo_flags (demo_mem, 2) =
      Some (Inr (MapperFlush demo_page), (m', a'))"
    using demo_map unfolding Offset_map_to_with_table_flags_def demo_parts(3) by blast
  have g: "good (page_table_walker (inner demo_table)) (level_4_table (inner demo_table)) (bump_free 4096) (demo_mem, 2)"
    using demo_good unfolding demo_parts(3) .
  have "(0xffff800000001000 :: u64) - va demo_offset = 0x1000" "va demo_offset = 0xffff800000000000"
    by (simp_all add: demo_offset_def)
  with offset_page_table_refines_physical [OF std_extern_ok demo_bump g demo_args demo_table_def,
      of True demo_page "VirtAddr 0"] r
  show ?thesis by auto
qed

end
