(* ===== verification/Step_Harness.thy ===== *)
theory Step_Harness
  imports Addr
begin

text \<open>
  The proof harnesses at the end of \<open>addr.rs\<close> (module \<open>proofs\<close>), which the crate checks with a model
  checker. A harness is a function of the values that are arbitrary in it; it returns \<open>Some ()\<close> or
  panics, which is a failed assertion. None of them fails, for all values.
\<close>

section \<open>The harnesses\<close>

text \<open>\<open>Step::forward\<close> and \<open>Step::backward\<close>, provided by the core library: they panic where the checked functions
  return \<open>None\<close>.\<close>

definition Step_forward :: "extern \<Rightarrow> VirtAddr \<Rightarrow> usize \<Rightarrow> VirtAddr option" where
  "Step_forward X start n = do { r \<leftarrow> VirtAddr_forward_checked X start n; r }"

definition Step_backward :: "extern \<Rightarrow> VirtAddr \<Rightarrow> usize \<Rightarrow> VirtAddr option" where
  "Step_backward X start n = do { r \<leftarrow> VirtAddr_backward_checked X start n; r }"

definition forward_base_case :: "extern \<Rightarrow> u64 \<Rightarrow> unit option" where
  "forward_base_case X start_raw =
     (case VirtAddr_try_new start_raw of
        Inl _ \<Rightarrow> Some ()
      | Inr start \<Rightarrow> do {
          same \<leftarrow> Step_forward X start 0;
          assert_that (start = same);
          expected \<leftarrow>
            (if start_raw \<le> 0x00007ffffffffffe then do { v \<leftarrow> add_op X start_raw 1; Some (Some v) }
             else if start_raw = 0x00007fffffffffff then Some (Some 0xffff800000000000)
             else if start_raw \<le> 0xffff7fffffffffff then panic
             else if start_raw \<le> 0xfffffffffffffffe then do { v \<leftarrow> add_op X start_raw 1; Some (Some v) }
             else Some None);
          (case expected of
             Some expected \<Rightarrow> assert_that (case VirtAddr_try_new expected of Inl _ \<Rightarrow> False | Inr _ \<Rightarrow> True)
           | None \<Rightarrow> Some ());
          next_addr \<leftarrow> VirtAddr_forward_checked X start 1;
          assert_that (map_option VirtAddr_as_u64 next_addr = expected)
        })"

definition forward_induction_step :: "extern \<Rightarrow> u64 \<Rightarrow> usize \<Rightarrow> usize \<Rightarrow> unit option" where
  "forward_induction_step X start_raw count1 count2 =
     (case VirtAddr_try_new start_raw of
        Inl _ \<Rightarrow> Some ()
      | Inr start \<Rightarrow> do {
          next1 \<leftarrow> VirtAddr_forward_checked X start count1;
          case next1 of
            None \<Rightarrow> Some ()
          | Some next1 \<Rightarrow> do {
              next2 \<leftarrow> VirtAddr_forward_checked X next1 count2;
              case next2 of
                None \<Rightarrow> Some ()
              | Some next2 \<Rightarrow> do {
                  count_both \<leftarrow> add_op X count1 count2;
                  next_both \<leftarrow> Step_forward X start count_both;
                  assert_that (next2 = next_both)
                }
            }
        })"

definition forward_implies_backward :: "extern \<Rightarrow> u64 \<Rightarrow> usize \<Rightarrow> unit option" where
  "forward_implies_backward X start_raw count =
     (case VirtAddr_try_new start_raw of
        Inl _ \<Rightarrow> Some ()
      | Inr start \<Rightarrow> do {
          end_addr \<leftarrow> VirtAddr_forward_checked X start count;
          case end_addr of
            None \<Rightarrow> Some ()
          | Some end_addr \<Rightarrow> do {
              start2 \<leftarrow> Step_backward X end_addr count;
              assert_that (start = start2)
            }
        })"

definition backward_implies_forward :: "extern \<Rightarrow> u64 \<Rightarrow> usize \<Rightarrow> unit option" where
  "backward_implies_forward X end_raw count =
     (case VirtAddr_try_new end_raw of
        Inl _ \<Rightarrow> Some ()
      | Inr end_addr \<Rightarrow> do {
          start \<leftarrow> VirtAddr_backward_checked X end_addr count;
          case start of
            None \<Rightarrow> Some ()
          | Some start \<Rightarrow> do {
              end2 \<leftarrow> Step_forward X start count;
              assert_that (end_addr = end2)
            }
        })"

definition forward_implies_steps_between :: "extern \<Rightarrow> u64 \<Rightarrow> usize \<Rightarrow> unit option" where
  "forward_implies_steps_between X start_raw count =
     (case VirtAddr_try_new start_raw of
        Inl _ \<Rightarrow> Some ()
      | Inr start \<Rightarrow> do {
          end_addr \<leftarrow> VirtAddr_forward_checked X start count;
          case end_addr of
            None \<Rightarrow> Some ()
          | Some end_addr \<Rightarrow> assert_that (VirtAddr_steps_between start end_addr = (count, Some count))
        })"

definition steps_between_implies_forward :: "extern \<Rightarrow> u64 \<Rightarrow> u64 \<Rightarrow> unit option" where
  "steps_between_implies_forward X start_raw end_raw =
     (case VirtAddr_try_new start_raw of
        Inl _ \<Rightarrow> Some ()
      | Inr start \<Rightarrow>
          (case VirtAddr_try_new end_raw of
             Inl _ \<Rightarrow> Some ()
           | Inr end_addr \<Rightarrow>
               (case snd (VirtAddr_steps_between start end_addr) of
                  None \<Rightarrow> Some ()
                | Some count \<Rightarrow> do {
                    e \<leftarrow> Step_forward X start count;
                    assert_that (e = end_addr)
                  })))"

section \<open>They hold\<close>

lemma assert_that_True [simp]: "assert_that True = Some ()"
  by (simp add: assert_that_def)

context extern_ok
begin

lemma forward_cases:
  assumes "canonical a"
  obtains b where "VirtAddr_forward_checked X a n = Some (Some b)" "canonical b" "lin b = lin a + unat n"
  | "VirtAddr_forward_checked X a n = Some None" "2 ^ 48 \<le> lin a + unat n"
  using addr_step.forward_some [OF assms, of n] addr_step.forward_none [OF assms, of n] by (meson not_less)

lemma backward_cases:
  assumes "canonical a"
  obtains b where "VirtAddr_backward_checked X a n = Some (Some b)" "canonical b" "lin b = lin a - unat n" "unat n \<le> lin a"
  | "VirtAddr_backward_checked X a n = Some None"
  using addr_step.backward_some [OF assms, of n] addr_step.backward_none [OF assms, of n] by (meson not_less)

lemma Step_forward_eq:
  "canonical a \<Longrightarrow> canonical b \<Longrightarrow> lin b = lin a + unat n \<Longrightarrow> Step_forward X a n = Some b"
  by (simp add: Step_forward_def addr_step.forward_eq_Some [THEN iffD2])

lemma Step_backward_eq:
  "canonical a \<Longrightarrow> canonical b \<Longrightarrow> lin a = lin b + unat n \<Longrightarrow> Step_backward X a n = Some b"
  by (simp add: Step_backward_def addr_step.backward_eq_Some [THEN iffD2])

lemma symmetry_harnesses:
  "forward_implies_backward X a n = Some ()" "backward_implies_forward X a n = Some ()"
  "forward_implies_steps_between X a n = Some ()" "steps_between_implies_forward X a b = Some ()"
proof -
  show "forward_implies_backward X a n = Some ()"
    by (cases "canonical (VirtAddr a)", erule forward_cases [of _ n])
      (simp_all add: forward_implies_backward_def try_new_eq Step_backward_eq)
  show "backward_implies_forward X a n = Some ()"
    by (cases "canonical (VirtAddr a)", erule backward_cases [of _ n])
      (simp_all add: backward_implies_forward_def try_new_eq Step_forward_eq)
  show "forward_implies_steps_between X a n = Some ()"
    by (cases "canonical (VirtAddr a)", erule forward_cases [of _ n])
      (simp_all add: forward_implies_steps_between_def try_new_eq addr_step.between_some)
  have "Step_forward X s (of_nat (lin e - lin s)) = Some e" if "canonical s" "canonical e" "lin s \<le> lin e" for s e
  proof -
    have "lin e - lin s < 2 ^ LENGTH(64)" using lin_lt [of e] by simp
    then have "unat (of_nat (lin e - lin s) :: usize) = lin e - lin s" by (rule unat_of_nat_small)
    with that show ?thesis by (simp add: Step_forward_eq)
  qed
  then show "steps_between_implies_forward X a b = Some ()"
    using addr_step.between_some [of "VirtAddr a" "VirtAddr b"] addr_step.between_none [of "VirtAddr a" "VirtAddr b"]
    by (cases "lin (VirtAddr a) \<le> lin (VirtAddr b)") (simp_all add: steps_between_implies_forward_def try_new_eq not_le)
qed

lemma induction_harness: "forward_induction_step X a n k = Some ()"
proof (cases "canonical (VirtAddr a)")
  case a: True
  then show ?thesis
  proof (cases rule: forward_cases [of _ n])
    case b: (1 b)
    from b(2) show ?thesis
    proof (cases rule: forward_cases [of _ k, case_names some none])
      case (some c)
      then have sum: "unat n + unat k < 2 ^ LENGTH(64)" using b lin_lt [of c] by simp
      then have "add_op X n k = Some (n + k)" "unat (n + k) = unat n + unat k"
        by (simp_all add: add_op_def checked_add_def unat_add_no_wrap)
      with a b some show ?thesis
        by (simp add: forward_induction_step_def try_new_eq Step_forward_eq)
    qed (use a b in \<open>simp_all add: forward_induction_step_def try_new_eq\<close>)
  qed (use a in \<open>simp_all add: forward_induction_step_def try_new_eq\<close>)
qed (simp add: forward_induction_step_def try_new_eq)

text \<open>The next address, as the harness computes it: \<open>a + 1\<close>, except at the end of the lower half and at the top.\<close>

lemma next_address:
  assumes a: "canonical (VirtAddr a)" and e: "canonical (VirtAddr e)" "lin (VirtAddr e) = lin (VirtAddr a) + 1"
  shows "VirtAddr_try_new e = Inr (VirtAddr e)" "VirtAddr_forward_checked X (VirtAddr a) 1 = Some (Some (VirtAddr e))"
  using e addr_step.forward_eq_Some [OF a, of 1 "VirtAddr e"] by (simp_all add: try_new_eq)

lemma base_harness: "forward_base_case X a = Some ()"
proof (cases "canonical (VirtAddr a)")
  case a: True
  note same = Step_forward_eq [OF a a, of 0]
  consider (low) "unat a < 2 ^ 47 - 1" | (gap) "unat a = 2 ^ 47 - 1" | (high) "2 ^ 64 - 2 ^ 47 \<le> unat a" "unat a < 2 ^ 64 - 1"
    | (last) "unat a = 2 ^ 64 - 1"
    using a unsigned_less [of a, where 'a = nat] unfolding canonical_iff_unat by fastforce
  then show ?thesis
  proof cases
    case low
    then have "add_op X a 1 = Some (a + 1)" "unat (a + 1) = unat a + 1"
      by (simp_all add: add_op_def checked_add_def unat_add_no_wrap)
    moreover from this low have "canonical (VirtAddr (a + 1))" "lin (VirtAddr (a + 1)) = lin (VirtAddr a) + 1"
      by (simp_all add: canonical_iff_unat lin_def)
    ultimately show ?thesis
      using low same next_address [OF a] by (simp add: forward_base_case_def try_new_eq a word_le_nat_alt VirtAddr_as_u64_def)
  next
    case gap
    then have "a = 0x7fffffffffff" by (simp add: word_unat_eq_iff)
    moreover have "canonical (VirtAddr 0xffff800000000000)"
      "lin (VirtAddr 0xffff800000000000) = lin (VirtAddr 0x7fffffffffff) + 1"
      by (simp_all add: canonical_iff_unat lin_def)
    ultimately show ?thesis
      using a same next_address [of "0x7fffffffffff" "0xffff800000000000"]
      by (simp add: forward_base_case_def try_new_eq VirtAddr_as_u64_def)
  next
    case high
    then have "add_op X a 1 = Some (a + 1)" "unat (a + 1) = unat a + 1"
      by (simp_all add: add_op_def checked_add_def unat_add_no_wrap)
    moreover from this high have c: "canonical (VirtAddr (a + 1))" by (simp add: canonical_iff_unat)
    moreover have "lin (VirtAddr (a + 1)) = lin (VirtAddr a) + 1"
      using canonical_unat [OF a] canonical_unat [OF c] high calculation(2) lin_lt [of "VirtAddr a"] by (simp split: if_splits)
    ultimately show ?thesis
      using high same next_address [OF a]
      by (simp add: forward_base_case_def try_new_eq a word_le_nat_alt word_unat_eq_iff VirtAddr_as_u64_def)
  next
    case last
    then have "VirtAddr_forward_checked X (VirtAddr a) 1 = Some None"
      using last by (intro addr_step.forward_none [OF a]) (simp add: lin_def)
    with last show ?thesis
      using a same by (simp add: forward_base_case_def try_new_eq word_le_nat_alt word_unat_eq_iff)
  qed
qed (simp add: forward_base_case_def try_new_eq)

end

section \<open>Property\<close>

text \<open>
  C20. The proof harnesses that the crate has for the \<open>Step\<close> implementation of \<open>VirtAddr\<close> pass for all
  values of their arbitrary inputs, with and without overflow checks: no assertion fails, no
  unreachable arm is reached and no step panics.
\<close>

theorem step_harnesses_pass:
  assumes "extern_ok X"
  shows "forward_base_case X a = Some () \<and> forward_induction_step X a n k = Some () \<and>
    forward_implies_backward X a n = Some () \<and> backward_implies_forward X a n = Some () \<and>
    forward_implies_steps_between X a n = Some () \<and> steps_between_implies_forward X a b = Some ()"
  using extern_ok.base_harness [OF assms] extern_ok.induction_harness [OF assms]
    extern_ok.symmetry_harnesses [OF assms] by blast

theorem step_harnesses_pass_witness:
  "forward_base_case (std_extern True) 0x7fffffffffff = Some () \<and>
   forward_induction_step (std_extern False) 0x7ffffffffff0 0x20 0xffffffffffffffff = Some ()"
  using step_harnesses_pass [OF std_extern_ok] by blast

end
