(* ===== verification/Clean_Up.thy ===== *)
theory Clean_Up
  imports Mapper_Properties
begin

text \<open>
  The effect of \<open>clean_up\<close> and \<open>clean_up_addr_range\<close> of the mapped page table: unlinking an empty table
  from the tree, the address range that each entry of a table covers, the recursion over the levels
  with the set of tables it may touch and the frames it gives back, and what this means for the whole
  page table.
\<close>

section \<open>Removing an empty table\<close>

text \<open>Every entry of the table at \<open>q\<close> is unused.\<close>

definition unused_table :: "mem \<Rightarrow> u64 \<Rightarrow> bool" where
  "unused_table m q \<longleftrightarrow> (\<forall>j. index_ok j \<longrightarrow> is_unused (ent m q j))"

text \<open>
  Going from \<open>m\<close> to \<open>m'\<close>, nothing changes outside the tables below the entries \<open>J\<close> of the table at the
  path \<open>P\<close>, and these entries themselves.
\<close>

definition only_below :: "PageTableWalker \<Rightarrow> u64 \<Rightarrow> PageTableIndex list \<Rightarrow> PageTableIndex set \<Rightarrow> mem \<Rightarrow> mem \<Rightarrow> bool"
where
  "only_below W root P J m m' \<longleftrightarrow>
     (\<forall>Q q. path_ok Q \<longrightarrow> length Q \<le> 3 \<longrightarrow> (\<forall>j\<in>J. \<not> prefix (P @ [j]) Q) \<longrightarrow>
        (goto W m' root Q = Inr q \<longleftrightarrow> goto W m root Q = Inr q) \<and>
        (\<forall>k. goto W m root Q = Inr q \<longrightarrow> index_ok k \<longrightarrow> \<not> (Q = P \<and> k \<in> J) \<longrightarrow> ent m' q k = ent m q k))"

lemma only_below_goto:
  "only_below W root P J m m' \<Longrightarrow> path_ok Q \<Longrightarrow> length Q \<le> 3 \<Longrightarrow> (\<And>j. j \<in> J \<Longrightarrow> \<not> prefix (P @ [j]) Q) \<Longrightarrow>
    goto W m' root Q = Inr q \<longleftrightarrow> goto W m root Q = Inr q"
  by (simp add: only_below_def)

lemma only_below_ent:
  "only_below W root P J m m' \<Longrightarrow> path_ok Q \<Longrightarrow> length Q \<le> 3 \<Longrightarrow> (\<And>j. j \<in> J \<Longrightarrow> \<not> prefix (P @ [j]) Q) \<Longrightarrow>
    goto W m root Q = Inr q \<Longrightarrow> index_ok k \<Longrightarrow> Q \<noteq> P \<or> k \<notin> J \<Longrightarrow> ent m' q k = ent m q k"
  unfolding only_below_def by blast

lemma only_belowI:
  assumes "\<And>Q q. path_ok Q \<Longrightarrow> length Q \<le> 3 \<Longrightarrow> (\<And>j. j \<in> J \<Longrightarrow> \<not> prefix (P @ [j]) Q) \<Longrightarrow>
      goto W m' root Q = Inr q \<longleftrightarrow> goto W m root Q = Inr q"
    and "\<And>Q q k. path_ok Q \<Longrightarrow> length Q \<le> 3 \<Longrightarrow> (\<And>j. j \<in> J \<Longrightarrow> \<not> prefix (P @ [j]) Q) \<Longrightarrow>
      goto W m root Q = Inr q \<Longrightarrow> index_ok k \<Longrightarrow> Q \<noteq> P \<or> k \<notin> J \<Longrightarrow> ent m' q k = ent m q k"
  shows "only_below W root P J m m'"
  using assms by (simp add: only_below_def)

lemma only_below_refl: "only_below W root P J m m"
  by (simp add: only_below_def)

lemma only_below_trans:
  assumes "only_below W root P J m m'" "only_below W root P K m' m''"
  shows "only_below W root P (J \<union> K) m m''"
proof (rule only_belowI)
  fix Q q k assume Q: "path_ok Q" "length Q \<le> 3" "\<And>j. j \<in> J \<union> K \<Longrightarrow> \<not> prefix (P @ [j]) Q"
  note g = only_below_goto [OF assms(1) Q(1,2), of q] only_below_goto [OF assms(2) Q(1,2), of q]
  show "goto W m'' root Q = Inr q \<longleftrightarrow> goto W m root Q = Inr q"
    using g Q(3) by simp
  show "ent m'' q k = ent m q k" if "goto W m root Q = Inr q" "index_ok k" "Q \<noteq> P \<or> k \<notin> J \<union> K"
    using only_below_ent [OF assms(1) Q(1,2) _ that(1,2)] only_below_ent [OF assms(2) Q(1,2) _ _ that(2), of q]
      g that Q(3) by auto
qed

lemma only_below_mono:
  assumes "only_below W root P J m m'" "J \<subseteq> K"
  shows "only_below W root P K m m'"
  using only_below_trans [OF assms(1) only_below_refl [of W root P K]] assms(2)
  by (simp add: Un_absorb1)

lemma only_below_child:
  assumes "only_below W root (P @ [i]) UNIV m m'"
  shows "only_below W root P {i} m m'"
proof (rule only_belowI)
  fix Q q k assume Q: "path_ok Q" "length Q \<le> 3" "\<And>j. j \<in> {i} \<Longrightarrow> \<not> prefix (P @ [j]) Q"
  have n: "\<not> prefix ((P @ [i]) @ [j]) Q" "Q \<noteq> P @ [i]" for j
    using Q(3) [of i] append_prefixD [of "P @ [i]" "[j]" Q] by auto
  show "goto W m' root Q = Inr q \<longleftrightarrow> goto W m root Q = Inr q"
    using only_below_goto [OF assms Q(1,2)] n(1) by blast
  show "ent m' q k = ent m q k" if "goto W m root Q = Inr q" "index_ok k"
    using only_below_ent [OF assms Q(1,2) _ that] n by blast
qed

lemma only_below_self:
  "only_below W root P J m m' \<Longrightarrow> path_ok P \<Longrightarrow> length P \<le> 3 \<Longrightarrow>
    goto W m' root P = Inr q \<longleftrightarrow> goto W m root P = Inr q"
  by (rule only_below_goto) (auto dest: prefix_length_le)

text \<open>
  The frames given to the deallocator between the states \<open>s\<close> and \<open>s'\<close> are those of the tables that are
  in the tree of \<open>s\<close> and no longer in the tree of \<open>s'\<close>, each once.
\<close>

definition freed :: "PageTableWalker \<Rightarrow> u64 \<Rightarrow> 'd deallocate_frame \<Rightarrow> mem \<times> 'd \<Rightarrow> mem \<times> 'd \<Rightarrow> bool" where
  "freed W root deallocate s s' \<longleftrightarrow> (\<exists>fs ps. snd s' = foldl deallocate (snd s) fs \<and>
     map (page_table_frame_mapping W) fs = map Some ps \<and> distinct ps \<and>
     tables W (fst s') root \<subseteq> tables W (fst s) root \<and>
     set ps = tables W (fst s) root - tables W (fst s') root)"

lemma freed_refl: "freed W root deallocate s s"
  unfolding freed_def by (intro exI [of _ "[]"]) simp

lemma freed_trans:
  assumes "freed W root deallocate s s'" "freed W root deallocate s' s''"
  shows "freed W root deallocate s s''"
proof -
  obtain fs ps gs qs where "snd s' = foldl deallocate (snd s) fs" "snd s'' = foldl deallocate (snd s') gs"
    and "map (page_table_frame_mapping W) fs = map Some ps" "map (page_table_frame_mapping W) gs = map Some qs"
    and "distinct ps" "distinct qs" and "tables W (fst s') root \<subseteq> tables W (fst s) root"
    and "tables W (fst s'') root \<subseteq> tables W (fst s') root"
    and "set ps = tables W (fst s) root - tables W (fst s') root"
    and "set qs = tables W (fst s') root - tables W (fst s'') root"
    using assms unfolding freed_def by blast
  then show ?thesis
    unfolding freed_def by (intro exI [of _ "fs @ gs"] exI [of _ "ps @ qs"]) auto
qed

text \<open>Unlinking an empty table: only the entry changes, no address resolves differently.\<close>

lemma remove_table:
  assumes t: "tree_ok W m root" and P: "goto W m root P = Inr q" "path_ok P" "length P \<le> 2"
    and i: "index_ok i" and c: "child W (ent m q i) = Some r" and u: "unused_table m r"
    and e: "is_unused e"
  defines "m' \<equiv> upd m q i e"
  shows "tree_ok W m' root" "same_resolve W root m m'" "only_below W root P {i} m m'"
    "tables W m' root = tables W m root - {r}" "r \<in> tables W m root"
    "\<And>Q x. path_ok Q \<Longrightarrow> length Q \<le> 3 \<Longrightarrow> prefix (P @ [i]) Q \<Longrightarrow> goto W m' root Q \<noteq> Inr x"
proof -
  have mem: "mem_ok m" using t by (rule tree_ok_mem)
  have ent: "ent m' p j = (if p = q \<and> j = i then e else ent m p j)" for p j
    unfolding m'_def using mem i by (rule ent_upd)
  have ce: "child W e = None" "\<not> huge e" "entry_mapped W e" using unused_parts [OF e, of W] e by (auto simp: entry_mapped_def)
  have rP: "goto W m root (P @ [i]) = Inr r" using P c by (auto simp: goto_snoc)
  have Pi: "path_ok (P @ [i])" "length (P @ [i]) \<le> 3" using P i by simp_all
  have g: "goto W m' root Q = Inr x \<longleftrightarrow> goto W m root Q = Inr x \<and> \<not> prefix (P @ [i]) Q"
    if "path_ok Q" "length Q \<le> 3" for Q x
    using that
  proof (induction Q arbitrary: x rule: rev_induct)
    case (snoc j Q)
    have IH: "goto W m' root Q = Inr y \<longleftrightarrow> goto W m root Q = Inr y \<and> \<not> prefix (P @ [i]) Q" for y
      using snoc by simp
    have qP: "Q = P" if "goto W m root Q = Inr q"
      using tree_ok_unique [OF t that P(1)] snoc.prems P by simp
    show ?case
    proof (cases "prefix (P @ [i]) Q")
      case True
      then show ?thesis using IH by (auto simp: goto_snoc)
    next
      case False
      then have "prefix (P @ [i]) (Q @ [j]) \<longleftrightarrow> Q = P \<and> j = i" by auto
      moreover have "goto W m' root (Q @ [j]) = Inr x \<longleftrightarrow>
          (\<exists>y. goto W m root Q = Inr y \<and> child W (ent m' y j) = Some x)"
        using IH False by (simp add: goto_snoc)
      moreover have "\<dots> \<longleftrightarrow> (\<exists>y. goto W m root Q = Inr y \<and> child W (ent m y j) = Some x) \<and> \<not> (Q = P \<and> j = i)"
        using qP P(1) ce(1) by (cases "goto W m root Q") (auto simp: ent)
      ultimately show ?thesis by (simp add: goto_snoc)
    qed
  qed (use P in simp)
  have below: "Q = P @ [i] \<and> x = r"
    if Q: "path_ok Q" "prefix (P @ [i]) Q" and gx: "goto W m root Q = Inr x" for Q x
  proof -
    obtain R where R: "Q = (P @ [i]) @ R" using Q(2) by (auto elim: prefixE)
    show ?thesis
    proof (cases R)
      case Nil
      with R rP gx show ?thesis by simp
    next
      case (Cons j R')
      then have "goto W m r (j # R') = Inr x" using gx R rP goto_append [of W m root "P @ [i]" "j # R'"] by simp
      moreover have "is_unused (ent m r j)" using u Q(1) R Cons by (simp add: unused_table_def)
      ultimately show ?thesis using unused_parts [of "ent m r j" W] by simp
    qed
  qed
  show "tree_ok W m' root"
    unfolding tree_ok_def
  proof (intro conjI allI impI)
    show "mem_ok m'" using mem by (simp add: m'_def)
    show "A = B" if "path_ok A" "path_ok B" "length A \<le> 3" "length B \<le> 3"
      "goto W m' root A = Inr x" "goto W m' root B = Inr x" for A B x
      using that g [of A x] g [of B x] tree_ok_unique [OF t, of A x B] by simp
    show "entry_mapped W (ent m' x j)" if "path_ok A" "index_ok j" "length A \<le> 2" "goto W m' root A = Inr x"
      for A x j
      using that g [of A x] tree_ok_mapped [OF t, of A x j] ce(3) by (simp add: ent)
    show "\<not> huge (ent m' root j)" if "index_ok j" for j
      using tree_ok_root [OF t that] ce(2) by (simp add: ent)
  qed
  have s: "same_except W root m m' q i" unfolding m'_def using mem i by (rule same_except_upd)
  show "same_resolve W root m m'"
    unfolding same_resolve_def
  proof (intro allI impI)
    fix Q :: "PageTableIndex list" assume Q: "path_ok Q" "length Q = 4"
    show "resolve W m' root Q = resolve W m root Q"
    proof (cases "prefix (P @ [i]) Q")
      case True
      then obtain R where R: "Q = P @ i # R" by (auto elim: prefixE)
      with Q P obtain j R' where j: "R = j # R'" by (cases R) auto
      have "resolve W m root Q = resolve W m r R"
        using R j c P(1) by (simp add: resolve_append) (auto simp: child_def split: if_splits)
      moreover have "resolve W m r R = Unresolved"
        using u R Q by (intro resolve_empty_table) (auto simp: unused_table_def)
      moreover have "goto W m' root P = Inr q"
        using g [of P q] P by (simp add: not_prefix_shorter)
      then have "resolve W m' root Q = Unresolved"
        using R j ce by (simp add: resolve_append ent)
      ultimately show ?thesis by simp
    next
      case False
      then show ?thesis using Q P by (intro resolve_avoid [OF t s P(1)]) auto
    qed
  qed
  show "only_below W root P {i} m m'"
  proof (rule only_belowI)
    fix Q x k assume Q: "path_ok Q" "length Q \<le> 3" "\<And>j. j \<in> {i} \<Longrightarrow> \<not> prefix (P @ [j]) Q"
    show "goto W m' root Q = Inr x \<longleftrightarrow> goto W m root Q = Inr x" using g [OF Q(1,2)] Q(3) by simp
    show "ent m' x k = ent m x k" if "goto W m root Q = Inr x" "Q \<noteq> P \<or> k \<notin> {i}"
      using tree_ok_unique [OF t that(1), of P] that P Q by (auto simp: ent)
  qed
  show "r \<in> tables W m root" using rP Pi by (rule tablesI)
  show "tables W m' root = tables W m root - {r}"
    using g below tree_ok_unique [OF t rP _ Pi(1) _ Pi(2)] unfolding tables_def by blast
  show "goto W m' root Q \<noteq> Inr x" if "path_ok Q" "length Q \<le> 3" "prefix (P @ [i]) Q" for Q x
    using g [OF that(1,2), of x] that(3) by simp
qed


section \<open>The address ranges of a table and its entries\<close>

fun level_bits :: "PageTableLevel \<Rightarrow> nat" where
  "level_bits One = 21"
| "level_bits Two = 30"
| "level_bits Three = 39"
| "level_bits Four = 48"

lemma alignment_bits:
  "table_address_space_alignment L = 2 ^ level_bits L"
  "entry_address_space_alignment L = 2 ^ (level_bits L - 9)"
  by (cases L; simp add: table_address_space_alignment_def entry_address_space_alignment_def)+

lemma level_bits_bounds: "21 \<le> level_bits L" "level_bits L \<le> 48"
  by (cases L; simp)+

lemma align_down_pow:
  "k < 64 \<Longrightarrow> \<exists>r. align_down x (2 ^ k) = Some r \<and> unat r = unat x div 2 ^ k * 2 ^ k"
  using align_down_eq_Some [of x "2 ^ k"] align_down_None [of x "2 ^ k"]
  by (cases "align_down x (2 ^ k)") (auto simp: unat_pow2)

lemma table_start:
  assumes "canonical a"
  shows "\<exists>b. VirtAddr_align_down a (table_address_space_alignment L) = Some b \<and> canonical b \<and>
    lin b = lin a div 2 ^ level_bits L * 2 ^ level_bits L"
proof (cases "L = Four")
  case False
  then have "level_bits L \<le> 47" by (cases L) simp_all
  from VirtAddr_align_down_lin [OF assms this] show ?thesis
    by (auto simp: alignment_bits)
next
  case True
  obtain r where r: "align_down (va a) (2 ^ 48) = Some r" "unat r = unat (va a) div 2 ^ 48 * 2 ^ 48"
    using align_down_pow [of 48 "va a"] by auto
  have "lin (VirtAddr_new_truncate r) = 0" by (simp add: r(2))
  moreover have "lin a div 2 ^ 48 = 0" using lin_lt [of a] by simp
  ultimately show ?thesis
    using True r by (simp add: alignment_bits VirtAddr_align_down_def VirtAddr_align_down_u64_def)
qed

lemma canonical_end:
  assumes "canonical a" "unat (va a) mod 2 ^ k = 0" "k \<le> 47"
  shows "\<exists>b. VirtAddr_add a (2 ^ k - 1) = Some b \<and> canonical b \<and> lin b = lin a + (2 ^ k - 1)"
proof -
  obtain x where x: "unat (va a) = x * 2 ^ k" using assms(2) by (metis mod_0_imp_dvd dvd_def mult.commute)
  have u: "unat (2 ^ k - 1 :: u64) = 2 ^ k - 1"
    using assms(3) unat_sub_no_wrap [of 1 "2 ^ k :: u64"] by (simp add: unat_pow2 word_le_nat_alt)
  have e: "2 ^ 47 = (2 ^ (47 - k) * 2 ^ k :: nat)" "2 ^ 64 = (2 ^ (64 - k) * 2 ^ k :: nat)"
    using assms(3) by (simp_all flip: power_add)
  have b: "x * 2 ^ k + 2 ^ k \<le> 2 ^ 47" if "x * 2 ^ k < 2 ^ 47"
  proof -
    have "x < 2 ^ (47 - k)" using that unfolding e(1) by simp
    then have "Suc x * 2 ^ k \<le> 2 ^ (47 - k) * 2 ^ k" by (intro mult_right_mono) simp_all
    then show ?thesis unfolding e(1) by simp
  qed
  have b': "x * 2 ^ k + 2 ^ k \<le> 2 ^ 64"
  proof -
    have "x * 2 ^ k < 2 ^ 64" using unsigned_less [of "va a", where 'a = nat] x by simp
    then have "x < 2 ^ (64 - k)" unfolding e(2) by simp
    then have "Suc x * 2 ^ k \<le> 2 ^ (64 - k) * 2 ^ k" by (intro mult_right_mono) simp_all
    then show ?thesis unfolding e(2) by simp
  qed
  have pos: "(0 :: nat) < 2 ^ k" by simp
  define n where "n = unat (va a) + (2 ^ k - 1)"
  have n: "n < 2 ^ 64" "unat (va a) < 2 ^ 47 \<Longrightarrow> n < 2 ^ 47" "unat (va a) \<le> n"
    using b b' pos x unfolding n_def by linarith+
  let ?b = "VirtAddr (of_nat n)"
  have ub: "unat (va ?b) = n" using n(1) by (simp add: unat_of_nat_small)
  have c: "canonical ?b" using assms(1) n unfolding canonical_iff_unat ub by linarith
  have "VirtAddr_add a (2 ^ k - 1) = Some ?b"
    unfolding VirtAddr_add_eq_Some using c ub u by (simp add: n_def)
  moreover have "lin ?b = lin a + (2 ^ k - 1)"
  proof (cases "unat (va a) < 2 ^ 47")
    case True
    then have "lin a = unat (va a)" "lin ?b = n"
      using canonical_unat [OF assms(1)] canonical_unat [OF c] ub n(2) by (simp_all split: if_splits)
    then show ?thesis by (simp add: n_def)
  next
    case False
    then have "\<not> n < 2 ^ 47" using n(3) by linarith
    with False have "unat (va a) = lin a + (2 ^ 64 - 2 ^ 48)" "n = lin ?b + (2 ^ 64 - 2 ^ 48)"
      using canonical_unat [OF assms(1)] canonical_unat [OF c] ub by (simp_all split: if_splits)
    then show ?thesis using n_def by linarith
  qed
  ultimately show ?thesis using c by blast
qed

lemma containing_4kib:
  assumes "canonical a"
  shows "\<exists>p. Page_containing_address Size4KiB a = Some p \<and> page_ok Size4KiB p \<and>
    lin (page_start p) = lin a div 2 ^ 12 * 2 ^ 12"
  using Page_containing_address_spec [OF assms, of Size4KiB] by (auto simp: lin_page_num)

context extern_ok
begin

text \<open>The addresses of entry \<open>i\<close> of a table of level \<open>L\<close> that starts at \<open>a\<close>.\<close>

lemma entry_pages:
  assumes a: "canonical a" "lin a mod 2 ^ level_bits L = 0" and i: "i < 512"
  defines "k \<equiv> level_bits L - 9"
  shows "\<exists>n st en sp ep. mul_op X (entry_address_space_alignment L) (of_nat i) = Some n \<and>
    VirtAddr_forward_checked_impl X a n = Some (Some st) \<and>
    VirtAddr_add st (entry_address_space_alignment L - 1) = Some en \<and>
    Page_containing_address Size4KiB st = Some sp \<and> Page_containing_address Size4KiB en = Some ep \<and>
    page_ok Size4KiB sp \<and> page_ok Size4KiB ep \<and> lin (page_start sp) = lin a + i * 2 ^ k \<and>
    lin (page_start ep) + 2 ^ 12 = lin a + Suc i * 2 ^ k"
proof -
  have k: "12 \<le> k" "k \<le> 39" "level_bits L = k + 9" using level_bits_bounds [of L] by (simp_all add: k_def)
  have ik: "Suc i * 2 ^ k \<le> 2 ^ (k + 9)"
    using i mult_right_mono [of "Suc i" 512 "2 ^ k :: nat"] by (simp add: power_add)
  have "(2 :: nat) ^ (k + 9) \<le> 2 ^ 48" using k(2) by (intro power_increasing) simp_all
  have al: "lin a + 2 ^ (k + 9) \<le> 2 ^ 48"
  proof -
    obtain x where x: "lin a = x * 2 ^ (k + 9)" using a(2) k(3) by (metis mod_0_imp_dvd dvd_def mult.commute)
    have e: "(2 :: nat) ^ 48 = 2 ^ (39 - k) * 2 ^ (k + 9)" using k(2) by (simp flip: power_add)
    have "x * 2 ^ (k + 9) < 2 ^ (39 - k) * 2 ^ (k + 9)" using lin_lt [of a] unfolding x e .
    then have "x < 2 ^ (39 - k)" by simp
    then have "Suc x * 2 ^ (k + 9) \<le> 2 ^ (39 - k) * 2 ^ (k + 9)" by (intro mult_right_mono) simp_all
    then show ?thesis unfolding x e by simp
  qed
  define n :: u64 where "n = 2 ^ k * of_nat i"
  have ui: "unat (of_nat i :: u64) = i" using i by (intro unat_of_nat_small) simp
  have uk: "unat (2 ^ k :: u64) = 2 ^ k" using k(2) by (simp add: unat_pow2)
  have lt: "2 ^ k * i < 2 ^ 64" using ik al by (simp add: mult.commute)
  then have un: "unat n = i * 2 ^ k"
    unfolding n_def using ui uk by (subst unat_mul_no_wrap) (simp_all add: mult.commute)
  have mul: "mul_op X (2 ^ k) (of_nat i) = Some n"
    using lt ui uk by (simp add: mul_op_def checked_mul_def n_def)
  have pos: "(0 :: nat) < 2 ^ k" by simp
  have "lin a + unat n < 2 ^ 48" using un ik al pos unfolding mult_Suc by linarith
  then obtain st where st: "VirtAddr_forward_checked_u64 X a n = Some (Some st)" "canonical st"
      "lin st = lin a + i * 2 ^ k"
    using forward_checked_some [OF a(1), of n] un by auto
  have "2 ^ k dvd lin a" using a(2) k(3) by (metis dvd_trans le_add1 le_imp_power_dvd mod_0_imp_dvd)
  then have m: "lin st mod 2 ^ k = 0" unfolding st(3) by simp
  then have "unat (va st) mod 2 ^ k = 0" using lin_mod_pow [of k st] k(2) by simp
  then obtain en where en: "VirtAddr_add st (2 ^ k - 1) = Some en" "canonical en" "lin en = lin st + (2 ^ k - 1)"
    using canonical_end [OF st(2), of k] k(2) by auto
  obtain sp ep where sp: "Page_containing_address Size4KiB st = Some sp" "page_ok Size4KiB sp"
      "lin (page_start sp) = lin st div 2 ^ 12 * 2 ^ 12"
    and ep: "Page_containing_address Size4KiB en = Some ep" "page_ok Size4KiB ep"
      "lin (page_start ep) = lin en div 2 ^ 12 * 2 ^ 12"
    using containing_4kib [OF st(2)] containing_4kib [OF en(2)] by blast
  have d: "2 ^ 12 dvd lin st" "(2 :: nat) ^ 12 dvd 2 ^ k"
    using m k(1) by (meson dvd_trans le_imp_power_dvd mod_0_imp_dvd)+
  have "lin (page_start sp) = lin st" unfolding sp(3) using d(1) by (rule dvd_div_mult_self)
  moreover have "lin (page_start ep) + 2 ^ 12 = lin st + 2 ^ k"
  proof -
    obtain z where z: "lin st + 2 ^ k = 2 ^ 12 * z" using dvd_add [OF d] by (auto elim: dvdE)
    then have "0 < z" using pos by (cases z) simp_all
    then have "(2 ^ 12 * z - 1) div 2 ^ 12 = z - 1" by (intro div_nat_eqI) (simp_all add: algebra_simps)
    moreover have "lin en = 2 ^ 12 * z - 1" using en(3) z pos by linarith
    ultimately show ?thesis using z \<open>0 < z\<close> unfolding ep(3) by (cases z) simp_all
  qed
  ultimately show ?thesis
    using mul st en sp(1,2) ep(1,2)
    by (simp add: alignment_bits VirtAddr_forward_checked_impl_def u64_try_from_def flip: k_def)
qed

end


section \<open>Cleaning up a table\<close>

fun level_depth :: "PageTableLevel \<Rightarrow> nat" where
  "level_depth One = 3"
| "level_depth Two = 2"
| "level_depth Three = 1"
| "level_depth Four = 0"

text \<open>The range covers exactly the addresses of one table of level \<open>L\<close>.\<close>

definition whole :: "PageTableLevel \<Rightarrow> PageRangeInclusive \<Rightarrow> bool" where
  "whole L rng \<longleftrightarrow> lin (page_start (start_page_incl rng)) mod 2 ^ level_bits L = 0 \<and>
     lin (page_start (end_page_incl rng)) + 2 ^ 12 = lin (page_start (start_page_incl rng)) + 2 ^ level_bits L"

definition rng_ok :: "PageRangeInclusive \<Rightarrow> bool" where
  "rng_ok rng \<longleftrightarrow> page_ok Size4KiB (start_page_incl rng) \<and> page_ok Size4KiB (end_page_incl rng)"

text \<open>No table below the entry \<open>i\<close> of the table at \<open>P\<close> is empty.\<close>

definition pruned :: "PageTableWalker \<Rightarrow> u64 \<Rightarrow> PageTableIndex list \<Rightarrow> PageTableIndex \<Rightarrow> mem \<Rightarrow> bool" where
  "pruned W root P i m \<longleftrightarrow> (\<forall>Q q. path_ok Q \<longrightarrow> length Q \<le> 3 \<longrightarrow> prefix (P @ [i]) Q \<longrightarrow>
     goto W m root Q = Inr q \<longrightarrow> \<not> unused_table m q)"

lemma pruned_only_below:
  assumes p: "pruned W root P i m" and o: "only_below W root P J m m'" and "i \<notin> J"
  shows "pruned W root P i m'"
  unfolding pruned_def
proof (intro allI impI)
  fix Q q assume Q: "path_ok Q" "length Q \<le> 3" "prefix (P @ [i]) Q" "goto W m' root Q = Inr q"
  obtain R where R: "Q = P @ i # R" using Q(3) by (auto elim: prefixE)
  have n: "\<not> prefix (P @ [j]) Q" if "j \<in> J" for j
    using that assms(3) R by auto
  then have g: "goto W m root Q = Inr q" using only_below_goto [OF o Q(1,2)] Q(4) by blast
  have "Q \<noteq> P" using R by simp
  then have "ent m' q k = ent m q k" if "index_ok k" for k
    using only_below_ent [OF o Q(1,2) n g that] by blast
  then show "\<not> unused_table m' q"
    using p Q g unfolding pruned_def unused_table_def by auto
qed

definition cleaned :: "PageTableWalker \<Rightarrow> u64 \<Rightarrow> 'd deallocate_frame \<Rightarrow> PageTableIndex list \<Rightarrow> PageTableIndex set \<Rightarrow>
    mem \<times> 'd \<Rightarrow> mem \<times> 'd \<Rightarrow> bool" where
  "cleaned W root deallocate P J s s' \<longleftrightarrow> tree_ok W (fst s') root \<and> same_resolve W root (fst s) (fst s') \<and>
     only_below W root P J (fst s) (fst s') \<and> freed W root deallocate s s'"

lemma cleaned_refl: "tree_ok W (fst s) root \<Longrightarrow> cleaned W root deallocate P J s s"
  by (simp add: cleaned_def same_resolve_def only_below_refl freed_refl)

lemma cleaned_trans:
  "cleaned W root deallocate P J s s' \<Longrightarrow> cleaned W root deallocate P K s' s'' \<Longrightarrow>
    cleaned W root deallocate P (J \<union> K) s s''"
  using same_resolve_trans only_below_trans freed_trans unfolding cleaned_def by metis

lemma cleaned_child:
  "cleaned W root deallocate (P @ [i]) UNIV s s' \<Longrightarrow> cleaned W root deallocate P {i} s s'"
  using only_below_child unfolding cleaned_def by blast

lemma cleaned_mono: "cleaned W root deallocate P J s s' \<Longrightarrow> J \<subseteq> K \<Longrightarrow> cleaned W root deallocate P K s s'"
  using only_below_mono unfolding cleaned_def by blast

lemma for_each_clean:
  assumes step: "\<And>i s. i \<in> set is \<Longrightarrow> I s \<Longrightarrow> \<exists>s'. body i s = Some s' \<and> I s' \<and>
      cleaned W root deallocate P {f i} s s' \<and> (C \<longrightarrow> pruned W root P (f i) (fst s'))"
    and "distinct (map f is)"
  shows "I s \<Longrightarrow> tree_ok W (fst s) root \<Longrightarrow> \<exists>s'. for_each is body s = Some s' \<and> I s' \<and>
    cleaned W root deallocate P (f ` set is) s s' \<and> (C \<longrightarrow> (\<forall>i\<in>set is. pruned W root P (f i) (fst s')))"
  using assms
proof (induction "is" arbitrary: s)
  case Nil
  then show ?case by (simp add: cleaned_refl)
next
  case (Cons i "is")
  obtain s1 where s1: "body i s = Some s1" "I s1" "cleaned W root deallocate P {f i} s s1"
      "C \<longrightarrow> pruned W root P (f i) (fst s1)"
    using Cons.prems(3) [of i s] Cons.prems(1) by (auto simp del: split_paired_Ex)
  then have "tree_ok W (fst s1) root" by (simp add: cleaned_def)
  then obtain s2 where s2: "for_each is body s1 = Some s2" "I s2" "cleaned W root deallocate P (f ` set is) s1 s2"
      "C \<longrightarrow> (\<forall>i\<in>set is. pruned W root P (f i) (fst s2))"
    using Cons.IH [OF s1(2)] Cons.prems(3,4) by (auto simp del: split_paired_Ex)
  have "C \<longrightarrow> pruned W root P (f i) (fst s2)"
    using s1(4) s2(3) Cons.prems(4) pruned_only_below [of W root P "f i" "fst s1" "f ` set is" "fst s2"]
    by (auto simp: cleaned_def)
  with s1 s2 cleaned_trans [OF s1(3) s2(3)] show ?case by auto
qed

text \<open>What \<open>clean_up_table\<close> does with the table \<open>p\<close> of level \<open>L\<close> at the path \<open>P\<close>.\<close>

definition cleans :: "extern \<Rightarrow> PageTableWalker \<Rightarrow> u64 \<Rightarrow> 'd deallocate_frame \<Rightarrow> PageTableLevel \<Rightarrow> bool" where
  "cleans X W root deallocate L \<longleftrightarrow> (\<forall>P p rng s. tree_ok W (fst s) root \<longrightarrow> path_ok P \<longrightarrow> length P = level_depth L \<longrightarrow>
     goto W (fst s) root P = Inr p \<longrightarrow> rng_ok rng \<longrightarrow>
     (\<exists>b s'. clean_up_table X W deallocate L p rng s = Some (b, s') \<and>
        cleaned W root deallocate P UNIV s s' \<and> (b \<longrightarrow> unused_table (fst s') p) \<and>
        (whole L rng \<longrightarrow> (b \<longleftrightarrow> unused_table (fst s') p) \<and> (\<forall>i. index_ok i \<longrightarrow> pruned W root P i (fst s')))))"

definition ix :: "nat \<Rightarrow> PageTableIndex" where
  "ix i = PageTableIndex (of_nat i)"

lemma ix_simps: "i < 512 \<Longrightarrow> idx (ix i) = i" "i < 512 \<Longrightarrow> index_ok (ix i)"
proof -
  assume "i < 512"
  then have "unat (of_nat i :: u16) = i" by (intro unat_of_nat_small) simp
  with \<open>i < 512\<close> show "idx (ix i) = i" "index_ok (ix i)" by (simp_all add: ix_def index_ok_def)
qed

lemma ix_idx: "index_ok i \<Longrightarrow> ix (idx i) = i"
  using ix_simps [of "idx i"] by (simp add: PageTableIndex_eq_iff index_ok_def)

lemma unused_table_iff: "mem_ok m \<Longrightarrow> list_all is_unused (PageTable_iter (m q)) \<longleftrightarrow> unused_table m q"
  unfolding unused_table_def PageTable_iter_def list_all_iff
  by (simp add: ent_def) (metis atLeastLessThan_iff index_ok_def ix_idx ix_simps le0)

text \<open>The body of the loop.\<close>

definition clean_entry :: "extern \<Rightarrow> PageTableWalker \<Rightarrow> 'd deallocate_frame \<Rightarrow> PageTableLevel \<Rightarrow> PageTableLevel \<Rightarrow>
    u64 \<Rightarrow> PageRangeInclusive \<Rightarrow> VirtAddr \<Rightarrow> nat \<Rightarrow> mem \<times> 'd \<Rightarrow> (mem \<times> 'd) option" where
  "clean_entry X W deallocate level next_level page_table rng table_addr = (\<lambda>i (m, d). do {
     r \<leftarrow> next_table_mut X W (entries (m page_table) ! i);
     case r of
       Inl _ \<Rightarrow> Some (m, d)
     | Inr next_page_table \<Rightarrow> do {
         n \<leftarrow> mul_op X (entry_address_space_alignment level) (of_nat i);
         st \<leftarrow> VirtAddr_forward_checked_impl X table_addr n;
         start \<leftarrow> st;
         end \<leftarrow> VirtAddr_add start (entry_address_space_alignment level - 1);
         start \<leftarrow> Page_containing_address Size4KiB start;
         let start = max start (start_page_incl rng);
         end \<leftarrow> Page_containing_address Size4KiB end;
         let end = min end (end_page_incl rng);
         (empty, (m, d)) \<leftarrow> clean_up_table X W deallocate next_level
           next_page_table (Page_range_inclusive start end) (m, d);
         if empty then do {
           f \<leftarrow> PageTableEntry_frame X (entries (m page_table) ! i);
           case f of
             Inl _ \<Rightarrow> panic
           | Inr frame \<Rightarrow>
               Some (m(page_table := (m page_table)\<lparr>entries :=
                       (entries (m page_table))[i := set_unused (entries (m page_table) ! i)]\<rparr>),
                     deallocate d frame)
         } else Some (m, d)
       }
   })"

lemma clean_up_table_unfold:
  "clean_up_table X W deallocate level page_table rng s =
     (if PageRangeInclusive_is_empty rng then Some (False, s)
      else do {
        table_addr \<leftarrow> VirtAddr_align_down (Page_start_address (start_page_incl rng))
                        (table_address_space_alignment level);
        (m, d) \<leftarrow> (case next_lower_level level of
            None \<Rightarrow> Some s
          | Some next_level \<Rightarrow>
              for_each [idx (Page_page_table_index (start_page_incl rng) level)..<
                  min 512 (idx (Page_page_table_index (end_page_incl rng) level) + 1)]
                (clean_entry X W deallocate level next_level page_table rng table_addr) s);
        Some (list_all is_unused (PageTable_iter (m page_table)), (m, d))
      })"
  by (subst clean_up_table.simps) (simp add: clean_entry_def Let_def unat_usize_from_index cong: option.case_cong)

lemma goto_prefix: "goto W m p (P @ R) = Inr q \<Longrightarrow> \<exists>x. goto W m p P = Inr x"
  by (auto simp: goto_append split: sum.splits)

lemma page_le_lin: "page_ok Size4KiB p \<Longrightarrow> page_ok Size4KiB q \<Longrightarrow> p \<le> q \<longleftrightarrow> lin (page_start p) \<le> lin (page_start q)"
  by (simp add: less_eq_Page_def lin_le_iff page_ok_def)

lemma whole_child:
  assumes w: "whole L rng" and ok: "rng_ok rng" and L: "next_lower_level L = Some L'" and i: "i < 512"
    and sp: "page_ok Size4KiB sp" "lin (page_start sp) = lin (page_start (start_page_incl rng)) + i * 2 ^ (level_bits L - 9)"
    and ep: "page_ok Size4KiB ep" "lin (page_start ep) + 2 ^ 12 =
      lin (page_start (start_page_incl rng)) + Suc i * 2 ^ (level_bits L - 9)"
  shows "whole L' (Page_range_inclusive (max sp (start_page_incl rng)) (min ep (end_page_incl rng)))"
proof -
  define k where "k = level_bits L - 9"
  have k: "level_bits L = k + 9" "level_bits L' = k" using L by (cases L; simp add: k_def)+
  note sp2 = sp(2) [folded k_def] and ep2 = ep(2) [folded k_def]
  have "Suc i * 2 ^ k \<le> 2 ^ (k + 9)"
    using i mult_right_mono [of "Suc i" 512 "2 ^ k :: nat"] by (simp add: power_add)
  then have "lin (page_start ep) \<le> lin (page_start (end_page_incl rng))"
    using w ep2 unfolding whole_def k by linarith
  moreover have "lin (page_start (start_page_incl rng)) \<le> lin (page_start sp)" using sp(2) by simp
  ultimately have "start_page_incl rng \<le> sp" "ep \<le> end_page_incl rng"
    using ok sp(1) ep(1) by (simp_all add: page_le_lin rng_ok_def)
  then have "max sp (start_page_incl rng) = sp" "min ep (end_page_incl rng) = ep"
    by (simp_all add: max_absorb1 min_absorb1)
  moreover have "2 ^ k dvd lin (page_start (start_page_incl rng))"
    using w unfolding whole_def k by (metis dvd_trans le_add1 le_imp_power_dvd mod_0_imp_dvd)
  ultimately show ?thesis
    using sp2 ep2 unfolding whole_def k by (simp add: Page_range_inclusive_def)
qed

lemma pruned_child:
  assumes g: "goto W m root (P @ [i]) = Inr q" and u: "\<not> unused_table m q"
    and b: "\<And>j. index_ok j \<Longrightarrow> pruned W root (P @ [i]) j m"
  shows "pruned W root P i m"
  unfolding pruned_def
proof (intro allI impI)
  fix Q x assume Q: "path_ok Q" "length Q \<le> 3" "prefix (P @ [i]) Q" "goto W m root Q = Inr x"
  obtain R where R: "Q = (P @ [i]) @ R" using Q(3) by (auto elim: prefixE)
  show "\<not> unused_table m x"
  proof (cases R)
    case Nil
    with R Q(4) g u show ?thesis by simp
  next
    case (Cons j R')
    then have "index_ok j" "prefix ((P @ [i]) @ [j]) Q" using R Q(1) by simp_all
    with b Q show ?thesis unfolding pruned_def by blast
  qed
qed

context extern_ok
begin

lemma clean_entry_ok:
  assumes child: "cleans X W root deallocate L'" and L: "next_lower_level L = Some L'"
    and t: "tree_ok W (fst s) root" and P: "path_ok P" "length P = level_depth L"
    and g: "goto W (fst s) root P = Inr p" and rng: "rng_ok rng" and i: "i < 512"
    and a: "canonical a" "lin a = lin (page_start (start_page_incl rng)) div 2 ^ level_bits L * 2 ^ level_bits L"
  shows "\<exists>s'. clean_entry X W deallocate L L' p rng a i s = Some s' \<and>
      cleaned W root deallocate P {ix i} s s' \<and> (whole L rng \<longrightarrow> pruned W root P (ix i) (fst s'))"
proof -
  obtain m d where s: "s = (m, d)" by (cases s)
  note t = t [unfolded s fst_conv] and g = g [unfolded s fst_conv]
  have e: "entries (n p) ! i = ent n p (ix i)" for n using i by (simp add: ent_def ix_simps)
  have u: "n(p := (n p)\<lparr>entries := (entries (n p))[i := x]\<rparr>) = upd n p (ix i) x" for n x
    using i by (simp add: upd_def ix_simps)
  have P2: "length P \<le> 2" using L P(2) by (cases L) simp_all
  have iok: "index_ok (ix i)" using i by (rule ix_simps)
  have em: "entry_mapped W (ent m p (ix i))" using tree_ok_mapped [OF t g P(1) iok P2] .
  note d = clean_entry_def e u next_table_mut_eq next_table_eq
  show ?thesis
  proof (cases "child W (ent m p (ix i))")
    case None
    have "goto W m root (P @ [ix i]) \<noteq> Inr x" for x using None g by (simp add: goto_snoc)
    then have "pruned W root P (ix i) m"
      unfolding pruned_def using goto_prefix by (metis prefixE)
    then show ?thesis
      using None t em s by (simp add: d cleaned_refl)
  next
    case (Some q)
    then have gq: "goto W m root (P @ [ix i]) = Inr q" using g by (auto simp: goto_snoc)
    have P': "path_ok (P @ [ix i])" "length (P @ [ix i]) = level_depth L'" "length (P @ [ix i]) \<le> 3"
      using P P2 L iok by (simp_all, cases L) simp_all
    have al: "lin a mod 2 ^ level_bits L = 0" using a(2) by simp
    obtain n st en sp ep where ar: "mul_op X (entry_address_space_alignment L) (of_nat i) = Some n"
        "VirtAddr_forward_checked_impl X a n = Some (Some st)"
        "VirtAddr_add st (entry_address_space_alignment L - 1) = Some en"
        "Page_containing_address Size4KiB st = Some sp" "Page_containing_address Size4KiB en = Some ep"
      and sp: "page_ok Size4KiB sp" "lin (page_start sp) = lin a + i * 2 ^ (level_bits L - 9)"
      and ep: "page_ok Size4KiB ep" "lin (page_start ep) + 2 ^ 12 = lin a + Suc i * 2 ^ (level_bits L - 9)"
      using entry_pages [OF a(1) al i] by (elim exE conjE) (rule that)
    let ?rng = "Page_range_inclusive (max sp (start_page_incl rng)) (min ep (end_page_incl rng))"
    have "rng_ok ?rng" using rng sp ep by (simp add: rng_ok_def Page_range_inclusive_def max_def min_def)
    then obtain b s1 where b: "clean_up_table X W deallocate L' q ?rng (m, d) = Some (b, s1)"
        "cleaned W root deallocate (P @ [ix i]) UNIV (m, d) s1" "b \<Longrightarrow> unused_table (fst s1) q"
        "whole L' ?rng \<Longrightarrow> (b \<longleftrightarrow> unused_table (fst s1) q) \<and> (\<forall>j. index_ok j \<longrightarrow> pruned W root (P @ [ix i]) j (fst s1))"
      using child P' gq t unfolding cleans_def by (metis fst_conv)
    obtain m1 d1 where s1: "s1 = (m1, d1)" by (cases s1)
    have t1: "tree_ok W m1 root" and o: "only_below W root (P @ [ix i]) UNIV m m1"
      using b(2) by (simp_all add: cleaned_def s1)
    have gq1: "goto W m1 root (P @ [ix i]) = Inr q" using only_below_self [OF o P'(1,3)] gq by simp
    have g1: "goto W m1 root P = Inr p"
      using only_below_self [OF only_below_child [OF o] P(1)] P2 g by simp
    then have c1: "child W (ent m1 p (ix i)) = Some q" using gq1 by (simp add: goto_snoc)
    have nt: "next_table X W (ent m p (ix i)) = Some (Inr q)"
      using Some em by (auto simp: next_table_eq child_def split: if_splits)
    have cl: "cleaned W root deallocate P {ix i} (m, d) (m1, d1)"
      using cleaned_child [OF b(2)] by (simp add: s1)
    have wh: "whole L' ?rng" if "whole L rng"
    proof (rule whole_child [OF that rng L i sp(1) _ ep(1)])
      have "lin a = lin (page_start (start_page_incl rng))"
        using that a(2) unfolding whole_def by (metis dvd_div_mult_self mod_0_imp_dvd)
      then show "lin (page_start sp) = lin (page_start (start_page_incl rng)) + i * 2 ^ (level_bits L - 9)"
        "lin (page_start ep) + 2 ^ 12 = lin (page_start (start_page_incl rng)) + Suc i * 2 ^ (level_bits L - 9)"
        using sp(2) ep(2) by simp_all
    qed
    show ?thesis
    proof (cases b)
      case False
      then have "clean_entry X W deallocate L L' p rng a i s = Some (m1, d1)"
        using ar b(1) nt by (simp add: clean_entry_def e next_table_mut_eq s s1)
      moreover have "pruned W root P (ix i) m1" if "whole L rng"
        using b(4) [OF wh [OF that], unfolded s1 fst_conv] False by (intro pruned_child [OF gq1]) blast+
      ultimately show ?thesis using cl s by auto
    next
      case True
      let ?e = "ent m1 p (ix i)"
      let ?f = "PhysFrame (entry_addr ?e)" and ?m = "upd m1 p (ix i) (set_unused ?e)"
      have f: "PageTableEntry_frame X ?e = Some (Inr ?f)" "page_table_frame_mapping W ?f = Some q"
        using c1 by (auto simp: frame_eq child_def split: if_splits)
      have un: "unused_table m1 q" "is_unused (set_unused ?e)"
        using b(3) [OF True] by (simp_all add: s1 set_unused_def is_unused_def)
      note rm = remove_table [OF t1 g1 P(1) P2 iok c1 un]
      have "freed W root deallocate (m1, d1) (?m, deallocate d1 ?f)"
        unfolding freed_def using f(2) rm(4,5)
        by (intro exI [of _ "[?f]"] exI [of _ "[q]"]) auto
      then have "cleaned W root deallocate P {ix i} (m1, d1) (?m, deallocate d1 ?f)"
        using rm(1-3) by (simp add: cleaned_def)
      from cleaned_trans [OF cl this]
      have "cleaned W root deallocate P {ix i} (m, d) (?m, deallocate d1 ?f)" by simp
      moreover have "pruned W root P (ix i) ?m"
        unfolding pruned_def using rm(6) by blast
      moreover have "clean_entry X W deallocate L L' p rng a i s = Some (?m, deallocate d1 ?f)"
        using ar b(1) nt f(1) True by (simp add: clean_entry_def e u next_table_mut_eq s s1)
      ultimately show ?thesis using s by auto
    qed
  qed
qed

lemma table_index_level:
  "idx (Page_page_table_index p L) = lin (page_start p) div 2 ^ (level_bits L - 9) mod 2 ^ 9"
  by (cases L) (simp_all only: Page_page_table_index_def Page_start_address_def page_table_index_lin
      level_bits.simps, simp_all)

lemma whole_indices:
  assumes w: "whole L rng" and ok: "rng_ok rng"
  shows "idx (Page_page_table_index (start_page_incl rng) L) = 0"
    "idx (Page_page_table_index (end_page_incl rng) L) = 511" "\<not> PageRangeInclusive_is_empty rng"
proof -
  define k where "k = level_bits L - 9"
  have k: "level_bits L = k + 9" "12 \<le> k" using level_bits_bounds [of L] by (simp_all add: k_def)
  obtain x where x: "lin (page_start (start_page_incl rng)) = x * 2 ^ (k + 9)"
    using w unfolding whole_def k by (metis mod_0_imp_dvd dvd_def mult.commute)
  have x': "x * 2 ^ (k + 9) = (x * 2 ^ 9) * 2 ^ k" by (simp add: power_add)
  have e: "lin (page_start (end_page_incl rng)) + 2 ^ 12 = (x * 2 ^ 9 + 511) * 2 ^ k + 2 ^ k"
    using w x unfolding whole_def k x' by (simp add: power_add algebra_simps)
  have p: "(2 :: nat) ^ 12 \<le> 2 ^ k" using k(2) by (intro power_increasing) simp_all
  have "lin (page_start (end_page_incl rng)) div 2 ^ k = x * 2 ^ 9 + 511"
    using e p by (intro div_nat_eqI) (simp_all add: algebra_simps)
  then show "idx (Page_page_table_index (end_page_incl rng) L) = 511"
    unfolding table_index_level k_def [symmetric] by simp
  show "idx (Page_page_table_index (start_page_incl rng) L) = 0"
    unfolding table_index_level k_def [symmetric] x x' by simp
  have "lin (page_start (start_page_incl rng)) \<le> lin (page_start (end_page_incl rng))"
    using e p unfolding x x' by (simp add: algebra_simps)
  then show "\<not> PageRangeInclusive_is_empty rng"
    using ok by (simp add: PageRangeInclusive_is_empty_def not_less page_le_lin rng_ok_def)
qed

lemma ix_inj: "inj_on ix {..<512}"
  by (rule inj_onI) (metis ix_simps(1) lessThan_iff)

lemma cleans_step:
  assumes below: "\<And>L'. next_lower_level L = Some L' \<Longrightarrow> cleans X W root deallocate L'"
  shows "cleans X W root deallocate L"
  unfolding cleans_def
proof (intro allI impI)
  fix P p rng and s :: "mem \<times> 'a"
  assume t: "tree_ok W (fst s) root" and P: "path_ok P" "length P = level_depth L"
    and g: "goto W (fst s) root P = Inr p" and rng: "rng_ok rng"
  have P3: "length P \<le> 3" using P(2) by (cases L) simp_all
  let ?rest = "\<lambda>b s'. cleaned W root deallocate P UNIV s s' \<and> (b \<longrightarrow> unused_table (fst s') p) \<and>
    (whole L rng \<longrightarrow> (b \<longleftrightarrow> unused_table (fst s') p) \<and> (\<forall>i. index_ok i \<longrightarrow> pruned W root P i (fst s')))"
  show "\<exists>b s'. clean_up_table X W deallocate L p rng s = Some (b, s') \<and> ?rest b s'"
  proof (cases "PageRangeInclusive_is_empty rng")
    case True
    then show ?thesis
      using t whole_indices(3) [OF _ rng, of L]
      by (intro exI [of _ False] exI [of _ s]) (auto simp: clean_up_table_unfold cleaned_refl)
  next
    case False
    have "canonical (page_start (start_page_incl rng))" using rng by (simp add: rng_ok_def page_ok_def)
    then obtain a where a: "VirtAddr_align_down (page_start (start_page_incl rng))
        (table_address_space_alignment L) = Some a" "canonical a"
        "lin a = lin (page_start (start_page_incl rng)) div 2 ^ level_bits L * 2 ^ level_bits L"
      using table_start by blast
    let ?loop = "case next_lower_level L of None \<Rightarrow> Some s
          | Some L' \<Rightarrow> for_each [idx (Page_page_table_index (start_page_incl rng) L)..<
                  min 512 (idx (Page_page_table_index (end_page_incl rng) L) + 1)]
                (clean_entry X W deallocate L L' p rng a) s"
    have loop: "\<exists>s'. ?loop = Some s' \<and> goto W (fst s') root P = Inr p \<and> cleaned W root deallocate P UNIV s s' \<and>
        (whole L rng \<longrightarrow> (\<forall>i. index_ok i \<longrightarrow> pruned W root P i (fst s')))"
    proof (cases "next_lower_level L")
      case None
      then have "length P = 3" using P(2) by (cases L) simp_all
      then have "pruned W root P i m" for i m
        unfolding pruned_def by (auto dest: prefix_length_le)
      with None t g show ?thesis by (simp add: cleaned_refl)
    next
      case (Some L')
      let ?is = "[idx (Page_page_table_index (start_page_incl rng) L)..<
          min 512 (idx (Page_page_table_index (end_page_incl rng) L) + 1)]"
      have "distinct (map ix ?is)"
        unfolding distinct_map by (intro conjI distinct_upt inj_on_subset [OF ix_inj]) auto
      then have "\<exists>s'. for_each ?is (clean_entry X W deallocate L L' p rng a) s = Some s' \<and>
          (goto W (fst s') root P = Inr p \<and> tree_ok W (fst s') root) \<and>
          cleaned W root deallocate P (ix ` set ?is) s s' \<and>
          (whole L rng \<longrightarrow> (\<forall>i\<in>set ?is. pruned W root P (ix i) (fst s')))"
      proof (intro for_each_clean)
        fix i and s :: "mem \<times> 'a"
        assume i: "i \<in> set ?is" and I: "goto W (fst s) root P = Inr p \<and> tree_ok W (fst s) root"
        from i have i512: "i < 512" unfolding set_upt atLeastLessThan_iff min_less_iff_conj by blast
        from I have I': "goto W (fst s) root P = Inr p" "tree_ok W (fst s) root" by blast+
        from clean_entry_ok [OF below [OF Some] Some I'(2) P I'(1) rng i512 a(2,3)]
        obtain s' where s': "clean_entry X W deallocate L L' p rng a i s = Some s'"
            "cleaned W root deallocate P {ix i} s s'" "whole L rng \<longrightarrow> pruned W root P (ix i) (fst s')"
          by blast
        then have "goto W (fst s') root P = Inr p \<and> tree_ok W (fst s') root"
          using I only_below_self [of W root P "{ix i}" "fst s" "fst s'"] P(1) P3 by (simp add: cleaned_def)
        with s' show "\<exists>s'. clean_entry X W deallocate L L' p rng a i s = Some s' \<and>
            (goto W (fst s') root P = Inr p \<and> tree_ok W (fst s') root) \<and>
            cleaned W root deallocate P {ix i} s s' \<and> (whole L rng \<longrightarrow> pruned W root P (ix i) (fst s'))"
          by blast
      qed (use t g in simp_all)
      then obtain s' where s': "for_each ?is (clean_entry X W deallocate L L' p rng a) s = Some s'"
          "goto W (fst s') root P = Inr p" "cleaned W root deallocate P (ix ` set ?is) s s'"
          "whole L rng \<longrightarrow> (\<forall>i\<in>set ?is. pruned W root P (ix i) (fst s'))"
        by blast
      have "pruned W root P i (fst s')" if "whole L rng" "index_ok i" for i
        using s'(4) that whole_indices(1,2) [OF that(1) rng] ix_idx [OF that(2)]
        by (auto simp: index_ok_def dest: bspec [of _ _ "idx i"])
      with s' Some cleaned_mono [OF s'(3)] show ?thesis by auto
    qed
    then obtain m d where s': "?loop = Some (m, d)" "cleaned W root deallocate P UNIV s (m, d)"
        "whole L rng \<longrightarrow> (\<forall>i. index_ok i \<longrightarrow> pruned W root P i m)"
      by (metis (no_types, lifting) fst_conv surj_pair)
    have "mem_ok m" using s'(2) tree_ok_mem [of W m root] by (simp add: cleaned_def)
    then have "clean_up_table X W deallocate L p rng s = Some (unused_table m p, (m, d))"
      using False a(1) s'(1)
      by (simp add: clean_up_table_unfold Page_start_address_def unused_table_iff)
    with s'(2,3) show ?thesis by auto
  qed
qed

lemma clean_up_table_cleans: "cleans X W root deallocate L"
proof -
  have 1: "cleans X W root deallocate One" by (rule cleans_step) simp
  have 2: "cleans X W root deallocate Two" by (rule cleans_step) (simp add: 1)
  have 3: "cleans X W root deallocate Three" by (rule cleans_step) (simp add: 2)
  have 4: "cleans X W root deallocate Four" by (rule cleans_step) (simp add: 3)
  from 1 2 3 4 show ?thesis by (cases L) simp_all
qed

end

section \<open>Cleaning up a page table\<close>

lemma whole_range:
  "\<exists>p q. VirtAddr_new 0 = Some (VirtAddr 0) \<and> VirtAddr_new 0xfffffffffffff000 = Some (VirtAddr 0xfffffffffffff000) \<and>
     Page_from_start_address Size4KiB (VirtAddr 0) = Some (Inr p) \<and>
     Page_from_start_address Size4KiB (VirtAddr 0xfffffffffffff000) = Some (Inr q) \<and>
     rng_ok \<lparr>start_page_incl = p, end_page_incl = q\<rparr> \<and> whole Four \<lparr>start_page_incl = p, end_page_incl = q\<rparr>"
proof (intro exI conjI)
  let ?p = "Page (VirtAddr 0)" and ?q = "Page (VirtAddr 0xfffffffffffff000)"
  show "VirtAddr_new 0 = Some (VirtAddr 0)" "VirtAddr_new 0xfffffffffffff000 = Some (VirtAddr 0xfffffffffffff000)"
    by (simp_all add: VirtAddr_new_eq canonical_iff_unat)
  show "Page_from_start_address Size4KiB (VirtAddr 0) = Some (Inr ?p)"
    "Page_from_start_address Size4KiB (VirtAddr 0xfffffffffffff000) = Some (Inr ?q)"
    by (simp_all add: Page_from_start_address_eq canonical_iff_unat lin_def)
  show "rng_ok \<lparr>start_page_incl = ?p, end_page_incl = ?q\<rparr>"
    by (simp add: rng_ok_def page_ok_def canonical_iff_unat lin_def)
  show "whole Four \<lparr>start_page_incl = ?p, end_page_incl = ?q\<rparr>"
    by (simp add: whole_def lin_def)
qed

lemma goto_root: "goto W m root [] = Inr root"
  by simp

lemma clean_up_addr_range_cleaned:
  assumes "extern_ok X" and t: "tree_ok (page_table_walker self) m (level_4_table self)" and "rng_ok rng"
  shows "\<exists>m' d'. clean_up_addr_range X self deallocate rng (m, d) = Some (m', d') \<and>
    cleaned (page_table_walker self) (level_4_table self) deallocate [] UNIV (m, d) (m', d') \<and>
    (whole Four rng \<longrightarrow> (\<forall>i. index_ok i \<longrightarrow> pruned (page_table_walker self) (level_4_table self) [] i m'))"
proof -
  from extern_ok.clean_up_table_cleans [OF assms(1), of "page_table_walker self" "level_4_table self" deallocate Four]
  have "\<exists>b s'. clean_up_table X (page_table_walker self) deallocate Four (level_4_table self) rng (m, d) = Some (b, s') \<and>
      cleaned (page_table_walker self) (level_4_table self) deallocate [] UNIV (m, d) s' \<and>
      (whole Four rng \<longrightarrow> (\<forall>i. index_ok i \<longrightarrow> pruned (page_table_walker self) (level_4_table self) [] i (fst s')))"
    using t assms(3) goto_root unfolding cleans_def
    by (elim allE [of _ "[]"] allE [of _ "level_4_table self"] allE [of _ rng] allE [of _ "(m, d)"]) auto
  then show ?thesis by (auto simp: clean_up_addr_range_def)
qed

lemma cleaned_translate:
  assumes "extern_ok X" and "tree_ok (page_table_walker self) m (level_4_table self)"
    and "cleaned (page_table_walker self) (level_4_table self) deallocate P J (m, d) (m', d')"
  shows "translate X self m' v = translate X self m v"
  using assms extern_ok.translate_resolve [OF assms(1)] by (simp add: cleaned_def same_resolve_def)

lemma clean_up_whole:
  "\<exists>rng. rng_ok rng \<and> whole Four rng \<and> clean_up X self deallocate s = clean_up_addr_range X self deallocate rng s"
proof -
  obtain p q where "VirtAddr_new 0 = Some (VirtAddr 0)" "VirtAddr_new 0xfffffffffffff000 = Some (VirtAddr 0xfffffffffffff000)"
    "Page_from_start_address Size4KiB (VirtAddr 0) = Some (Inr p)"
    "Page_from_start_address Size4KiB (VirtAddr 0xfffffffffffff000) = Some (Inr q)"
    "rng_ok \<lparr>start_page_incl = p, end_page_incl = q\<rparr>" "whole Four \<lparr>start_page_incl = p, end_page_incl = q\<rparr>"
    using whole_range by blast
  then show ?thesis
    by (intro exI [of _ "\<lparr>start_page_incl = p, end_page_incl = q\<rparr>"]) (simp add: clean_up_def)
qed

text \<open>
  C5. Cleaning up an address range of a well-formed page table never panics; it changes the translation of
  no address, keeps the tree of tables well-formed, and hands to the deallocator, each exactly once, the
  frames of exactly the tables that it unlinks.
\<close>

theorem clean_up_addr_range_safe:
  assumes "extern_ok X" and "tree_ok (page_table_walker self) m (level_4_table self)" and "rng_ok rng"
  shows "\<exists>m' d' frames ptrs. clean_up_addr_range X self deallocate rng (m, d) = Some (m', d') \<and>
    tree_ok (page_table_walker self) m' (level_4_table self) \<and>
    (\<forall>v. translate X self m' v = translate X self m v) \<and>
    d' = foldl deallocate d frames \<and>
    map (page_table_frame_mapping (page_table_walker self)) frames = map Some ptrs \<and> distinct ptrs \<and>
    tables (page_table_walker self) m' (level_4_table self) \<subseteq> tables (page_table_walker self) m (level_4_table self) \<and>
    set ptrs = tables (page_table_walker self) m (level_4_table self) -
      tables (page_table_walker self) m' (level_4_table self)"
proof -
  obtain m' d' where c: "clean_up_addr_range X self deallocate rng (m, d) = Some (m', d')"
      "cleaned (page_table_walker self) (level_4_table self) deallocate [] UNIV (m, d) (m', d')"
    using clean_up_addr_range_cleaned [OF assms, of deallocate d] by blast
  have "freed (page_table_walker self) (level_4_table self) deallocate (m, d) (m', d')"
    "tree_ok (page_table_walker self) m' (level_4_table self)"
    using c(2) by (simp_all add: cleaned_def)
  with c cleaned_translate [OF assms(1,2) c(2)] show ?thesis unfolding freed_def fst_conv snd_conv by blast
qed

theorem clean_up_addr_range_safe_witness:
  "\<exists>m' d'. clean_up_addr_range (std_extern True) demo_mapper (\<lambda>fs f. f # fs)
      \<lparr>start_page_incl = demo_page, end_page_incl = demo_page\<rparr> (demo_mem, []) = Some (m', d') \<and>
    translate (std_extern True) demo_mapper m' (VirtAddr 0x400123) =
      translate (std_extern True) demo_mapper demo_mem (VirtAddr 0x400123) \<and> distinct d'"
proof -
  have r: "rng_ok \<lparr>start_page_incl = demo_page, end_page_incl = demo_page\<rparr>"
    by (simp add: rng_ok_def page_ok_def demo_page_def canonical_iff_unat lin_def)
  obtain m' d' fs ps where c: "clean_up_addr_range (std_extern True) demo_mapper (\<lambda>fs f. f # fs)
        \<lparr>start_page_incl = demo_page, end_page_incl = demo_page\<rparr> (demo_mem, []) = Some (m', d')"
      "\<forall>v. translate (std_extern True) demo_mapper m' v = translate (std_extern True) demo_mapper demo_mem v"
      "d' = foldl (\<lambda>fs f. f # fs) [] fs"
      "map (page_table_frame_mapping (page_table_walker demo_mapper)) fs = map Some ps" "distinct ps"
    using clean_up_addr_range_safe [OF std_extern_ok demo_tree r, of True "\<lambda>fs f. f # fs" "[]"]
    by (elim exE conjE) (rule that)
  have "distinct (map (page_table_frame_mapping (page_table_walker demo_mapper)) fs)"
    using c(4,5) by (simp add: distinct_map)
  then have "distinct fs" by (simp add: distinct_map)
  then have "distinct d'" using c(3) foldl_conv_fold [of "\<lambda>fs f. f # fs" "[]" fs] by (simp add: fold_Cons_rev)
  with c(1,2) show ?thesis by blast
qed

text \<open>
  C11. After \<open>clean_up\<close> over the whole address space, every table below the level 4 table has an entry in
  use: all empty tables, also those that only became empty during the run, are gone, and no translation
  has changed.
\<close>

theorem clean_up_leaves_no_empty_table:
  assumes "extern_ok X" and "tree_ok (page_table_walker self) m (level_4_table self)"
  shows "\<exists>m' d'. clean_up X self deallocate (m, d) = Some (m', d') \<and>
    (\<forall>v. translate X self m' v = translate X self m v) \<and>
    (\<forall>P q. path_ok P \<longrightarrow> 1 \<le> length P \<longrightarrow> length P \<le> 3 \<longrightarrow>
       goto (page_table_walker self) m' (level_4_table self) P = Inr q \<longrightarrow>
       \<not> PageTable_is_empty (m' q))"
proof -
  obtain rng where rng: "rng_ok rng" "whole Four rng"
      "clean_up X self deallocate (m, d) = clean_up_addr_range X self deallocate rng (m, d)"
    using clean_up_whole by blast
  obtain m' d' where c: "clean_up_addr_range X self deallocate rng (m, d) = Some (m', d')"
      "cleaned (page_table_walker self) (level_4_table self) deallocate [] UNIV (m, d) (m', d')"
      "\<forall>i. index_ok i \<longrightarrow> pruned (page_table_walker self) (level_4_table self) [] i m'"
    using clean_up_addr_range_cleaned [OF assms rng(1), of deallocate d] rng(2) by blast
  have "mem_ok m'" using c(2) tree_ok_mem [of _ m'] unfolding cleaned_def fst_conv by blast
  have "\<not> PageTable_is_empty (m' q)"
    if P: "path_ok P" "1 \<le> length P" "length P \<le> 3" "goto (page_table_walker self) m' (level_4_table self) P = Inr q" for P q
  proof -
    obtain i Q where "P = i # Q" using P(2) by (cases P) auto
    then have "pruned (page_table_walker self) (level_4_table self) [] i m'" "prefix ([] @ [i]) P"
      using c(3) P(1) by simp_all
    then have "\<not> unused_table m' q" using P unfolding pruned_def by blast
    then show ?thesis using \<open>mem_ok m'\<close> by (simp add: PageTable_is_empty_def unused_table_iff)
  qed
  with c(1) rng(3) cleaned_translate [OF assms c(2)] show ?thesis by auto
qed

theorem clean_up_leaves_no_empty_table_witness:
  "\<exists>m1 a1 m2 m3 d. map_to_with_table_flags (std_extern True) Size4KiB demo_mapper (bump_allocate 4096) demo_page
      demo_frame demo_flags demo_flags (demo_mem, 2) = Some (Inr (MapperFlush demo_page), (m1, a1)) \<and>
    unmap (std_extern True) Size4KiB demo_mapper demo_page m1 =
      Some (Inr (demo_frame, MapperFlush demo_page), m2) \<and>
    clean_up (std_extern True) demo_mapper (\<lambda>fs f. f # fs) (m2, []) = Some (m3, d) \<and>
    (\<forall>q. goto (page_table_walker demo_mapper) m3 (level_4_table demo_mapper) (page_parents Size4KiB demo_page) = Inr q
       \<longrightarrow> \<not> PageTable_is_empty (m3 q))"
proof -
  obtain m1 a1 where r: "map_to_with_table_flags (std_extern True) Size4KiB demo_mapper
      (bump_allocate 4096) demo_page demo_frame demo_flags demo_flags (demo_mem, 2) =
      Some (Inr (MapperFlush demo_page), (m1, a1))"
    using demo_map by blast
  obtain m2 where u: "unmap (std_extern True) Size4KiB demo_mapper demo_page m1 =
      Some (Inr (demo_frame, MapperFlush demo_page), m2)"
    using bump_mapped.map_unmap [OF demo_good demo_args r] by blast
  have "good (page_table_walker demo_mapper) (level_4_table demo_mapper) (bump_free 4096) (m1, a1)"
    using bump_mapped.map_total [OF demo_good demo_args, where c = True and p = demo_page] r by auto
  from bump_mapped.unmap_inv [OF this u]
  have t: "tree_ok (page_table_walker demo_mapper) m2 (level_4_table demo_mapper)" by (simp add: good_def)
  from clean_up_leaves_no_empty_table [OF std_extern_ok t, of True "\<lambda>fs f. f # fs" "[]"]
  obtain m3 d where c: "clean_up (std_extern True) demo_mapper (\<lambda>fs f. f # fs) (m2, []) = Some (m3, d)"
      "\<forall>P q. path_ok P \<longrightarrow> 1 \<le> length P \<longrightarrow> length P \<le> 3 \<longrightarrow>
         goto (page_table_walker demo_mapper) m3 (level_4_table demo_mapper) P = Inr q \<longrightarrow> \<not> PageTable_is_empty (m3 q)"
    by blast
  with r u c(1) page_path_ok(1) [of Size4KiB demo_page] length_parents(1,2) [of Size4KiB demo_page] show ?thesis by blast
qed

end
