(* ===== verification/Recursive_Properties.thy ===== *)
theory Recursive_Properties
  imports Recursive_Tree Mapper_Contract
begin

text \<open>
  The properties of the recursive page table: the refinement of the mapped page table on physical
  memory, the round trip of mapping and unmapping, translation, the checks of \<open>new\<close>, and the missing
  check for huge pages in \<open>update_flags\<close>. A concrete recursive table (level 4 table at \<open>0x1000\<close>,
  recursive index 510, a bump allocator) shows that the hypotheses can be met.
\<close>

section \<open>Mapping, translating and unmapping\<close>

context recursive_table
begin

lemma physical_mapper:
  "allocator_ok alloc free \<Longrightarrow> mapper X S (good phys_walker root free)
    (map_to_with_table_flags X S (physical root) alloc) (unmap X S (physical root))
    (translate_page X S (physical root)) (translate X (physical root))"
  using mapped_mapper [of alloc free S "physical root"] by simp

lemma Rec_map_to_view:
  assumes al: "allocator_ok alloc free" and r: "recursive_ok root (recursive_index self) m"
    and g: "good phys_walker root free (hide root (recursive_index self) m, a)"
    and ar: "map_args S f fl pfl" and i4: "Page_p4_index p \<noteq> recursive_index self"
    and nh: "goto phys_walker (hide root (recursive_index self) m) root (page_parents S p)
      \<noteq> Inl Walk_MappedToHugePage"
    and res: "Rec_map_to_with_table_flags X mmu S self alloc p f fl pfl (m, a) = Some (Inr x, (m', a'))"
  shows "recursive_ok root (recursive_index self) m'"
    "good phys_walker root free (hide root (recursive_index self) m', a')"
    "Rec_translate_page mmu S self m' p = Some (Inr f)"
    "\<And>v. canonical v \<Longrightarrow> VirtAddr_p4_index v \<noteq> recursive_index self \<Longrightarrow> Rec_translate X mmu self m' v =
      (if in_page S p v then Some (page_translation S f fl v) else Rec_translate X mmu self m v)"
    "\<exists>m''. Rec_unmap X mmu S self p m' = Some (Inr (f, MapperFlush p), m'') \<and>
      recursive_ok root (recursive_index self) m'' \<and>
      (\<forall>v. canonical v \<longrightarrow> VirtAddr_p4_index v \<noteq> recursive_index self \<longrightarrow>
        Rec_translate X mmu self m'' v = Rec_translate X mmu self m v)"
proof -
  let ?ri = "recursive_index self" and ?pfl = "(PRESENT OR WRITABLE) OR pfl"
  note pm = physical_mapper [OF al, of S]
  have a: "frame_ok S f" "pure_flags fl" "pure_flags pfl" "\<not> bit pfl 7" "map_args S f fl ?pfl"
    using ar table_flags_insert [of pfl] by (auto simp: map_args_def table_flags_def)
  have ph: "map_to_with_table_flags X S (physical root) alloc p f fl ?pfl (hide root ?ri m, a) =
      Some (Inr x, (hide root ?ri m', a'))" and r': "recursive_ok root ?ri m'"
    using Rec_map_to_refines [OF al r g a(1-4) i4 nh] res by auto
  show "recursive_ok root ?ri m'" by (rule r')
  show g': "good phys_walker root free (hide root ?ri m', a')"
    using mapper.map_total [OF pm g a(5), of p] ph by auto
  obtain q where "goto phys_walker (hide root ?ri m') root (page_parents S p) = Inr q"
    using map_to_spec [OF al, of "physical root" "hide root ?ri m" a S f fl ?pfl p] g a ph
    by (auto simp: map_result_def map_args_def)
  then show "Rec_translate_page mmu S self m' p = Some (Inr f)"
    using Rec_translate_page_spec [OF r' i4, of S] mapper.map_lookup [OF pm g a(5) ph] by simp
  show "Rec_translate X mmu self m' v =
      (if in_page S p v then Some (page_translation S f fl v) else Rec_translate X mmu self m v)"
    if "canonical v" "VirtAddr_p4_index v \<noteq> ?ri" for v
    using Rec_translate_refines [OF r' that] Rec_translate_refines [OF r that]
      mapper.map_view [OF pm g a(5) ph, of v] by simp
  obtain m'' where u: "Rec_unmap X mmu S self p m' = Some (Inr (f, MapperFlush p), m'')"
      "unmap X S (physical root) p (hide root ?ri m') = Some (Inr (f, MapperFlush p), hide root ?ri m'')"
      "recursive_ok root ?ri m''"
    using Rec_unmap_refines [OF r' i4, of S] mapper.map_unmap [OF pm g a(5) ph] by auto
  have "Rec_translate X mmu self m'' v = Rec_translate X mmu self m v"
    if "canonical v" "VirtAddr_p4_index v \<noteq> ?ri" for v
    using Rec_translate_refines [OF u(3) that] Rec_translate_refines [OF r that]
      mapper.map_unmap_restores [OF pm g a(5) ph] u(2) by auto
  with u show "\<exists>m''. Rec_unmap X mmu S self p m' = Some (Inr (f, MapperFlush p), m'') \<and>
      recursive_ok root ?ri m'' \<and> (\<forall>v. canonical v \<longrightarrow> VirtAddr_p4_index v \<noteq> ?ri \<longrightarrow>
        Rec_translate X mmu self m'' v = Rec_translate X mmu self m v)"
    by blast
qed

text \<open>An entry with the huge page bit is followed at the last step of a walk.\<close>

lemma Rec_update_flags_huge:
  assumes r: "recursive_ok root (recursive_index self) m" and i4: "Page_p4_index p \<noteq> recursive_index self"
    and g: "goto phys_walker (hide root (recursive_index self) m) root [Page_p4_index p, Page_p3_index p] = Inr q"
    and e: "e = ent m q (Page_p2_index p)" "huge e" "present e" "writable e"
    and d: "d = pa (entry_addr e)" "\<not> is_unused (ent m d (Page_p1_index p))"
  shows "Rec_update_flags X mmu Size4KiB self p fl m = Some (Inr (MapperFlush p),
      upd m d (Page_p1_index p) \<lparr>entry = (entry (ent m d (Page_p1_index p)) AND ADDR_MASK) OR fl\<rparr>)"
    "update_flags X Size4KiB (physical root) p fl (hide root (recursive_index self) m) =
      Some (Inl FlagUpdate_ParentEntryHugePage, hide root (recursive_index self) m)"
proof -
  let ?ri = "recursive_index self" and ?n = "hide root (recursive_index self) m"
  let ?i4 = "Page_p4_index p" and ?i3 = "Page_p3_index p" and ?i2 = "Page_p2_index p" and ?i1 = "Page_p1_index p"
  note ok = recursive_okD [OF r]
  obtain v3 v2 v1 where v: "table_ptr ?ri [?i4] = Some v3" "table_ptr ?ri [?i4, ?i3] = Some v2"
      "table_ptr ?ri [?i4, ?i3, ?i2] = Some v1"
    using table_ptr_path [of "[?i4]" ?ri] table_ptr_path [of "[?i4, ?i3]" ?ri]
      table_ptr_path [of "[?i4, ?i3, ?i2]" ?ri] index_ri by auto
  obtain q3 where e4: "present (ent ?n root ?i4)" "\<not> huge (ent ?n root ?i4)" "pa (entry_addr (ent ?n root ?i4)) = q3"
    and e3: "present (ent ?n q3 ?i3)" "\<not> huge (ent ?n q3 ?i3)" "pa (entry_addr (ent ?n q3 ?i3)) = q"
    using g by (auto split: if_splits)
  then have g3: "goto phys_walker ?n root [?i4] = Inr q3" by simp
  have w: "writable (ent ?n root ?i4)" "writable (ent ?n q3 ?i3)"
    using parents_writableD [OF r goto.simps(1) _ _ _ e4(1,2)] parents_writableD [OF r g3 _ _ _ e3(1,2)]
    by simp_all
  note r4 = read_at_path [OF r goto.simps(1) _ _ _ _ p4_address, of ?i4]
    and r3 = read_at_path [OF r g3 _ _ _ _ v(1), of ?i3] and r2 = read_at_path [OF r g _ _ _ _ v(2), of ?i2]
  have ent: "ent ?n root ?i4 = ent m root ?i4" "ent ?n q3 ?i3 = ent m q3 ?i3" "ent ?n q ?i2 = ent m q ?i2"
    using r4(3) r3(3) r2(3) i4 by simp_all
  have "hw_walk m b root [?i4, ?i3, ?i2] = Some d" for b
    using e4 e3 w e d by (simp add: ent)
  then have mm: "mmu m b v1 = Some d" for b
    using ok by (intro table_ptr_mmu [OF _ index_ri _ _ _ _ v(3)]) simp_all
  have nu: "\<not> is_unused (ent m root ?i4)" "\<not> is_unused (ent m q3 ?i3)" "\<not> is_unused (ent m q ?i2)"
    using e4 e3 e unused_parts [of _ phys_walker] ent by metis+
  show "Rec_update_flags X mmu Size4KiB self p fl m = Some (Inr (MapperFlush p),
      upd m d ?i1 \<lparr>entry = (entry (ent m d ?i1) AND ADDR_MASK) OR fl\<rparr>)"
    unfolding Rec_update_flags_walk using r4(1) r3(1) r2(1) i4 nu v d(2) ok(3)
    by (simp add: read_at_def [of mmu m v1] write_at_def [of mmu m v1] mm
        read_entry_eq write_entry_eq set_flags_eq leaf_flags_def)
  have "goto phys_walker ?n root [?i4, ?i3, ?i2] = Inl Walk_MappedToHugePage"
    using g e ent(3) by (auto simp: child_phys split: if_splits)
  then show "update_flags X Size4KiB (physical root) p fl ?n = Some (Inl FlagUpdate_ParentEntryHugePage, ?n)"
    using update_flags_spec [of "physical root" ?n Size4KiB p fl] ok(2) by simp
qed

end


text \<open>An aligned address with four equal indices is that of the level 4 table in the recursive region.\<close>

lemma recursive_address:
  assumes "page_ok Size4KiB (Page (VirtAddr v))" and "addr_path (VirtAddr v) = [i, i, i, i]"
  shows "table_ptr i [] = Some v"
proof -
  let ?p = "Page (VirtAddr v)"
  have "index_ok i" using addr_path_ok(1) [of "VirtAddr v"] assms(2) by simp
  then obtain q where q: "Page_from_page_table_indices i i i i = Some q" "page_ok Size4KiB q"
      "addr_path (page_start q) = [i, i, i, i]"
    using assembled_path [of i i i i] by auto
  have "prefix (page_path Size4KiB q) (addr_path (VirtAddr v))"
    using q(3) assms(2) by (simp add: page_path_def addr_path_def Page_p4_index_def Page_p3_index_def
        Page_p2_index_def Page_p1_index_def Page_start_address_def)
  then have "q = ?p"
    using q(2) assms(1)
    by (intro page_num_inj [of Size4KiB]) (simp_all only: addr_in_page page_num_def Page.sel)
  with q(1) show ?thesis by (simp add: table_ptr_def table_page_def numeral_eq_Suc)
qed

section \<open>A concrete recursive table\<close>

definition rec_index :: PageTableIndex where
  "rec_index = PageTableIndex 510"

definition rec_table :: RecursivePageTable where
  "rec_table = RecursivePageTable_new_unchecked 0xffffff7fbfdfe000 rec_index"

text \<open>Memory with one word of data in the frame at \<open>0x400000\<close>.\<close>

definition data_mem :: mem where
  "data_mem = upd (\<lambda>_. PageTable_new) 0x400000 (PageTableIndex 0) \<lparr>entry = 0x1234\<rparr>"

definition rec_mem :: mem where
  "rec_mem = upd data_mem 0x1000 rec_index \<lparr>entry = 0x1003\<rparr>"

lemma rec_index_ok: "index_ok rec_index" "recursive_index rec_table = rec_index"
  by (simp_all add: rec_index_def index_ok_def rec_table_def RecursivePageTable_new_unchecked_def)

lemma rec_address: "page_ok Size4KiB (Page (VirtAddr 0xffffff7fbfdfe000))"
  "addr_path (VirtAddr 0xffffff7fbfdfe000) = [rec_index, rec_index, rec_index, rec_index]"
proof -
  show "page_ok Size4KiB (Page (VirtAddr 0xffffff7fbfdfe000))"
    by (simp add: page_ok_def canonical_iff_unat lin_def)
  show "addr_path (VirtAddr 0xffffff7fbfdfe000) = [rec_index, rec_index, rec_index, rec_index]"
    by (simp add: addr_path_def PageTableIndex_eq_iff index_lin lin_def rec_index_def)
qed

lemmas rec_table_ptr = recursive_address [OF rec_address]

lemma rec_recursive: "recursive_table (std_extern c) (cpu_mmu 0x1000) 0x1000 rec_table"
  by unfold_locales (simp_all add: rec_index_ok rec_table_ptr rec_table_def RecursivePageTable_new_unchecked_def)

lemma data_mem_ok: "mem_ok data_mem"
  unfolding data_mem_def by (intro mem_ok_upd) (simp add: mem_ok_def PageTable_new_def ENTRY_COUNT_def)

lemma data_mem_table: "p \<noteq> 0x400000 \<Longrightarrow> data_mem p = PageTable_new"
  by (simp add: data_mem_def upd_def)

lemma data_mem_unused: "index_ok i \<Longrightarrow> p \<noteq> 0x400000 \<Longrightarrow> is_unused (ent data_mem p i)"
  by (simp add: ent_def data_mem_table PageTable_new_def ENTRY_COUNT_def index_ok_def is_unused_def
      PageTableEntry_new_def)

lemma rec_mem_hidden: "hide 0x1000 rec_index rec_mem = data_mem"
proof -
  have "ent data_mem 0x1000 rec_index = PageTableEntry_new"
    by (simp add: ent_def data_mem_table PageTable_new_def ENTRY_COUNT_def rec_index_def)
  then show ?thesis
    using upd_id [of data_mem "0x1000" rec_index] by (simp add: hide_def rec_mem_def upd_def)
qed

lemma rec_tree: "tree_ok phys_walker data_mem 0x1000" "tables phys_walker data_mem 0x1000 = {0x1000}"
  using data_mem_unused by (auto intro!: tree_ok_empty data_mem_ok simp: tree_ok_empty(2) data_mem_ok)

lemma rec_ok: "recursive_ok 0x1000 rec_index rec_mem"
proof -
  have "parents_writable 0x1000 data_mem"
    unfolding parents_writable_def
  proof (intro allI impI)
    fix P q i assume "path_ok P" "index_ok i" "goto phys_walker data_mem 0x1000 P = Inr q"
      and c: "child phys_walker (ent data_mem q i) \<noteq> None"
    then have "is_unused (ent data_mem q i)"
      using empty_goto [of data_mem "0x1000" P phys_walker q] data_mem_unused by simp
    with c unused_parts [of "ent data_mem q i" phys_walker] show "writable (ent data_mem q i)" by simp
  qed
  moreover have "ent rec_mem 0x1000 rec_index = \<lparr>entry = 0x1003\<rparr>"
    using data_mem_ok rec_index_ok by (simp add: rec_mem_def)
  moreover have "recursive_entry 0x1000 \<lparr>entry = 0x1003\<rparr>"
    by (simp add: recursive_entry_def present_def writable_def huge_def entry_addr_def ADDR_MASK_def)
  ultimately show ?thesis
    using rec_tree rec_index_ok by (simp add: recursive_ok_def rec_mem_hidden)
qed

lemma rec_good: "good phys_walker 0x1000 (bump_free 4096) (hide 0x1000 rec_index rec_mem, 2)"
proof -
  have "inj_on (page_table_frame_mapping phys_walker) F" for F
    by (auto simp: inj_on_def phys_walker_def PhysFrame.expand PhysAddr.expand)
  moreover have "pa (frame_start f) \<noteq> 0x1000" if f: "f \<in> bump_free 4096 2" for f
  proof -
    obtain k where k: "f = frame_at Size4KiB k" "2 \<le> k" "k < 4096" using f by (auto simp: bump_free_def)
    have "unat (of_nat (k * 4096) :: u64) = k * 4096"
      using k by (intro unat_of_nat_small) simp
    then have "unat (of_nat (k * 4096) :: u64) \<noteq> unat (0x1000 :: u64)" using k by simp
    then show ?thesis using k(1) by (auto simp: frame_at_def)
  qed
  ultimately show ?thesis
    using rec_tree by (auto simp: good_def frames_ok_def rec_mem_hidden phys_walker_def)
qed

definition rec_page :: Page where
  "rec_page = Page (VirtAddr 0x400000)"

lemma rec_page_indices: "Page_p4_index rec_page = PageTableIndex 0" "Page_p3_index rec_page = PageTableIndex 0"
  "Page_p2_index rec_page = PageTableIndex 2" "Page_p1_index rec_page = PageTableIndex 0"
proof -
  have "idx (Page_p4_index rec_page) = 0" "idx (Page_p3_index rec_page) = 0"
    "idx (Page_p2_index rec_page) = 2" "idx (Page_p1_index rec_page) = 0"
    by (simp_all add: Page_p4_index_def Page_p3_index_def Page_p2_index_def Page_p1_index_def
        Page_start_address_def rec_page_def index_lin lin_def)
  then show "Page_p4_index rec_page = PageTableIndex 0" "Page_p3_index rec_page = PageTableIndex 0"
    "Page_p2_index rec_page = PageTableIndex 2" "Page_p1_index rec_page = PageTableIndex 0"
    by (simp_all add: PageTableIndex_eq_iff)
qed

lemma rec_args: "map_args Size4KiB (PhysFrame (PhysAddr 0x6000)) 3 3"
  by (simp add: map_args_def table_flags_def pure_flags_def ADDR_MASK_def frame_ok_def phys_ok_def)

lemma rec_not_mapped: "goto phys_walker data_mem 0x1000 (Page_p4_index p # Q) = Inl Walk_NotMapped"
  using data_mem_unused [of "Page_p4_index p" "0x1000"] unused_parts [of _ phys_walker] by simp

lemma rec_not_huge: "goto phys_walker (hide 0x1000 (recursive_index rec_table) rec_mem) 0x1000
    (page_parents S p) \<noteq> Inl Walk_MappedToHugePage"
  using rec_not_mapped [of p] by (cases S) (simp_all add: rec_index_ok rec_mem_hidden del: goto.simps)

lemma rec_page_p4: "Page_p4_index rec_page \<noteq> recursive_index rec_table"
  by (simp add: rec_page_indices rec_index_ok rec_index_def)

lemma rec_map_succeeds: "\<exists>m' a'. Rec_map_to_with_table_flags (std_extern True) (cpu_mmu 0x1000) Size4KiB
    rec_table (bump_allocate 4096) rec_page (PhysFrame (PhysAddr 0x6000)) 3 3 (rec_mem, 2) =
    Some (Inr (MapperFlush rec_page), (m', a'))"
proof -
  have al: "allocator_ok (bump_allocate 4096) (bump_free 4096)" by (rule bump_allocator_ok) simp
  note g = rec_good [unfolded rec_mem_hidden]
  have ar: "frame_ok Size4KiB (PhysFrame (PhysAddr 0x6000))" "pure_flags 3" "\<not> bit (3 :: u64) 7"
    using rec_args by (simp_all add: map_args_def table_flags_def)
  have "\<exists>m' a'. map_to_with_table_flags (std_extern True) Size4KiB (physical 0x1000) (bump_allocate 4096)
      rec_page (PhysFrame (PhysAddr 0x6000)) 3 ((PRESENT OR WRITABLE) OR 3) (data_mem, 2) =
      Some (Inr (MapperFlush rec_page), (m', a'))"
  proof (rule std.map_to_ok [OF al])
    show "resolve (page_table_walker (physical 0x1000)) data_mem (level_4_table (physical 0x1000)) Q = Unresolved"
      if "path_ok Q" for Q
      using that data_mem_unused by (simp add: resolve_empty_table)
    show "can_allocate (bump_allocate 4096) (length (page_parents Size4KiB rec_page)) 2"
      by (rule bump_can_allocate) simp
  qed (use g ar table_flags_insert [of 3] in simp_all)
  then show ?thesis
    using recursive_table.Rec_map_to_refines [OF rec_recursive [of True] al, unfolded rec_index_ok, OF rec_ok rec_good
        ar(1) ar(2) ar(2) ar(3), of rec_page]
      rec_page_p4 rec_not_huge [of Size4KiB rec_page]
    by (auto simp: rec_index_ok rec_mem_hidden)
qed


lemma rec_bump: "allocator_ok (bump_allocate 4096) (bump_free 4096)"
  by (rule bump_allocator_ok) simp

section \<open>Properties\<close>

text \<open>
  C6. Mapping a page through the recursive page table refines mapping it in a mapped page table on
  physical memory with the parent flags \<open>PRESENT | WRITABLE\<close> added: for a page outside the recursive
  region and without a huge page above it, no access faults, the result and the allocator are the
  same, the memory differs only by the recursive entry, and the table stays recursive.
\<close>

theorem recursive_map_to_refines:
  assumes "recursive_table X mmu root self" and "allocator_ok alloc free"
    and "recursive_ok root (recursive_index self) m"
    and "good phys_walker root free (hide root (recursive_index self) m, a)"
    and "frame_ok S frame" and "pure_flags flags" and "pure_flags parent_flags"
    and "\<not> bit parent_flags 7" and "Page_p4_index page \<noteq> recursive_index self"
    and "goto phys_walker (hide root (recursive_index self) m) root (page_parents S page)
      \<noteq> Inl Walk_MappedToHugePage"
  shows "\<exists>res m' a'.
    map_to_with_table_flags X S (physical root) alloc page frame flags
      ((PRESENT OR WRITABLE) OR parent_flags) (hide root (recursive_index self) m, a) =
        Some (res, (hide root (recursive_index self) m', a')) \<and>
    Rec_map_to_with_table_flags X mmu S self alloc page frame flags parent_flags (m, a) =
        Some (res, (m', a')) \<and>
    recursive_ok root (recursive_index self) m'"
  by (rule recursive_table.Rec_map_to_refines [OF assms])

theorem recursive_map_to_refines_witness:
  "\<exists>res m' a'. Rec_map_to_with_table_flags (std_extern True) (cpu_mmu 0x1000) Size4KiB rec_table
      (bump_allocate 4096) rec_page (PhysFrame (PhysAddr 0x6000)) 3 0 (rec_mem, 2) =
        Some (res, (m', a')) \<and> recursive_ok 0x1000 rec_index m'"
proof -
  have a: "frame_ok Size4KiB (PhysFrame (PhysAddr 0x6000))" "pure_flags 3" "pure_flags 0"
    "\<not> bit (0 :: u64) 7"
    using rec_args by (simp_all add: map_args_def pure_flags_def)
  from recursive_map_to_refines [OF rec_recursive [of True] rec_bump _ _ a rec_page_p4 rec_not_huge]
    rec_ok rec_good
  show ?thesis by (fastforce simp only: rec_index_ok)
qed

text \<open>
  After a page outside the recursive region is mapped through the recursive page table, its
  addresses translate to the frame with the given flags and all others as before, \<open>translate_page\<close>
  returns the frame, and unmapping the page returns the frame and restores every translation. No
  access faults on the way.
\<close>

theorem recursive_map_unmap_roundtrip:
  assumes "recursive_table X mmu root self" and "allocator_ok alloc free"
    and "recursive_ok root (recursive_index self) m"
    and "good phys_walker root free (hide root (recursive_index self) m, a)"
    and "map_args S frame flags parent_flags" and "Page_p4_index page \<noteq> recursive_index self"
    and "goto phys_walker (hide root (recursive_index self) m) root (page_parents S page)
      \<noteq> Inl Walk_MappedToHugePage"
    and "Rec_map_to_with_table_flags X mmu S self alloc page frame flags parent_flags (m, a) =
      Some (Inr flush, (m', a'))"
  shows "(\<forall>v. canonical v \<longrightarrow> VirtAddr_p4_index v \<noteq> recursive_index self \<longrightarrow>
      Rec_translate X mmu self m' v = (if in_page S page v then Some (page_translation S frame flags v)
        else Rec_translate X mmu self m v)) \<and>
    Rec_translate_page mmu S self m' page = Some (Inr frame) \<and>
    (\<exists>m''. Rec_unmap X mmu S self page m' = Some (Inr (frame, MapperFlush page), m'') \<and>
      recursive_ok root (recursive_index self) m'' \<and>
      (\<forall>v. canonical v \<longrightarrow> VirtAddr_p4_index v \<noteq> recursive_index self \<longrightarrow>
        Rec_translate X mmu self m'' v = Rec_translate X mmu self m v))"
  using recursive_table.Rec_map_to_view(3-5) [OF assms] by blast

theorem recursive_map_unmap_roundtrip_witness:
  "\<exists>m' a' m''. Rec_map_to_with_table_flags (std_extern True) (cpu_mmu 0x1000) Size4KiB rec_table
      (bump_allocate 4096) rec_page (PhysFrame (PhysAddr 0x6000)) 3 3 (rec_mem, 2) =
        Some (Inr (MapperFlush rec_page), (m', a')) \<and>
    Rec_translate_page (cpu_mmu 0x1000) Size4KiB rec_table m' rec_page =
      Some (Inr (PhysFrame (PhysAddr 0x6000))) \<and>
    Rec_unmap (std_extern True) (cpu_mmu 0x1000) Size4KiB rec_table rec_page m' =
      Some (Inr (PhysFrame (PhysAddr 0x6000), MapperFlush rec_page), m'')"
proof -
  obtain m' a' where r: "Rec_map_to_with_table_flags (std_extern True) (cpu_mmu 0x1000) Size4KiB rec_table
      (bump_allocate 4096) rec_page (PhysFrame (PhysAddr 0x6000)) 3 3 (rec_mem, 2) =
        Some (Inr (MapperFlush rec_page), (m', a'))"
    using rec_map_succeeds by blast
  have ok: "recursive_ok 0x1000 (recursive_index rec_table) rec_mem"
    "good phys_walker 0x1000 (bump_free 4096) (hide 0x1000 (recursive_index rec_table) rec_mem, 2)"
    using rec_ok rec_good by (simp_all add: rec_index_ok)
  from recursive_map_unmap_roundtrip [OF rec_recursive rec_bump ok rec_args rec_page_p4 rec_not_huge r] r
  show ?thesis by blast
qed

text \<open>
  C13. For addresses outside the recursive region, \<open>translate\<close> of the recursive page table gives what
  \<open>translate\<close> of a mapped page table on physical memory gives, and so does \<open>translate_page\<close> for pages
  without a huge page above them; no access faults.
\<close>

theorem recursive_translate_equals_mapped:
  assumes "recursive_table X mmu root self" and "recursive_ok root (recursive_index self) m"
    and "canonical v" and "VirtAddr_p4_index v \<noteq> recursive_index self"
    and "Page_p4_index page \<noteq> recursive_index self"
    and "goto phys_walker (hide root (recursive_index self) m) root (page_parents S page)
      \<noteq> Inl Walk_MappedToHugePage"
  shows "Rec_translate X mmu self m v =
      translate X (physical root) (hide root (recursive_index self) m) v \<and>
    Rec_translate_page mmu S self m page =
      translate_page X S (physical root) (hide root (recursive_index self) m) page"
  using recursive_table.Rec_translate_refines [OF assms(1-4)]
    recursive_table.Rec_translate_page_spec [OF assms(1,2,5,6)] by blast

theorem recursive_translate_equals_mapped_witness:
  "Rec_translate (std_extern True) (cpu_mmu 0x1000) rec_table rec_mem (VirtAddr 0x400000) =
    translate (std_extern True) (physical 0x1000) data_mem (VirtAddr 0x400000)"
proof -
  have "canonical (VirtAddr 0x400000)" by (simp add: canonical_iff_unat)
  moreover have "VirtAddr_p4_index (VirtAddr 0x400000) \<noteq> recursive_index rec_table"
    using rec_page_p4 by (simp add: Page_p4_index_def Page_start_address_def rec_page_def)
  moreover have "recursive_ok 0x1000 (recursive_index rec_table) rec_mem"
    using rec_ok by (simp add: rec_index_ok)
  ultimately show ?thesis
    using recursive_translate_equals_mapped [OF rec_recursive, of rec_mem "VirtAddr 0x400000" rec_page Size4KiB True]
      rec_page_p4 rec_not_huge [of Size4KiB rec_page] by (simp add: rec_index_ok rec_mem_hidden)
qed


text \<open>
  C14. \<open>update_flags\<close> of the recursive page table does not check its parent entries for huge pages: for
  a 4KiB page inside a 2MiB page it does not return \<open>ParentEntryHugePage\<close>, as the mapped page table
  does, but takes the first 4KiB of the mapped data for a page table and overwrites a word of it.
\<close>

theorem recursive_update_flags_overwrites_huge_page:
  assumes "recursive_table X mmu root self" and "recursive_ok root (recursive_index self) m"
    and "Page_p4_index page \<noteq> recursive_index self"
    and "goto phys_walker (hide root (recursive_index self) m) root
      [Page_p4_index page, Page_p3_index page] = Inr p2"
    and "e = ent m p2 (Page_p2_index page)" and "huge e" and "present e" and "writable e"
    and "data = pa (entry_addr e)" and "\<not> is_unused (ent m data (Page_p1_index page))"
  shows "Rec_update_flags X mmu Size4KiB self page flags m = Some (Inr (MapperFlush page),
      upd m data (Page_p1_index page)
        \<lparr>entry = (entry (ent m data (Page_p1_index page)) AND ADDR_MASK) OR flags\<rparr>) \<and>
    update_flags X Size4KiB (physical root) page flags (hide root (recursive_index self) m) =
      Some (Inl FlagUpdate_ParentEntryHugePage, hide root (recursive_index self) m)"
  using recursive_table.Rec_update_flags_huge [OF assms] by blast

text \<open>The 2MiB page at \<open>0x400000\<close> mapped to the frame with the data.\<close>

definition huge_mem :: mem where
  "huge_mem =
     (let m = (upd rec_mem 0x1000 (PageTableIndex 0) \<lparr>entry = 0x2003\<rparr>)(0x2000 := PageTable_new);
          m = (upd m 0x2000 (PageTableIndex 0) \<lparr>entry = 0x3003\<rparr>)(0x3000 := PageTable_new)
      in upd m 0x3000 (PageTableIndex 2) \<lparr>entry = 0x400083\<rparr>)"

lemma entry_bits:
  "present \<lparr>entry = 0x2003\<rparr>" "writable \<lparr>entry = 0x2003\<rparr>" "\<not> huge \<lparr>entry = 0x2003\<rparr>"
  "present \<lparr>entry = 0x3003\<rparr>" "writable \<lparr>entry = 0x3003\<rparr>" "\<not> huge \<lparr>entry = 0x3003\<rparr>"
  "present \<lparr>entry = 0x400083\<rparr>" "writable \<lparr>entry = 0x400083\<rparr>" "huge \<lparr>entry = 0x400083\<rparr>"
  "entry_addr \<lparr>entry = 0x2003\<rparr> = PhysAddr 0x2000" "entry_addr \<lparr>entry = 0x3003\<rparr> = PhysAddr 0x3000"
  "entry_addr \<lparr>entry = 0x400083\<rparr> = PhysAddr 0x400000"
  by (simp_all add: present_def writable_def huge_def entry_addr_def ADDR_MASK_def)

lemma huge_mem:
  "recursive_ok 0x1000 rec_index huge_mem"
  "goto phys_walker (hide 0x1000 rec_index huge_mem) 0x1000 [PageTableIndex 0, PageTableIndex 0] = Inr 0x3000"
  "ent huge_mem 0x3000 (PageTableIndex 2) = \<lparr>entry = 0x400083\<rparr>"
  "ent huge_mem 0x400000 (PageTableIndex 0) = \<lparr>entry = 0x1234\<rparr>"
proof -
  let ?z = "PageTableIndex 0" and ?m0 = rec_mem
  let ?m1 = "(upd ?m0 0x1000 ?z \<lparr>entry = 0x2003\<rparr>)(0x2000 := PageTable_new)"
  let ?m2 = "(upd ?m1 0x2000 ?z \<lparr>entry = 0x3003\<rparr>)(0x3000 := PageTable_new)"
  have z: "index_ok ?z" "?z \<noteq> rec_index" "index_ok (PageTableIndex 2)"
    by (simp_all add: index_ok_def rec_index_def)
  have mem0: "mem_ok ?m0" using recursive_okD(3) [OF rec_ok] .
  have mem1: "mem_ok ?m1" and mem2: "mem_ok ?m2"
    using mem_ok_upd [OF mem0, of "0x1000" ?z "\<lparr>entry = 0x2003\<rparr>"]
    by (auto simp: mem_ok_def PageTable_new_def ENTRY_COUNT_def upd_def)
  have u0: "is_unused (ent ?m0 0x1000 ?z)"
    using data_mem_unused [OF z(1), of "0x1000"] z data_mem_ok rec_index_ok
    by (simp add: rec_mem_def ent_upd)
  have c1: "child phys_walker \<lparr>entry = 0x2003\<rparr> = Some 0x2000" "child phys_walker \<lparr>entry = 0x3003\<rparr> = Some 0x3000"
    by (simp_all add: entry_bits)
  have t0: "0x2000 \<notin> tables phys_walker (hide 0x1000 rec_index ?m0) 0x1000"
    by (simp add: rec_mem_hidden rec_tree)
  have n: "path_ok ([] :: PageTableIndex list)" "length ([] :: PageTableIndex list) \<le> 2" by simp_all
  note a1 = recursive_ok_added [OF rec_ok goto.simps(1) n z(1,2) u0 c1(1) entry_bits(2) t0]
  have u1: "is_unused (ent ?m1 0x2000 ?z)"
    by (simp add: ent_def PageTable_new_def ENTRY_COUNT_def is_unused_def PageTableEntry_new_def)
  have t1: "0x3000 \<notin> tables phys_walker (hide 0x1000 rec_index ?m1) 0x1000"
    unfolding a1(4) by (simp add: rec_mem_hidden rec_tree)
  have g1: "goto phys_walker (hide 0x1000 rec_index ?m1) 0x1000 [?z] = Inr 0x2000" using a1(3) by simp
  have n1: "path_ok [?z]" "length [?z] \<le> 2" "[?z] = [] \<Longrightarrow> ?z \<noteq> rec_index" using z by simp_all
  note a2 = recursive_ok_added [OF a1(2) g1 n1(1,2) z(1) n1(3) u1 c1(2) entry_bits(5) t1]
  have g2: "goto phys_walker (hide 0x1000 rec_index ?m2) 0x1000 (page_parents Size2MiB rec_page) = Inr 0x3000"
    using a2(3) by (simp only: page_parents.simps rec_page_indices append.simps)
  have le: "leaf_entry phys_walker Size2MiB (ent ?m2 0x3000 (page_leaf Size2MiB rec_page))"
    "leaf_entry phys_walker Size2MiB \<lparr>entry = 0x400083\<rparr>"
    using entry_bits(9)
    by (simp_all add: leaf_entry_def rec_page_indices ent_def PageTable_new_def ENTRY_COUNT_def
        is_unused_def PageTableEntry_new_def)
  have h: "huge_mem = upd ?m2 0x3000 (page_leaf Size2MiB rec_page) \<lparr>entry = 0x400083\<rparr>"
    by (simp add: huge_mem_def Let_def rec_page_indices)
  note lf = recursive_ok_leaf [OF a2(2) g2 le, folded h]
  show "recursive_ok 0x1000 rec_index huge_mem" by (rule lf(2))
  have tr: "tree_ok phys_walker (hide 0x1000 rec_index ?m2) 0x1000" using a2(2) by (rule recursive_okD)
  have "leaf_entry phys_walker Size2MiB (ent (hide 0x1000 rec_index ?m2) 0x3000 (page_leaf Size2MiB rec_page))"
    using le(1) mem2 rec_index_ok by (simp add: ent_hide)
  from leaf_write(3) [OF tr g2 this le(2)]
  show "goto phys_walker (hide 0x1000 rec_index huge_mem) 0x1000 [?z, ?z] = Inr 0x3000"
    by (simp only: lf(1) page_parents.simps rec_page_indices)
  show "ent huge_mem 0x3000 (PageTableIndex 2) = \<lparr>entry = 0x400083\<rparr>"
    unfolding h using mem2 by (simp add: rec_page_indices z)
  have "ent huge_mem 0x400000 ?z = ent rec_mem 0x400000 ?z"
    by (simp add: huge_mem_def Let_def ent_def upd_def)
  also have "\<dots> = \<lparr>entry = 0x1234\<rparr>"
    by (simp add: rec_mem_def data_mem_def ent_def upd_def PageTable_new_def ENTRY_COUNT_def)
  finally show "ent huge_mem 0x400000 ?z = \<lparr>entry = 0x1234\<rparr>" .
qed

theorem recursive_update_flags_overwrites_huge_page_witness:
  "Rec_update_flags (std_extern True) (cpu_mmu 0x1000) Size4KiB rec_table rec_page 3 huge_mem =
    Some (Inr (MapperFlush rec_page), upd huge_mem 0x400000 (PageTableIndex 0) \<lparr>entry = 0x1003\<rparr>)"
  using recursive_update_flags_overwrites_huge_page [OF rec_recursive [of True], of huge_mem rec_page "0x3000"
      "\<lparr>entry = 0x400083\<rparr>" "0x400000" 3] huge_mem rec_page_p4 entry_bits
  by (simp add: rec_index_ok rec_page_indices is_unused_def ADDR_MASK_def del: goto.simps)


text \<open>
  \<open>RecursivePageTable::new\<close> on an aligned table: it returns \<open>NotRecursive\<close> unless the four indices of
  the address agree, then \<open>NotActive\<close> unless the entry at that index holds the frame in CR3, and
  otherwise a table that meets the preconditions of the recursive mapper.
\<close>

theorem recursive_new_exact:
  assumes "extern_ok X" and "page_ok Size4KiB (Page (VirtAddr table))"
    and "read_at mmu m table (VirtAddr_p4_index (VirtAddr table)) = Some e"
  defines "i \<equiv> VirtAddr_p4_index (VirtAddr table)"
  shows "RecursivePageTable_new X mmu cr3 table m = Some
      (if addr_path (VirtAddr table) \<noteq> [i, i, i, i] then Inl NotRecursive
       else if present e \<and> PhysFrame (entry_addr e) = cr3 then Inr \<lparr>rec_p4 = table, recursive_index = i\<rparr>
       else Inl NotActive) \<and>
    (RecursivePageTable_new X mmu cr3 table m = Some (Inr self) \<and> mmu_ok mmu (pa (frame_start cr3)) \<longrightarrow>
      recursive_table X mmu (pa (frame_start cr3)) self)"
proof -
  let ?p = "Page (VirtAddr table)"
  have c: "canonical (VirtAddr table)" using assms(2) by (simp add: page_ok_def)
  have p: "Page_containing_address Size4KiB (VirtAddr table) = Some ?p"
    using Page_containing_address_spec [OF c, of Size4KiB] page_num_inj [OF _ assms(2)]
    by (auto simp: page_num_def)
  have idx: "Page_p4_index ?p = i" "Page_p3_index ?p = VirtAddr_p3_index (VirtAddr table)"
    "Page_p2_index ?p = VirtAddr_p2_index (VirtAddr table)"
    "Page_p1_index ?p = VirtAddr_p1_index (VirtAddr table)"
    by (simp_all add: Page_p4_index_def Page_p3_index_def Page_p2_index_def Page_p1_index_def
        Page_start_address_def i_def)
  have path: "addr_path (VirtAddr table) = [i, VirtAddr_p3_index (VirtAddr table),
      VirtAddr_p2_index (VirtAddr table), VirtAddr_p1_index (VirtAddr table)]"
    by (simp add: addr_path_def i_def)
  have new: "RecursivePageTable_new X mmu cr3 table m = Some
      (if addr_path (VirtAddr table) \<noteq> [i, i, i, i] then Inl NotRecursive
       else if present e \<and> PhysFrame (entry_addr e) = cr3 then Inr \<lparr>rec_p4 = table, recursive_index = i\<rparr>
       else Inl NotActive)"
    using p c assms(3) extern_ok.frame_eq [OF assms(1), of e]
    by (auto simp: RecursivePageTable_new_def VirtAddr_new_eq idx path Let_def simp flip: i_def)
  have "recursive_table X mmu (pa (frame_start cr3)) self"
    if "RecursivePageTable_new X mmu cr3 table m = Some (Inr self)" "mmu_ok mmu (pa (frame_start cr3))"
  proof -
    have s: "self = \<lparr>rec_p4 = table, recursive_index = i\<rparr>" "addr_path (VirtAddr table) = [i, i, i, i]"
      using that(1) new by (auto split: if_splits)
    have iok: "index_ok i" using addr_path_ok(1) [of "VirtAddr table"] s(2) by simp
    have "table_ptr i [] = Some table" by (rule recursive_address [OF assms(2) s(2)])
    with that(2) assms(1) iok show ?thesis
      by (intro recursive_table.intro) (simp_all add: s recursive_table_axioms_def)
  qed
  with new show ?thesis by blast
qed

theorem recursive_new_exact_witness:
  "RecursivePageTable_new (std_extern True) (cpu_mmu 0x1000) (PhysFrame (PhysAddr 0x1000)) 0xffffff7fbfdfe000
    rec_mem = Some (Inr rec_table)"
proof -
  let ?a = "VirtAddr 0xffffff7fbfdfe000"
  have i: "VirtAddr_p4_index ?a = rec_index" using rec_address(2) by (simp add: addr_path_def)
  have e: "ent rec_mem 0x1000 rec_index = \<lparr>entry = 0x1003\<rparr>"
    using data_mem_ok rec_index_ok by (simp add: rec_mem_def)
  have b: "present \<lparr>entry = 0x1003\<rparr>" "writable \<lparr>entry = 0x1003\<rparr>" "\<not> huge \<lparr>entry = 0x1003\<rparr>"
    "entry_addr \<lparr>entry = 0x1003\<rparr> = PhysAddr 0x1000"
    by (simp_all add: present_def writable_def huge_def entry_addr_def ADDR_MASK_def)
  have "cpu_mmu 0x1000 rec_mem False 0xffffff7fbfdfe000 = Some 0x1000"
    using e b by (simp add: cpu_mmu_def rec_address)
  then have r: "read_at (cpu_mmu 0x1000) rec_mem 0xffffff7fbfdfe000 (VirtAddr_p4_index ?a) = Some \<lparr>entry = 0x1003\<rparr>"
    using e recursive_okD(3) [OF rec_ok] rec_index_ok by (simp add: read_at_def i read_entry_eq)
  from recursive_new_exact [OF std_extern_ok rec_address(1) r, of True "PhysFrame (PhysAddr 0x1000)"] b show ?thesis
    by (simp add: rec_address i rec_table_def RecursivePageTable_new_unchecked_def)
qed

end
