(* ===== verification/Recursive_Clean_Up.thy ===== *)
theory Recursive_Clean_Up
  imports Clean_Up Recursive_Properties
begin

text \<open>
  \<open>clean_up\<close> and \<open>clean_up_addr_range\<close> of the recursive page table: run in lockstep with those of the mapped
  page table on physical memory without the recursive entry, they unlink the same tables and give back
  the same frames. The recursion accesses a table through its recursive address as long as the tables
  above it are linked, and skips the recursive entry itself.
\<close>

section \<open>The pages and pointers of the recursion\<close>

lemma path_take:
  assumes "next_lower_level L = Some L'"
    and "lin x div 2 ^ level_bits L = lin y div 2 ^ level_bits L" and "lin x div 2 ^ level_bits L' mod 512 = i" "i < 512"
  shows "take (level_depth L') (addr_path x) = take (level_depth L) (addr_path y) @ [ix i]"
proof -
  have up: "lin x div 549755813888 = lin y div 549755813888" if "lin x div 1073741824 = lin y div 1073741824"
    using that div_mult2_eq [of "lin x" 1073741824 512] div_mult2_eq [of "lin y" 1073741824 512] by simp
  show ?thesis
    using assms by (cases L) (auto simp: addr_path_def PageTableIndex_eq_iff index_lin ix_simps dest: up)
qed

text \<open>The first page of the range that the recursion hands to the table below entry \<open>i\<close>.\<close>

lemma child_start_path:
  assumes L: "next_lower_level L = Some L'" and st: "page_ok Size4KiB st" and sp: "page_ok Size4KiB sp"
    and i: "i < 512" "idx (Page_page_table_index st L) \<le> i"
    and a: "lin a = lin (page_start st) div 2 ^ level_bits L * 2 ^ level_bits L"
    and lin_sp: "lin (page_start sp) = lin a + i * 2 ^ (level_bits L - 9)"
  shows "take (level_depth L') (addr_path (page_start (max sp st))) =
    take (level_depth L) (addr_path (page_start st)) @ [ix i]"
proof -
  define k where "k = level_bits L - 9"
  have k: "level_bits L = k + 9" "level_bits L' = k" using L by (cases L; simp add: k_def)+
  let ?A = "lin (page_start st) div 2 ^ (k + 9)" and ?j = "lin (page_start st) div 2 ^ k mod 512"
  have st_eq: "lin (page_start st) div 2 ^ k = ?A * 512 + ?j"
    by (simp add: power_add div_mult2_eq)
  have sp_eq: "lin (page_start sp) div 2 ^ k = ?A * 512 + i"
  proof -
    have "lin (page_start sp) = (?A * 512 + i) * 2 ^ k"
      using a lin_sp by (simp add: k(1) power_add algebra_simps)
    then show ?thesis by simp
  qed
  have ji: "?j \<le> i" using i(2) by (simp add: std.table_index_level k(1))
  have m: "lin (page_start (max sp st)) div 2 ^ k = ?A * 512 + i"
  proof (cases "st \<le> sp")
    case True
    then show ?thesis using sp_eq by (simp add: max_absorb1)
  next
    case False
    then have "lin (page_start sp) \<le> lin (page_start st)"
      using st sp by (simp add: page_le_lin flip: not_le) 
    then have "lin (page_start sp) div 2 ^ k \<le> lin (page_start st) div 2 ^ k" by (rule div_le_mono)
    then have "i = ?j" using sp_eq st_eq ji by linarith
    with st_eq have "lin (page_start st) div 2 ^ k = ?A * 512 + i" by linarith
    with False show ?thesis by (simp add: max_absorb2)
  qed
  have "lin (page_start (max sp st)) div 2 ^ (k + 9) = ?A"
    using m i(1) by (simp add: power_add div_mult2_eq)
  then show ?thesis
    using m i(1) by (intro path_take [OF L]) (simp_all add: k)
qed

lemma level_ptr_path:
  "next_lower_level L = Some L' \<Longrightarrow> level_ptr L p ri = table_ptr ri (take (level_depth L') (addr_path (page_start p)))"
  by (cases L) (auto simp: ptr_table_ptr addr_path_def Page_p4_index_def Page_p3_index_def Page_p2_index_def
      Page_start_address_def numeral_eq_Suc)

section \<open>Unlinking a table\<close>

lemma recursive_ok_removed:
  assumes r: "recursive_ok root ri m" and g: "goto phys_walker (hide root ri m) root P = Inr p"
    and P: "path_ok P" "length P \<le> 2" and i: "index_ok i" "P = [] \<Longrightarrow> i \<noteq> ri"
    and c: "child phys_walker (ent m p i) = Some q" and u: "unused_table (hide root ri m) q" and e: "is_unused e"
  shows "hide root ri (upd m p i e) = upd (hide root ri m) p i e" "recursive_ok root ri (upd m p i e)"
proof -
  let ?n = "hide root ri m"
  note ok = recursive_okD [OF r]
  have pe: "(p, i) \<noteq> (root, ri)" "ent ?n p i = ent m p i"
    using path_entry [OF r g P(1), of i] P(2) i(2) by auto
  show h: "hide root ri (upd m p i e) = upd ?n p i e" by (rule hide_upd [OF pe(1)])
  note rm = remove_table [OF ok(2) g P i(1) _ u e, unfolded pe(2), OF c]
  show "recursive_ok root ri (upd m p i e)"
  proof (rule recursive_ok_same [OF r])
    show "tree_ok phys_walker (hide root ri (upd m p i e)) root" unfolding h by (rule rm(1))
    show "parents_writable root (hide root ri (upd m p i e))"
      unfolding h
    proof (rule writable_same_goto)
      show "parents_writable root ?n" using r by (simp add: recursive_ok_def)
      fix Q t j assume Q: "path_ok Q" "length Q \<le> 2"
      show "goto phys_walker ?n root Q = Inr t \<or> (\<forall>j. index_ok j \<longrightarrow> is_unused (ent (upd ?n p i e) t j))"
        if "goto phys_walker (upd ?n p i e) root Q = Inr t"
        using only_below_goto [OF rm(3) Q(1), of t] rm(6) [OF Q(1), of t] Q(2) that by auto
      show "ent (upd ?n p i e) t j = ent ?n t j \<or> child phys_walker (ent (upd ?n p i e) t j) = None
          \<or> writable (ent (upd ?n p i e) t j)"
        using ok(3) i(1) unused_parts [OF e, of phys_walker] by (auto simp: ent_upd)
    qed
    show "ent (upd m p i e) root ri = ent m root ri" using pe(1) ok(3) i(1) by (auto simp: ent_upd)
  qed
qed

section \<open>The loops in lockstep\<close>

lemma for_each_sim:
  assumes "\<And>i s t. i \<in> set is \<Longrightarrow> R s t \<Longrightarrow>
      if Q i then \<exists>s' t'. f i s = Some s' \<and> g i t = Some t' \<and> R s' t' else g i t = Some t"
  shows "R s t \<Longrightarrow> \<exists>s' t'. for_each (filter Q is) f s = Some s' \<and> for_each is g t = Some t' \<and> R s' t'"
  using assms
proof (induction "is" arbitrary: s t)
  case (Cons i "is")
  have step: "\<exists>s' t'. for_each (filter Q is) f s = Some s' \<and> for_each is g t = Some t' \<and> R s' t'" if "R s t" for s t
    by (rule Cons.IH [OF that]) (rule Cons.prems(2), simp_all)
  show ?case
  proof (cases "Q i")
    case True
    then obtain s1 t1 where "f i s = Some s1" "g i t = Some t1" "R s1 t1"
      using Cons.prems(2) [of i s t] Cons.prems(1) by auto
    with step [of s1 t1] True show ?thesis by simp
  next
    case False
    then have "g i t = Some t" using Cons.prems(2) [of i s t] Cons.prems(1) by simp
    with step [of s t] Cons.prems(1) False show ?thesis by simp
  qed
qed simp

text \<open>The body of the loop.\<close>

definition Rec_clean_entry :: "extern \<Rightarrow> mmu \<Rightarrow> 'd deallocate_frame \<Rightarrow> PageTableIndex \<Rightarrow> PageTableLevel \<Rightarrow> PageTableLevel \<Rightarrow>
    u64 \<Rightarrow> PageRangeInclusive \<Rightarrow> VirtAddr \<Rightarrow> nat \<Rightarrow> mem \<times> 'd \<Rightarrow> (mem \<times> 'd) option" where
  "Rec_clean_entry X mmu deallocate ri level next_level page_table rng table_addr = (\<lambda>i (m, d). do {
     e \<leftarrow> read_at mmu m page_table (ix i);
     if bitflags_contains X (PageTableEntry_flags X e) HUGE_PAGE then Some (m, d)
     else do {
       f \<leftarrow> PageTableEntry_frame X e;
       case f of
         Inl _ \<Rightarrow> Some (m, d)
       | Inr frame \<Rightarrow> do {
           n \<leftarrow> mul_op X (entry_address_space_alignment level) (of_nat i);
           st \<leftarrow> VirtAddr_forward_checked_impl X table_addr n;
           start \<leftarrow> st;
           end \<leftarrow> VirtAddr_add start (entry_address_space_alignment level - 1);
           start \<leftarrow> Page_containing_address Size4KiB start;
           let start = max start (start_page_incl rng);
           end \<leftarrow> Page_containing_address Size4KiB end;
           let end = min end (end_page_incl rng);
           next_page_table \<leftarrow> level_ptr level start ri;
           (empty, (m, d)) \<leftarrow> Rec_clean_up_table X mmu deallocate ri
             next_page_table next_level (Page_range_inclusive start end) (m, d);
           if empty then do {
             e \<leftarrow> read_at mmu m page_table (ix i);
             m \<leftarrow> write_at mmu m page_table (ix i) (set_unused e);
             Some (m, deallocate d frame)
           } else Some (m, d)
         }
     }
   })"

lemma Rec_clean_up_table_unfold:
  "Rec_clean_up_table X mmu deallocate ri page_table level rng s =
     (if PageRangeInclusive_is_empty rng then Some (False, s)
      else do {
        table_addr \<leftarrow> VirtAddr_align_down (Page_start_address (start_page_incl rng))
                        (table_address_space_alignment level);
        (m, d) \<leftarrow> (case next_lower_level level of
            None \<Rightarrow> Some s
          | Some next_level \<Rightarrow>
              for_each (filter (\<lambda>i. \<not> (level = Four \<and> i = idx ri))
                  [idx (Page_page_table_index (start_page_incl rng) level)..<
                    min 512 (idx (Page_page_table_index (end_page_incl rng) level) + 1)])
                (Rec_clean_entry X mmu deallocate ri level next_level page_table rng table_addr) s);
        q \<leftarrow> mmu m False page_table;
        Some (list_all is_unused (PageTable_iter (m q)), (m, d))
      })"
  by (subst Rec_clean_up_table.simps)
    (simp only: Rec_clean_entry_def ix_def Let_def unat_usize_from_index)

text \<open>What the recursion does with the table of level \<open>L\<close> at the path \<open>P\<close>, in terms of the mapped page table.\<close>

definition rec_cleans :: "extern \<Rightarrow> mmu \<Rightarrow> u64 \<Rightarrow> PageTableIndex \<Rightarrow> 'd deallocate_frame \<Rightarrow> PageTableLevel \<Rightarrow> bool" where
  "rec_cleans X mmu root ri deallocate L \<longleftrightarrow> (\<forall>P p v rng m d. recursive_ok root ri m \<longrightarrow> path_ok P \<longrightarrow>
     length P = level_depth L \<longrightarrow> P = [] \<or> hd P \<noteq> ri \<longrightarrow> goto phys_walker (hide root ri m) root P = Inr p \<longrightarrow>
     table_ptr ri P = Some v \<longrightarrow> rng_ok rng \<longrightarrow> take (level_depth L) (addr_path (page_start (start_page_incl rng))) = P \<longrightarrow>
     (\<exists>b b' m' d'. Rec_clean_up_table X mmu deallocate ri v L rng (m, d) = Some (b', (m', d')) \<and>
        clean_up_table X phys_walker deallocate L p rng (hide root ri m, d) = Some (b, (hide root ri m', d')) \<and>
        recursive_ok root ri m' \<and> (P \<noteq> [] \<longrightarrow> b' = b)))"

context recursive_table
begin

lemma Rec_clean_entry_ok:
  fixes deallocate :: "'d deallocate_frame"
  assumes child: "rec_cleans X mmu root (recursive_index self) deallocate L'" and L: "next_lower_level L = Some L'"
    and r: "recursive_ok root (recursive_index self) m"
    and P: "path_ok P" "length P = level_depth L" "P = [] \<or> hd P \<noteq> recursive_index self"
    and g: "goto phys_walker (hide root (recursive_index self) m) root P = Inr p"
    and v: "table_ptr (recursive_index self) P = Some v" and rng: "rng_ok rng"
    and start: "take (level_depth L) (addr_path (page_start (start_page_incl rng))) = P"
    and i: "i < 512" "idx (Page_page_table_index (start_page_incl rng) L) \<le> i" "\<not> (L = Four \<and> i = idx (recursive_index self))"
    and a: "canonical a" "lin a = lin (page_start (start_page_incl rng)) div 2 ^ level_bits L * 2 ^ level_bits L"
  shows "\<exists>m' d'. Rec_clean_entry X mmu deallocate (recursive_index self) L L' v rng a i (m, d) = Some (m', d') \<and>
    clean_entry X phys_walker deallocate L L' p rng a i (hide root (recursive_index self) m, d) =
      Some (hide root (recursive_index self) m', d') \<and>
    recursive_ok root (recursive_index self) m'"
proof -
  let ?ri = "recursive_index self"
  let ?n = "hide root ?ri m" and ?e = "ent m p (ix i)"
  have P2: "length P \<le> 2" and P3: "length P \<le> 3" using L P(2) by (cases L; simp)+
  have iok: "index_ok (ix i)" using i(1) by (rule ix_simps)
  have LP: "L = Four \<longleftrightarrow> P = []" using P(2) L by (cases L) auto
  have ir: "P = [] \<Longrightarrow> ix i \<noteq> ?ri" using i LP ix_simps(1) [OF i(1)] by auto
  then have hd: "hd (P @ [ix i]) \<noteq> ?ri" using P(3) by (cases P) auto
  note ac = read_at_path [OF r g P(1) P3 hd iok v]
  have e: "entries (n p) ! i = ent n p (ix i)" for n using i by (simp add: ent_def ix_simps)
  have u: "n(p := (n p)\<lparr>entries := (entries (n p))[i := x]\<rparr>) = upd n p (ix i) x" for n x
    using i by (simp add: upd_def ix_simps)
  have em: "entry_mapped phys_walker ?e" using tree_ok_mapped [OF recursive_okD(2) [OF r] g P(1) iok P2] by (simp add: ac(3))
  show ?thesis
  proof (cases "child phys_walker ?e")
    case None
    then have "Rec_clean_entry X mmu deallocate ?ri L L' v rng a i (m, d) = Some (m, d)"
      by (auto simp: Rec_clean_entry_def ac frame_eq split: if_splits)
    moreover have "clean_entry X phys_walker deallocate L L' p rng a i (?n, d) = Some (?n, d)"
      using None em by (simp add: clean_entry_def e next_table_mut_eq next_table_eq ac(3) del: child_phys)
    ultimately show ?thesis using r by blast
  next
    case (Some q)
    then have pr: "present ?e" "\<not> huge ?e" by (auto split: if_splits)
    have gq: "goto phys_walker ?n root (P @ [ix i]) = Inr q" using Some g by (simp add: goto_snoc ac(3) del: child_phys)
    have P': "path_ok (P @ [ix i])" "length (P @ [ix i]) = level_depth L'" "length (P @ [ix i]) \<le> 3"
      using P P2 L iok by (simp_all, cases L) simp_all
    have al: "lin a mod 2 ^ level_bits L = 0" using a(2) by simp
    obtain n st en sp ep where ar: "mul_op X (entry_address_space_alignment L) (of_nat i) = Some n"
        "VirtAddr_forward_checked_impl X a n = Some (Some st)"
        "VirtAddr_add st (entry_address_space_alignment L - 1) = Some en"
        "Page_containing_address Size4KiB st = Some sp" "Page_containing_address Size4KiB en = Some ep"
      and sp: "page_ok Size4KiB sp" "lin (page_start sp) = lin a + i * 2 ^ (level_bits L - 9)"
      and ep: "page_ok Size4KiB ep"
      using entry_pages [OF a(1) al i(1)] by (elim exE conjE) (rule that)
    let ?st = "max sp (start_page_incl rng)"
    let ?rng = "Page_range_inclusive ?st (min ep (end_page_incl rng))"
    have st: "take (level_depth L') (addr_path (page_start ?st)) = P @ [ix i]"
      using child_start_path [OF L _ sp(1) i(1,2) a(2) sp(2)] rng start by (simp add: rng_ok_def)
    have rng': "rng_ok ?rng" using rng sp ep by (simp add: rng_ok_def Page_range_inclusive_def max_def min_def)
    obtain v' where v': "table_ptr ?ri (P @ [ix i]) = Some v'"
      using table_ptr_path [OF P'(1) index_ri P'(3)] by blast
    then have lp: "level_ptr L ?st ?ri = Some v'" by (simp add: level_ptr_path [OF L] st)
    have "P @ [ix i] = [] \<or> hd (P @ [ix i]) \<noteq> ?ri"
      "take (level_depth L') (addr_path (page_start (start_page_incl ?rng))) = P @ [ix i]"
      using hd st by (simp_all add: Page_range_inclusive_def)
    from child [unfolded rec_cleans_def, rule_format, OF r P'(1,2) this(1) gq v' rng' this(2), of d]
    obtain b m1 d1 where b: "Rec_clean_up_table X mmu deallocate ?ri v' L' ?rng (m, d) = Some (b, (m1, d1))"
        "clean_up_table X phys_walker deallocate L' q ?rng (?n, d) = Some (b, (hide root ?ri m1, d1))"
        "recursive_ok root ?ri m1"
      by auto
    have cl: "cleaned phys_walker root deallocate (P @ [ix i]) UNIV (?n, d) (hide root ?ri m1, d1)"
      "b \<Longrightarrow> unused_table (hide root ?ri m1) q"
      using clean_up_table_cleans [of phys_walker root deallocate L', unfolded cleans_def, rule_format, of "(?n, d)" "P @ [ix i]" q ?rng]
        recursive_okD(2) [OF r] P'(1,2) gq rng' b(2) by auto
    then have o: "only_below phys_walker root (P @ [ix i]) UNIV ?n (hide root ?ri m1)" by (simp add: cleaned_def)
    have g1: "goto phys_walker (hide root ?ri m1) root P = Inr p"
      using only_below_self [OF only_below_child [OF o] P(1)] P3 g by simp
    note ac1 = read_at_path [OF b(3) g1 P(1) P3 hd iok v]
    have "ent (hide root ?ri m1) p (ix i) = ent ?n p (ix i)"
      by (rule only_below_ent [OF o P(1) P3 _ g iok]) (auto dest: prefix_length_le)
    then have e1: "ent m1 p (ix i) = ?e" by (simp add: ac(3) ac1(3))
    let ?f = "PhysFrame (entry_addr ?e)" and ?m = "upd m1 p (ix i) (set_unused ?e)"
    have rec: "Rec_clean_entry X mmu deallocate ?ri L L' v rng a i (m, d) =
        Some (if b then (?m, deallocate d1 ?f) else (m1, d1))"
      using pr ar lp b(1) by (simp add: Rec_clean_entry_def ac ac1(1,2) e1 frame_eq)
    have "next_table X phys_walker ?e = Some (Inr q)"
      using Some em by (auto simp: next_table_eq split: if_splits)
    then have map: "clean_entry X phys_walker deallocate L L' p rng a i (?n, d) =
        Some (if b then (upd (hide root ?ri m1) p (ix i) (set_unused ?e), deallocate d1 ?f) else (hide root ?ri m1, d1))"
      using pr ar b(2) by (simp add: clean_entry_def e u next_table_mut_eq ac(3) ac1(3) e1 frame_eq)
    show ?thesis
    proof (cases b)
      case True
      have "is_unused (set_unused ?e)" by (simp add: set_unused_def is_unused_def)
      from recursive_ok_removed [OF b(3) g1 P(1) P2 iok ir _ cl(2) [OF True] this]
      have "hide root ?ri ?m = upd (hide root ?ri m1) p (ix i) (set_unused ?e)" "recursive_ok root ?ri ?m"
        using Some e1 by (simp_all del: child_phys)
      with rec map True show ?thesis by auto
    next
      case False
      with rec map b(3) show ?thesis by auto
    qed
  qed
qed

text \<open>The lockstep of one iteration, with what the loop needs to continue.\<close>

lemma rec_entry_sim:
  fixes deallocate :: "'d deallocate_frame"
  assumes child: "rec_cleans X mmu root (recursive_index self) deallocate L'" and L: "next_lower_level L = Some L'"
    and r: "recursive_ok root (recursive_index self) m"
    and P: "path_ok P" "length P = level_depth L" "P = [] \<or> hd P \<noteq> recursive_index self"
    and g: "goto phys_walker (hide root (recursive_index self) m) root P = Inr p"
    and v: "table_ptr (recursive_index self) P = Some v" and rng: "rng_ok rng"
    and start: "take (level_depth L) (addr_path (page_start (start_page_incl rng))) = P"
    and i: "i < 512" "idx (Page_page_table_index (start_page_incl rng) L) \<le> i" "\<not> (L = Four \<and> i = idx (recursive_index self))"
    and a: "canonical a" "lin a = lin (page_start (start_page_incl rng)) div 2 ^ level_bits L * 2 ^ level_bits L"
  shows "\<exists>m' d'. Rec_clean_entry X mmu deallocate (recursive_index self) L L' v rng a i (m, d) = Some (m', d') \<and>
    clean_entry X phys_walker deallocate L L' p rng a i (hide root (recursive_index self) m, d) =
      Some (hide root (recursive_index self) m', d') \<and>
    recursive_ok root (recursive_index self) m' \<and>
    goto phys_walker (hide root (recursive_index self) m') root P = Inr p"
proof -
  let ?ri = "recursive_index self"
  obtain m' d' where m': "Rec_clean_entry X mmu deallocate ?ri L L' v rng a i (m, d) = Some (m', d')"
      "clean_entry X phys_walker deallocate L L' p rng a i (hide root ?ri m, d) = Some (hide root ?ri m', d')"
      "recursive_ok root ?ri m'"
    using Rec_clean_entry_ok [OF child L r P g v rng start i a] by blast
  have "cleaned phys_walker root deallocate P {ix i} (hide root ?ri m, d) (hide root ?ri m', d')"
    using clean_entry_ok [OF clean_up_table_cleans L _ P(1,2) _ rng i(1) a, where s = "(hide root ?ri m, d)" and W = phys_walker
        and root = root and p = p and deallocate = deallocate] recursive_okD(2) [OF r] g m'(2) by auto
  moreover have "length P \<le> 3" using P(2) by (cases L) simp_all
  ultimately have "goto phys_walker (hide root ?ri m') root P = Inr p"
    using only_below_self [of phys_walker root P "{ix i}" "hide root ?ri m" "hide root ?ri m'" p] P(1) g
    by (simp add: cleaned_def)
  with m' show ?thesis by blast
qed

text \<open>On the memory without the recursive entry, its iteration does nothing.\<close>

lemma recursive_entry_skipped:
  assumes r: "recursive_ok root (recursive_index self) m"
  shows "clean_entry X phys_walker deallocate L L' root rng a (idx (recursive_index self))
      (hide root (recursive_index self) m, d) = Some (hide root (recursive_index self) m, d)"
proof -
  let ?ri = "recursive_index self"
  have "entries (hide root ?ri m root) ! idx ?ri = PageTableEntry_new"
    using ent_hide [OF recursive_okD(3,1) [OF r], of root root ?ri] by (simp add: ent_def)
  moreover have "child phys_walker PageTableEntry_new = None" "entry_mapped phys_walker PageTableEntry_new"
    using unused_parts [of PageTableEntry_new phys_walker]
    by (simp_all add: is_unused_def PageTableEntry_new_def entry_mapped_def del: child_phys)
  ultimately show ?thesis
    by (simp add: clean_entry_def next_table_mut_eq next_table_eq del: child_phys)
qed

lemma rec_cleans_step:
  fixes deallocate :: "'d deallocate_frame"
  assumes below: "\<And>L'. next_lower_level L = Some L' \<Longrightarrow> rec_cleans X mmu root (recursive_index self) deallocate L'"
  shows "rec_cleans X mmu root (recursive_index self) deallocate L"
  unfolding rec_cleans_def
proof (intro allI impI)
  let ?ri = "recursive_index self"
  fix P p v rng m and d :: 'd
  assume r: "recursive_ok root ?ri m" and P: "path_ok P" "length P = level_depth L" "P = [] \<or> hd P \<noteq> ?ri"
    and g: "goto phys_walker (hide root ?ri m) root P = Inr p" and v: "table_ptr ?ri P = Some v"
    and rng: "rng_ok rng" and start: "take (level_depth L) (addr_path (page_start (start_page_incl rng))) = P"
  have P3: "length P \<le> 3" using P(2) by (cases L) simp_all
  have LP: "L = Four \<longleftrightarrow> P = []" using P(2) by (cases L) auto
  show "\<exists>b b' m' d'. Rec_clean_up_table X mmu deallocate ?ri v L rng (m, d) = Some (b', (m', d')) \<and>
      clean_up_table X phys_walker deallocate L p rng (hide root ?ri m, d) = Some (b, (hide root ?ri m', d')) \<and>
      recursive_ok root ?ri m' \<and> (P \<noteq> [] \<longrightarrow> b' = b)"
  proof (cases "PageRangeInclusive_is_empty rng")
    case True
    with r show ?thesis by (auto simp: clean_up_table_unfold Rec_clean_up_table_unfold)
  next
    case False
    have "canonical (page_start (start_page_incl rng))" using rng by (simp add: rng_ok_def page_ok_def)
    then obtain a where a: "VirtAddr_align_down (page_start (start_page_incl rng))
        (table_address_space_alignment L) = Some a" "canonical a"
        "lin a = lin (page_start (start_page_incl rng)) div 2 ^ level_bits L * 2 ^ level_bits L"
      using table_start by blast
    let ?is = "[idx (Page_page_table_index (start_page_incl rng) L)..<
        min 512 (idx (Page_page_table_index (end_page_incl rng) L) + 1)]"
    let ?R = "\<lambda>s t. t = (hide root ?ri (fst s), snd s) \<and> recursive_ok root ?ri (fst s) \<and>
        goto phys_walker (hide root ?ri (fst s)) root P = Inr p"
    have loop: "\<exists>s' t'. (case next_lower_level L of None \<Rightarrow> Some (m, d)
          | Some L' \<Rightarrow> for_each (filter (\<lambda>i. \<not> (L = Four \<and> i = idx ?ri)) ?is)
              (Rec_clean_entry X mmu deallocate ?ri L L' v rng a) (m, d)) = Some s' \<and>
        (case next_lower_level L of None \<Rightarrow> Some (hide root ?ri m, d)
          | Some L' \<Rightarrow> for_each ?is (clean_entry X phys_walker deallocate L L' p rng a) (hide root ?ri m, d)) = Some t' \<and>
        ?R s' t'"
    proof (cases "next_lower_level L")
      case None
      with r g show ?thesis by simp
    next
      case (Some L')
      have "\<exists>s' t'. for_each (filter (\<lambda>i. \<not> (L = Four \<and> i = idx ?ri)) ?is)
              (Rec_clean_entry X mmu deallocate ?ri L L' v rng a) (m, d) = Some s' \<and>
          for_each ?is (clean_entry X phys_walker deallocate L L' p rng a) (hide root ?ri m, d) = Some t' \<and> ?R s' t'"
      proof (rule for_each_sim [where R = ?R])
        fix i and s t :: "mem \<times> 'd"
        assume i: "i \<in> set ?is" and R: "?R s t"
        obtain m1 d1 where s: "s = (m1, d1)" by (cases s)
        from i have i': "i < 512" "idx (Page_page_table_index (start_page_incl rng) L) \<le> i"
          unfolding set_upt atLeastLessThan_iff min_less_iff_conj by blast+
        from R s have R': "recursive_ok root ?ri m1" "goto phys_walker (hide root ?ri m1) root P = Inr p"
          "t = (hide root ?ri m1, d1)" by auto
        note step = rec_entry_sim [OF below [OF Some] Some R'(1) P R'(2) v rng start i' _ a(2,3)]
        show "if \<not> (L = Four \<and> i = idx ?ri)
            then \<exists>s' t'. Rec_clean_entry X mmu deallocate ?ri L L' v rng a i s = Some s' \<and>
              clean_entry X phys_walker deallocate L L' p rng a i t = Some t' \<and> ?R s' t'
            else clean_entry X phys_walker deallocate L L' p rng a i t = Some t"
          using step [of d1] recursive_entry_skipped [OF R'(1), of deallocate L L' rng a d1] LP R'(2,3) s
          by auto
      qed (use r g in simp)
      with Some show ?thesis by simp
    qed
    then obtain s' t' where s': "(case next_lower_level L of None \<Rightarrow> Some (m, d)
          | Some L' \<Rightarrow> for_each (filter (\<lambda>i. \<not> (L = Four \<and> i = idx ?ri)) ?is)
              (Rec_clean_entry X mmu deallocate ?ri L L' v rng a) (m, d)) = Some s'"
        "(case next_lower_level L of None \<Rightarrow> Some (hide root ?ri m, d)
          | Some L' \<Rightarrow> for_each ?is (clean_entry X phys_walker deallocate L L' p rng a) (hide root ?ri m, d)) = Some t'"
        "?R s' t'"
      by blast
    obtain m' d' where m': "s' = (m', d')" "t' = (hide root ?ri m', d')" "recursive_ok root ?ri m'"
        "goto phys_walker (hide root ?ri m') root P = Inr p"
      using s'(3) by (cases s') auto
    have "mmu m' False v = Some p" by (rule table_ptr_goto [OF m'(3,4) P(1) P3 P(3) v])
    then have "Rec_clean_up_table X mmu deallocate ?ri v L rng (m, d) =
        Some (list_all is_unused (PageTable_iter (m' p)), (m', d'))"
      using False a(1) s'(1) m'(1) by (simp add: Rec_clean_up_table_unfold Page_start_address_def)
    moreover have "clean_up_table X phys_walker deallocate L p rng (hide root ?ri m, d) =
        Some (list_all is_unused (PageTable_iter (hide root ?ri m' p)), (hide root ?ri m', d'))"
      using False a(1) s'(2) m'(2) by (simp add: clean_up_table_unfold Page_start_address_def)
    moreover have "hide root ?ri m' p = m' p" if "P \<noteq> []"
      using path_entry(1) [OF m'(3,4) P(1) P3, of ?ri] that by (simp add: hide_def upd_def)
    ultimately show ?thesis using m'(3) by auto
  qed
qed

lemma Rec_clean_up_table_cleans: "rec_cleans X mmu root (recursive_index self) deallocate L"
proof -
  have 1: "rec_cleans X mmu root (recursive_index self) deallocate One" by (rule rec_cleans_step) simp
  have 2: "rec_cleans X mmu root (recursive_index self) deallocate Two" by (rule rec_cleans_step) (simp add: 1)
  have 3: "rec_cleans X mmu root (recursive_index self) deallocate Three" by (rule rec_cleans_step) (simp add: 2)
  have 4: "rec_cleans X mmu root (recursive_index self) deallocate Four" by (rule rec_cleans_step) (simp add: 3)
  from 1 2 3 4 show ?thesis by (cases L) simp_all
qed

lemma Rec_clean_up_addr_range_refines:
  assumes r: "recursive_ok root (recursive_index self) m" and rng: "rng_ok rng"
  shows "\<exists>m' d'. Rec_clean_up_addr_range X mmu self deallocate rng (m, d) = Some (m', d') \<and>
    clean_up_addr_range X (physical root) deallocate rng (hide root (recursive_index self) m, d) =
      Some (hide root (recursive_index self) m', d') \<and>
    recursive_ok root (recursive_index self) m'"
  using Rec_clean_up_table_cleans [of deallocate Four, unfolded rec_cleans_def, rule_format,
      of m "[]" root "rec_p4 self" rng d] assms p4_address
  by (auto simp: Rec_clean_up_addr_range_def clean_up_addr_range_def)

lemma Rec_clean_up_whole:
  "\<exists>rng. rng_ok rng \<and> (\<forall>s. Rec_clean_up X mmu self deallocate s = Rec_clean_up_addr_range X mmu self deallocate rng s) \<and>
    (\<forall>s. clean_up X (physical root) deallocate s = clean_up_addr_range X (physical root) deallocate rng s)"
proof -
  obtain p q where "VirtAddr_new 0 = Some (VirtAddr 0)" "VirtAddr_new 0xfffffffffffff000 = Some (VirtAddr 0xfffffffffffff000)"
    "Page_from_start_address Size4KiB (VirtAddr 0) = Some (Inr p)"
    "Page_from_start_address Size4KiB (VirtAddr 0xfffffffffffff000) = Some (Inr q)"
    "rng_ok \<lparr>start_page_incl = p, end_page_incl = q\<rparr>"
    using whole_range by blast
  then show ?thesis
    by (intro exI [of _ "\<lparr>start_page_incl = p, end_page_incl = q\<rparr>"]) (simp add: Rec_clean_up_def clean_up_def)
qed

lemma Rec_clean_up_translate:
  assumes r: "recursive_ok root (recursive_index self) m" "recursive_ok root (recursive_index self) m'"
    and rng: "rng_ok rng"
    and c: "clean_up_addr_range X (physical root) deallocate rng (hide root (recursive_index self) m, d) =
      Some (hide root (recursive_index self) m', d')"
    and v: "canonical v" "VirtAddr_p4_index v \<noteq> recursive_index self"
  shows "Rec_translate X mmu self m' v = Rec_translate X mmu self m v"
proof -
  let ?n = "\<lambda>m. hide root (recursive_index self) m"
  note t = recursive_okD(2) [OF r(1)]
  have "cleaned phys_walker root deallocate [] UNIV (?n m, d) (?n m', d')"
    using clean_up_addr_range_cleaned [OF extern_ok_axioms _ rng, of "physical root" "?n m" deallocate d] t c by auto
  then have "translate X (physical root) (?n m') v = translate X (physical root) (?n m) v"
    using cleaned_translate [OF extern_ok_axioms, of "physical root" "?n m" deallocate "[]" UNIV d "?n m'" d'] t by simp
  then show ?thesis by (simp add: Rec_translate_refines [OF r(1) v] Rec_translate_refines [OF r(2) v])
qed

end

section \<open>Property\<close>

text \<open>
  C12. Cleaning up through the recursive page table refines cleaning up in a mapped page table on physical
  memory: for every address range, and for \<open>clean_up\<close> over the whole address space, no access faults and
  nothing panics, the same tables are unlinked and the same frames given back in the same order, the memory
  differs only by the recursive entry, which survives, and no address outside the recursive region
  translates differently afterwards.
\<close>

theorem recursive_clean_up_refines:
  assumes "recursive_table X mmu root self" and "recursive_ok root (recursive_index self) m" and "rng_ok rng"
  shows "(\<exists>m' d'. Rec_clean_up_addr_range X mmu self deallocate rng (m, d) = Some (m', d') \<and>
      clean_up_addr_range X (physical root) deallocate rng (hide root (recursive_index self) m, d) =
        Some (hide root (recursive_index self) m', d') \<and>
      recursive_ok root (recursive_index self) m' \<and>
      (\<forall>v. canonical v \<longrightarrow> VirtAddr_p4_index v \<noteq> recursive_index self \<longrightarrow>
        Rec_translate X mmu self m' v = Rec_translate X mmu self m v)) \<and>
    (\<exists>m' d'. Rec_clean_up X mmu self deallocate (m, d) = Some (m', d') \<and>
      clean_up X (physical root) deallocate (hide root (recursive_index self) m, d) =
        Some (hide root (recursive_index self) m', d') \<and>
      recursive_ok root (recursive_index self) m' \<and>
      (\<forall>v. canonical v \<longrightarrow> VirtAddr_p4_index v \<noteq> recursive_index self \<longrightarrow>
        Rec_translate X mmu self m' v = Rec_translate X mmu self m v))"
proof -
  note range = recursive_table.Rec_clean_up_addr_range_refines [OF assms(1,2), of _ deallocate d]
    and tr = recursive_table.Rec_clean_up_translate [OF assms(1,2)]
  obtain rng' where rng': "rng_ok rng'"
      "\<forall>s. Rec_clean_up X mmu self deallocate s = Rec_clean_up_addr_range X mmu self deallocate rng' s"
      "\<forall>s. clean_up X (physical root) deallocate s = clean_up_addr_range X (physical root) deallocate rng' s"
    using recursive_table.Rec_clean_up_whole [OF assms(1)] by blast
  show ?thesis
    unfolding rng'(2,3) [rule_format]
    using range [OF assms(3)] range [OF rng'(1)] tr [OF _ assms(3)] tr [OF _ rng'(1)] by metis
qed

theorem recursive_clean_up_refines_witness:
  "\<exists>m1 a1 m2 m3 d. Rec_map_to_with_table_flags (std_extern True) (cpu_mmu 0x1000) Size4KiB rec_table
      (bump_allocate 4096) rec_page (PhysFrame (PhysAddr 0x6000)) 3 3 (rec_mem, 2) =
        Some (Inr (MapperFlush rec_page), (m1, a1)) \<and>
    Rec_unmap (std_extern True) (cpu_mmu 0x1000) Size4KiB rec_table rec_page m1 =
      Some (Inr (PhysFrame (PhysAddr 0x6000), MapperFlush rec_page), m2) \<and>
    Rec_clean_up_addr_range (std_extern True) (cpu_mmu 0x1000) rec_table (\<lambda>fs f. f # fs)
      \<lparr>start_page_incl = rec_page, end_page_incl = rec_page\<rparr> (m2, []) = Some (m3, d) \<and>
    recursive_ok 0x1000 rec_index m3"
proof -
  obtain m1 a1 where r: "Rec_map_to_with_table_flags (std_extern True) (cpu_mmu 0x1000) Size4KiB rec_table
      (bump_allocate 4096) rec_page (PhysFrame (PhysAddr 0x6000)) 3 3 (rec_mem, 2) =
        Some (Inr (MapperFlush rec_page), (m1, a1))"
    using rec_map_succeeds by blast
  have ok: "recursive_ok 0x1000 (recursive_index rec_table) rec_mem"
    "good phys_walker 0x1000 (bump_free 4096) (hide 0x1000 (recursive_index rec_table) rec_mem, 2)"
    using rec_ok rec_good by (simp_all add: rec_index_ok)
  from recursive_table.Rec_map_to_view(5) [OF rec_recursive rec_bump ok rec_args rec_page_p4 rec_not_huge r]
  obtain m2 where u: "Rec_unmap (std_extern True) (cpu_mmu 0x1000) Size4KiB rec_table rec_page m1 =
      Some (Inr (PhysFrame (PhysAddr 0x6000), MapperFlush rec_page), m2)"
      "recursive_ok 0x1000 (recursive_index rec_table) m2"
    by blast
  have rng: "rng_ok \<lparr>start_page_incl = rec_page, end_page_incl = rec_page\<rparr>"
    by (simp add: rng_ok_def page_ok_def rec_page_def canonical_iff_unat lin_def)
  obtain m3 d where "Rec_clean_up_addr_range (std_extern True) (cpu_mmu 0x1000) rec_table (\<lambda>fs f. f # fs)
      \<lparr>start_page_incl = rec_page, end_page_incl = rec_page\<rparr> (m2, []) = Some (m3, d)"
      "recursive_ok 0x1000 (recursive_index rec_table) m3"
    using recursive_clean_up_refines [OF rec_recursive [of True] u(2) rng, of "\<lambda>fs f. f # fs" "[]"] by blast
  with r u(1) show ?thesis unfolding rec_index_ok by blast
qed

end
