(* ===== verification/Gdt.thy ===== *)
theory Gdt
  imports Addr
begin

text \<open>
  Segments: privilege levels (\<open>lib.rs\<close>), segment selectors (\<open>registers/segmentation.rs\<close>), the task
  state segment (\<open>structures/tss.rs\<close>), descriptors and the global descriptor table
  (\<open>structures/gdt.rs\<close>). An entry of the table is its raw value: the code's atomic cell is written
  through \<open>&mut self\<close> only. A pointer to a task state segment is its address. The lemmas show the
  table as a list of entries that \<open>append\<close> extends, and read the fields of the descriptors back.
\<close>

section \<open>Privilege levels\<close>

datatype PrivilegeLevel = Ring0 | Ring1 | Ring2 | Ring3

fun PrivilegeLevel_as_u16 :: "PrivilegeLevel \<Rightarrow> u16" where
  "PrivilegeLevel_as_u16 Ring0 = 0"
| "PrivilegeLevel_as_u16 Ring1 = 1"
| "PrivilegeLevel_as_u16 Ring2 = 2"
| "PrivilegeLevel_as_u16 Ring3 = 3"

definition PrivilegeLevel_from_u16 :: "u16 \<Rightarrow> PrivilegeLevel option" where
  "PrivilegeLevel_from_u16 value =
     (if value = 0 then Some Ring0
      else if value = 1 then Some Ring1
      else if value = 2 then Some Ring2
      else if value = 3 then Some Ring3
      else panic)"

section \<open>Segment selectors\<close>

datatype SegmentSelector = SegmentSelector (selector_u16: u16)

definition SegmentSelector_new :: "u16 \<Rightarrow> PrivilegeLevel \<Rightarrow> SegmentSelector" where
  "SegmentSelector_new index rpl = SegmentSelector (push_bit 3 index OR PrivilegeLevel_as_u16 rpl)"

definition SegmentSelector_NULL :: SegmentSelector where
  "SegmentSelector_NULL = SegmentSelector_new 0 Ring0"

definition SegmentSelector_index :: "SegmentSelector \<Rightarrow> u16" where
  "SegmentSelector_index self = drop_bit 3 (selector_u16 self)"

definition SegmentSelector_rpl :: "extern \<Rightarrow> SegmentSelector \<Rightarrow> PrivilegeLevel option" where
  "SegmentSelector_rpl X self = do {
     bits \<leftarrow> get_bits_u16 X (selector_u16 self) 0 2;
     PrivilegeLevel_from_u16 bits
   }"

definition SegmentSelector_set_rpl ::
  "extern \<Rightarrow> SegmentSelector \<Rightarrow> PrivilegeLevel \<Rightarrow> SegmentSelector option" where
  "SegmentSelector_set_rpl X self rpl = do {
     bits \<leftarrow> set_bits_u16 X (selector_u16 self) 0 2 (PrivilegeLevel_as_u16 rpl);
     Some (SegmentSelector bits)
   }"

section \<open>The task state segment\<close>

record TaskStateSegment =
  reserved_1 :: u32
  privilege_stack_table :: "VirtAddr list"
  reserved_2 :: u64
  interrupt_stack_table :: "VirtAddr list"
  reserved_3 :: u64
  reserved_4 :: u16
  iomap_base :: u16

text \<open>\<open>size_of::<TaskStateSegment>()\<close>: the fields without padding, by \<open>repr(C, packed(4))\<close>.\<close>

definition size_of_TaskStateSegment :: usize where
  "size_of_TaskStateSegment = 4 + 3 * 8 + 8 + 7 * 8 + 8 + 2 + 2"

definition TaskStateSegment_new :: TaskStateSegment where
  "TaskStateSegment_new = \<lparr>
     reserved_1 = 0,
     privilege_stack_table = replicate 3 VirtAddr_zero,
     reserved_2 = 0,
     interrupt_stack_table = replicate 7 VirtAddr_zero,
     reserved_3 = 0,
     reserved_4 = 0,
     iomap_base = ucast size_of_TaskStateSegment\<rparr>"

section \<open>Descriptors\<close>

type_synonym DescriptorFlags = u64

definition DescriptorFlags_ACCESSED :: DescriptorFlags where "DescriptorFlags_ACCESSED = push_bit 40 1"
definition DescriptorFlags_WRITABLE :: DescriptorFlags where "DescriptorFlags_WRITABLE = push_bit 41 1"
definition CONFORMING :: DescriptorFlags where "CONFORMING = push_bit 42 1"
definition EXECUTABLE :: DescriptorFlags where "EXECUTABLE = push_bit 43 1"
definition USER_SEGMENT :: DescriptorFlags where "USER_SEGMENT = push_bit 44 1"
definition DPL_RING_3 :: DescriptorFlags where "DPL_RING_3 = push_bit 45 3"
definition DescriptorFlags_PRESENT :: DescriptorFlags where "DescriptorFlags_PRESENT = push_bit 47 1"
definition AVAILABLE :: DescriptorFlags where "AVAILABLE = push_bit 52 1"
definition LONG_MODE :: DescriptorFlags where "LONG_MODE = push_bit 53 1"
definition DEFAULT_SIZE :: DescriptorFlags where "DEFAULT_SIZE = push_bit 54 1"
definition GRANULARITY :: DescriptorFlags where "GRANULARITY = push_bit 55 1"
definition LIMIT_0_15 :: DescriptorFlags where "LIMIT_0_15 = 0xFFFF"
definition LIMIT_16_19 :: DescriptorFlags where "LIMIT_16_19 = push_bit 48 0xF"
definition BASE_0_23 :: DescriptorFlags where "BASE_0_23 = push_bit 16 0xFFFFFF"
definition BASE_24_31 :: DescriptorFlags where "BASE_24_31 = push_bit 56 0xFF"

definition DescriptorFlags_all :: DescriptorFlags where
  "DescriptorFlags_all = fold (OR) [DescriptorFlags_ACCESSED, DescriptorFlags_WRITABLE, CONFORMING,
     EXECUTABLE, USER_SEGMENT, DPL_RING_3, DescriptorFlags_PRESENT, AVAILABLE, LONG_MODE,
     DEFAULT_SIZE, GRANULARITY, LIMIT_0_15, LIMIT_16_19, BASE_0_23, BASE_24_31] 0"

lemmas descriptor_flag_defs = DescriptorFlags_ACCESSED_def DescriptorFlags_WRITABLE_def CONFORMING_def
  EXECUTABLE_def USER_SEGMENT_def DPL_RING_3_def DescriptorFlags_PRESENT_def AVAILABLE_def
  LONG_MODE_def DEFAULT_SIZE_def GRANULARITY_def LIMIT_0_15_def LIMIT_16_19_def BASE_0_23_def
  BASE_24_31_def

definition COMMON :: "extern \<Rightarrow> DescriptorFlags" where
  "COMMON X = bitflags_from_bits_truncate X DescriptorFlags_all
     (USER_SEGMENT OR DescriptorFlags_PRESENT OR DescriptorFlags_WRITABLE OR DescriptorFlags_ACCESSED OR
      LIMIT_0_15 OR LIMIT_16_19 OR GRANULARITY)"

definition KERNEL_DATA :: "extern \<Rightarrow> DescriptorFlags" where
  "KERNEL_DATA X = bitflags_from_bits_truncate X DescriptorFlags_all (COMMON X OR DEFAULT_SIZE)"

definition KERNEL_CODE32 :: "extern \<Rightarrow> DescriptorFlags" where
  "KERNEL_CODE32 X = bitflags_from_bits_truncate X DescriptorFlags_all
     (COMMON X OR EXECUTABLE OR DEFAULT_SIZE)"

definition KERNEL_CODE64 :: "extern \<Rightarrow> DescriptorFlags" where
  "KERNEL_CODE64 X = bitflags_from_bits_truncate X DescriptorFlags_all
     (COMMON X OR EXECUTABLE OR LONG_MODE)"

definition USER_DATA :: "extern \<Rightarrow> DescriptorFlags" where
  "USER_DATA X = bitflags_from_bits_truncate X DescriptorFlags_all (KERNEL_DATA X OR DPL_RING_3)"

definition USER_CODE32 :: "extern \<Rightarrow> DescriptorFlags" where
  "USER_CODE32 X = bitflags_from_bits_truncate X DescriptorFlags_all (KERNEL_CODE32 X OR DPL_RING_3)"

definition USER_CODE64 :: "extern \<Rightarrow> DescriptorFlags" where
  "USER_CODE64 X = bitflags_from_bits_truncate X DescriptorFlags_all (KERNEL_CODE64 X OR DPL_RING_3)"

datatype Descriptor = UserSegment u64 | SystemSegment u64 u64

definition Descriptor_dpl :: "Descriptor \<Rightarrow> PrivilegeLevel option" where
  "Descriptor_dpl self =
     (let value_low = (case self of UserSegment v \<Rightarrow> v | SystemSegment v _ \<Rightarrow> v);
          dpl = drop_bit 45 (value_low AND DPL_RING_3)
      in PrivilegeLevel_from_u16 (ucast dpl))"

definition kernel_code_segment :: "extern \<Rightarrow> Descriptor" where
  "kernel_code_segment X = UserSegment (KERNEL_CODE64 X)"

definition kernel_data_segment :: "extern \<Rightarrow> Descriptor" where
  "kernel_data_segment X = UserSegment (KERNEL_DATA X)"

definition user_data_segment :: "extern \<Rightarrow> Descriptor" where
  "user_data_segment X = UserSegment (USER_DATA X)"

definition user_code_segment :: "extern \<Rightarrow> Descriptor" where
  "user_code_segment X = UserSegment (USER_CODE64 X)"

definition tss_segment_unchecked :: "extern \<Rightarrow> u64 \<Rightarrow> Descriptor option" where
  "tss_segment_unchecked X tss = do {
     let ptr = tss;
     let low = DescriptorFlags_PRESENT;
     base \<leftarrow> get_bits X ptr 0 24;
     low \<leftarrow> set_bits X low 16 40 base;
     base \<leftarrow> get_bits X ptr 24 32;
     low \<leftarrow> set_bits X low 56 64 base;
     low \<leftarrow> set_bits X low 0 16 (size_of_TaskStateSegment - 1);
     low \<leftarrow> set_bits X low 40 44 0b1001;
     let high = 0;
     base \<leftarrow> get_bits X ptr 32 64;
     high \<leftarrow> set_bits X high 0 32 base;
     Some (SystemSegment low high)
   }"

definition tss_segment :: "extern \<Rightarrow> u64 \<Rightarrow> Descriptor option" where
  "tss_segment X tss = tss_segment_unchecked X tss"

section \<open>The table\<close>

datatype Gdt_Entry = Entry (gdt_raw: u64)

definition Gdt_Entry_new :: "u64 \<Rightarrow> Gdt_Entry" where
  "Gdt_Entry_new raw = Entry raw"

definition Gdt_Entry_raw :: "Gdt_Entry \<Rightarrow> u64" where
  "Gdt_Entry_raw self = gdt_raw self"

record GlobalDescriptorTable =
  gdt_table :: "Gdt_Entry list"
  gdt_len :: usize

record DescriptorTablePointer =
  limit :: u16
  base :: VirtAddr

definition saturating_sub :: "usize \<Rightarrow> usize \<Rightarrow> usize" where
  "saturating_sub a b = (if b \<le> a then a - b else 0)"

text \<open>The const parameter \<open>MAX\<close> is an argument of the constructors; it is the length of the array.\<close>

definition Gdt_empty :: "usize \<Rightarrow> GlobalDescriptorTable option" where
  "Gdt_empty max_len = do {
     assert_that (max_len > 0);
     assert_that (max_len \<le> push_bit 13 1);
     Some \<lparr>gdt_table = replicate (unat max_len) (Gdt_Entry_new 0), gdt_len = 1\<rparr>
   }"

definition Gdt_new :: "GlobalDescriptorTable option" where
  "Gdt_new = Gdt_empty 8"

text \<open>The loop that copies the slice, from the index \<open>i\<close> on.\<close>

function copy_raw_entries :: "u64 list \<Rightarrow> nat \<Rightarrow> Gdt_Entry list \<Rightarrow> Gdt_Entry list option" where
  "copy_raw_entries raws i table =
     (if i < length raws then
        if i < length table
        then copy_raw_entries raws (i + 1) (table[i := Gdt_Entry_new (raws ! i)])
        else panic
      else Some table)"
  by pat_completeness auto

termination
  by (relation "measure (\<lambda>(raws, i, _). length raws - i)") auto

declare copy_raw_entries.simps [simp del]

definition Gdt_from_raw_entries :: "usize \<Rightarrow> u64 list \<Rightarrow> GlobalDescriptorTable option" where
  "Gdt_from_raw_entries max_len raws = do {
     let len = length raws;
     gdt \<leftarrow> Gdt_empty max_len;
     let table = gdt_table gdt;
     assert_that (len > 0);
     assert_that (raws ! 0 = 0);
     assert_that (len \<le> unat max_len);
     table \<leftarrow> copy_raw_entries raws 0 table;
     Some \<lparr>gdt_table = table, gdt_len = of_nat len\<rparr>
   }"

definition Gdt_entries :: "GlobalDescriptorTable \<Rightarrow> Gdt_Entry list option" where
  "Gdt_entries self =
     (if unat (gdt_len self) \<le> length (gdt_table self)
      then Some (take (unat (gdt_len self)) (gdt_table self)) else panic)"

definition Gdt_push ::
  "extern \<Rightarrow> GlobalDescriptorTable \<Rightarrow> u64 \<Rightarrow> (usize \<times> GlobalDescriptorTable) option" where
  "Gdt_push X self value = do {
     let index = gdt_len self;
     assert_that (unat index < length (gdt_table self));
     let self = self\<lparr>gdt_table := (gdt_table self)[unat index := Gdt_Entry_new value]\<rparr>;
     len \<leftarrow> add_op X (gdt_len self) 1;
     Some (index, self\<lparr>gdt_len := len\<rparr>)
   }"

definition Gdt_append ::
  "extern \<Rightarrow> GlobalDescriptorTable \<Rightarrow> Descriptor \<Rightarrow> (SegmentSelector \<times> GlobalDescriptorTable) option" where
  "Gdt_append X self d = do {
     (index, self) \<leftarrow> (case d of
         UserSegment value \<Rightarrow>
           if gdt_len self > saturating_sub (of_nat (length (gdt_table self))) 1 then panic
           else Gdt_push X self value
       | SystemSegment value_low value_high \<Rightarrow>
           if gdt_len self > saturating_sub (of_nat (length (gdt_table self))) 2 then panic
           else do {
             (index, self) \<leftarrow> Gdt_push X self value_low;
             (_, self) \<leftarrow> Gdt_push X self value_high;
             Some (index, self)
           });
     dpl \<leftarrow> Descriptor_dpl d;
     Some (SegmentSelector_new (ucast index) dpl, self)
   }"

definition Gdt_limit :: "extern \<Rightarrow> GlobalDescriptorTable \<Rightarrow> u16 option" where
  "Gdt_limit X self = do {
     bytes \<leftarrow> mul_op X (gdt_len self) 8;
     l \<leftarrow> sub_op X bytes 1;
     Some (ucast l)
   }"

text \<open>\<open>addr\<close> is the address of the table, \<open>self.table.as_ptr()\<close>.\<close>

definition Gdt_pointer ::
  "extern \<Rightarrow> u64 \<Rightarrow> GlobalDescriptorTable \<Rightarrow> DescriptorTablePointer option" where
  "Gdt_pointer X addr self = do {
     b \<leftarrow> VirtAddr_new addr;
     l \<leftarrow> Gdt_limit X self;
     Some \<lparr>limit = l, base = b\<rparr>
   }"

section \<open>Selectors\<close>

lemma from_as_u16 [simp]: "PrivilegeLevel_from_u16 (PrivilegeLevel_as_u16 r) = Some r"
  by (cases r) (simp_all add: PrivilegeLevel_from_u16_def)

lemma ring_bits [simp]: "take_bit 2 (PrivilegeLevel_as_u16 r) = PrivilegeLevel_as_u16 r"
  by (cases r) (simp_all add: take_bit_eq_mod)

lemma ring_high_bits: "\<not> bit (PrivilegeLevel_as_u16 r) (2 + n)"
  by (metis ring_bits bit_take_bit_iff not_add_less1)

lemma from_u16_None: "PrivilegeLevel_from_u16 v = panic \<longleftrightarrow> \<not> unat v < 4"
proof -
  have "v = of_nat (unat v)" by simp
  moreover have "unat v < 4 \<longleftrightarrow> unat v \<in> {0, 1, 2, 3}" by auto
  ultimately show ?thesis
    by (auto simp: PrivilegeLevel_from_u16_def word_unat_eq_iff)
qed

lemma SegmentSelector_index_new:
  assumes "unat i < 2 ^ 13"
  shows "SegmentSelector_index (SegmentSelector_new i r) = i"
proof -
  have "take_bit 13 i = i" using assms by (simp add: take_bit_word_eq_self_iff)
  then have "bit i n \<Longrightarrow> n < 13" for n by (metis bit_take_bit_iff)
  moreover have "\<not> bit (PrivilegeLevel_as_u16 r) (3 + n)" for n
    using ring_high_bits [of r "1 + n"] by (simp only: add.assoc [symmetric]) simp
  ultimately show ?thesis
    by (intro bit_word_eqI) (auto simp: SegmentSelector_index_def SegmentSelector_new_def bit_simps)
qed

context extern_ok
begin

lemma SegmentSelector_rpl_new: "SegmentSelector_rpl X (SegmentSelector_new i r) = Some r"
proof -
  have "get_range (push_bit 3 i OR PrivilegeLevel_as_u16 r) 0 2 = take_bit 2 (PrivilegeLevel_as_u16 r)"
    unfolding get_range_def by (rule bit_word_eqI) (auto simp: bit_simps)
  then show ?thesis
    by (simp add: SegmentSelector_rpl_def SegmentSelector_new_def del: push_bit_numeral)
qed

end

section \<open>The table as a list of raw values\<close>

definition gdt_ok :: "GlobalDescriptorTable \<Rightarrow> bool" where
  "gdt_ok g \<longleftrightarrow> 0 < unat (gdt_len g) \<and> unat (gdt_len g) \<le> length (gdt_table g) \<and>
     length (gdt_table g) \<le> 2 ^ 13 \<and> gdt_raw (gdt_table g ! 0) = 0"

definition gdt_values :: "GlobalDescriptorTable \<Rightarrow> u64 list" where
  "gdt_values g = map gdt_raw (take (unat (gdt_len g)) (gdt_table g))"

fun descriptor_values :: "Descriptor \<Rightarrow> u64 list" where
  "descriptor_values (UserSegment v) = [v]"
| "descriptor_values (SystemSegment v w) = [v, w]"

lemma length_gdt_values: "gdt_ok g \<Longrightarrow> length (gdt_values g) = unat (gdt_len g)"
  by (simp add: gdt_ok_def gdt_values_def)

lemma Gdt_push_full: "\<not> unat (gdt_len g) < length (gdt_table g) \<Longrightarrow> Gdt_push X g v = panic"
  by (simp add: Gdt_push_def)

lemma Gdt_push_eq:
  assumes g: "gdt_ok g" and l: "unat (gdt_len g) < length (gdt_table g)"
  shows "\<exists>g'. Gdt_push X g v = Some (gdt_len g, g') \<and> gdt_ok g' \<and> gdt_values g' = gdt_values g @ [v] \<and>
    length (gdt_table g') = length (gdt_table g)"
proof -
  let ?n = "unat (gdt_len g)"
  let ?g = "\<lparr>gdt_table = (gdt_table g)[?n := Entry v], gdt_len = gdt_len g + 1\<rparr>"
  have le: "length (gdt_table g) \<le> 2 ^ 13" and pos: "0 < ?n" using g by (simp_all add: gdt_ok_def)
  then have s: "?n + unat (1 :: usize) < 2 ^ LENGTH(64)" using l by simp
  then have n: "unat (gdt_len g + 1) = Suc ?n" using unat_add_no_wrap [OF s] by simp
  have "add_op X (gdt_len g) 1 = Some (gdt_len g + 1)"
    using s by (simp add: add_op_def checked_add_def)
  then have "Gdt_push X g v = Some (gdt_len g, ?g)"
    using l by (simp add: Gdt_push_def Gdt_Entry_new_def Let_def)
  moreover have "gdt_ok ?g" using g l n pos by (simp add: gdt_ok_def)
  moreover have "gdt_values ?g = gdt_values g @ [v]"
    using l by (simp add: gdt_values_def n take_Suc_conv_app_nth take_update_swap list_update_append)
  ultimately show ?thesis by auto
qed

lemma bit_DPL_RING_3: "bit DPL_RING_3 n \<longleftrightarrow> 45 \<le> n \<and> n < 47"
proof -
  have m: "DPL_RING_3 = push_bit 45 (mask 2)" by (simp add: DPL_RING_3_def mask_eq_exp_minus_1)
  show ?thesis unfolding m by (auto simp: bit_simps)
qed

lemma Descriptor_dpl_total: "\<exists>r. Descriptor_dpl d = Some r"
proof -
  have "unat (ucast (drop_bit 45 (v AND DPL_RING_3)) :: u16) < 4" for v
  proof -
    have "drop_bit 45 (v AND DPL_RING_3) = take_bit 2 (drop_bit 45 v)"
      by (rule bit_word_eqI) (auto simp: bit_simps bit_DPL_RING_3)
    then show ?thesis by (simp add: unat_ucast_mod unat_take_bit)
  qed
  then show ?thesis
    using from_u16_None by (cases d) (auto simp: Descriptor_dpl_def simp flip: not_None_eq)
qed

lemma saturating_sub_less:
  assumes "length t \<le> 2 ^ 13" and "unat k \<le> 2"
  shows "saturating_sub (of_nat (length t)) k < n \<longleftrightarrow> length t - unat k < unat n"
proof -
  have l: "unat (of_nat (length t) :: usize) = length t"
    using assms(1) by (intro unat_of_nat_small) simp
  then show ?thesis
    using unat_sub_no_wrap [of k "of_nat (length t)"]
    by (auto simp: saturating_sub_def word_less_nat_alt word_le_nat_alt)
qed

lemma Gdt_append_values:
  assumes g: "gdt_ok g"
  shows "if length (gdt_values g) + length (descriptor_values d) \<le> length (gdt_table g)
    then \<exists>g' r. Gdt_append X g d = Some (SegmentSelector_new (ucast (gdt_len g)) r, g') \<and>
      Descriptor_dpl d = Some r \<and> gdt_ok g' \<and> gdt_values g' = gdt_values g @ descriptor_values d \<and>
      length (gdt_table g') = length (gdt_table g)
    else Gdt_append X g d = panic"
proof -
  note len = length_gdt_values [OF g]
  have le: "length (gdt_table g) \<le> 2 ^ 13" and pos: "0 < unat (gdt_len g)"
    using g by (simp_all add: gdt_ok_def)
  obtain r where r: "Descriptor_dpl d = Some r" using Descriptor_dpl_total by blast
  show ?thesis
  proof (cases d)
    case (UserSegment v)
    show ?thesis
    proof (cases "unat (gdt_len g) < length (gdt_table g)")
      case True
      from Gdt_push_eq [OF g True, of X v] obtain g' where g':
        "Gdt_push X g v = Some (gdt_len g, g')" "gdt_ok g'" "gdt_values g' = gdt_values g @ [v]"
        "length (gdt_table g') = length (gdt_table g)" by blast
      moreover have "\<not> length (gdt_table g) - 1 < unat (gdt_len g)" using True by simp
      ultimately show ?thesis
        using True r UserSegment by (simp add: Gdt_append_def saturating_sub_less [OF le] len)
    next
      case False
      then have "length (gdt_table g) - 1 < unat (gdt_len g)" using pos by simp
      with False UserSegment show ?thesis
        by (simp add: Gdt_append_def saturating_sub_less [OF le] len)
    qed
  next
    case (SystemSegment v w)
    show ?thesis
    proof (cases "Suc (unat (gdt_len g)) < length (gdt_table g)")
      case True
      then have "unat (gdt_len g) < length (gdt_table g)" by simp
      from Gdt_push_eq [OF g this, of X v] obtain g1 where g1:
        "Gdt_push X g v = Some (gdt_len g, g1)" "gdt_ok g1" "gdt_values g1 = gdt_values g @ [v]"
        "length (gdt_table g1) = length (gdt_table g)" by blast
      then have "unat (gdt_len g1) = Suc (unat (gdt_len g))"
        using length_gdt_values [of g1] len by simp
      with True g1 have "unat (gdt_len g1) < length (gdt_table g1)" by simp
      from Gdt_push_eq [OF g1(2) this, of X w] obtain g2 where
        "Gdt_push X g1 w = Some (gdt_len g1, g2)" "gdt_ok g2" "gdt_values g2 = gdt_values g1 @ [w]"
        "length (gdt_table g2) = length (gdt_table g1)" by blast
      with g1 True r SystemSegment show ?thesis
        by (simp add: Gdt_append_def saturating_sub_less [OF le] len)
    next
      case False
      then have "length (gdt_table g) - 2 < unat (gdt_len g)" using pos by simp
      with False SystemSegment show ?thesis
        by (simp add: Gdt_append_def saturating_sub_less [OF le] len)
    qed
  qed
qed

lemma copy_raw_entries_eq:
  assumes "length raws \<le> length t" and "i \<le> length raws"
  shows "copy_raw_entries raws i t = Some (take i t @ map Entry (drop i raws) @ drop (length raws) t)"
  using assms
proof (induction raws i t rule: copy_raw_entries.induct)
  case (1 raws i t)
  show ?case
  proof (cases "i < length raws")
    case True
    with 1 have "copy_raw_entries raws (i + 1) (t[i := Gdt_Entry_new (raws ! i)]) =
        Some (take (i + 1) (t[i := Entry (raws ! i)]) @ map Entry (drop (i + 1) raws) @ drop (length raws) t)"
      by (simp add: Gdt_Entry_new_def)
    moreover have "take (i + 1) (t[i := Entry (raws ! i)]) = take i t @ [Entry (raws ! i)]"
      using True 1 by (simp add: take_Suc_conv_app_nth)
    ultimately show ?thesis
      using True 1 by (subst copy_raw_entries.simps) (simp add: Gdt_Entry_new_def flip: Cons_nth_drop_Suc)
  next
    case False
    with 1 show ?thesis by (subst copy_raw_entries.simps) simp
  qed
qed

lemma Gdt_empty_eq:
  "Gdt_empty n = (if 0 < unat n \<and> unat n \<le> 2 ^ 13
    then Some \<lparr>gdt_table = replicate (unat n) (Entry 0), gdt_len = 1\<rparr> else panic)"
  by (auto simp: Gdt_empty_def Gdt_Entry_new_def word_less_nat_alt word_le_nat_alt)

section \<open>Properties\<close>

text \<open>
  C27. \<open>GlobalDescriptorTable::append\<close> on a well-formed table: when the descriptor's one or two values
  still fit, they are added at the end, the table stays well-formed and nothing else changes; the
  selector returned has the index of the first of them and the descriptor's privilege level. When
  they do not fit, the call panics.
\<close>

theorem gdt_append_exact:
  assumes "extern_ok X" and "gdt_ok g"
  shows "if length (gdt_values g) + length (descriptor_values d) \<le> length (gdt_table g)
    then \<exists>sel g'. Gdt_append X g d = Some (sel, g') \<and> gdt_ok g' \<and>
      gdt_values g' = gdt_values g @ descriptor_values d \<and>
      length (gdt_table g') = length (gdt_table g) \<and>
      unat (SegmentSelector_index sel) = length (gdt_values g) \<and>
      SegmentSelector_rpl X sel = Descriptor_dpl d
    else Gdt_append X g d = panic"
proof (cases "length (gdt_values g) + length (descriptor_values d) \<le> length (gdt_table g)")
  case True
  then obtain g' r where g': "Gdt_append X g d = Some (SegmentSelector_new (ucast (gdt_len g)) r, g')"
    "Descriptor_dpl d = Some r" "gdt_ok g'" "gdt_values g' = gdt_values g @ descriptor_values d"
    "length (gdt_table g') = length (gdt_table g)"
    using Gdt_append_values [OF assms(2), of d X] by auto
  have "0 < length (descriptor_values d)" by (cases d) simp_all
  moreover have "length (gdt_table g) \<le> 2 ^ 13" using assms(2) by (simp add: gdt_ok_def)
  ultimately have "unat (gdt_len g) < 2 ^ 13"
    using True length_gdt_values [OF assms(2)] by linarith
  then have "unat (ucast (gdt_len g) :: u16) = length (gdt_values g)"
    "unat (ucast (gdt_len g) :: u16) < 2 ^ 13"
    by (simp_all add: length_gdt_values [OF assms(2)] unat_ucast_mod)
  with True g' show ?thesis
    by (simp add: SegmentSelector_index_new extern_ok.SegmentSelector_rpl_new [OF assms(1)])
next
  case False
  then show ?thesis using Gdt_append_values [OF assms(2), of d X] by simp
qed

theorem gdt_append_exact_witness:
  "\<exists>sel g'. Gdt_append (std_extern True) \<lparr>gdt_table = replicate 2 (Entry 0), gdt_len = 1\<rparr>
      (UserSegment 0xaffb000000ffff) = Some (sel, g') \<and>
    gdt_values g' = [0, 0xaffb000000ffff] \<and> unat (SegmentSelector_index sel) = 1"
proof -
  let ?g = "\<lparr>gdt_table = replicate 2 (Entry 0), gdt_len = 1\<rparr>"
  have "gdt_ok ?g" by (simp add: gdt_ok_def)
  moreover have "gdt_values ?g = [0]" by (simp add: gdt_values_def numeral_2_eq_2)
  ultimately show ?thesis
    using gdt_append_exact [OF std_extern_ok, of ?g "UserSegment 0xaffb000000ffff" True] by auto
qed

lemma Gdt_limit_bytes:
  assumes "gdt_ok g"
  shows "\<exists>l. Gdt_limit X g = Some l \<and> unat l + 1 = 8 * unat (gdt_len g)"
proof -
  let ?k = "gdt_len g"
  have k: "1 \<le> unat ?k" "unat ?k \<le> 2 ^ 13" using assms by (auto simp: gdt_ok_def)
  have m: "unat (?k * 8) = unat ?k * 8" using k unat_mul_no_wrap [of ?k 8] by simp
  have le: "1 \<le> ?k * 8" using m k by (simp add: word_le_nat_alt Suc_le_eq)
  have "Gdt_limit X g = Some (ucast (?k * 8 - 1))"
    using k le by (simp add: Gdt_limit_def mul_op_def checked_mul_def sub_op_def checked_sub_def)
  moreover have "unat (?k * 8 - 1) = unat ?k * 8 - 1" using unat_sub_no_wrap [OF le] m by simp
  then have "unat (ucast (?k * 8 - 1 :: usize) :: u16) + 1 = 8 * unat ?k"
    using k by (simp add: unat_ucast_mod)
  ultimately show ?thesis by blast
qed

text \<open>
  Building a table: \<open>from_raw_entries\<close> returns exactly when the capacity is between 1 and
  \<open>2 ^ 13\<close>, the slice is not empty, starts with zero and fits; the table then holds exactly the
  slice, and \<open>entries\<close> returns it. Otherwise it panics. The limit of a well-formed table is one less
  than its size in bytes.
\<close>

theorem gdt_from_raw_entries_exact:
  "if 0 < unat n \<and> unat n \<le> 2 ^ 13 \<and> raws \<noteq> [] \<and> raws ! 0 = 0 \<and> length raws \<le> unat n
   then \<exists>g l. Gdt_from_raw_entries n raws = Some g \<and> gdt_ok g \<and> gdt_values g = raws \<and>
     length (gdt_table g) = unat n \<and> Gdt_entries g = Some (map Entry raws) \<and>
     Gdt_limit X g = Some l \<and> unat l + 1 = 8 * length raws
   else Gdt_from_raw_entries n raws = panic"
proof (cases "0 < unat n \<and> unat n \<le> 2 ^ 13 \<and> raws \<noteq> [] \<and> raws ! 0 = 0 \<and> length raws \<le> unat n")
  case True
  let ?k = "of_nat (length raws) :: usize"
  let ?g = "\<lparr>gdt_table = map Entry raws @ drop (length raws) (replicate (unat n) (Entry 0)), gdt_len = ?k\<rparr>"
  have k: "unat ?k = length raws" using True by (intro unat_of_nat_small) simp
  have "Gdt_from_raw_entries n raws = Some ?g"
    using True by (simp add: Gdt_from_raw_entries_def Gdt_empty_eq copy_raw_entries_eq Let_def)
  moreover have "gdt_ok ?g" using True k by (simp add: gdt_ok_def nth_append)
  moreover have "gdt_values ?g = raws" using k by (simp add: gdt_values_def comp_def)
  moreover have "Gdt_entries ?g = Some (map Entry raws)" using k True by (simp add: Gdt_entries_def)
  moreover have "\<exists>l. Gdt_limit X ?g = Some l \<and> unat l + 1 = 8 * length raws"
    using Gdt_limit_bytes [OF \<open>gdt_ok ?g\<close>, of X] k by simp
  ultimately show ?thesis using True by auto
next
  case False
  then show ?thesis
    by (auto simp: Gdt_from_raw_entries_def Gdt_empty_eq Let_def)
qed

definition tss_low :: "u64 \<Rightarrow> u64" where
  "tss_low ptr = set_range (set_range (set_range (set_range DescriptorFlags_PRESENT 16 40 (get_range ptr 0 24))
     56 64 (get_range ptr 24 32)) 0 16 0x67) 40 44 9"

lemma get_range_fits: "hi - lo = k \<Longrightarrow> take_bit k (get_range v lo hi) = (get_range v lo hi :: u64)"
  by (simp add: get_range_def)

lemma get_range_eqI:
  assumes "take_bit (hi - lo) w = w" and "\<And>n. n < hi - lo \<Longrightarrow> bit v (lo + n) = bit w n"
  shows "get_range v lo hi = (w :: u64)"
proof (rule bit_word_eqI)
  fix n :: nat
  have "bit w n \<Longrightarrow> n < hi - lo" using assms(1) by (metis bit_take_bit_iff)
  with assms(2) [of n] show "bit (get_range v lo hi) n = bit w n" by (auto simp: bit_get_range)
qed

lemma bit_tss_low:
  assumes "n < 64"
  shows "bit (tss_low ptr) n \<longleftrightarrow>
    (if n < 16 then bit (0x67 :: u64) n else if n < 40 then bit ptr (n - 16)
     else if n < 44 then bit (9 :: u64) (n - 40) else if 56 \<le> n then bit ptr (n - 32) else n = 47)"
proof -
  have f: "take_bit 16 (0x67 :: u64) = 0x67" "take_bit 4 (9 :: u64) = 9"
    by (simp_all add: take_bit_eq_mod)
  have p: "bit DescriptorFlags_PRESENT n \<longleftrightarrow> n = 47"
    unfolding DescriptorFlags_PRESENT_def bit_push_bit_iff by (auto simp: bit_simps assms)
  show ?thesis
    using assms by (auto simp: tss_low_def bit_set_range get_range_fits f p bit_get_range)
qed

text \<open>
  The TSS descriptor encodes its arguments: the three base fields put together are the address
  of the segment, the limit is the size of the TSS minus one, the type is the available 64-bit TSS,
  it is present, at privilege level 0, and every other bit is zero. Building it never panics.
\<close>

theorem tss_segment_exact:
  assumes "extern_ok X"
  shows "\<exists>low high. tss_segment X ptr = Some (SystemSegment low high) \<and>
    get_range low 16 40 OR push_bit 24 (get_range low 56 64) OR push_bit 32 (get_range high 0 32) = ptr \<and>
    get_range low 0 16 = 0x67 \<and> get_range low 40 44 = 9 \<and> bit low 47 \<and>
    Descriptor_dpl (SystemSegment low high) = Some Ring0 \<and>
    get_range low 44 47 = 0 \<and> get_range low 48 56 = 0 \<and> get_range high 32 64 = 0"
proof (intro exI conjI)
  let ?low = "tss_low ptr" and ?high = "set_range 0 0 32 (get_range ptr 32 64)"
  have f: "take_bit 16 (0x67 :: u64) = 0x67" "take_bit 4 (9 :: u64) = 9"
    by (simp_all add: take_bit_eq_mod)
  show "tss_segment X ptr = Some (SystemSegment ?low ?high)"
    by (simp add: tss_segment_def tss_segment_unchecked_def tss_low_def size_of_TaskStateSegment_def Let_def
        extern_ok.get_bits [OF assms] extern_ok.set_bits [OF assms] get_range_fits f)
  have high: "bit ?high n \<longleftrightarrow> n < 32 \<and> bit ptr (n + 32)" if "n < 64" for n
    using that by (auto simp: bit_set_range get_range_fits bit_get_range add.commute)
  show "get_range ?low 16 40 OR push_bit 24 (get_range ?low 56 64) OR push_bit 32 (get_range ?high 0 32) = ptr"
  proof -
    have "get_range ?low 16 40 = get_range ptr 0 24" "get_range ?low 56 64 = get_range ptr 24 32"
      "get_range ?high 0 32 = get_range ptr 32 64"
      by (rule get_range_eqI; simp add: get_range_fits bit_get_range bit_tss_low high ac_simps)+
    moreover have "bit (get_range ptr 0 24 OR push_bit 24 (get_range ptr 24 32) OR
        push_bit 32 (get_range ptr 32 64)) n = bit ptr n" if "n < 64" for n
      using that by (cases "n < 24"; cases "n < 32") (auto simp: bit_simps)
    ultimately show ?thesis by (intro bit_word_eqI) simp
  qed
  show "get_range ?low 0 16 = 0x67" "get_range ?low 40 44 = 9" "get_range ?low 44 47 = 0"
    "get_range ?low 48 56 = 0" "get_range ?high 32 64 = 0"
    by (rule get_range_eqI; simp add: take_bit_eq_mod bit_tss_low high)+
  show "bit ?low 47" by (simp add: bit_tss_low)
  have "?low AND DPL_RING_3 = 0"
    by (intro bit_word_eqI) (auto simp: bit_and_iff bit_DPL_RING_3 bit_tss_low)
  then show "Descriptor_dpl (SystemSegment ?low ?high) = Some Ring0"
    by (simp add: Descriptor_dpl_def PrivilegeLevel_from_u16_def del: drop_bit_and)
qed

theorem tss_segment_exact_witness:
  "\<exists>low high. tss_segment (std_extern True) 0xffff800012345678 = Some (SystemSegment low high) \<and>
    Descriptor_dpl (SystemSegment low high) = Some Ring0"
  using tss_segment_exact [OF std_extern_ok, of True "0xffff800012345678"] by blast

end
