(* ===== verification/Idt.thy ===== *)
theory Idt
  imports Gdt
begin

text \<open>
  \<open>structures/idt.rs\<close>: the entries of the interrupt descriptor table and their options, the table
  with its accesses by vector and by range of vectors, the error codes and the exception vectors.
  The type parameter of an entry (the type of its handler) has no run-time part. The code selector
  that \<open>set_handler_addr\<close> reads from the CPU and the address of the table are arguments.
\<close>

section \<open>Options of an entry\<close>

record EntryOptions =
  opt_cs :: SegmentSelector
  opt_bits :: u16

definition EntryOptions_minimal :: EntryOptions where
  "EntryOptions_minimal = \<lparr>opt_cs = SegmentSelector 0, opt_bits = 0b111000000000\<rparr>"

definition set_code_selector :: "EntryOptions \<Rightarrow> SegmentSelector \<Rightarrow> EntryOptions" where
  "set_code_selector self cs = self\<lparr>opt_cs := cs\<rparr>"

definition set_present :: "extern \<Rightarrow> EntryOptions \<Rightarrow> bool \<Rightarrow> EntryOptions option" where
  "set_present X self present = do {
     b \<leftarrow> set_bit_u16 X (opt_bits self) 15 present;
     Some (self\<lparr>opt_bits := b\<rparr>)
   }"

definition is_present :: "extern \<Rightarrow> EntryOptions \<Rightarrow> bool option" where
  "is_present X self = get_bit_u16 X (opt_bits self) 15"

definition disable_interrupts :: "extern \<Rightarrow> EntryOptions \<Rightarrow> bool \<Rightarrow> EntryOptions option" where
  "disable_interrupts X self disable = do {
     b \<leftarrow> set_bit_u16 X (opt_bits self) 8 (\<not> disable);
     Some (self\<lparr>opt_bits := b\<rparr>)
   }"

definition set_privilege_level :: "extern \<Rightarrow> EntryOptions \<Rightarrow> PrivilegeLevel \<Rightarrow> EntryOptions option" where
  "set_privilege_level X self dpl = do {
     b \<leftarrow> set_bits_u16 X (opt_bits self) 13 15 (PrivilegeLevel_as_u16 dpl);
     Some (self\<lparr>opt_bits := b\<rparr>)
   }"

definition privilege_level :: "extern \<Rightarrow> EntryOptions \<Rightarrow> PrivilegeLevel option" where
  "privilege_level X self = do {
     b \<leftarrow> get_bits_u16 X (opt_bits self) 13 15;
     PrivilegeLevel_from_u16 b
   }"

definition set_stack_index :: "extern \<Rightarrow> EntryOptions \<Rightarrow> u16 \<Rightarrow> EntryOptions option" where
  "set_stack_index X self index = do {
     i \<leftarrow> add_op X index 1;
     b \<leftarrow> set_bits_u16 X (opt_bits self) 0 3 i;
     Some (self\<lparr>opt_bits := b\<rparr>)
   }"

text \<open>The result of \<open>checked_sub\<close> is the returned \<open>Option\<close>.\<close>

definition stack_index :: "extern \<Rightarrow> EntryOptions \<Rightarrow> u16 option option" where
  "stack_index X self = do {
     b \<leftarrow> get_bits_u16 X (opt_bits self) 0 3;
     Some (checked_sub b 1)
   }"

section \<open>Entries\<close>

record Idt_Entry =
  pointer_low :: u16
  entry_options :: EntryOptions
  pointer_middle :: u16
  pointer_high :: u32
  entry_reserved :: u32

definition Idt_Entry_missing :: Idt_Entry where
  "Idt_Entry_missing = \<lparr>pointer_low = 0, entry_options = EntryOptions_minimal, pointer_middle = 0,
     pointer_high = 0, entry_reserved = 0\<rparr>"

definition set_handler_addr ::
  "extern \<Rightarrow> SegmentSelector \<Rightarrow> Idt_Entry \<Rightarrow> VirtAddr \<Rightarrow> Idt_Entry option" where
  "set_handler_addr X current_cs self addr = do {
     let addr = VirtAddr_as_u64 addr;
     let self = self\<lparr>pointer_low := ucast addr, pointer_middle := ucast (drop_bit 16 addr),
                     pointer_high := ucast (drop_bit 32 addr)\<rparr>;
     let options = EntryOptions_minimal;
     let options = set_code_selector options current_cs;
     options \<leftarrow> set_present X options True;
     Some (self\<lparr>entry_options := options\<rparr>)
   }"

definition handler_addr :: "Idt_Entry \<Rightarrow> VirtAddr" where
  "handler_addr self =
     (let addr = ucast (pointer_low self) OR push_bit 16 (ucast (pointer_middle self)) OR
                 push_bit 32 (ucast (pointer_high self))
      in VirtAddr_new_truncate addr)"

text \<open>\<open>HandlerFuncType::to_virt_addr\<close>, for a function pointer given by its address.\<close>

definition to_virt_addr :: "u64 \<Rightarrow> VirtAddr option" where
  "to_virt_addr fn = VirtAddr_new fn"

definition set_handler_fn :: "extern \<Rightarrow> SegmentSelector \<Rightarrow> Idt_Entry \<Rightarrow> u64 \<Rightarrow> Idt_Entry option" where
  "set_handler_fn X current_cs self handler = do {
     addr \<leftarrow> to_virt_addr handler;
     set_handler_addr X current_cs self addr
   }"

section \<open>The table\<close>

record InterruptDescriptorTable =
  divide_error :: Idt_Entry
  debug :: Idt_Entry
  non_maskable_interrupt :: Idt_Entry
  breakpoint :: Idt_Entry
  overflow :: Idt_Entry
  bound_range_exceeded :: Idt_Entry
  invalid_opcode :: Idt_Entry
  device_not_available :: Idt_Entry
  double_fault :: Idt_Entry
  coprocessor_segment_overrun :: Idt_Entry
  invalid_tss :: Idt_Entry
  segment_not_present :: Idt_Entry
  stack_segment_fault :: Idt_Entry
  general_protection_fault :: Idt_Entry
  page_fault :: Idt_Entry
  idt_reserved_1 :: Idt_Entry
  x87_floating_point :: Idt_Entry
  alignment_check :: Idt_Entry
  machine_check :: Idt_Entry
  simd_floating_point :: Idt_Entry
  virtualization :: Idt_Entry
  cp_protection_exception :: Idt_Entry
  idt_reserved_2 :: "Idt_Entry list"
  hv_injection_exception :: Idt_Entry
  vmm_communication_exception :: Idt_Entry
  security_exception :: Idt_Entry
  idt_reserved_3 :: Idt_Entry
  interrupts :: "Idt_Entry list"

definition Idt_new :: InterruptDescriptorTable where
  "Idt_new = \<lparr>
     divide_error = Idt_Entry_missing,
     debug = Idt_Entry_missing,
     non_maskable_interrupt = Idt_Entry_missing,
     breakpoint = Idt_Entry_missing,
     overflow = Idt_Entry_missing,
     bound_range_exceeded = Idt_Entry_missing,
     invalid_opcode = Idt_Entry_missing,
     device_not_available = Idt_Entry_missing,
     double_fault = Idt_Entry_missing,
     coprocessor_segment_overrun = Idt_Entry_missing,
     invalid_tss = Idt_Entry_missing,
     segment_not_present = Idt_Entry_missing,
     stack_segment_fault = Idt_Entry_missing,
     general_protection_fault = Idt_Entry_missing,
     page_fault = Idt_Entry_missing,
     idt_reserved_1 = Idt_Entry_missing,
     x87_floating_point = Idt_Entry_missing,
     alignment_check = Idt_Entry_missing,
     machine_check = Idt_Entry_missing,
     simd_floating_point = Idt_Entry_missing,
     virtualization = Idt_Entry_missing,
     cp_protection_exception = Idt_Entry_missing,
     idt_reserved_2 = replicate 6 Idt_Entry_missing,
     hv_injection_exception = Idt_Entry_missing,
     vmm_communication_exception = Idt_Entry_missing,
     security_exception = Idt_Entry_missing,
     idt_reserved_3 = Idt_Entry_missing,
     interrupts = replicate (256 - 32) Idt_Entry_missing\<rparr>"

definition Idt_reset :: "InterruptDescriptorTable \<Rightarrow> InterruptDescriptorTable" where
  "Idt_reset self = Idt_new"

text \<open>
  \<open>Index<u8>\<close>: the last three arms of the match are the panics, on the reserved entries, the
  exceptions with an error code and the diverging one. \<open>index_mut\<close> is the write of the entry \<open>e\<close>
  through the returned reference.
\<close>

definition Idt_index :: "InterruptDescriptorTable \<Rightarrow> u8 \<Rightarrow> Idt_Entry option" where
  "Idt_index self index = (let i = unat index in
     if i = 0 then Some (divide_error self)
     else if i = 1 then Some (debug self)
     else if i = 2 then Some (non_maskable_interrupt self)
     else if i = 3 then Some (breakpoint self)
     else if i = 4 then Some (overflow self)
     else if i = 5 then Some (bound_range_exceeded self)
     else if i = 6 then Some (invalid_opcode self)
     else if i = 7 then Some (device_not_available self)
     else if i = 9 then Some (coprocessor_segment_overrun self)
     else if i = 16 then Some (x87_floating_point self)
     else if i = 19 then Some (simd_floating_point self)
     else if i = 20 then Some (virtualization self)
     else if i = 28 then Some (hv_injection_exception self)
     else if 32 \<le> i \<and> i \<le> 255 then
       (if i - 32 < length (interrupts self) then Some (interrupts self ! (i - 32)) else panic)
     else if i = 15 \<or> i = 31 \<or> 22 \<le> i \<and> i \<le> 27 then panic
     else if i = 8 \<or> 10 \<le> i \<and> i \<le> 14 \<or> i = 17 \<or> i = 21 \<or> i = 29 \<or> i = 30 then panic
     else panic)"

definition Idt_index_mut ::
  "InterruptDescriptorTable \<Rightarrow> u8 \<Rightarrow> Idt_Entry \<Rightarrow> InterruptDescriptorTable option" where
  "Idt_index_mut self index e = (let i = unat index in
     if i = 0 then Some (self\<lparr>divide_error := e\<rparr>)
     else if i = 1 then Some (self\<lparr>debug := e\<rparr>)
     else if i = 2 then Some (self\<lparr>non_maskable_interrupt := e\<rparr>)
     else if i = 3 then Some (self\<lparr>breakpoint := e\<rparr>)
     else if i = 4 then Some (self\<lparr>overflow := e\<rparr>)
     else if i = 5 then Some (self\<lparr>bound_range_exceeded := e\<rparr>)
     else if i = 6 then Some (self\<lparr>invalid_opcode := e\<rparr>)
     else if i = 7 then Some (self\<lparr>device_not_available := e\<rparr>)
     else if i = 9 then Some (self\<lparr>coprocessor_segment_overrun := e\<rparr>)
     else if i = 16 then Some (self\<lparr>x87_floating_point := e\<rparr>)
     else if i = 19 then Some (self\<lparr>simd_floating_point := e\<rparr>)
     else if i = 20 then Some (self\<lparr>virtualization := e\<rparr>)
     else if i = 28 then Some (self\<lparr>hv_injection_exception := e\<rparr>)
     else if 32 \<le> i \<and> i \<le> 255 then
       (if i - 32 < length (interrupts self)
        then Some (self\<lparr>interrupts := (interrupts self)[i - 32 := e]\<rparr>) else panic)
     else if i = 15 \<or> i = 31 \<or> 22 \<le> i \<and> i \<le> 27 then panic
     else if i = 8 \<or> 10 \<le> i \<and> i \<le> 14 \<or> i = 17 \<or> i = 21 \<or> i = 29 \<or> i = 30 then panic
     else panic)"

text \<open>The bounds of a range of vectors (\<open>core::ops::Bound\<close>).\<close>

datatype bound = Included u8 | Excluded u8 | Unbounded

definition condition_slice_bounds :: "bound \<Rightarrow> bound \<Rightarrow> (usize \<times> usize) option" where
  "condition_slice_bounds start_bound end_bound =
     (let lower_idx = (case start_bound of
              Included start \<Rightarrow> ucast start
            | Excluded start \<Rightarrow> ucast start + 1
            | Unbounded \<Rightarrow> 0);
          upper_idx = (case end_bound of
              Included end \<Rightarrow> ucast end + 1
            | Excluded end \<Rightarrow> ucast end
            | Unbounded \<Rightarrow> 256)
      in if lower_idx < 32 then panic else Some (lower_idx, upper_idx))"

definition Idt_slice ::
  "extern \<Rightarrow> InterruptDescriptorTable \<Rightarrow> bound \<Rightarrow> bound \<Rightarrow> Idt_Entry list option" where
  "Idt_slice X self start_bound end_bound = do {
     (lower_idx, upper_idx) \<leftarrow> condition_slice_bounds start_bound end_bound;
     lo \<leftarrow> sub_op X lower_idx 32;
     hi \<leftarrow> sub_op X upper_idx 32;
     assert_that (lo \<le> hi \<and> unat hi \<le> length (interrupts self));
     Some (take (unat hi - unat lo) (drop (unat lo) (interrupts self)))
   }"

text \<open>
  The write of the entries \<open>es\<close> through the slice that \<open>slice_mut\<close> returns; its length is the
  slice's.
\<close>

definition Idt_slice_mut ::
  "extern \<Rightarrow> InterruptDescriptorTable \<Rightarrow> bound \<Rightarrow> bound \<Rightarrow> Idt_Entry list \<Rightarrow>
   InterruptDescriptorTable option" where
  "Idt_slice_mut X self start_bound end_bound es = do {
     (lower_idx, upper_idx) \<leftarrow> condition_slice_bounds start_bound end_bound;
     lo \<leftarrow> sub_op X lower_idx 32;
     hi \<leftarrow> sub_op X upper_idx 32;
     assert_that (lo \<le> hi \<and> unat hi \<le> length (interrupts self));
     Some (self\<lparr>interrupts := take (unat lo) (interrupts self) @ es @ drop (unat hi) (interrupts self)\<rparr>)
   }"

text \<open>\<open>Index\<close> and \<open>IndexMut\<close> for the range types (the macro \<open>impl_index_for_idt\<close>), and \<open>Default\<close>.\<close>

definition Idt_index_range ::
  "extern \<Rightarrow> InterruptDescriptorTable \<Rightarrow> bound \<Rightarrow> bound \<Rightarrow> Idt_Entry list option" where
  "Idt_index_range X self start_bound end_bound = Idt_slice X self start_bound end_bound"

definition Idt_index_mut_range ::
  "extern \<Rightarrow> InterruptDescriptorTable \<Rightarrow> bound \<Rightarrow> bound \<Rightarrow> Idt_Entry list \<Rightarrow>
   InterruptDescriptorTable option" where
  "Idt_index_mut_range X self start_bound end_bound es = Idt_slice_mut X self start_bound end_bound es"

definition Idt_default :: InterruptDescriptorTable where
  "Idt_default = Idt_new"

text \<open>\<open>size_of::<InterruptDescriptorTable>()\<close> is 256 entries of 16 bytes.\<close>

definition Idt_pointer :: "u64 \<Rightarrow> DescriptorTablePointer option" where
  "Idt_pointer addr = do {
     b \<leftarrow> VirtAddr_new addr;
     Some \<lparr>limit = ucast (256 * 16 - 1 :: usize), base = b\<rparr>
   }"

section \<open>Stack frames, error codes and exception vectors\<close>

record InterruptStackFrameValue =
  instruction_pointer :: VirtAddr
  code_segment :: SegmentSelector
  frame_reserved1 :: "u8 list"
  cpu_flags :: u64
  stack_pointer :: VirtAddr
  stack_segment :: SegmentSelector
  frame_reserved2 :: "u8 list"

definition InterruptStackFrameValue_new ::
  "VirtAddr \<Rightarrow> SegmentSelector \<Rightarrow> u64 \<Rightarrow> VirtAddr \<Rightarrow> SegmentSelector \<Rightarrow> InterruptStackFrameValue" where
  "InterruptStackFrameValue_new ip cs fl sp ss = \<lparr>
     instruction_pointer = ip,
     code_segment = cs,
     frame_reserved1 = replicate 6 0,
     cpu_flags = fl,
     stack_pointer = sp,
     stack_segment = ss,
     frame_reserved2 = replicate 6 0\<rparr>"

text \<open>The wrapper that hides the values of the frame from accidental changes.\<close>

datatype InterruptStackFrame = InterruptStackFrame (frame_value: InterruptStackFrameValue)

definition InterruptStackFrame_new ::
  "VirtAddr \<Rightarrow> SegmentSelector \<Rightarrow> u64 \<Rightarrow> VirtAddr \<Rightarrow> SegmentSelector \<Rightarrow> InterruptStackFrame" where
  "InterruptStackFrame_new ip cs fl sp ss = InterruptStackFrame (InterruptStackFrameValue_new ip cs fl sp ss)"

definition InterruptStackFrame_deref :: "InterruptStackFrame \<Rightarrow> InterruptStackFrameValue" where
  "InterruptStackFrame_deref self = frame_value self"

record SelectorErrorCode =
  error_flags :: u64

datatype DescriptorTable = Gdt_table | Idt_table | Ldt_table

definition SelectorErrorCode_new :: "u64 \<Rightarrow> SelectorErrorCode option" where
  "SelectorErrorCode_new value = (if value > ucast (-1 :: u16) then None else Some \<lparr>error_flags = value\<rparr>)"

definition SelectorErrorCode_new_truncate :: "u64 \<Rightarrow> SelectorErrorCode" where
  "SelectorErrorCode_new_truncate value = \<lparr>error_flags = ucast (ucast value :: u16)\<rparr>"

definition SelectorErrorCode_external :: "extern \<Rightarrow> SelectorErrorCode \<Rightarrow> bool option" where
  "SelectorErrorCode_external X self = get_bit_u64 X (error_flags self) 0"

definition descriptor_table :: "extern \<Rightarrow> SelectorErrorCode \<Rightarrow> DescriptorTable option" where
  "descriptor_table X self = do {
     b \<leftarrow> get_bits X (error_flags self) 1 3;
     if b = 0b00 then Some Gdt_table
     else if b = 0b01 then Some Idt_table
     else if b = 0b10 then Some Ldt_table
     else if b = 0b11 then Some Idt_table
     else panic
   }"

definition SelectorErrorCode_index :: "extern \<Rightarrow> SelectorErrorCode \<Rightarrow> u64 option" where
  "SelectorErrorCode_index X self = get_bits X (error_flags self) 3 16"

definition SelectorErrorCode_is_null :: "SelectorErrorCode \<Rightarrow> bool" where
  "SelectorErrorCode_is_null self \<longleftrightarrow> error_flags self = 0"

datatype ExceptionVector =
    Division
  | Debug
  | NonMaskableInterrupt
  | Breakpoint
  | Overflow
  | BoundRange
  | InvalidOpcode
  | DeviceNotAvailable
  | Double
  | InvalidTss
  | SegmentNotPresent
  | Stack
  | GeneralProtection
  | PageVector
  | X87FloatingPoint
  | AlignmentCheck
  | MachineCheck
  | SimdFloatingPoint
  | Virtualization
  | ControlProtection
  | HypervisorInjection
  | VmmCommunication
  | Security

fun ExceptionVector_as_u8 :: "ExceptionVector \<Rightarrow> u8" where
  "ExceptionVector_as_u8 Division = 0x00"
| "ExceptionVector_as_u8 Debug = 0x01"
| "ExceptionVector_as_u8 NonMaskableInterrupt = 0x02"
| "ExceptionVector_as_u8 Breakpoint = 0x03"
| "ExceptionVector_as_u8 Overflow = 0x04"
| "ExceptionVector_as_u8 BoundRange = 0x05"
| "ExceptionVector_as_u8 InvalidOpcode = 0x06"
| "ExceptionVector_as_u8 DeviceNotAvailable = 0x07"
| "ExceptionVector_as_u8 Double = 0x08"
| "ExceptionVector_as_u8 InvalidTss = 0x0a"
| "ExceptionVector_as_u8 SegmentNotPresent = 0x0b"
| "ExceptionVector_as_u8 Stack = 0x0c"
| "ExceptionVector_as_u8 GeneralProtection = 0x0d"
| "ExceptionVector_as_u8 PageVector = 0x0e"
| "ExceptionVector_as_u8 X87FloatingPoint = 0x10"
| "ExceptionVector_as_u8 AlignmentCheck = 0x11"
| "ExceptionVector_as_u8 MachineCheck = 0x12"
| "ExceptionVector_as_u8 SimdFloatingPoint = 0x13"
| "ExceptionVector_as_u8 Virtualization = 0x14"
| "ExceptionVector_as_u8 ControlProtection = 0x15"
| "ExceptionVector_as_u8 HypervisorInjection = 0x1c"
| "ExceptionVector_as_u8 VmmCommunication = 0x1d"
| "ExceptionVector_as_u8 Security = 0x1e"

datatype InvalidExceptionVectorNumber = InvalidExceptionVectorNumber u8

definition ExceptionVector_try_from :: "u8 \<Rightarrow> InvalidExceptionVectorNumber + ExceptionVector" where
  "ExceptionVector_try_from n =
     (if n = 0x00 then Inr Division
     else if n = 0x01 then Inr Debug
     else if n = 0x02 then Inr NonMaskableInterrupt
     else if n = 0x03 then Inr Breakpoint
     else if n = 0x04 then Inr Overflow
     else if n = 0x05 then Inr BoundRange
     else if n = 0x06 then Inr InvalidOpcode
     else if n = 0x07 then Inr DeviceNotAvailable
     else if n = 0x08 then Inr Double
     else if n = 0x0a then Inr InvalidTss
     else if n = 0x0b then Inr SegmentNotPresent
     else if n = 0x0c then Inr Stack
     else if n = 0x0d then Inr GeneralProtection
     else if n = 0x0e then Inr PageVector
     else if n = 0x10 then Inr X87FloatingPoint
     else if n = 0x11 then Inr AlignmentCheck
     else if n = 0x12 then Inr MachineCheck
     else if n = 0x13 then Inr SimdFloatingPoint
     else if n = 0x14 then Inr Virtualization
     else if n = 0x15 then Inr ControlProtection
     else if n = 0x1c then Inr HypervisorInjection
     else if n = 0x1d then Inr VmmCommunication
     else if n = 0x1e then Inr Security
     else Inl (InvalidExceptionVectorNumber n))"

section \<open>Options read back\<close>

lemma bit_set_bit_u16: "n < 16 \<Longrightarrow> bit (if on then set_bit k u else unset_bit k (u :: u16)) n \<longleftrightarrow>
    (if n = k then on else bit u n)"
  by (auto simp: bit_simps)

lemma set_bit_other:
  "b \<le> 16 \<Longrightarrow> \<not> (a \<le> k \<and> k < b) \<Longrightarrow>
    get_range (if on then set_bit k u else unset_bit k (u :: u16)) a b = get_range u a b"
proof (rule bit_word_eqI)
  fix n :: nat
  assume "b \<le> 16" "\<not> (a \<le> k \<and> k < b)"
  then have "a + n < 16" "a + n \<noteq> k" if "n < b - a" using that by auto
  then show "bit (get_range (if on then set_bit k u else unset_bit k u) a b) n = bit (get_range u a b) n"
    by (auto simp only: bit_get_range bit_set_bit_u16 if_False)
qed

text \<open>The fields of the options: stack table index, gate type bit 8, privilege level, present bit.\<close>

definition option_fields :: "EntryOptions \<Rightarrow> SegmentSelector \<times> u16 \<times> u16 \<times> bool \<times> u16 \<times> u16 \<times> bool" where
  "option_fields opts = (opt_cs opts, get_range (opt_bits opts) 0 3, get_range (opt_bits opts) 3 8, bit (opt_bits opts) 8,
     get_range (opt_bits opts) 9 13, get_range (opt_bits opts) 13 15, bit (opt_bits opts) 15)"

context extern_ok
begin

lemma set_present_fields:
  assumes "option_fields opts = (cs, ist, z, gate, ty, dpl, p)"
  shows "\<exists>opts'. set_present X opts present = Some opts' \<and> option_fields opts' = (cs, ist, z, gate, ty, dpl, present)"
  using assms by (auto simp: set_present_def option_fields_def set_bit_other bit_set_bit_u16)

lemma disable_interrupts_fields:
  assumes "option_fields opts = (cs, ist, z, gate, ty, dpl, p)"
  shows "\<exists>opts'. disable_interrupts X opts d = Some opts' \<and> option_fields opts' = (cs, ist, z, \<not> d, ty, dpl, p)"
  using assms by (auto simp: disable_interrupts_def option_fields_def set_bit_other bit_set_bit_u16)

lemma set_privilege_level_fields:
  assumes "option_fields opts = (cs, ist, z, gate, ty, dpl, p)"
  shows "\<exists>opts'. set_privilege_level X opts r = Some opts' \<and>
    option_fields opts' = (cs, ist, z, gate, ty, PrivilegeLevel_as_u16 r, p)"
  using assms by (auto simp: set_privilege_level_def option_fields_def set_range_other set_range_same
      bit_set_range)

end

lemma split_pointer:
  "(ucast (ucast v :: u16) :: u64) OR push_bit 16 (ucast (ucast (drop_bit 16 v) :: u16)) OR
    push_bit 32 (ucast (ucast (drop_bit 32 v) :: u32)) = v"
proof (rule bit_word_eqI)
  fix n :: nat assume "n < LENGTH(64)"
  then show "bit ((ucast (ucast v :: u16) :: u64) OR push_bit 16 (ucast (ucast (drop_bit 16 v) :: u16)) OR
      push_bit 32 (ucast (ucast (drop_bit 32 v) :: u32))) n = bit v n"
    by (cases "n < 16"; cases "n < 32") (auto simp: bit_simps)
qed

lemma add_op_one:
  "add_op X (i :: u16) 1 = (if i = -1 \<and> overflow_checks X then panic else Some (i + 1))"
  "i \<noteq> -1 \<Longrightarrow> unat (i + 1) = unat i + 1"
proof -
  have m: "unat i < 2 ^ LENGTH(16)" by (rule unsigned_less)
  have "unat (-1 :: u16) = 2 ^ 16 - 1" by (simp add: unsigned_minus_1_eq_mask mask_numeral)
  then have e: "i = -1 \<longleftrightarrow> \<not> unat i + unat (1 :: u16) < 2 ^ LENGTH(16)"
    using m by (auto simp: word_unat_eq_iff)
  then show "add_op X i 1 = (if i = -1 \<and> overflow_checks X then panic else Some (i + 1))"
    by (auto simp: add_op_def checked_add_def)
  show "i \<noteq> -1 \<Longrightarrow> unat (i + 1) = unat i + 1"
    using e unat_add_no_wrap [of i 1] by simp
qed

lemma set_stack_index_fields:
  assumes "extern_ok X" and "option_fields opts = (cs, ist, z, gate, ty, dpl, p)"
    and "add_op X i 1 = Some j" and "unat j < 8"
  shows "\<exists>opts'. set_stack_index X opts i = Some opts' \<and> option_fields opts' = (cs, j, z, gate, ty, dpl, p) \<and>
    stack_index X opts' = Some (checked_sub j 1)"
proof -
  have "take_bit 3 j = j" using assms(4) by (simp add: take_bit_word_eq_self_iff)
  with assms(2,3) show ?thesis
    by (auto simp: set_stack_index_def stack_index_def option_fields_def extern_ok.set_bits_u16 [OF assms(1)]
        extern_ok.get_bits_u16 [OF assms(1)] set_range_other set_range_same bit_set_range)
qed

section \<open>Properties\<close>

text \<open>
  C30. \<open>set_handler_addr\<close> stores a canonical handler address so that \<open>handler_addr\<close> reads the same
  address back, with the documented defaults: present, privilege level 0, no interrupt stack,
  interrupts disabled, and the given code selector.
\<close>

theorem handler_addr_roundtrip:
  assumes "extern_ok X" and "canonical a"
  shows "\<exists>e'. set_handler_addr X cs e a = Some e' \<and> handler_addr e' = a \<and>
    is_present X (entry_options e') = Some True \<and>
    privilege_level X (entry_options e') = Some Ring0 \<and>
    stack_index X (entry_options e') = Some None \<and>
    \<not> bit (opt_bits (entry_options e')) 8 \<and> opt_cs (entry_options e') = cs \<and>
    entry_reserved e' = entry_reserved e"
proof -
  let ?o = "\<lparr>opt_cs = cs, opt_bits = 0x8e00\<rparr> :: EntryOptions"
  have p: "set_present X (set_code_selector EntryOptions_minimal cs) True = Some ?o"
    using extern_ok.set_bit_u16 [OF assms(1), of 15]
    by (simp add: set_present_def set_code_selector_def EntryOptions_minimal_def set_bit_eq_or)
  have "handler_addr (e\<lparr>pointer_low := ucast (va a), pointer_middle := ucast (drop_bit 16 (va a)),
      pointer_high := ucast (drop_bit 32 (va a)), entry_options := ?o\<rparr>) = a"
    using new_truncate_id [OF assms(2)] by (simp add: handler_addr_def split_pointer Let_def)
  moreover have "privilege_level X ?o = Some Ring0" "stack_index X ?o = Some None" "is_present X ?o = Some True"
    "\<not> bit (opt_bits ?o) 8"
    using extern_ok.get_bits_u16 [OF assms(1)] extern_ok.get_bit_u16 [OF assms(1)]
    by (simp_all add: privilege_level_def stack_index_def is_present_def get_range_def take_bit_eq_mod
        drop_bit_eq_div PrivilegeLevel_from_u16_def checked_sub_def)
  ultimately show ?thesis
    using p by (simp add: set_handler_addr_def VirtAddr_as_u64_def Let_def)
qed

theorem handler_addr_roundtrip_witness:
  "\<exists>e'. set_handler_addr (std_extern True) (SegmentSelector 8) Idt_Entry_missing
      (VirtAddr 0xffff800012345678) = Some e' \<and> handler_addr e' = VirtAddr 0xffff800012345678"
proof -
  have "canonical (VirtAddr 0xffff800012345678)" by (simp add: canonical_iff_unat)
  from handler_addr_roundtrip [OF std_extern_ok this] show ?thesis by blast
qed

text \<open>
  \<open>set_stack_index\<close> accepts the indices 0 to 6, which \<open>stack_index\<close> reads back, and leaves all
  other options as they are. Every other index panics, with one exception: in a build without
  overflow checks the index \<open>u16::MAX\<close> wraps to the stack table entry 0 and the call silently
  disables the stack switch.
\<close>

theorem set_stack_index_exact:
  assumes "extern_ok X" and "option_fields opts = (cs, ist, z, gate, ty, dpl, p)"
  shows "if unat i < 7 \<or> i = -1 \<and> \<not> overflow_checks X
    then \<exists>opts'. set_stack_index X opts i = Some opts' \<and>
      option_fields opts' = (cs, i + 1, z, gate, ty, dpl, p) \<and>
      stack_index X opts' = Some (if i = -1 then None else Some i)
    else set_stack_index X opts i = panic"
proof (cases "unat i < 7 \<or> i = -1 \<and> \<not> overflow_checks X")
  case True
  have max: "i \<noteq> -1" if "unat i < 7"
    using that by (auto simp: unsigned_minus_1_eq_mask mask_numeral)
  from True max have "unat (i + 1) < 8" "checked_sub (i + 1) 1 = (if i = -1 then None else Some i)"
    using add_op_one(2) [of i] by (auto simp: checked_sub_def word_le_nat_alt)
  moreover have "add_op X i 1 = Some (i + 1)" using True max by (auto simp: add_op_one)
  ultimately show ?thesis
    using True set_stack_index_fields [OF assms, of i "i + 1"] by auto
next
  case False
  then have "i = -1 \<and> overflow_checks X \<or> \<not> unat (i + 1) < 2 ^ 3"
    using add_op_one(2) [of i] by (cases "i = -1") auto
  then have "set_stack_index X opts i = panic"
    using False by (auto simp: set_stack_index_def add_op_one extern_ok.set_bits_u16 [OF assms(1)]
        take_bit_word_eq_self_iff split: if_splits)
  with False show ?thesis by (simp only: if_False)
qed

theorem set_stack_index_exact_witness:
  "(\<exists>opts'. set_stack_index (std_extern False) EntryOptions_minimal 0xffff = Some opts' \<and>
      stack_index (std_extern False) opts' = Some None) \<and>
   set_stack_index (std_extern False) EntryOptions_minimal 7 = panic"
proof -
  obtain cs ist z gate ty dpl p where f:
    "option_fields EntryOptions_minimal = (cs, ist, z, gate, ty, dpl, p)" by (metis prod_cases7)
  from set_stack_index_exact [OF std_extern_ok this, of "0xffff" False]
    set_stack_index_exact [OF std_extern_ok f, of 7 False] show ?thesis by auto
qed

text \<open>
  The setters of the entry options never panic, change exactly their own field of the options
  word, and their readers return what was set.
\<close>

theorem entry_options_setters:
  assumes X: "extern_ok X" and f: "option_fields opts = (cs, ist, z, gate, ty, dpl, p)"
  shows "(\<exists>opts'. set_present X opts present = Some opts' \<and>
      option_fields opts' = (cs, ist, z, gate, ty, dpl, present) \<and> is_present X opts' = Some present) \<and>
    (\<exists>opts'. disable_interrupts X opts disable = Some opts' \<and>
      option_fields opts' = (cs, ist, z, \<not> disable, ty, dpl, p)) \<and>
    (\<exists>opts'. set_privilege_level X opts r = Some opts' \<and>
      option_fields opts' = (cs, ist, z, gate, ty, PrivilegeLevel_as_u16 r, p) \<and>
      privilege_level X opts' = Some r)"
proof (intro conjI)
  obtain o1 where "set_present X opts present = Some o1"
    "option_fields o1 = (cs, ist, z, gate, ty, dpl, present)"
    using extern_ok.set_present_fields [OF X f] by blast
  then show "\<exists>opts'. set_present X opts present = Some opts' \<and>
      option_fields opts' = (cs, ist, z, gate, ty, dpl, present) \<and> is_present X opts' = Some present"
    by (simp add: is_present_def option_fields_def extern_ok.get_bit_u16 [OF X])
  show "\<exists>opts'. disable_interrupts X opts disable = Some opts' \<and>
      option_fields opts' = (cs, ist, z, \<not> disable, ty, dpl, p)"
    by (rule extern_ok.disable_interrupts_fields [OF X f])
  obtain o2 where "set_privilege_level X opts r = Some o2"
    "option_fields o2 = (cs, ist, z, gate, ty, PrivilegeLevel_as_u16 r, p)"
    using extern_ok.set_privilege_level_fields [OF X f] by blast
  then show "\<exists>opts'. set_privilege_level X opts r = Some opts' \<and>
      option_fields opts' = (cs, ist, z, gate, ty, PrivilegeLevel_as_u16 r, p) \<and>
      privilege_level X opts' = Some r"
    by (simp add: privilege_level_def option_fields_def extern_ok.get_bits_u16 [OF X])
qed

theorem entry_options_setters_witness:
  "\<exists>opts'. set_privilege_level (std_extern True) EntryOptions_minimal Ring3 = Some opts' \<and>
    privilege_level (std_extern True) opts' = Some Ring3"
proof -
  obtain cs ist z gate ty dpl p where
    "option_fields EntryOptions_minimal = (cs, ist, z, gate, ty, dpl, p)" by (metis prod_cases7)
  from entry_options_setters [OF std_extern_ok this] show ?thesis by blast
qed

text \<open>The vectors whose entries cannot be reached by their number.\<close>

definition closed_vector :: "u8 \<Rightarrow> bool" where
  "closed_vector i \<longleftrightarrow> unat i \<in> {8, 10, 11, 12, 13, 14, 15, 17, 18, 21, 22, 23, 24, 25, 26, 27, 29, 30, 31}"

lemma below_32: "(n :: nat) < 32 \<longleftrightarrow> n \<in> {0, 1, 2, 3, 4, 5, 6, 7, 9, 16, 19, 20, 28} \<union>
    {8, 10, 11, 12, 13, 14, 15, 17, 18, 21, 22, 23, 24, 25, 26, 27, 29, 30, 31}"
  by (simp add: less_Suc_eq numeral_eq_Suc) blast

lemma vector_cases:
  obtains (direct) "unat i \<in> {0, 1, 2, 3, 4, 5, 6, 7, 9, 16, 19, 20, 28}" | (interrupt) "32 \<le> unat (i :: u8)"
  | (closed) "closed_vector i"
  using below_32 [of "unat i"] unfolding closed_vector_def by (metis UnE not_less)

lemma u8_lt: "unat (i :: u8) < 256"
  using unsigned_less [of i, where 'a = nat] by simp

lemma Idt_index_interrupt:
  assumes "length (interrupts t) = 224" and "32 \<le> n" and "n < 256"
  shows "Idt_index t (of_nat n) = Some (interrupts t ! (n - 32))"
proof -
  have "unat (of_nat n :: u8) = n" using assms(3) by (intro unat_of_nat_small) simp
  moreover have "n - 32 < 224" using assms(2,3) by linarith
  ultimately show ?thesis using assms by (simp add: Idt_index_def Let_def)
qed

lemma Idt_index_mut_index:
  assumes l: "length (interrupts t) = 224" and r: "Idt_index_mut t i e = Some t'"
  shows "length (interrupts t') = 224 \<and> Idt_index t' j = (if j = i then Some e else Idt_index t j)"
proof -
  have eq: "j = i \<longleftrightarrow> unat j = unat i" by (simp add: word_unat_eq_iff)
  show ?thesis
  proof (cases i rule: vector_cases)
    case direct
    then show ?thesis using l r
      by (elim insertE emptyE; cases "unat j = unat i";
          clarsimp simp: Idt_index_mut_def Idt_index_def eq Let_def split del: if_split cong: if_cong)
  next
    case interrupt
    then have t': "t' = t\<lparr>interrupts := (interrupts t)[unat i - 32 := e]\<rparr>"
      using l r u8_lt [of i] by (simp add: Idt_index_mut_def Let_def split: if_splits)
    show ?thesis
    proof (cases "32 \<le> unat j")
      case True
      then have "unat j - 32 \<noteq> unat i - 32 \<longleftrightarrow> unat j \<noteq> unat i" using interrupt by auto
      moreover have "unat j - 32 < 224" "unat i - 32 < 224" using u8_lt [of j] u8_lt [of i] by linarith+
      ultimately show ?thesis using True interrupt l u8_lt [of j]
        by (simp add: t' Idt_index_def eq Let_def nth_list_update)
    next
      case False
      with interrupt l show ?thesis
        by (auto simp: t' Idt_index_def eq Let_def split del: if_split cong: if_cong)
    qed
  next
    case closed
    with r show ?thesis
      unfolding closed_vector_def by (elim insertE emptyE) (simp_all add: Idt_index_mut_def Let_def)
  qed
qed

lemma Idt_index_panic:
  assumes "length (interrupts t) = 224"
  shows "(Idt_index t i = panic \<longleftrightarrow> closed_vector i) \<and> (Idt_index_mut t i e = panic \<longleftrightarrow> closed_vector i)"
proof (cases i rule: vector_cases)
  case direct
  then show ?thesis
    by (elim insertE emptyE) (simp_all add: Idt_index_def Idt_index_mut_def closed_vector_def Let_def)
next
  case interrupt
  then have "\<not> closed_vector i" by (auto simp: closed_vector_def)
  with interrupt assms u8_lt [of i] show ?thesis by (simp add: Idt_index_def Idt_index_mut_def Let_def)
next
  case closed
  then show ?thesis
    unfolding closed_vector_def
    by (elim insertE emptyE) (simp_all add: Idt_index_def Idt_index_mut_def closed_vector_def Let_def)
qed

text \<open>
  Access by vector number: \<open>index\<close> and \<open>index_mut\<close> panic on exactly the exceptions with an error
  code, the diverging exception and the reserved vectors. Otherwise, an entry written through
  \<open>index_mut\<close> is the one \<open>index\<close> then returns at that vector, and no other vector changes.
\<close>

theorem idt_index_exact:
  assumes "length (interrupts t) = 224"
  shows "(Idt_index t i = panic \<longleftrightarrow> closed_vector i) \<and>
    (Idt_index_mut t i e = panic \<longleftrightarrow> closed_vector i) \<and>
    (Idt_index_mut t i e = Some t' \<longrightarrow> length (interrupts t') = 224 \<and>
      (\<forall>j. Idt_index t' j = (if j = i then Some e else Idt_index t j)))"
  using Idt_index_panic [OF assms] Idt_index_mut_index [OF assms] by blast

theorem idt_index_exact_witness:
  "\<exists>t. Idt_index_mut Idt_new 33 (Idt_Entry_missing\<lparr>pointer_low := 7\<rparr>) = Some t \<and>
    Idt_index t 33 = Some (Idt_Entry_missing\<lparr>pointer_low := 7\<rparr>) \<and> Idt_index t 14 = panic"
proof -
  have l: "length (interrupts Idt_new) = 224" by (simp add: Idt_new_def)
  have "\<not> closed_vector 33" "closed_vector 14" by (simp_all add: closed_vector_def)
  with idt_index_exact [OF l, of 33] idt_index_exact [OF l, of 14]
  obtain t where t: "Idt_index_mut Idt_new 33 (Idt_Entry_missing\<lparr>pointer_low := 7\<rparr>) = Some t" by blast
  with idt_index_exact [OF l, of 33] have "Idt_index t 33 = Some (Idt_Entry_missing\<lparr>pointer_low := 7\<rparr>)"
    "Idt_index t 14 = Idt_index Idt_new 14" by auto
  with t idt_index_exact [OF l, of 14] \<open>closed_vector 14\<close> show ?thesis by auto
qed

text \<open>The first vector of a range and the one after its last.\<close>

fun first_vector :: "bound \<Rightarrow> nat" where
  "first_vector (Included v) = unat v"
| "first_vector (Excluded v) = unat v + 1"
| "first_vector Unbounded = 0"

fun end_vector :: "bound \<Rightarrow> nat" where
  "end_vector (Included v) = unat v + 1"
| "end_vector (Excluded v) = unat v"
| "end_vector Unbounded = 256"

lemma unat_ucast_u8: "unat (ucast (v :: u8) :: usize) = unat v" "unat (ucast (v :: u8) + 1 :: usize) = unat v + 1"
proof -
  show u: "unat (ucast v :: usize) = unat v" by (simp add: unat_ucast_up)
  then show "unat (ucast v + 1 :: usize) = unat v + 1"
    using unat_add_no_wrap [of "ucast v :: usize" 1] u8_lt [of v] by simp
qed

lemma condition_slice_bounds_eq:
  "\<exists>lo hi. unat lo = first_vector s \<and> unat hi = end_vector e \<and>
    condition_slice_bounds s e = (if first_vector s < 32 then panic else Some (lo, hi))"
proof -
  let ?lo = "case s of Included v \<Rightarrow> ucast v | Excluded v \<Rightarrow> ucast v + 1 | Unbounded \<Rightarrow> (0 :: usize)"
  let ?hi = "case e of Included v \<Rightarrow> ucast v + 1 | Excluded v \<Rightarrow> ucast v | Unbounded \<Rightarrow> (256 :: usize)"
  have lo: "unat ?lo = first_vector s" by (cases s) (simp_all add: unat_ucast_u8)
  have hi: "unat ?hi = end_vector e" by (cases e) (simp_all add: unat_ucast_u8)
  have "?lo < 32 \<longleftrightarrow> first_vector s < 32" by (simp only: word_less_nat_alt lo) simp
  then have "condition_slice_bounds s e = (if first_vector s < 32 then panic else Some (?lo, ?hi))"
    by (simp only: condition_slice_bounds_def Let_def)
  with lo hi show ?thesis by blast
qed

lemma sub_op_32:
  "unat a < 2 ^ 32 \<Longrightarrow> sub_op X a 32 = (if 32 \<le> unat a then Some (a - 32)
    else if overflow_checks X then panic else Some (a - 32))"
  "32 \<le> unat a \<Longrightarrow> unat (a - 32 :: usize) = unat a - 32"
  "unat a < 32 \<Longrightarrow> 2 ^ 32 \<le> unat (a - 32 :: usize)"
proof -
  have le: "32 \<le> a \<longleftrightarrow> 32 \<le> unat a" by (simp add: word_le_nat_alt)
  show "sub_op X a 32 = (if 32 \<le> unat a then Some (a - 32)
      else if overflow_checks X then panic else Some (a - 32))"
    by (simp add: sub_op_def checked_sub_def le)
  show "32 \<le> unat a \<Longrightarrow> unat (a - 32) = unat a - 32"
    using le unat_sub_no_wrap [of 32 a] by simp
  assume a: "unat a < 32"
  show "2 ^ 32 \<le> unat (a - 32)"
  proof (rule ccontr)
    assume "\<not> ?thesis"
    then have "unat (a - 32 + 32) = unat (a - 32) + 32"
      using unat_add_no_wrap [of "a - 32" 32] by simp
    with a show False by simp
  qed
qed

text \<open>
  Access by a range of vectors: \<open>slice\<close> returns the entries of exactly the vectors of the range,
  the same entries \<open>index\<close> gives, when the range starts at 32 or later and does not end before it
  starts. Every other range panics, in every build: no slice reaches an exception's entry.
\<close>

theorem idt_slice_exact:
  assumes "length (interrupts t) = 224"
  shows "if 32 \<le> first_vector s \<and> first_vector s \<le> end_vector e
    then \<exists>es. Idt_slice X t s e = Some es \<and> length es = end_vector e - first_vector s \<and>
      (\<forall>k<length es. Idt_index t (of_nat (first_vector s + k)) = Some (es ! k))
    else Idt_slice X t s e = panic"
proof -
  obtain lo hi where b: "unat lo = first_vector s" "unat hi = end_vector e"
    "condition_slice_bounds s e = (if first_vector s < 32 then panic else Some (lo, hi))"
    using condition_slice_bounds_eq by blast
  have lt: "unat lo \<le> 256" "unat hi \<le> 256"
    unfolding b(1,2) using u8_lt by (cases s; cases e; simp add: Suc_le_eq less_imp_le)+
  show ?thesis
  proof (cases "32 \<le> first_vector s \<and> first_vector s \<le> end_vector e")
    case True
    let ?es = "take (unat hi - unat lo) (drop (unat lo - 32) (interrupts t))"
    have "unat lo - 32 \<le> unat hi - 32 \<and> unat hi - 32 \<le> 224" using True b lt by linarith
    then have "Idt_slice X t s e = Some ?es"
      using True b lt assms by (simp add: Idt_slice_def sub_op_32 word_le_nat_alt)
    moreover have "length ?es = end_vector e - first_vector s" using True b lt assms by simp
    moreover have "Idt_index t (of_nat (first_vector s + k)) = Some (?es ! k)" if "k < length ?es" for k
    proof -
      have k: "32 \<le> first_vector s + k" "first_vector s + k < 256" "first_vector s + k - 32 = unat lo - 32 + k"
        using that True b lt assms by auto
      have "?es ! k = interrupts t ! (unat lo - 32 + k)" using that by (auto intro!: nth_drop)
      then show ?thesis unfolding k(3) [symmetric] using Idt_index_interrupt [OF assms k(1,2)] by simp
    qed
    ultimately show ?thesis using True by auto
  next
    case False
    then have "Idt_slice X t s e = panic"
      using b lt assms sub_op_32(2,3) [of lo] sub_op_32(2,3) [of hi]
      by (auto simp: Idt_slice_def sub_op_32(1) word_le_nat_alt not_le)
    with False show ?thesis by (simp only: if_False)
  qed
qed

theorem idt_slice_exact_witness:
  "(\<exists>es. Idt_slice (std_extern True) Idt_new (Included 32) (Excluded 40) = Some es \<and> length es = 8) \<and>
   Idt_slice (std_extern False) Idt_new (Included 40) (Excluded 8) = panic"
proof -
  have l: "length (interrupts Idt_new) = 224" by (simp add: Idt_new_def)
  from idt_slice_exact [OF l, of "Included 32" "Excluded 40" "std_extern True"]
    idt_slice_exact [OF l, of "Included 40" "Excluded 8" "std_extern False"]
  show ?thesis by auto
qed

text \<open>
  The exception vectors: \<open>try_from\<close> of the number of a vector gives the vector back, and it fails
  with the number itself on exactly the numbers that are no exception's: the coprocessor segment
  overrun, the reserved vectors and those from 32 on.
\<close>

theorem exception_vector_roundtrip:
  "ExceptionVector_try_from (ExceptionVector_as_u8 v) = Inr v \<and>
   (case ExceptionVector_try_from n of
      Inr w \<Rightarrow> ExceptionVector_as_u8 w = n
    | Inl err \<Rightarrow> err = InvalidExceptionVectorNumber n \<and>
        (unat n \<in> {9, 15, 22, 23, 24, 25, 26, 27, 31} \<or> 32 \<le> unat n))"
proof -
  have "ExceptionVector_try_from (ExceptionVector_as_u8 v) = Inr v"
    by (cases v) (simp_all add: ExceptionVector_try_from_def)
  moreover have "ExceptionVector_as_u8 w = n" if "ExceptionVector_try_from n = Inr w" for w
    using that unfolding ExceptionVector_try_from_def by (auto split: if_splits)
  moreover have "err = InvalidExceptionVectorNumber n \<and>
      (unat n \<in> {9, 15, 22, 23, 24, 25, 26, 27, 31} \<or> 32 \<le> unat n)"
    if e: "ExceptionVector_try_from n = Inl err" for err
  proof -
    have "err = InvalidExceptionVectorNumber n"
      using e unfolding ExceptionVector_try_from_def by (simp split: if_splits)
    moreover have ne: "unat n \<noteq> unat (ExceptionVector_as_u8 w)" for w
    proof
      assume "unat n = unat (ExceptionVector_as_u8 w)"
      then have "n = ExceptionVector_as_u8 w" by (simp add: word_unat_eq_iff)
      then have "ExceptionVector_try_from n = Inr w"
        by (cases w) (simp_all add: ExceptionVector_try_from_def)
      with e show False by simp
    qed
    ultimately show ?thesis
      using ne [of Division] ne [of Debug] ne [of NonMaskableInterrupt] ne [of Breakpoint]
        ne [of Overflow] ne [of BoundRange] ne [of InvalidOpcode] ne [of DeviceNotAvailable]
        ne [of Double] ne [of InvalidTss] ne [of SegmentNotPresent] ne [of Stack]
        ne [of GeneralProtection] ne [of PageVector] ne [of X87FloatingPoint] ne [of AlignmentCheck]
        ne [of MachineCheck] ne [of SimdFloatingPoint] ne [of Virtualization]
        ne [of ControlProtection] ne [of HypervisorInjection] ne [of VmmCommunication]
        ne [of Security]
        below_32 [of "unat n"] by (cases "unat n < 32") auto
  qed
  ultimately show ?thesis by (auto split: sum.split)
qed

end
