(* ===== verification/General_Handler.thy ===== *)
theory General_Handler
  imports Idt
begin

text \<open>
  The types of handler functions, the page fault error code and the macro \<open>set_general_handler\<close> of
  \<open>structures/idt.rs\<close>, which generates a handler function for every vector of a range and installs it.
  The macro recursion is a function on the bits of the vector; the address that the linker gives to a
  generated function is an argument, as is the code selector that \<open>set_handler_fn\<close> reads from the CPU.
\<close>

section \<open>Handler functions\<close>



text \<open>The error code of a page fault.\<close>

type_synonym PageFaultErrorCode = u64

definition PageFaultErrorCode_PROTECTION_VIOLATION :: PageFaultErrorCode where "PageFaultErrorCode_PROTECTION_VIOLATION = 1"
definition PageFaultErrorCode_CAUSED_BY_WRITE :: PageFaultErrorCode where "PageFaultErrorCode_CAUSED_BY_WRITE = push_bit 1 1"
definition PageFaultErrorCode_USER_MODE :: PageFaultErrorCode where "PageFaultErrorCode_USER_MODE = push_bit 2 1"
definition PageFaultErrorCode_MALFORMED_TABLE :: PageFaultErrorCode where "PageFaultErrorCode_MALFORMED_TABLE = push_bit 3 1"
definition PageFaultErrorCode_INSTRUCTION_FETCH :: PageFaultErrorCode where "PageFaultErrorCode_INSTRUCTION_FETCH = push_bit 4 1"
definition PageFaultErrorCode_PROTECTION_KEY :: PageFaultErrorCode where "PageFaultErrorCode_PROTECTION_KEY = push_bit 5 1"
definition PageFaultErrorCode_SHADOW_STACK :: PageFaultErrorCode where "PageFaultErrorCode_SHADOW_STACK = push_bit 6 1"
definition PageFaultErrorCode_SGX :: PageFaultErrorCode where "PageFaultErrorCode_SGX = push_bit 15 1"
definition PageFaultErrorCode_RMP :: PageFaultErrorCode where "PageFaultErrorCode_RMP = push_bit 31 1"

definition PageFaultErrorCode_all :: PageFaultErrorCode where
  "PageFaultErrorCode_all = fold (OR) [PageFaultErrorCode_PROTECTION_VIOLATION, PageFaultErrorCode_CAUSED_BY_WRITE,
     PageFaultErrorCode_USER_MODE, PageFaultErrorCode_MALFORMED_TABLE,
     PageFaultErrorCode_INSTRUCTION_FETCH, PageFaultErrorCode_PROTECTION_KEY,
     PageFaultErrorCode_SHADOW_STACK, PageFaultErrorCode_SGX, PageFaultErrorCode_RMP] 0"

section \<open>The macros\<close>

text \<open>\<open>RangeBounds::contains\<close> of the core library.\<close>

fun range_contains :: "bound \<times> bound \<Rightarrow> u8 \<Rightarrow> bool" where
  "range_contains (start_bound, end_bound) i \<longleftrightarrow>
     (case start_bound of Included b \<Rightarrow> b \<le> i | Excluded b \<Rightarrow> b < i | Unbounded \<Rightarrow> True) \<and>
     (case end_bound of Included b \<Rightarrow> i \<le> b | Excluded b \<Rightarrow> i < b | Unbounded \<Rightarrow> True)"

text \<open>The tokens of the bits are \<open>0\<close> and \<open>1\<close>, the most significant bit first.\<close>

fun idx_of_bits :: "u8 list \<Rightarrow> u8" where
  "idx_of_bits [bit7, bit6, bit5, bit4, bit3, bit2, bit1, bit0] =
     bit0 OR push_bit 1 bit1 OR push_bit 2 bit2 OR push_bit 3 bit3 OR push_bit 4 bit4 OR push_bit 5 bit5 OR
     push_bit 6 bit6 OR push_bit 7 bit7"
| "idx_of_bits _ = 0"


text \<open>What the same macro does to the table, the generated function being at \<open>fn_addr\<close>.\<close>

definition set_general_handler_entry ::
  "extern \<Rightarrow> SegmentSelector \<Rightarrow> u64 \<Rightarrow> InterruptDescriptorTable \<Rightarrow> u8 \<Rightarrow> u8 list \<Rightarrow> InterruptDescriptorTable option" where
  "set_general_handler_entry X cs fn_addr idt IDX bits =
     (if bits = [0, 0, 0, 0, 1, 0, 0, 0] then do {
        e \<leftarrow> set_handler_fn X cs (double_fault idt) fn_addr;
        Some (idt\<lparr>double_fault := e\<rparr>)
      } else if bits = [0, 0, 0, 0, 1, 0, 1, 0] then do {
        e \<leftarrow> set_handler_fn X cs (invalid_tss idt) fn_addr;
        Some (idt\<lparr>invalid_tss := e\<rparr>)
      } else if bits = [0, 0, 0, 0, 1, 0, 1, 1] then do {
        e \<leftarrow> set_handler_fn X cs (segment_not_present idt) fn_addr;
        Some (idt\<lparr>segment_not_present := e\<rparr>)
      } else if bits = [0, 0, 0, 0, 1, 1, 0, 0] then do {
        e \<leftarrow> set_handler_fn X cs (stack_segment_fault idt) fn_addr;
        Some (idt\<lparr>stack_segment_fault := e\<rparr>)
      } else if bits = [0, 0, 0, 0, 1, 1, 0, 1] then do {
        e \<leftarrow> set_handler_fn X cs (general_protection_fault idt) fn_addr;
        Some (idt\<lparr>general_protection_fault := e\<rparr>)
      } else if bits = [0, 0, 0, 0, 1, 1, 1, 0] then do {
        e \<leftarrow> set_handler_fn X cs (page_fault idt) fn_addr;
        Some (idt\<lparr>page_fault := e\<rparr>)
      } else if bits = [0, 0, 0, 1, 0, 0, 0, 1] then do {
        e \<leftarrow> set_handler_fn X cs (alignment_check idt) fn_addr;
        Some (idt\<lparr>alignment_check := e\<rparr>)
      } else if bits = [0, 0, 0, 1, 0, 0, 1, 0] then do {
        e \<leftarrow> set_handler_fn X cs (machine_check idt) fn_addr;
        Some (idt\<lparr>machine_check := e\<rparr>)
      } else if bits = [0, 0, 0, 1, 0, 1, 0, 1] then do {
        e \<leftarrow> set_handler_fn X cs (cp_protection_exception idt) fn_addr;
        Some (idt\<lparr>cp_protection_exception := e\<rparr>)
      } else if bits = [0, 0, 0, 1, 1, 1, 0, 1] then do {
        e \<leftarrow> set_handler_fn X cs (vmm_communication_exception idt) fn_addr;
        Some (idt\<lparr>vmm_communication_exception := e\<rparr>)
      } else if bits = [0, 0, 0, 1, 1, 1, 1, 0] then do {
        e \<leftarrow> set_handler_fn X cs (security_exception idt) fn_addr;
        Some (idt\<lparr>security_exception := e\<rparr>)
      }
      else if bits = [0, 0, 0, 0, 1, 1, 1, 1] then Some idt
      else if bits = [0, 0, 0, 1, 0, 1, 1, 0] then Some idt
      else if bits = [0, 0, 0, 1, 0, 1, 1, 1] then Some idt
      else if bits = [0, 0, 0, 1, 1, 0, 0, 0] then Some idt
      else if bits = [0, 0, 0, 1, 1, 0, 0, 1] then Some idt
      else if bits = [0, 0, 0, 1, 1, 0, 1, 0] then Some idt
      else if bits = [0, 0, 0, 1, 1, 0, 1, 1] then Some idt
      else if bits = [0, 0, 0, 1, 1, 1, 1, 1] then Some idt
      else do {
        e \<leftarrow> Idt_index idt IDX;
        e \<leftarrow> set_handler_fn X cs e fn_addr;
        Idt_index_mut idt IDX e
      })"

text \<open>The first argument is the number of bits that are still missing.\<close>

primrec set_general_handler_recursive_bits ::
  "nat \<Rightarrow> extern \<Rightarrow> SegmentSelector \<Rightarrow> (u8 \<Rightarrow> u64) \<Rightarrow> bound \<times> bound \<Rightarrow> u8 list \<Rightarrow>
   InterruptDescriptorTable \<Rightarrow> InterruptDescriptorTable option" where
  "set_general_handler_recursive_bits 0 X cs fn_addr rng bits idt =
     (let IDX = idx_of_bits bits
      in if range_contains rng IDX then set_general_handler_entry X cs (fn_addr IDX) idt IDX bits else Some idt)"
| "set_general_handler_recursive_bits (Suc n) X cs fn_addr rng bits idt = do {
     idt \<leftarrow> set_general_handler_recursive_bits n X cs fn_addr rng (bits @ [0]) idt;
     set_general_handler_recursive_bits n X cs fn_addr rng (bits @ [1]) idt
   }"

text \<open>The three forms of the macro: a range, one vector, all vectors.\<close>

definition set_general_handler ::
  "extern \<Rightarrow> SegmentSelector \<Rightarrow> (u8 \<Rightarrow> u64) \<Rightarrow> InterruptDescriptorTable \<Rightarrow> bound \<times> bound \<Rightarrow>
   InterruptDescriptorTable option" where
  "set_general_handler X cs fn_addr idt rng = set_general_handler_recursive_bits 8 X cs fn_addr rng [] idt"

definition set_general_handler_idx ::
  "extern \<Rightarrow> SegmentSelector \<Rightarrow> (u8 \<Rightarrow> u64) \<Rightarrow> InterruptDescriptorTable \<Rightarrow> u8 \<Rightarrow> InterruptDescriptorTable option" where
  "set_general_handler_idx X cs fn_addr idt IDX = set_general_handler X cs fn_addr idt (Included IDX, Included IDX)"

definition set_general_handler_all ::
  "extern \<Rightarrow> SegmentSelector \<Rightarrow> (u8 \<Rightarrow> u64) \<Rightarrow> InterruptDescriptorTable \<Rightarrow> InterruptDescriptorTable option" where
  "set_general_handler_all X cs fn_addr idt = set_general_handler X cs fn_addr idt (Included 0, Included 255)"

section \<open>The table as the CPU reads it\<close>

text \<open>The 256 entries in the order of their vectors.\<close>

definition idt_entries :: "InterruptDescriptorTable \<Rightarrow> Idt_Entry list" where
  "idt_entries t = [divide_error t, debug t, non_maskable_interrupt t, breakpoint t, overflow t, bound_range_exceeded t,
     invalid_opcode t, device_not_available t, double_fault t, coprocessor_segment_overrun t, invalid_tss t,
     segment_not_present t, stack_segment_fault t, general_protection_fault t, page_fault t, idt_reserved_1 t,
     x87_floating_point t, alignment_check t, machine_check t, simd_floating_point t, virtualization t,
     cp_protection_exception t] @ idt_reserved_2 t @ [hv_injection_exception t, vmm_communication_exception t,
     security_exception t, idt_reserved_3 t] @ interrupts t"

definition idt_ok :: "InterruptDescriptorTable \<Rightarrow> bool" where
  "idt_ok t \<longleftrightarrow> length (idt_reserved_2 t) = 6 \<and> length (interrupts t) = 224"

definition reserved_vector :: "u8 \<Rightarrow> bool" where
  "reserved_vector i \<longleftrightarrow> i \<in> {15, 22, 23, 24, 25, 26, 27, 31}"


definition installed :: "SegmentSelector \<Rightarrow> u64 \<Rightarrow> Idt_Entry \<Rightarrow> Idt_Entry" where
  "installed cs a e = \<lparr>pointer_low = ucast a, entry_options = \<lparr>opt_cs = cs, opt_bits = 0x8e00\<rparr>,
     pointer_middle = ucast (drop_bit 16 a), pointer_high = ucast (drop_bit 32 a), entry_reserved = entry_reserved e\<rparr>"

section \<open>The recursion over the bits\<close>

primrec bit_lists :: "nat \<Rightarrow> u8 list list" where
  "bit_lists 0 = [[]]"
| "bit_lists (Suc n) = map ((#) 0) (bit_lists n) @ map ((#) 1) (bit_lists n)"

lemma idx_of_bit_lists: "map idx_of_bits (bit_lists 8) = map of_nat [0..<256]"
  by code_simp

lemma distinct_idx_of_bits: "distinct (map idx_of_bits (bit_lists 8))"
proof -
  have "m = n" if "m < 256" "n < 256" "(of_nat m :: u8) = of_nat n" for m n
  proof -
    have "unat (of_nat k :: u8) = k" if "k < 256" for k using that by (intro unat_of_nat_small) simp
    with that show ?thesis by metis
  qed
  then show ?thesis unfolding idx_of_bit_lists by (auto simp: distinct_map intro!: inj_onI)
qed

lemma bits_eq_iff:
  assumes "l \<in> set (bit_lists 8)" and "l' \<in> set (bit_lists 8)"
  shows "l = l' \<longleftrightarrow> idx_of_bits l = idx_of_bits l'"
  using distinct_idx_of_bits assms by (auto simp: distinct_map dest: inj_onD)

lemma bits_of_idx: "\<exists>l \<in> set (bit_lists 8). idx_of_bits l = (i :: u8)"
proof -
  have "i \<in> set (map of_nat [0..<256])"
    using u8_lt [of i] by (auto intro!: image_eqI [where x = "unat i"])
  then show ?thesis unfolding idx_of_bit_lists [symmetric] by auto
qed

lemma recursive_bits_fold:
  "set_general_handler_recursive_bits n X cs fa rng bits idt =
    fold_option (set_general_handler_recursive_bits 0 X cs fa rng) (map ((@) bits) (bit_lists n)) idt"
proof (induction n arbitrary: bits idt)
  case 0
  show ?case by (cases "set_general_handler_recursive_bits 0 X cs fa rng bits idt") simp_all
next
  case (Suc n)
  have "map ((@) bits) (map ((#) b) (bit_lists n)) = map ((@) (bits @ [b])) (bit_lists n)" for b by simp
  then show ?case by (simp only: set_general_handler_recursive_bits.simps(2) Suc bit_lists.simps map_append fold_option_append)
qed

section \<open>One entry\<close>

lemma in_bit_lists: "l \<in> set (bit_lists n) \<longleftrightarrow> length l = n \<and> set l \<subseteq> {0, 1}"
proof (induction n arbitrary: l)
  case (Suc n)
  then show ?case by (cases l) auto
qed auto

context extern_ok
begin

lemma set_handler_fn_installed:
  assumes "canonical (VirtAddr a)"
  shows "set_handler_fn X cs e a = Some (installed cs a e)"
proof -
  have "set_present X (set_code_selector EntryOptions_minimal cs) True = Some \<lparr>opt_cs = cs, opt_bits = 0x8e00\<rparr>"
    by (simp add: set_present_def set_code_selector_def EntryOptions_minimal_def set_bit_u16 set_bit_eq_or)
  with assms show ?thesis
    by (simp add: set_handler_fn_def to_virt_addr_def VirtAddr_new_eq set_handler_addr_def installed_def
        VirtAddr_as_u64_def Let_def)
qed

end

lemma vector_below_32:
  fixes i :: u8
  assumes "unat i < 32"
  shows "i \<in> {0, 1, 2, 3, 4, 5, 6, 7, 8, 9, 10, 11, 12, 13, 14, 15, 16, 17, 18, 19, 20, 21, 22, 23, 24, 25, 26, 27, 28, 29, 30, 31}"
proof -
  have "i = of_nat (unat i)" by simp
  moreover have "unat i \<in> set [0..<32]" using assms by simp
  ultimately have "i \<in> of_nat ` set [0..<32]" by (rule image_eqI)
  also have "of_nat ` set [0..<32] = (set (map of_nat [0..<32]) :: u8 set)" by simp
  also have "map of_nat [0..<32] = ([0, 1, 2, 3, 4, 5, 6, 7, 8, 9, 10, 11, 12, 13, 14, 15, 16, 17, 18, 19, 20, 21, 22, 23,
      24, 25, 26, 27, 28, 29, 30, 31] :: u8 list)" by code_simp
  finally show ?thesis by simp
qed

lemma idt_reserved_2_cases:
  assumes "idt_ok t"
  obtains r0 r1 r2 r3 r4 r5 where "idt_reserved_2 t = [r0, r1, r2, r3, r4, r5]"
  using assms by (auto simp: idt_ok_def numeral_eq_Suc length_Suc_conv)

lemma idt_entries_interrupts:
  assumes "idt_ok t"
  shows "idt_entries (t\<lparr>interrupts := xs\<rparr>) = take 32 (idt_entries t) @ xs" "length (idt_entries t) = 256"
    "idt_entries t = take 32 (idt_entries t) @ interrupts t"
proof -
  obtain r0 r1 r2 r3 r4 r5 where r: "idt_reserved_2 t = [r0, r1, r2, r3, r4, r5]"
    using assms by (rule idt_reserved_2_cases)
  then show "idt_entries (t\<lparr>interrupts := xs\<rparr>) = take 32 (idt_entries t) @ xs"
    "idt_entries t = take 32 (idt_entries t) @ interrupts t"
    by (simp_all add: idt_entries_def)
  show "length (idt_entries t) = 256" using assms by (simp add: idt_entries_def idt_ok_def)
qed

lemma exception_entry_update:
  assumes X: "extern_ok X" and t: "idt_ok t" and a: "canonical (VirtAddr a)"
    and l: "l \<in> set (bit_lists 8)" and i: "idx_of_bits l = i" and lt: "unat i < 32"
  shows "\<exists>t'. set_general_handler_entry X cs a t i l = Some t' \<and> idt_ok t' \<and>
    idt_entries t' = (if reserved_vector i then idt_entries t
      else (idt_entries t)[unat i := installed cs a (idt_entries t ! unat i)])"
proof -
  note set_fn = extern_ok.set_handler_fn_installed [OF X a]
  obtain r0 r1 r2 r3 r4 r5 where r: "idt_reserved_2 t = [r0, r1, r2, r3, r4, r5]"
    using t by (rule idt_reserved_2_cases)
  note bits = bits_eq_iff [OF l] i in_bit_lists
  show ?thesis
    using vector_below_32 [OF lt] t
    by (elim insertE emptyE)
      (simp_all add: set_general_handler_entry_def bits set_fn idt_entries_def idt_ok_def reserved_vector_def r
        Idt_index_def Idt_index_mut_def Let_def)
qed

lemma interrupt_entry_update:
  assumes X: "extern_ok X" and t: "idt_ok t" and a: "canonical (VirtAddr a)"
    and l: "l \<in> set (bit_lists 8)" and i: "idx_of_bits l = i" and ge: "32 \<le> unat i"
  shows "\<exists>t'. set_general_handler_entry X cs a t i l = Some t' \<and> idt_ok t' \<and> \<not> reserved_vector i \<and>
    idt_entries t' = (idt_entries t)[unat i := installed cs a (idt_entries t ! unat i)]"
proof -
  have ne: "i \<noteq> w" if "unat w < 32" for w using that ge by auto
  have "set_general_handler_entry X cs a t i l = do {
      e \<leftarrow> Idt_index t i;
      e \<leftarrow> set_handler_fn X cs e a;
      Idt_index_mut t i e
    }"
    by (simp add: set_general_handler_entry_def bits_eq_iff [OF l] i in_bit_lists ne)
  moreover have len: "unat i - 32 < length (interrupts t)" using t ge u8_lt [of i] by (simp add: idt_ok_def)
  then have "Idt_index t i = Some (interrupts t ! (unat i - 32))"
    "Idt_index_mut t i e = Some (t\<lparr>interrupts := (interrupts t)[unat i - 32 := e]\<rparr>)" for e
    using ge u8_lt [of i] by (simp_all add: Idt_index_def Idt_index_mut_def Let_def)
  moreover have "idt_entries t ! unat i = interrupts t ! (unat i - 32)"
    "idt_entries (t\<lparr>interrupts := (interrupts t)[unat i - 32 := e]\<rparr>) = (idt_entries t)[unat i := e]" for e
  proof -
    obtain H where H: "length H = 32" "idt_entries t = H @ interrupts t" "\<And>xs. idt_entries (t\<lparr>interrupts := xs\<rparr>) = H @ xs"
      using idt_entries_interrupts [OF t] by (auto intro!: that [of "take 32 (idt_entries t)"])
    show "idt_entries t ! unat i = interrupts t ! (unat i - 32)"
      "idt_entries (t\<lparr>interrupts := (interrupts t)[unat i - 32 := e]\<rparr>) = (idt_entries t)[unat i := e]"
      using H(1) ge unfolding H(2,3) by (simp_all add: nth_append list_update_append)
  qed
  moreover have "\<not> reserved_vector i" by (simp add: reserved_vector_def ne)
  ultimately show ?thesis
    using t by (simp add: extern_ok.set_handler_fn_installed [OF X a] idt_ok_def)
qed

section \<open>All entries\<close>

definition handled :: "bound \<times> bound \<Rightarrow> u8 \<Rightarrow> bool" where
  "handled rng i \<longleftrightarrow> range_contains rng i \<and> \<not> reserved_vector i"

text \<open>The table \<open>t'\<close> is \<open>t\<close> with the handlers of the vectors in \<open>A\<close> that the range contains.\<close>

definition handlers_installed ::
  "SegmentSelector \<Rightarrow> (u8 \<Rightarrow> u64) \<Rightarrow> bound \<times> bound \<Rightarrow> u8 set \<Rightarrow> InterruptDescriptorTable \<Rightarrow> InterruptDescriptorTable \<Rightarrow> bool" where
  "handlers_installed cs fa rng A t t' \<longleftrightarrow> (\<forall>i. idt_entries t' ! unat i =
     (if i \<in> A \<and> handled rng i then installed cs (fa i) (idt_entries t ! unat i) else idt_entries t ! unat i))"

lemma handlers_installed_step:
  assumes X: "extern_ok X" and t: "idt_ok t" and l: "l \<in> set (bit_lists 8)"
    and a: "\<And>i. handled rng i \<Longrightarrow> canonical (VirtAddr (fa i))"
  shows "\<exists>t'. set_general_handler_recursive_bits 0 X cs fa rng l t = Some t' \<and> idt_ok t' \<and>
    handlers_installed cs fa rng {idx_of_bits l} t t'"
proof -
  let ?i = "idx_of_bits l"
  consider "handled rng ?i" | "range_contains rng ?i" "reserved_vector ?i" | "\<not> range_contains rng ?i"
    by (auto simp: handled_def)
  then show ?thesis
  proof cases
    case 1
    then obtain t' where t': "set_general_handler_entry X cs (fa ?i) t ?i l = Some t'" "idt_ok t'"
        "idt_entries t' = (idt_entries t)[unat ?i := installed cs (fa ?i) (idt_entries t ! unat ?i)]"
      using exception_entry_update [OF X t a l refl] interrupt_entry_update [OF X t a l refl]
      by (cases "unat ?i < 32") (auto simp: handled_def)
    moreover have ne: "unat ?i \<noteq> unat j" if "j \<noteq> ?i" for j using that by (simp add: word_unat_eq_iff)
    have "idt_entries t' ! unat j = (if j = ?i then installed cs (fa j) (idt_entries t ! unat j)
        else idt_entries t ! unat j)" for j
      using idt_entries_interrupts(2) [OF t] u8_lt [of ?i] unfolding t'(3)
      by (cases "j = ?i") (simp_all add: ne)
    ultimately show ?thesis using 1 by (auto simp: handlers_installed_def handled_def)
  next
    case 2
    then have "set_general_handler_entry X cs (fa ?i) t ?i l = Some t"
      by (auto simp: set_general_handler_entry_def reserved_vector_def bits_eq_iff [OF l] in_bit_lists)
    with 2 t show ?thesis by (auto simp: handlers_installed_def handled_def)
  next
    case 3
    with t show ?thesis by (auto simp: handlers_installed_def handled_def)
  qed
qed

lemma handlers_installed_fold:
  assumes X: "extern_ok X" and a: "\<And>i. handled rng i \<Longrightarrow> canonical (VirtAddr (fa i))"
    and "idt_ok t" and "set ls \<subseteq> set (bit_lists 8)" and "distinct (map idx_of_bits ls)"
  shows "\<exists>t'. fold_option (set_general_handler_recursive_bits 0 X cs fa rng) ls t = Some t' \<and> idt_ok t' \<and>
    handlers_installed cs fa rng (idx_of_bits ` set ls) t t'"
  using assms(3-)
proof (induction ls arbitrary: t)
  case Nil
  then show ?case by (simp add: handlers_installed_def)
next
  case (Cons l ls)
  obtain t1 where t1: "set_general_handler_recursive_bits 0 X cs fa rng l t = Some t1" "idt_ok t1"
      "handlers_installed cs fa rng {idx_of_bits l} t t1"
    using handlers_installed_step [OF X Cons.prems(1) _ a, of l] Cons.prems(2) by (meson list.set_intros(1) subsetD)
  obtain t2 where t2: "fold_option (set_general_handler_recursive_bits 0 X cs fa rng) ls t1 = Some t2" "idt_ok t2"
      "handlers_installed cs fa rng (idx_of_bits ` set ls) t1 t2"
    using Cons.IH [OF t1(2)] Cons.prems(2,3) by (auto simp del: set_general_handler_recursive_bits.simps)
  have "handlers_installed cs fa rng (idx_of_bits ` set (l # ls)) t t2"
    using t1(3) t2(3) Cons.prems(3) by (auto simp: handlers_installed_def)
  with t1 t2 show ?case by (simp del: set_general_handler_recursive_bits.simps)
qed

lemma set_general_handler_installs:
  assumes "extern_ok X" and "idt_ok t" and "\<And>i. handled rng i \<Longrightarrow> canonical (VirtAddr (fa i))"
  shows "\<exists>t'. set_general_handler X cs fa t rng = Some t' \<and> idt_ok t' \<and> handlers_installed cs fa rng UNIV t t'"
proof -
  have "i \<in> idx_of_bits ` set (bit_lists 8)" for i using bits_of_idx [of i] by blast
  then have "idx_of_bits ` set (bit_lists 8) = UNIV" by blast
  moreover note distinct_idx_of_bits
  moreover have "map ((@) []) (bit_lists 8) = bit_lists 8" by (rule map_idI) simp
  ultimately show ?thesis
    using handlers_installed_fold [where rng = rng and fa = fa, OF assms(1,3,2) order_refl]
    by (simp only: set_general_handler_def recursive_bits_fold [of 8])
qed

text \<open>An installed entry is the one the CPU needs to call the handler.\<close>

lemma installed_entry:
  assumes X: "extern_ok X" and "canonical (VirtAddr a)"
  shows "handler_addr (installed cs a e) = VirtAddr a \<and> is_present X (entry_options (installed cs a e)) = Some True \<and>
    privilege_level X (entry_options (installed cs a e)) = Some Ring0 \<and> opt_cs (entry_options (installed cs a e)) = cs"
proof -
  have "handler_addr (installed cs a e) = VirtAddr a"
    using new_truncate_id [OF assms(2)] by (simp add: installed_def handler_addr_def split_pointer Let_def)
  then show ?thesis
    using extern_ok.get_bits_u16 [OF X] extern_ok.get_bit_u16 [OF X]
    by (simp add: installed_def privilege_level_def is_present_def get_range_def take_bit_eq_mod drop_bit_eq_div
        PrivilegeLevel_from_u16_def)
qed

section \<open>Properties\<close>

text \<open>
  C31. \<open>set_general_handler\<close> on a range of vectors succeeds if the linker places the generated functions at
  canonical addresses. Every vector of the range that is not reserved then has an entry that is
  present, has privilege level 0 and the current code segment, and points to the function generated
  for this vector; every other entry of the table is what it was.
\<close>

theorem set_general_handler_exact:
  assumes "extern_ok X" and "idt_ok t"
    and "\<forall>i. range_contains rng i \<and> \<not> reserved_vector i \<longrightarrow> canonical (VirtAddr (fn_addr i))"
  shows "\<exists>t'. set_general_handler X cs fn_addr t rng = Some t' \<and> idt_ok t' \<and>
    (\<forall>i. let e = idt_entries t' ! unat i in
       if range_contains rng i \<and> \<not> reserved_vector i
       then handler_addr e = VirtAddr (fn_addr i) \<and> is_present X (entry_options e) = Some True \<and>
         privilege_level X (entry_options e) = Some Ring0 \<and> opt_cs (entry_options e) = cs
       else e = idt_entries t ! unat i)"
proof -
  have a: "canonical (VirtAddr (fn_addr i))" if "handled rng i" for i
    using that assms(3) by (simp add: handled_def)
  obtain t' where
    t': "set_general_handler X cs fn_addr t rng = Some t'" "idt_ok t'" "handlers_installed cs fn_addr rng UNIV t t'"
    using set_general_handler_installs [OF assms(1,2), of rng fn_addr] a by blast
  then show ?thesis
    using installed_entry [OF assms(1) a]
    by (intro exI [of _ t']) (auto simp: handlers_installed_def handled_def Let_def)
qed

theorem set_general_handler_exact_witness:
  "\<exists>t'. set_general_handler_idx (std_extern True) (SegmentSelector 8) (\<lambda>i. 0x1000 * ucast i) Idt_new 14 = Some t' \<and>
    handler_addr (page_fault t') = VirtAddr 0xe000 \<and> general_protection_fault t' = Idt_Entry_missing"
proof -
  let ?fa = "\<lambda>i :: u8. 0x1000 * ucast i :: u64" and ?rng = "(Included 14, Included 14) :: bound \<times> bound"
  have eq: "i = 14" if "range_contains ?rng i" for i using that by (simp add: order_antisym)
  have "canonical (VirtAddr (?fa 14))" by (simp add: canonical_iff_unat)
  then have "\<forall>i. range_contains ?rng i \<and> \<not> reserved_vector i \<longrightarrow> canonical (VirtAddr (?fa i))"
    using eq by blast
  moreover have "idt_ok Idt_new" by (simp add: idt_ok_def Idt_new_def)
  ultimately obtain t' where t': "set_general_handler (std_extern True) (SegmentSelector 8) ?fa Idt_new ?rng = Some t'"
      "\<forall>i. let e = idt_entries t' ! unat i in
         if range_contains ?rng i \<and> \<not> reserved_vector i
         then handler_addr e = VirtAddr (?fa i) \<and> is_present (std_extern True) (entry_options e) = Some True \<and>
           privilege_level (std_extern True) (entry_options e) = Some Ring0 \<and> opt_cs (entry_options e) = SegmentSelector 8
         else e = idt_entries Idt_new ! unat i"
    using set_general_handler_exact [OF std_extern_ok, where rng = ?rng and fn_addr = ?fa] by blast
  from t'(2) [THEN spec, of 14] t'(2) [THEN spec, of 13] have
    "handler_addr (page_fault t') = VirtAddr 0xe000" "general_protection_fault t' = Idt_Entry_missing"
    by (simp_all add: Let_def idt_entries_def reserved_vector_def Idt_new_def)
  with t'(1) show ?thesis by (simp add: set_general_handler_idx_def)
qed





end
