(* ===== verification/Cpu.thy ===== *)
theory Cpu
  imports Prelude
begin

text \<open>
  The CPU as the crate's inline assembly uses it. The instructions are a record of functions on a
  state that the model leaves open: an instruction that only reads a register returns its value, every
  other one returns the new state. A definition that executes instructions takes the record as an
  argument. The locale \<open>cpu_ok\<close> states what the Intel and AMD manuals say about the registers that read
  back what was written to them; \<open>std_cpu\<close> is a register file that meets it.
\<close>

section \<open>Instructions\<close>

datatype register = CR0 | CR2 | CR3 | CR4 | DR0 | DR1 | DR2 | DR3 | DR6 | DR7

datatype segment_register = Seg_CS | Seg_SS | Seg_DS | Seg_ES | Seg_FS | Seg_GS

text \<open>
  A pair of 32-bit values is the high half (\<open>edx\<close>) and the low half (\<open>eax\<close>) of a 64-bit value. The
  operands of \<open>invpcid\<close> are the kind and the two words of the descriptor, those of \<open>invlpgb\<close> are \<open>rax\<close>,
  \<open>ecx\<close> and \<open>edx\<close>; \<open>cpuid\<close> returns \<open>eax\<close>, \<open>ebx\<close>, \<open>ecx\<close> and \<open>edx\<close>. A descriptor table register holds a limit and a
  base address. The steps of \<open>rdrand\<close> return the carry flag and the value. The operand of \<open>retfq\<close> is the
  selector that was pushed before the address of the next instruction, those of \<open>iretq\<close> are the five
  words in the order in which they were pushed.
\<close>

record 'c cpu =
  mov_from :: "register \<Rightarrow> 'c \<Rightarrow> u64"
  mov_to :: "register \<Rightarrow> u64 \<Rightarrow> 'c \<Rightarrow> 'c"
  rdmsr :: "u32 \<Rightarrow> 'c \<Rightarrow> u32 \<times> u32"
  wrmsr :: "u32 \<Rightarrow> u32 \<times> u32 \<Rightarrow> 'c \<Rightarrow> 'c"
  xgetbv :: "u32 \<Rightarrow> 'c \<Rightarrow> u32 \<times> u32"
  xsetbv :: "u32 \<Rightarrow> u32 \<times> u32 \<Rightarrow> 'c \<Rightarrow> 'c"
  pushfq :: "'c \<Rightarrow> u64"
  popfq :: "u64 \<Rightarrow> 'c \<Rightarrow> 'c"
  stmxcsr :: "'c \<Rightarrow> u32"
  ldmxcsr :: "u32 \<Rightarrow> 'c \<Rightarrow> 'c"
  sti :: "'c \<Rightarrow> 'c"
  cli :: "'c \<Rightarrow> 'c"
  mov_from_seg :: "segment_register \<Rightarrow> 'c \<Rightarrow> u16"
  mov_to_seg :: "segment_register \<Rightarrow> u16 \<Rightarrow> 'c \<Rightarrow> 'c"
  rdbase :: "segment_register \<Rightarrow> 'c \<Rightarrow> u64"
  wrbase :: "segment_register \<Rightarrow> u64 \<Rightarrow> 'c \<Rightarrow> 'c"
  swapgs :: "'c \<Rightarrow> 'c"
  retfq :: "u64 \<Rightarrow> 'c \<Rightarrow> 'c"
  iretq_instr :: "u64 \<times> u64 \<times> u64 \<times> u64 \<times> u64 \<Rightarrow> 'c \<Rightarrow> 'c"
  lea_rip :: "'c \<Rightarrow> u64"
  hlt_instr :: "'c \<Rightarrow> 'c"
  nop_instr :: "'c \<Rightarrow> 'c"
  xchg_bx_bx :: "'c \<Rightarrow> 'c"
  int3_instr :: "'c \<Rightarrow> 'c"
  int_instr :: "u8 \<Rightarrow> 'c \<Rightarrow> 'c"
  invlpg :: "u64 \<Rightarrow> 'c \<Rightarrow> 'c"
  invpcid :: "u64 \<Rightarrow> u64 \<times> u64 \<Rightarrow> 'c \<Rightarrow> 'c"
  invlpgb :: "u64 \<Rightarrow> u32 \<Rightarrow> u32 \<Rightarrow> 'c \<Rightarrow> 'c"
  tlbsync :: "'c \<Rightarrow> 'c"
  cpuid :: "u32 \<Rightarrow> 'c \<Rightarrow> u32 \<times> u32 \<times> u32 \<times> u32"
  lgdt_instr :: "u16 \<times> u64 \<Rightarrow> 'c \<Rightarrow> 'c"
  lidt_instr :: "u16 \<times> u64 \<Rightarrow> 'c \<Rightarrow> 'c"
  sgdt_instr :: "'c \<Rightarrow> u16 \<times> u64"
  sidt_instr :: "'c \<Rightarrow> u16 \<times> u64"
  ltr_instr :: "u16 \<Rightarrow> 'c \<Rightarrow> 'c"
  in_u8 :: "u16 \<Rightarrow> 'c \<Rightarrow> u8 \<times> 'c"
  in_u16 :: "u16 \<Rightarrow> 'c \<Rightarrow> u16 \<times> 'c"
  in_u32 :: "u16 \<Rightarrow> 'c \<Rightarrow> u32 \<times> 'c"
  out_u8 :: "u16 \<Rightarrow> u8 \<Rightarrow> 'c \<Rightarrow> 'c"
  out_u16 :: "u16 \<Rightarrow> u16 \<Rightarrow> 'c \<Rightarrow> 'c"
  out_u32 :: "u16 \<Rightarrow> u32 \<Rightarrow> 'c \<Rightarrow> 'c"
  rdrand64_step :: "'c \<Rightarrow> (u32 \<times> u64) \<times> 'c"
  rdrand32_step :: "'c \<Rightarrow> (u32 \<times> u32) \<times> 'c"
  rdrand16_step :: "'c \<Rightarrow> (u32 \<times> u16) \<times> 'c"

text \<open>
  A closure \<open>FnOnce(&mut T)\<close> that an \<open>update\<close> method calls: it may change the value, execute
  instructions, and panic.
\<close>

type_synonym ('t, 'c) updater = "'t \<Rightarrow> 'c \<Rightarrow> ('t \<times> 'c) option"

text \<open>The two halves of a 64-bit value.\<close>

definition join_halves :: "u32 \<times> u32 \<Rightarrow> u64" where
  "join_halves v = (case v of (high, low) \<Rightarrow> push_bit 32 (ucast high) OR ucast low)"

definition split_halves :: "u64 \<Rightarrow> u32 \<times> u32" where
  "split_halves value = (ucast (drop_bit 32 value), ucast value)"

lemma join_split [simp]: "join_halves (split_halves v) = v"
  by (rule bit_word_eqI) (auto simp: join_halves_def split_halves_def bit_simps)

lemma split_join [simp]: "split_halves (join_halves p) = p"
proof (cases p)
  case (Pair h l)
  have "ucast (drop_bit 32 (push_bit 32 (ucast h) OR ucast l :: u64)) = h"
    "ucast (push_bit 32 (ucast h) OR ucast l :: u64) = l"
    by (rule bit_word_eqI; auto simp: bit_simps dest: bit_imp_le_length)+
  with Pair show ?thesis by (simp add: join_halves_def split_halves_def)
qed

section \<open>Registers that keep what is written\<close>

text \<open>
  The model specific registers that hold a plain value: the bases of \<open>FS\<close> and \<open>GS\<close>, the registers of
  \<open>syscall\<close>, the control-flow enforcement registers, the page attribute table and the base of the
  local APIC. (\<open>EFER\<close> has a read-only bit.)
\<close>

definition stored_msrs :: "u32 set" where
  "stored_msrs = {0xC0000100, 0xC0000101, 0xC0000102, 0xC0000081, 0xC0000082, 0xC0000084, 0x6A0, 0x6A2, 0x277, 0x1B}"

locale cpu_ok =
  fixes C :: "'c cpu"
  assumes cr3_stored: "mov_from C CR3 (mov_to C CR3 v s) = unset_bit 63 v"
    and msr_stored: "r \<in> stored_msrs \<Longrightarrow> rdmsr C r (wrmsr C r p s) = p"
    and dr_stored: "d \<in> {DR0, DR1, DR2, DR3} \<Longrightarrow> mov_from C d (mov_to C d v s) = v"
    and dr_other: "d \<in> {DR0, DR1, DR2, DR3} \<Longrightarrow> q \<noteq> d \<Longrightarrow> mov_from C q (mov_to C d v s) = mov_from C q s"
    and mxcsr_stored: "take_bit 16 w = w \<Longrightarrow> stmxcsr C (ldmxcsr C w s) = w"
    and sti_sets: "pushfq C (sti C s) = set_bit 9 (pushfq C s)"
    and cli_clears: "pushfq C (cli C s) = unset_bit 9 (pushfq C s)"
    and gdtr_stored: "sgdt_instr C (lgdt_instr C table s) = table"
    and idtr_stored: "sidt_instr C (lidt_instr C table s) = table"
    and gdtr_other: "sidt_instr C (lgdt_instr C table s) = sidt_instr C s"
    and idtr_other: "sgdt_instr C (lidt_instr C table s) = sgdt_instr C s"
    and segment_stored: "sr \<noteq> Seg_CS \<Longrightarrow> mov_from_seg C sr (mov_to_seg C sr sel s) = sel"
    and segment_other: "sr \<noteq> Seg_CS \<Longrightarrow> sq \<noteq> sr \<Longrightarrow> mov_from_seg C sq (mov_to_seg C sr sel s) = mov_from_seg C sq s"
    and cs_stored: "mov_from_seg C sq (retfq C v s) = (if sq = Seg_CS then ucast v else mov_from_seg C sq s)"
begin

lemma msr_value_stored:
  "r \<in> stored_msrs \<Longrightarrow> join_halves (rdmsr C r (wrmsr C r (split_halves v) s)) = v"
  by (simp add: msr_stored)

end

text \<open>A register file.\<close>

record machine =
  m_regs :: "register \<Rightarrow> u64"
  m_msrs :: "u32 \<Rightarrow> u64"
  m_xcr0 :: u64
  m_rflags :: u64
  m_mxcsr :: u32
  m_segments :: "segment_register \<Rightarrow> u16"
  m_tlb_log :: "(u64 \<times> u32 \<times> u32) list"
  m_gdtr :: "u16 \<times> u64"
  m_idtr :: "u16 \<times> u64"
  m_ports :: "u16 \<Rightarrow> u32"

definition std_cpu :: "'a machine_scheme cpu" where
  "std_cpu = \<lparr>
     mov_from = (\<lambda>r s. m_regs s r),
     mov_to = (\<lambda>r v s. s\<lparr>m_regs := (m_regs s)(r := if r = CR3 then unset_bit 63 v else v)\<rparr>),
     rdmsr = (\<lambda>r s. split_halves (m_msrs s r)),
     wrmsr = (\<lambda>r p s. s\<lparr>m_msrs := (m_msrs s)(r := join_halves p)\<rparr>),
     xgetbv = (\<lambda>_ s. split_halves (m_xcr0 s)),
     xsetbv = (\<lambda>_ p s. s\<lparr>m_xcr0 := join_halves p\<rparr>),
     pushfq = m_rflags,
     popfq = (\<lambda>v s. s\<lparr>m_rflags := v\<rparr>),
     stmxcsr = m_mxcsr,
     ldmxcsr = (\<lambda>v s. s\<lparr>m_mxcsr := v\<rparr>),
     sti = (\<lambda>s. s\<lparr>m_rflags := set_bit 9 (m_rflags s)\<rparr>),
     cli = (\<lambda>s. s\<lparr>m_rflags := unset_bit 9 (m_rflags s)\<rparr>),
     mov_from_seg = (\<lambda>r s. m_segments s r),
     mov_to_seg = (\<lambda>r v s. s\<lparr>m_segments := (m_segments s)(r := v)\<rparr>),
     rdbase = (\<lambda>r s. m_msrs s (if r = Seg_FS then 0xC0000100 else 0xC0000101)),
     wrbase = (\<lambda>r v s. s\<lparr>m_msrs := (m_msrs s)((if r = Seg_FS then 0xC0000100 else 0xC0000101) := v)\<rparr>),
     swapgs = (\<lambda>s. s\<lparr>m_msrs := (m_msrs s)(0xC0000101 := m_msrs s 0xC0000102, 0xC0000102 := m_msrs s 0xC0000101)\<rparr>),
     retfq = (\<lambda>w s. s\<lparr>m_segments := (m_segments s)(Seg_CS := ucast w)\<rparr>),
     iretq_instr = (\<lambda>(_, _, fl, cs, _) s. s\<lparr>m_segments := (m_segments s)(Seg_CS := ucast cs), m_rflags := fl\<rparr>),
     lea_rip = (\<lambda>_. 0x1000),
     hlt_instr = (\<lambda>s. s),
     nop_instr = (\<lambda>s. s),
     xchg_bx_bx = (\<lambda>s. s),
     int3_instr = (\<lambda>s. s),
     int_instr = (\<lambda>_ s. s),
     invlpg = (\<lambda>_ s. s),
     invpcid = (\<lambda>_ _ s. s),
     invlpgb = (\<lambda>a c d s. s\<lparr>m_tlb_log := m_tlb_log s @ [(a, c, d)]\<rparr>),
     tlbsync = (\<lambda>s. s),
     cpuid = (\<lambda>_ _. (0, 0x200008, 0, 0)),
     lgdt_instr = (\<lambda>p s. s\<lparr>m_gdtr := p\<rparr>),
     lidt_instr = (\<lambda>p s. s\<lparr>m_idtr := p\<rparr>),
     sgdt_instr = m_gdtr,
     sidt_instr = m_idtr,
     ltr_instr = (\<lambda>_ s. s),
     in_u8 = (\<lambda>p s. (ucast (m_ports s p), s)),
     in_u16 = (\<lambda>p s. (ucast (m_ports s p), s)),
     in_u32 = (\<lambda>p s. (m_ports s p, s)),
     out_u8 = (\<lambda>p v s. s\<lparr>m_ports := (m_ports s)(p := ucast v)\<rparr>),
     out_u16 = (\<lambda>p v s. s\<lparr>m_ports := (m_ports s)(p := ucast v)\<rparr>),
     out_u32 = (\<lambda>p v s. s\<lparr>m_ports := (m_ports s)(p := v)\<rparr>),
     rdrand64_step = (\<lambda>s. ((1, 4), s)),
     rdrand32_step = (\<lambda>s. ((1, 4), s)),
     rdrand16_step = (\<lambda>s. ((0, 0), s))\<rparr>"

definition std_machine :: machine where
  "std_machine = \<lparr>m_regs = (\<lambda>_. 0), m_msrs = (\<lambda>_. 0), m_xcr0 = 1, m_rflags = 2, m_mxcsr = 0x1f80, m_segments = (\<lambda>_. 0), m_tlb_log = [],
     m_gdtr = (0, 0), m_idtr = (0, 0), m_ports = (\<lambda>_. 0)\<rparr>"

interpretation std_cpu: cpu_ok std_cpu
  by unfold_locales (auto simp: std_cpu_def)

lemma std_cpu_ok [intro!, simp]: "cpu_ok std_cpu"
  by (rule std_cpu.cpu_ok_axioms)

section \<open>Registers of flags\<close>

text \<open>
  The wrappers of the registers of flags share their code: \<open>read\<close> drops the unknown bits, \<open>write\<close> keeps
  the reserved bits of the register and replaces the others, \<open>update\<close> reads, calls the closure and
  writes.
\<close>

lemma flags_subset:
  fixes fl all :: "'a::len word"
  assumes "fl AND NOT all = 0" "bit fl n"
  shows "bit all n"
proof (rule ccontr)
  assume "\<not> bit all n"
  then have "bit (fl AND NOT all) n"
    using assms(2) by (simp add: bit_simps bit_imp_le_length)
  with assms(1) show False by simp
qed

locale flag_register =
  fixes all :: u64
    and read_raw_op :: "'c \<Rightarrow> u64"
    and write_raw_op :: "u64 \<Rightarrow> 'c \<Rightarrow> 'c"
    and read_op :: "'c \<Rightarrow> u64"
    and write_op :: "u64 \<Rightarrow> 'c \<Rightarrow> 'c"
    and update_op :: "(u64, 'c) updater \<Rightarrow> 'c \<Rightarrow> 'c option"
  assumes read_eq: "read_op s = read_raw_op s AND all"
    and write_eq: "write_op fl s = write_raw_op ((read_raw_op s AND NOT all) OR fl) s"
    and update_eq: "update_op f s = do { (fl, s') \<leftarrow> f (read_op s) s; Some (write_op fl s') }"
begin

lemma write_keeps_reserved:
  assumes "fl AND NOT all = 0"
  shows "\<exists>v. write_op fl s = write_raw_op v s \<and> v AND all = fl \<and> v AND NOT all = read_raw_op s AND NOT all"
proof (intro exI conjI)
  let ?v = "(read_raw_op s AND NOT all) OR fl"
  note fl = flags_subset [OF assms]
  show "write_op fl s = write_raw_op ?v s" by (rule write_eq)
  show "?v AND all = fl" by (rule bit_word_eqI) (use fl in \<open>auto simp: bit_simps\<close>)
  show "?v AND NOT all = read_raw_op s AND NOT all"
    by (rule bit_word_eqI) (use fl in \<open>auto simp: bit_simps\<close>)
qed

text \<open>An update that does nothing writes back exactly what the register holds.\<close>

lemma update_nothing: "update_op (\<lambda>fl s. Some (fl, s)) s = Some (write_raw_op (read_raw_op s) s)"
proof -
  have "(read_raw_op s AND NOT all) OR (read_raw_op s AND all) = read_raw_op s"
    by (rule bit_word_eqI) (auto simp: bit_simps)
  then show ?thesis by (simp add: update_eq write_eq read_eq)
qed

text \<open>An update that sets and clears flags leaves every other bit alone.\<close>

lemma update_set_clear:
  "update_op (\<lambda>fl s. Some ((fl AND NOT clear_fl) OR set_fl, s)) s =
    Some (write_raw_op ((read_raw_op s AND NOT (clear_fl AND all)) OR set_fl) s)"
proof -
  have "(read_raw_op s AND NOT all) OR ((read_raw_op s AND all) AND NOT clear_fl OR set_fl) =
      (read_raw_op s AND NOT (clear_fl AND all)) OR set_fl"
    by (rule bit_word_eqI) (auto simp: bit_simps)
  then show ?thesis by (simp add: update_eq write_eq read_eq)
qed

end

end
