(* ===== verification/Control_Registers.thy ===== *)
theory Control_Registers
  imports Cpu Page_Table
begin

text \<open>
  The control registers (\<open>registers/control.rs\<close>), the extended control register
  (\<open>registers/xcontrol.rs\<close>), the flags registers (\<open>registers/rflags.rs\<close>, \<open>registers/mxcsr.rs\<close>) and the
  process-context identifiers of \<open>instructions/tlb.rs\<close> that the register \<open>CR3\<close> holds. A flags value is
  its bits.
\<close>

section \<open>Process-context identifiers\<close>

datatype Pcid = Pcid (pcid_u16: u16)

datatype PcidTooBig = PcidTooBig u16

definition Pcid_new :: "u16 \<Rightarrow> PcidTooBig + Pcid" where
  "Pcid_new pcid = (if pcid \<ge> 4096 then Inl (PcidTooBig pcid) else Inr (Pcid pcid))"

definition Pcid_value :: "Pcid \<Rightarrow> u16" where
  "Pcid_value self = pcid_u16 self"

section \<open>\<open>CR0\<close>\<close>

type_synonym Cr0Flags = u64

definition Cr0Flags_PROTECTED_MODE_ENABLE :: Cr0Flags where "Cr0Flags_PROTECTED_MODE_ENABLE = 1"
definition Cr0Flags_MONITOR_COPROCESSOR :: Cr0Flags where "Cr0Flags_MONITOR_COPROCESSOR = push_bit 1 1"
definition Cr0Flags_EMULATE_COPROCESSOR :: Cr0Flags where "Cr0Flags_EMULATE_COPROCESSOR = push_bit 2 1"
definition Cr0Flags_TASK_SWITCHED :: Cr0Flags where "Cr0Flags_TASK_SWITCHED = push_bit 3 1"
definition Cr0Flags_EXTENSION_TYPE :: Cr0Flags where "Cr0Flags_EXTENSION_TYPE = push_bit 4 1"
definition Cr0Flags_NUMERIC_ERROR :: Cr0Flags where "Cr0Flags_NUMERIC_ERROR = push_bit 5 1"
definition Cr0Flags_WRITE_PROTECT :: Cr0Flags where "Cr0Flags_WRITE_PROTECT = push_bit 16 1"
definition Cr0Flags_ALIGNMENT_MASK :: Cr0Flags where "Cr0Flags_ALIGNMENT_MASK = push_bit 18 1"
definition Cr0Flags_NOT_WRITE_THROUGH :: Cr0Flags where "Cr0Flags_NOT_WRITE_THROUGH = push_bit 29 1"
definition Cr0Flags_CACHE_DISABLE :: Cr0Flags where "Cr0Flags_CACHE_DISABLE = push_bit 30 1"
definition Cr0Flags_PAGING :: Cr0Flags where "Cr0Flags_PAGING = push_bit 31 1"

definition Cr0Flags_all :: Cr0Flags where
  "Cr0Flags_all = fold (OR) [Cr0Flags_PROTECTED_MODE_ENABLE, Cr0Flags_MONITOR_COPROCESSOR, Cr0Flags_EMULATE_COPROCESSOR,
     Cr0Flags_TASK_SWITCHED, Cr0Flags_EXTENSION_TYPE, Cr0Flags_NUMERIC_ERROR,
     Cr0Flags_WRITE_PROTECT, Cr0Flags_ALIGNMENT_MASK, Cr0Flags_NOT_WRITE_THROUGH,
     Cr0Flags_CACHE_DISABLE, Cr0Flags_PAGING] 0"

lemmas Cr0Flags_defs = Cr0Flags_PROTECTED_MODE_ENABLE_def Cr0Flags_MONITOR_COPROCESSOR_def
  Cr0Flags_EMULATE_COPROCESSOR_def Cr0Flags_TASK_SWITCHED_def Cr0Flags_EXTENSION_TYPE_def
  Cr0Flags_NUMERIC_ERROR_def Cr0Flags_WRITE_PROTECT_def Cr0Flags_ALIGNMENT_MASK_def
  Cr0Flags_NOT_WRITE_THROUGH_def Cr0Flags_CACHE_DISABLE_def Cr0Flags_PAGING_def
  Cr0Flags_all_def

definition Cr0_read_raw :: "'c cpu \<Rightarrow> 'c \<Rightarrow> u64" where
  "Cr0_read_raw C s = mov_from C CR0 s"

definition Cr0_read :: "extern \<Rightarrow> 'c cpu \<Rightarrow> 'c \<Rightarrow> Cr0Flags" where
  "Cr0_read X C s = bitflags_from_bits_truncate X Cr0Flags_all (Cr0_read_raw C s)"

definition Cr0_write_raw :: "'c cpu \<Rightarrow> u64 \<Rightarrow> 'c \<Rightarrow> 'c" where
  "Cr0_write_raw C value s = mov_to C CR0 value s"

definition Cr0_write :: "'c cpu \<Rightarrow> Cr0Flags \<Rightarrow> 'c \<Rightarrow> 'c" where
  "Cr0_write C flags s =
     (let old_value = Cr0_read_raw C s;
          reserved = old_value AND NOT Cr0Flags_all;
          new_value = reserved OR flags
      in Cr0_write_raw C new_value s)"

definition Cr0_update :: "extern \<Rightarrow> 'c cpu \<Rightarrow> (Cr0Flags, 'c) updater \<Rightarrow> 'c \<Rightarrow> 'c option" where
  "Cr0_update X C f s = do {
     (flags, s) \<leftarrow> f (Cr0_read X C s) s;
     Some (Cr0_write C flags s)
   }"

section \<open>\<open>CR2\<close>\<close>

definition Cr2_read_raw :: "'c cpu \<Rightarrow> 'c \<Rightarrow> u64" where
  "Cr2_read_raw C s = mov_from C CR2 s"

definition Cr2_read :: "'c cpu \<Rightarrow> 'c \<Rightarrow> VirtAddrNotValid + VirtAddr" where
  "Cr2_read C s = VirtAddr_try_new (Cr2_read_raw C s)"

section \<open>\<open>CR3\<close>\<close>

type_synonym Cr3Flags = u64

definition Cr3Flags_PAGE_LEVEL_WRITETHROUGH :: Cr3Flags where "Cr3Flags_PAGE_LEVEL_WRITETHROUGH = push_bit 3 1"
definition Cr3Flags_PAGE_LEVEL_CACHE_DISABLE :: Cr3Flags where "Cr3Flags_PAGE_LEVEL_CACHE_DISABLE = push_bit 4 1"

definition Cr3Flags_all :: Cr3Flags where
  "Cr3Flags_all = fold (OR) [Cr3Flags_PAGE_LEVEL_WRITETHROUGH, Cr3Flags_PAGE_LEVEL_CACHE_DISABLE] 0"

lemmas Cr3Flags_defs = Cr3Flags_PAGE_LEVEL_WRITETHROUGH_def Cr3Flags_PAGE_LEVEL_CACHE_DISABLE_def Cr3Flags_all_def

definition Cr3_read_raw :: "'c cpu \<Rightarrow> 'c \<Rightarrow> (PhysFrame \<times> u16) option" where
  "Cr3_read_raw C s = do {
     let value = mov_from C CR3 s;
     addr \<leftarrow> PhysAddr_new (value AND 0x000ffffffffff000);
     frame \<leftarrow> PhysFrame_containing_address Size4KiB addr;
     Some (frame, ucast (value AND 0xFFF))
   }"

definition Cr3_read :: "extern \<Rightarrow> 'c cpu \<Rightarrow> 'c \<Rightarrow> (PhysFrame \<times> Cr3Flags) option" where
  "Cr3_read X C s = do {
     (frame, value) \<leftarrow> Cr3_read_raw C s;
     let flags = bitflags_from_bits_truncate X Cr3Flags_all (ucast value);
     Some (frame, flags)
   }"

definition Cr3_read_pcid :: "'c cpu \<Rightarrow> 'c \<Rightarrow> (PhysFrame \<times> Pcid) option" where
  "Cr3_read_pcid C s = do {
     (frame, value) \<leftarrow> Cr3_read_raw C s;
     case Pcid_new value of
       Inl _ \<Rightarrow> panic
     | Inr pcid \<Rightarrow> Some (frame, pcid)
   }"

definition Cr3_write_raw_impl :: "'c cpu \<Rightarrow> bool \<Rightarrow> PhysFrame \<Rightarrow> u16 \<Rightarrow> 'c \<Rightarrow> 'c" where
  "Cr3_write_raw_impl C top_bit frame val s =
     (let addr = PhysFrame_start_address frame;
          value = push_bit 63 (of_bool top_bit) OR PhysAddr_as_u64 addr OR ucast val
      in mov_to C CR3 value s)"

definition Cr3_write :: "'c cpu \<Rightarrow> PhysFrame \<Rightarrow> Cr3Flags \<Rightarrow> 'c \<Rightarrow> 'c" where
  "Cr3_write C frame flags s = Cr3_write_raw_impl C False frame (ucast flags) s"

definition Cr3_write_pcid :: "'c cpu \<Rightarrow> PhysFrame \<Rightarrow> Pcid \<Rightarrow> 'c \<Rightarrow> 'c" where
  "Cr3_write_pcid C frame pcid s = Cr3_write_raw_impl C False frame (Pcid_value pcid) s"

definition Cr3_write_pcid_no_flush :: "'c cpu \<Rightarrow> PhysFrame \<Rightarrow> Pcid \<Rightarrow> 'c \<Rightarrow> 'c" where
  "Cr3_write_pcid_no_flush C frame pcid s = Cr3_write_raw_impl C True frame (Pcid_value pcid) s"

definition Cr3_write_raw :: "'c cpu \<Rightarrow> PhysFrame \<Rightarrow> u16 \<Rightarrow> 'c \<Rightarrow> 'c" where
  "Cr3_write_raw C frame val s = Cr3_write_raw_impl C False frame val s"

definition Cr3_update :: "extern \<Rightarrow> 'c cpu \<Rightarrow> (PhysFrame \<times> Cr3Flags, 'c) updater \<Rightarrow> 'c \<Rightarrow> 'c option" where
  "Cr3_update X C f s = do {
     (frame, flags) \<leftarrow> Cr3_read X C s;
     ((frame, flags), s) \<leftarrow> f (frame, flags) s;
     Some (Cr3_write C frame flags s)
   }"

definition Cr3_update_pcid :: "'c cpu \<Rightarrow> (PhysFrame \<times> Pcid, 'c) updater \<Rightarrow> 'c \<Rightarrow> 'c option" where
  "Cr3_update_pcid C f s = do {
     (frame, pcid) \<leftarrow> Cr3_read_pcid C s;
     ((frame, pcid), s) \<leftarrow> f (frame, pcid) s;
     Some (Cr3_write_pcid C frame pcid s)
   }"

definition Cr3_update_pcid_no_flush :: "'c cpu \<Rightarrow> (PhysFrame \<times> Pcid, 'c) updater \<Rightarrow> 'c \<Rightarrow> 'c option" where
  "Cr3_update_pcid_no_flush C f s = do {
     (frame, pcid) \<leftarrow> Cr3_read_pcid C s;
     ((frame, pcid), s) \<leftarrow> f (frame, pcid) s;
     Some (Cr3_write_pcid_no_flush C frame pcid s)
   }"

section \<open>\<open>CR4\<close>\<close>

type_synonym Cr4Flags = u64

definition Cr4Flags_VIRTUAL_8086_MODE_EXTENSIONS :: Cr4Flags where "Cr4Flags_VIRTUAL_8086_MODE_EXTENSIONS = 1"
definition Cr4Flags_PROTECTED_MODE_VIRTUAL_INTERRUPTS :: Cr4Flags where "Cr4Flags_PROTECTED_MODE_VIRTUAL_INTERRUPTS = push_bit 1 1"
definition Cr4Flags_TIMESTAMP_DISABLE :: Cr4Flags where "Cr4Flags_TIMESTAMP_DISABLE = push_bit 2 1"
definition Cr4Flags_DEBUGGING_EXTENSIONS :: Cr4Flags where "Cr4Flags_DEBUGGING_EXTENSIONS = push_bit 3 1"
definition Cr4Flags_PAGE_SIZE_EXTENSION :: Cr4Flags where "Cr4Flags_PAGE_SIZE_EXTENSION = push_bit 4 1"
definition Cr4Flags_PHYSICAL_ADDRESS_EXTENSION :: Cr4Flags where "Cr4Flags_PHYSICAL_ADDRESS_EXTENSION = push_bit 5 1"
definition Cr4Flags_MACHINE_CHECK_EXCEPTION :: Cr4Flags where "Cr4Flags_MACHINE_CHECK_EXCEPTION = push_bit 6 1"
definition Cr4Flags_PAGE_GLOBAL :: Cr4Flags where "Cr4Flags_PAGE_GLOBAL = push_bit 7 1"
definition Cr4Flags_PERFORMANCE_MONITOR_COUNTER :: Cr4Flags where "Cr4Flags_PERFORMANCE_MONITOR_COUNTER = push_bit 8 1"
definition Cr4Flags_OSFXSR :: Cr4Flags where "Cr4Flags_OSFXSR = push_bit 9 1"
definition Cr4Flags_OSXMMEXCPT_ENABLE :: Cr4Flags where "Cr4Flags_OSXMMEXCPT_ENABLE = push_bit 10 1"
definition Cr4Flags_USER_MODE_INSTRUCTION_PREVENTION :: Cr4Flags where "Cr4Flags_USER_MODE_INSTRUCTION_PREVENTION = push_bit 11 1"
definition Cr4Flags_L5_PAGING :: Cr4Flags where "Cr4Flags_L5_PAGING = push_bit 12 1"
definition Cr4Flags_VIRTUAL_MACHINE_EXTENSIONS :: Cr4Flags where "Cr4Flags_VIRTUAL_MACHINE_EXTENSIONS = push_bit 13 1"
definition Cr4Flags_SAFER_MODE_EXTENSIONS :: Cr4Flags where "Cr4Flags_SAFER_MODE_EXTENSIONS = push_bit 14 1"
definition Cr4Flags_FSGSBASE :: Cr4Flags where "Cr4Flags_FSGSBASE = push_bit 16 1"
definition Cr4Flags_PCID :: Cr4Flags where "Cr4Flags_PCID = push_bit 17 1"
definition Cr4Flags_OSXSAVE :: Cr4Flags where "Cr4Flags_OSXSAVE = push_bit 18 1"
definition Cr4Flags_KEY_LOCKER :: Cr4Flags where "Cr4Flags_KEY_LOCKER = push_bit 19 1"
definition Cr4Flags_SUPERVISOR_MODE_EXECUTION_PROTECTION :: Cr4Flags where "Cr4Flags_SUPERVISOR_MODE_EXECUTION_PROTECTION = push_bit 20 1"
definition Cr4Flags_SUPERVISOR_MODE_ACCESS_PREVENTION :: Cr4Flags where "Cr4Flags_SUPERVISOR_MODE_ACCESS_PREVENTION = push_bit 21 1"
definition Cr4Flags_PROTECTION_KEY_USER :: Cr4Flags where "Cr4Flags_PROTECTION_KEY_USER = push_bit 22 1"
definition Cr4Flags_CONTROL_FLOW_ENFORCEMENT :: Cr4Flags where "Cr4Flags_CONTROL_FLOW_ENFORCEMENT = push_bit 23 1"
definition Cr4Flags_PROTECTION_KEY_SUPERVISOR :: Cr4Flags where "Cr4Flags_PROTECTION_KEY_SUPERVISOR = push_bit 24 1"

definition Cr4Flags_all :: Cr4Flags where
  "Cr4Flags_all = fold (OR) [Cr4Flags_VIRTUAL_8086_MODE_EXTENSIONS, Cr4Flags_PROTECTED_MODE_VIRTUAL_INTERRUPTS,
     Cr4Flags_TIMESTAMP_DISABLE, Cr4Flags_DEBUGGING_EXTENSIONS, Cr4Flags_PAGE_SIZE_EXTENSION,
     Cr4Flags_PHYSICAL_ADDRESS_EXTENSION, Cr4Flags_MACHINE_CHECK_EXCEPTION, Cr4Flags_PAGE_GLOBAL,
     Cr4Flags_PERFORMANCE_MONITOR_COUNTER, Cr4Flags_OSFXSR, Cr4Flags_OSXMMEXCPT_ENABLE,
     Cr4Flags_USER_MODE_INSTRUCTION_PREVENTION, Cr4Flags_L5_PAGING,
     Cr4Flags_VIRTUAL_MACHINE_EXTENSIONS, Cr4Flags_SAFER_MODE_EXTENSIONS, Cr4Flags_FSGSBASE,
     Cr4Flags_PCID, Cr4Flags_OSXSAVE, Cr4Flags_KEY_LOCKER,
     Cr4Flags_SUPERVISOR_MODE_EXECUTION_PROTECTION, Cr4Flags_SUPERVISOR_MODE_ACCESS_PREVENTION,
     Cr4Flags_PROTECTION_KEY_USER, Cr4Flags_CONTROL_FLOW_ENFORCEMENT,
     Cr4Flags_PROTECTION_KEY_SUPERVISOR] 0"

lemmas Cr4Flags_defs = Cr4Flags_VIRTUAL_8086_MODE_EXTENSIONS_def Cr4Flags_PROTECTED_MODE_VIRTUAL_INTERRUPTS_def
  Cr4Flags_TIMESTAMP_DISABLE_def Cr4Flags_DEBUGGING_EXTENSIONS_def
  Cr4Flags_PAGE_SIZE_EXTENSION_def Cr4Flags_PHYSICAL_ADDRESS_EXTENSION_def
  Cr4Flags_MACHINE_CHECK_EXCEPTION_def Cr4Flags_PAGE_GLOBAL_def
  Cr4Flags_PERFORMANCE_MONITOR_COUNTER_def Cr4Flags_OSFXSR_def Cr4Flags_OSXMMEXCPT_ENABLE_def
  Cr4Flags_USER_MODE_INSTRUCTION_PREVENTION_def Cr4Flags_L5_PAGING_def
  Cr4Flags_VIRTUAL_MACHINE_EXTENSIONS_def Cr4Flags_SAFER_MODE_EXTENSIONS_def
  Cr4Flags_FSGSBASE_def Cr4Flags_PCID_def Cr4Flags_OSXSAVE_def Cr4Flags_KEY_LOCKER_def
  Cr4Flags_SUPERVISOR_MODE_EXECUTION_PROTECTION_def
  Cr4Flags_SUPERVISOR_MODE_ACCESS_PREVENTION_def Cr4Flags_PROTECTION_KEY_USER_def
  Cr4Flags_CONTROL_FLOW_ENFORCEMENT_def Cr4Flags_PROTECTION_KEY_SUPERVISOR_def
  Cr4Flags_all_def

definition Cr4_read_raw :: "'c cpu \<Rightarrow> 'c \<Rightarrow> u64" where
  "Cr4_read_raw C s = mov_from C CR4 s"

definition Cr4_read :: "extern \<Rightarrow> 'c cpu \<Rightarrow> 'c \<Rightarrow> Cr4Flags" where
  "Cr4_read X C s = bitflags_from_bits_truncate X Cr4Flags_all (Cr4_read_raw C s)"

definition Cr4_write_raw :: "'c cpu \<Rightarrow> u64 \<Rightarrow> 'c \<Rightarrow> 'c" where
  "Cr4_write_raw C value s = mov_to C CR4 value s"

definition Cr4_write :: "'c cpu \<Rightarrow> Cr4Flags \<Rightarrow> 'c \<Rightarrow> 'c" where
  "Cr4_write C flags s =
     (let old_value = Cr4_read_raw C s;
          reserved = old_value AND NOT Cr4Flags_all;
          new_value = reserved OR flags
      in Cr4_write_raw C new_value s)"

definition Cr4_update :: "extern \<Rightarrow> 'c cpu \<Rightarrow> (Cr4Flags, 'c) updater \<Rightarrow> 'c \<Rightarrow> 'c option" where
  "Cr4_update X C f s = do {
     (flags, s) \<leftarrow> f (Cr4_read X C s) s;
     Some (Cr4_write C flags s)
   }"

section \<open>\<open>RFLAGS\<close>\<close>

type_synonym RFlags = u64

definition RFlags_ID :: RFlags where "RFlags_ID = push_bit 21 1"
definition RFlags_VIRTUAL_INTERRUPT_PENDING :: RFlags where "RFlags_VIRTUAL_INTERRUPT_PENDING = push_bit 20 1"
definition RFlags_VIRTUAL_INTERRUPT :: RFlags where "RFlags_VIRTUAL_INTERRUPT = push_bit 19 1"
definition RFlags_ALIGNMENT_CHECK :: RFlags where "RFlags_ALIGNMENT_CHECK = push_bit 18 1"
definition RFlags_VIRTUAL_8086_MODE :: RFlags where "RFlags_VIRTUAL_8086_MODE = push_bit 17 1"
definition RFlags_RESUME_FLAG :: RFlags where "RFlags_RESUME_FLAG = push_bit 16 1"
definition RFlags_NESTED_TASK :: RFlags where "RFlags_NESTED_TASK = push_bit 14 1"
definition RFlags_IOPL_HIGH :: RFlags where "RFlags_IOPL_HIGH = push_bit 13 1"
definition RFlags_IOPL_LOW :: RFlags where "RFlags_IOPL_LOW = push_bit 12 1"
definition RFlags_OVERFLOW_FLAG :: RFlags where "RFlags_OVERFLOW_FLAG = push_bit 11 1"
definition RFlags_DIRECTION_FLAG :: RFlags where "RFlags_DIRECTION_FLAG = push_bit 10 1"
definition RFlags_INTERRUPT_FLAG :: RFlags where "RFlags_INTERRUPT_FLAG = push_bit 9 1"
definition RFlags_TRAP_FLAG :: RFlags where "RFlags_TRAP_FLAG = push_bit 8 1"
definition RFlags_SIGN_FLAG :: RFlags where "RFlags_SIGN_FLAG = push_bit 7 1"
definition RFlags_ZERO_FLAG :: RFlags where "RFlags_ZERO_FLAG = push_bit 6 1"
definition RFlags_AUXILIARY_CARRY_FLAG :: RFlags where "RFlags_AUXILIARY_CARRY_FLAG = push_bit 4 1"
definition RFlags_PARITY_FLAG :: RFlags where "RFlags_PARITY_FLAG = push_bit 2 1"
definition RFlags_CARRY_FLAG :: RFlags where "RFlags_CARRY_FLAG = 1"

definition RFlags_all :: RFlags where
  "RFlags_all = fold (OR) [RFlags_ID, RFlags_VIRTUAL_INTERRUPT_PENDING, RFlags_VIRTUAL_INTERRUPT,
     RFlags_ALIGNMENT_CHECK, RFlags_VIRTUAL_8086_MODE, RFlags_RESUME_FLAG, RFlags_NESTED_TASK,
     RFlags_IOPL_HIGH, RFlags_IOPL_LOW, RFlags_OVERFLOW_FLAG, RFlags_DIRECTION_FLAG,
     RFlags_INTERRUPT_FLAG, RFlags_TRAP_FLAG, RFlags_SIGN_FLAG, RFlags_ZERO_FLAG,
     RFlags_AUXILIARY_CARRY_FLAG, RFlags_PARITY_FLAG, RFlags_CARRY_FLAG] 0"

lemmas RFlags_defs = RFlags_ID_def RFlags_VIRTUAL_INTERRUPT_PENDING_def RFlags_VIRTUAL_INTERRUPT_def
  RFlags_ALIGNMENT_CHECK_def RFlags_VIRTUAL_8086_MODE_def RFlags_RESUME_FLAG_def
  RFlags_NESTED_TASK_def RFlags_IOPL_HIGH_def RFlags_IOPL_LOW_def RFlags_OVERFLOW_FLAG_def
  RFlags_DIRECTION_FLAG_def RFlags_INTERRUPT_FLAG_def RFlags_TRAP_FLAG_def
  RFlags_SIGN_FLAG_def RFlags_ZERO_FLAG_def RFlags_AUXILIARY_CARRY_FLAG_def
  RFlags_PARITY_FLAG_def RFlags_CARRY_FLAG_def RFlags_all_def

definition rflags_read_raw :: "'c cpu \<Rightarrow> 'c \<Rightarrow> u64" where
  "rflags_read_raw C s = pushfq C s"

definition rflags_read :: "extern \<Rightarrow> 'c cpu \<Rightarrow> 'c \<Rightarrow> RFlags" where
  "rflags_read X C s = bitflags_from_bits_truncate X RFlags_all (rflags_read_raw C s)"

definition rflags_write_raw :: "'c cpu \<Rightarrow> u64 \<Rightarrow> 'c \<Rightarrow> 'c" where
  "rflags_write_raw C value s = popfq C value s"

definition rflags_write :: "'c cpu \<Rightarrow> RFlags \<Rightarrow> 'c \<Rightarrow> 'c" where
  "rflags_write C flags s =
     (let old_value = rflags_read_raw C s;
          reserved = old_value AND NOT RFlags_all;
          new_value = reserved OR flags
      in rflags_write_raw C new_value s)"

definition rflags_update :: "extern \<Rightarrow> 'c cpu \<Rightarrow> (RFlags, 'c) updater \<Rightarrow> 'c \<Rightarrow> 'c option" where
  "rflags_update X C f s = do {
     (flags, s) \<leftarrow> f (rflags_read X C s) s;
     Some (rflags_write C flags s)
   }"

section \<open>\<open>MXCSR\<close>\<close>

type_synonym MxCsr = u32

definition MxCsr_INVALID_OPERATION :: MxCsr where "MxCsr_INVALID_OPERATION = push_bit 0 1"
definition MxCsr_DENORMAL :: MxCsr where "MxCsr_DENORMAL = push_bit 1 1"
definition MxCsr_DIVIDE_BY_ZERO :: MxCsr where "MxCsr_DIVIDE_BY_ZERO = push_bit 2 1"
definition MxCsr_OVERFLOW :: MxCsr where "MxCsr_OVERFLOW = push_bit 3 1"
definition MxCsr_UNDERFLOW :: MxCsr where "MxCsr_UNDERFLOW = push_bit 4 1"
definition MxCsr_PRECISION :: MxCsr where "MxCsr_PRECISION = push_bit 5 1"
definition MxCsr_DENORMALS_ARE_ZEROS :: MxCsr where "MxCsr_DENORMALS_ARE_ZEROS = push_bit 6 1"
definition MxCsr_INVALID_OPERATION_MASK :: MxCsr where "MxCsr_INVALID_OPERATION_MASK = push_bit 7 1"
definition MxCsr_DENORMAL_MASK :: MxCsr where "MxCsr_DENORMAL_MASK = push_bit 8 1"
definition MxCsr_DIVIDE_BY_ZERO_MASK :: MxCsr where "MxCsr_DIVIDE_BY_ZERO_MASK = push_bit 9 1"
definition MxCsr_OVERFLOW_MASK :: MxCsr where "MxCsr_OVERFLOW_MASK = push_bit 10 1"
definition MxCsr_UNDERFLOW_MASK :: MxCsr where "MxCsr_UNDERFLOW_MASK = push_bit 11 1"
definition MxCsr_PRECISION_MASK :: MxCsr where "MxCsr_PRECISION_MASK = push_bit 12 1"
definition MxCsr_ROUNDING_CONTROL_NEGATIVE :: MxCsr where "MxCsr_ROUNDING_CONTROL_NEGATIVE = push_bit 13 1"
definition MxCsr_ROUNDING_CONTROL_POSITIVE :: MxCsr where "MxCsr_ROUNDING_CONTROL_POSITIVE = push_bit 14 1"
definition MxCsr_ROUNDING_CONTROL_ZERO :: MxCsr where "MxCsr_ROUNDING_CONTROL_ZERO = push_bit 13 3"
definition MxCsr_FLUSH_TO_ZERO :: MxCsr where "MxCsr_FLUSH_TO_ZERO = push_bit 15 1"

definition MxCsr_all :: MxCsr where
  "MxCsr_all = fold (OR) [MxCsr_INVALID_OPERATION, MxCsr_DENORMAL, MxCsr_DIVIDE_BY_ZERO, MxCsr_OVERFLOW,
     MxCsr_UNDERFLOW, MxCsr_PRECISION, MxCsr_DENORMALS_ARE_ZEROS, MxCsr_INVALID_OPERATION_MASK,
     MxCsr_DENORMAL_MASK, MxCsr_DIVIDE_BY_ZERO_MASK, MxCsr_OVERFLOW_MASK, MxCsr_UNDERFLOW_MASK,
     MxCsr_PRECISION_MASK, MxCsr_ROUNDING_CONTROL_NEGATIVE, MxCsr_ROUNDING_CONTROL_POSITIVE,
     MxCsr_ROUNDING_CONTROL_ZERO, MxCsr_FLUSH_TO_ZERO] 0"

lemmas MxCsr_defs = MxCsr_INVALID_OPERATION_def MxCsr_DENORMAL_def MxCsr_DIVIDE_BY_ZERO_def MxCsr_OVERFLOW_def
  MxCsr_UNDERFLOW_def MxCsr_PRECISION_def MxCsr_DENORMALS_ARE_ZEROS_def
  MxCsr_INVALID_OPERATION_MASK_def MxCsr_DENORMAL_MASK_def MxCsr_DIVIDE_BY_ZERO_MASK_def
  MxCsr_OVERFLOW_MASK_def MxCsr_UNDERFLOW_MASK_def MxCsr_PRECISION_MASK_def
  MxCsr_ROUNDING_CONTROL_NEGATIVE_def MxCsr_ROUNDING_CONTROL_POSITIVE_def
  MxCsr_ROUNDING_CONTROL_ZERO_def MxCsr_FLUSH_TO_ZERO_def MxCsr_all_def

definition MxCsr_default :: "extern \<Rightarrow> MxCsr" where
  "MxCsr_default X = foldl (bitflags_or_u32 X) MxCsr_INVALID_OPERATION_MASK [MxCsr_DENORMAL_MASK,
     MxCsr_DIVIDE_BY_ZERO_MASK, MxCsr_OVERFLOW_MASK, MxCsr_UNDERFLOW_MASK, MxCsr_PRECISION_MASK]"

definition mxcsr_read :: "extern \<Rightarrow> 'c cpu \<Rightarrow> 'c \<Rightarrow> MxCsr" where
  "mxcsr_read X C s = bitflags_from_bits_truncate_u32 X MxCsr_all (stmxcsr C s)"

definition mxcsr_write :: "'c cpu \<Rightarrow> MxCsr \<Rightarrow> 'c \<Rightarrow> 'c" where
  "mxcsr_write C mxcsr s = ldmxcsr C mxcsr s"

definition mxcsr_update :: "extern \<Rightarrow> 'c cpu \<Rightarrow> (MxCsr, 'c) updater \<Rightarrow> 'c \<Rightarrow> 'c option" where
  "mxcsr_update X C f s = do {
     (mxcsr, s) \<leftarrow> f (mxcsr_read X C s) s;
     Some (mxcsr_write C mxcsr s)
   }"

section \<open>\<open>XCR0\<close>\<close>

type_synonym XCr0Flags = u64

definition XCr0Flags_X87 :: XCr0Flags where "XCr0Flags_X87 = 1"
definition XCr0Flags_SSE :: XCr0Flags where "XCr0Flags_SSE = push_bit 1 1"
definition XCr0Flags_AVX :: XCr0Flags where "XCr0Flags_AVX = push_bit 2 1"
definition XCr0Flags_BNDREG :: XCr0Flags where "XCr0Flags_BNDREG = push_bit 3 1"
definition XCr0Flags_BNDCSR :: XCr0Flags where "XCr0Flags_BNDCSR = push_bit 4 1"
definition XCr0Flags_OPMASK :: XCr0Flags where "XCr0Flags_OPMASK = push_bit 5 1"
definition XCr0Flags_ZMM_HI256 :: XCr0Flags where "XCr0Flags_ZMM_HI256 = push_bit 6 1"
definition XCr0Flags_HI16_ZMM :: XCr0Flags where "XCr0Flags_HI16_ZMM = push_bit 7 1"
definition XCr0Flags_MPK :: XCr0Flags where "XCr0Flags_MPK = push_bit 9 1"
definition XCr0Flags_LWP :: XCr0Flags where "XCr0Flags_LWP = push_bit 62 1"

definition XCr0Flags_all :: XCr0Flags where
  "XCr0Flags_all = fold (OR) [XCr0Flags_X87, XCr0Flags_SSE, XCr0Flags_AVX, XCr0Flags_BNDREG, XCr0Flags_BNDCSR,
     XCr0Flags_OPMASK, XCr0Flags_ZMM_HI256, XCr0Flags_HI16_ZMM, XCr0Flags_MPK, XCr0Flags_LWP] 0"

lemmas XCr0Flags_defs = XCr0Flags_X87_def XCr0Flags_SSE_def XCr0Flags_AVX_def XCr0Flags_BNDREG_def
  XCr0Flags_BNDCSR_def XCr0Flags_OPMASK_def XCr0Flags_ZMM_HI256_def XCr0Flags_HI16_ZMM_def
  XCr0Flags_MPK_def XCr0Flags_LWP_def XCr0Flags_all_def

definition XCr0_read_raw :: "'c cpu \<Rightarrow> 'c \<Rightarrow> u64" where
  "XCr0_read_raw C s = (case xgetbv C 0 s of (high, low) \<Rightarrow> push_bit 32 (ucast high) OR ucast low)"

definition XCr0_read :: "extern \<Rightarrow> 'c cpu \<Rightarrow> 'c \<Rightarrow> XCr0Flags" where
  "XCr0_read X C s = bitflags_from_bits_truncate X XCr0Flags_all (XCr0_read_raw C s)"

definition XCr0_write_raw :: "'c cpu \<Rightarrow> u64 \<Rightarrow> 'c \<Rightarrow> 'c" where
  "XCr0_write_raw C value s =
     (let low = ucast value; high = ucast (drop_bit 32 value) in xsetbv C 0 (high, low) s)"

definition XCr0_write :: "extern \<Rightarrow> 'c cpu \<Rightarrow> XCr0Flags \<Rightarrow> 'c \<Rightarrow> 'c option" where
  "XCr0_write X C flags s = do {
     let old_value = XCr0_read_raw C s;
     let reserved = old_value AND NOT XCr0Flags_all;
     let new_value = reserved OR flags;
     assert_that (bitflags_contains X flags XCr0Flags_X87);
     (if bitflags_contains X flags XCr0Flags_AVX
      then assert_that (bitflags_contains X flags XCr0Flags_SSE) else Some ());
     let mpx = bitflags_or X XCr0Flags_BNDREG XCr0Flags_BNDCSR;
     (if bitflags_intersects X flags mpx
      then assert_that (bitflags_contains X flags mpx) else Some ());
     let avx512 = bitflags_or X (bitflags_or X XCr0Flags_OPMASK XCr0Flags_ZMM_HI256) XCr0Flags_HI16_ZMM;
     (if bitflags_intersects X flags avx512
      then do {
        assert_that (bitflags_contains X flags XCr0Flags_AVX);
        assert_that (bitflags_contains X flags avx512)
      } else Some ());
     Some (XCr0_write_raw C new_value s)
   }"

definition XCr0_update :: "extern \<Rightarrow> 'c cpu \<Rightarrow> (XCr0Flags, 'c) updater \<Rightarrow> 'c \<Rightarrow> 'c option" where
  "XCr0_update X C f s = do {
     (flags, s) \<leftarrow> f (XCr0_read X C s) s;
     XCr0_write X C flags s
   }"

section \<open>Registers of flags\<close>

sublocale extern_ok \<subseteq> cr0: flag_register Cr0Flags_all "Cr0_read_raw C" "Cr0_write_raw C"
  "Cr0_read X C" "Cr0_write C" "Cr0_update X C" for C
  by unfold_locales (simp_all add: Cr0_read_def Cr0_write_def Cr0_update_def Let_def)

sublocale extern_ok \<subseteq> cr4: flag_register Cr4Flags_all "Cr4_read_raw C" "Cr4_write_raw C"
  "Cr4_read X C" "Cr4_write C" "Cr4_update X C" for C
  by unfold_locales (simp_all add: Cr4_read_def Cr4_write_def Cr4_update_def Let_def)

sublocale extern_ok \<subseteq> rflags: flag_register RFlags_all "rflags_read_raw C" "rflags_write_raw C"
  "rflags_read X C" "rflags_write C" "rflags_update X C" for C
  by unfold_locales (simp_all add: rflags_read_def rflags_write_def rflags_update_def Let_def)

section \<open>\<open>CR3\<close> as a frame and twelve bits\<close>

lemma Cr3_read_raw_eq:
  "Cr3_read_raw C s = Some (PhysFrame (entry_addr \<lparr>entry = mov_from C CR3 s\<rparr>), ucast (mov_from C CR3 s AND 0xFFF))"
proof -
  let ?e = "\<lparr>entry = mov_from C CR3 s\<rparr> :: PageTableEntry"
  have "PhysAddr_new (mov_from C CR3 s AND 0x000ffffffffff000) = Some (entry_addr ?e)"
    using PageTableEntry_addr_eq [of ?e] by (simp only: PageTableEntry_addr_def PageTableEntry.select_convs)
  moreover have "PhysFrame_containing_address Size4KiB (entry_addr ?e) = Some (PhysFrame (entry_addr ?e))"
    using containing_frame [OF entry_frame_ok, of ?e] by simp
  ultimately show ?thesis by (simp add: Cr3_read_raw_def Let_def)
qed

lemma frame_addr_bits: "frame_ok Size4KiB f \<Longrightarrow> bit (pa (frame_start f)) k \<Longrightarrow> 12 \<le> k \<and> k < 52"
proof -
  assume f: "frame_ok Size4KiB f" and b: "bit (pa (frame_start f)) k"
  have "unat (pa (frame_start f)) mod 2 ^ 12 = 0" "unat (pa (frame_start f)) < 2 ^ 52"
    using f by (simp_all add: frame_ok_def phys_ok_def)
  then have "take_bit 12 (pa (frame_start f)) = 0" "take_bit 52 (pa (frame_start f)) = pa (frame_start f)"
    by (simp_all add: word_unat_eq_iff unat_take_bit)
  then show ?thesis using b by (metis bit_take_bit_iff bit_0_eq bot_apply bot_bool_def not_le)
qed

text \<open>What \<open>CR3\<close> holds after a write of a frame and a value of twelve bits.\<close>

lemma cr3_value_parts:
  fixes val :: u16 and flush :: bool
  assumes f: "frame_ok Size4KiB frame" and v: "take_bit 12 val = val"
  defines "value \<equiv> unset_bit 63 (push_bit 63 (of_bool flush) OR pa (frame_start frame) OR ucast val)"
  shows "value AND ADDR_MASK = pa (frame_start frame)" "ucast (value AND 0xFFF) = val"
proof -
  have vb: "k < 12" if "bit val k" for k using v that by (metis bit_take_bit_iff)
  note fb = frame_addr_bits [OF f]
  have b: "bit value k \<longleftrightarrow> bit (pa (frame_start frame)) k \<or> bit val k" if "k < 64" for k
    using that fb [of k] vb [of k]
    unfolding value_def bit_unset_bit_iff bit_or_iff bit_push_bit_iff bit_of_bool_iff bit_ucast_iff by auto
  show "value AND ADDR_MASK = pa (frame_start frame)"
    by (rule bit_word_eqI) (use b fb vb in \<open>force simp: bit_and_iff bit_ADDR_MASK\<close>)
  have "(0xFFF :: u64) = mask 12" by (simp add: mask_eq_exp_minus_1)
  then have m: "bit (0xFFF :: u64) k \<longleftrightarrow> k < 12" for k by (simp only: bit_mask_iff) auto
  show "ucast (value AND 0xFFF) = val"
  proof (rule bit_word_eqI)
    fix k assume "k < LENGTH(16)"
    then have "bit (ucast (value AND 0xFFF) :: u16) k \<longleftrightarrow> bit value k \<and> k < 12"
      by (simp only: bit_ucast_iff bit_and_iff m) auto
    with b [of k] fb [of k] vb [of k] show "bit (ucast (value AND 0xFFF) :: u16) k = bit val k" by auto
  qed
qed

context cpu_ok
begin

lemma cr3_write_read_raw:
  assumes "frame_ok Size4KiB frame" "take_bit 12 val = val"
  shows "Cr3_read_raw C (Cr3_write_raw_impl C flush frame val s) = Some (frame, val)"
  using cr3_value_parts [OF assms, of flush]
  by (cases frame) (simp add: Cr3_read_raw_eq Cr3_write_raw_impl_def cr3_stored entry_addr_def PhysAddr_as_u64_def
      PhysFrame_start_address_def)

end

end
