(* ===== verification/Model_Specific.thy ===== *)
theory Model_Specific
  imports Control_Registers Page Gdt
begin

text \<open>
  The model specific registers (\<open>registers/model_specific.rs\<close>): the wrapper of \<open>rdmsr\<close> and \<open>wrmsr\<close> and the
  registers built on it. A register is its number. The arrays of the page attribute table are lists of
  eight elements.
\<close>

section \<open>Registers\<close>

datatype Msr = Msr (msr_u32: u32)

definition Msr_new :: "u32 \<Rightarrow> Msr" where
  "Msr_new reg = Msr reg"

definition Msr_read :: "'c cpu \<Rightarrow> Msr \<Rightarrow> 'c \<Rightarrow> u64" where
  "Msr_read C self s = (case rdmsr C (msr_u32 self) s of (high, low) \<Rightarrow> push_bit 32 (ucast high) OR ucast low)"

definition Msr_write :: "'c cpu \<Rightarrow> Msr \<Rightarrow> u64 \<Rightarrow> 'c \<Rightarrow> 'c" where
  "Msr_write C self value s =
     (let low = ucast value; high = ucast (drop_bit 32 value) in wrmsr C (msr_u32 self) (high, low) s)"

definition Efer_MSR :: Msr where "Efer_MSR = Msr 0xC0000080"
definition FsBase_MSR :: Msr where "FsBase_MSR = Msr 0xC0000100"
definition GsBase_MSR :: Msr where "GsBase_MSR = Msr 0xC0000101"
definition KernelGsBase_MSR :: Msr where "KernelGsBase_MSR = Msr 0xC0000102"
definition Star_MSR :: Msr where "Star_MSR = Msr 0xC0000081"
definition LStar_MSR :: Msr where "LStar_MSR = Msr 0xC0000082"
definition SFMask_MSR :: Msr where "SFMask_MSR = Msr 0xC0000084"
definition UCet_MSR :: Msr where "UCet_MSR = Msr 0x6A0"
definition SCet_MSR :: Msr where "SCet_MSR = Msr 0x6A2"
definition Pat_MSR :: Msr where "Pat_MSR = Msr 0x277"
definition ApicBase_MSR :: Msr where "ApicBase_MSR = Msr 0x1B"

section \<open>Extended features\<close>

type_synonym EferFlags = u64

definition EferFlags_SYSTEM_CALL_EXTENSIONS :: EferFlags where "EferFlags_SYSTEM_CALL_EXTENSIONS = 1"
definition EferFlags_LONG_MODE_ENABLE :: EferFlags where "EferFlags_LONG_MODE_ENABLE = push_bit 8 1"
definition EferFlags_LONG_MODE_ACTIVE :: EferFlags where "EferFlags_LONG_MODE_ACTIVE = push_bit 10 1"
definition EferFlags_NO_EXECUTE_ENABLE :: EferFlags where "EferFlags_NO_EXECUTE_ENABLE = push_bit 11 1"
definition EferFlags_SECURE_VIRTUAL_MACHINE_ENABLE :: EferFlags where "EferFlags_SECURE_VIRTUAL_MACHINE_ENABLE = push_bit 12 1"
definition EferFlags_LONG_MODE_SEGMENT_LIMIT_ENABLE :: EferFlags where "EferFlags_LONG_MODE_SEGMENT_LIMIT_ENABLE = push_bit 13 1"
definition EferFlags_FAST_FXSAVE_FXRSTOR :: EferFlags where "EferFlags_FAST_FXSAVE_FXRSTOR = push_bit 14 1"
definition EferFlags_TRANSLATION_CACHE_EXTENSION :: EferFlags where "EferFlags_TRANSLATION_CACHE_EXTENSION = push_bit 15 1"

definition EferFlags_all :: EferFlags where
  "EferFlags_all = fold (OR) [EferFlags_SYSTEM_CALL_EXTENSIONS, EferFlags_LONG_MODE_ENABLE, EferFlags_LONG_MODE_ACTIVE,
     EferFlags_NO_EXECUTE_ENABLE, EferFlags_SECURE_VIRTUAL_MACHINE_ENABLE,
     EferFlags_LONG_MODE_SEGMENT_LIMIT_ENABLE, EferFlags_FAST_FXSAVE_FXRSTOR,
     EferFlags_TRANSLATION_CACHE_EXTENSION] 0"

lemmas EferFlags_defs = EferFlags_SYSTEM_CALL_EXTENSIONS_def EferFlags_LONG_MODE_ENABLE_def
  EferFlags_LONG_MODE_ACTIVE_def EferFlags_NO_EXECUTE_ENABLE_def
  EferFlags_SECURE_VIRTUAL_MACHINE_ENABLE_def EferFlags_LONG_MODE_SEGMENT_LIMIT_ENABLE_def
  EferFlags_FAST_FXSAVE_FXRSTOR_def EferFlags_TRANSLATION_CACHE_EXTENSION_def
  EferFlags_all_def

definition Efer_read_raw :: "'c cpu \<Rightarrow> 'c \<Rightarrow> u64" where
  "Efer_read_raw C s = Msr_read C Efer_MSR s"

definition Efer_read :: "extern \<Rightarrow> 'c cpu \<Rightarrow> 'c \<Rightarrow> EferFlags" where
  "Efer_read X C s = bitflags_from_bits_truncate X EferFlags_all (Efer_read_raw C s)"

definition Efer_write_raw :: "'c cpu \<Rightarrow> u64 \<Rightarrow> 'c \<Rightarrow> 'c" where
  "Efer_write_raw C flags s = Msr_write C Efer_MSR flags s"

definition Efer_write :: "'c cpu \<Rightarrow> EferFlags \<Rightarrow> 'c \<Rightarrow> 'c" where
  "Efer_write C flags s =
     (let old_value = Efer_read_raw C s;
          reserved = old_value AND NOT EferFlags_all;
          new_value = reserved OR flags
      in Efer_write_raw C new_value s)"

definition Efer_update :: "extern \<Rightarrow> 'c cpu \<Rightarrow> (EferFlags, 'c) updater \<Rightarrow> 'c \<Rightarrow> 'c option" where
  "Efer_update X C f s = do {
     (flags, s) \<leftarrow> f (Efer_read X C s) s;
     Some (Efer_write C flags s)
   }"

section \<open>Segment bases\<close>

definition FsBase_read :: "'c cpu \<Rightarrow> 'c \<Rightarrow> VirtAddr option" where
  "FsBase_read C s = VirtAddr_new (Msr_read C FsBase_MSR s)"

definition FsBase_write :: "'c cpu \<Rightarrow> VirtAddr \<Rightarrow> 'c \<Rightarrow> 'c" where
  "FsBase_write C address s = Msr_write C FsBase_MSR (VirtAddr_as_u64 address) s"

definition GsBase_read :: "'c cpu \<Rightarrow> 'c \<Rightarrow> VirtAddr option" where
  "GsBase_read C s = VirtAddr_new (Msr_read C GsBase_MSR s)"

definition GsBase_write :: "'c cpu \<Rightarrow> VirtAddr \<Rightarrow> 'c \<Rightarrow> 'c" where
  "GsBase_write C address s = Msr_write C GsBase_MSR (VirtAddr_as_u64 address) s"

definition KernelGsBase_read :: "'c cpu \<Rightarrow> 'c \<Rightarrow> VirtAddr option" where
  "KernelGsBase_read C s = VirtAddr_new (Msr_read C KernelGsBase_MSR s)"

definition KernelGsBase_write :: "'c cpu \<Rightarrow> VirtAddr \<Rightarrow> 'c \<Rightarrow> 'c" where
  "KernelGsBase_write C address s = Msr_write C KernelGsBase_MSR (VirtAddr_as_u64 address) s"

section \<open>System calls\<close>

text \<open>The conversion \<open>u16::try_from\<close>, unwrapped.\<close>

definition u16_try_from_unwrap :: "u64 \<Rightarrow> u16 option" where
  "u16_try_from_unwrap n = (if unat n < 2 ^ 16 then Some (ucast n) else panic)"

definition Star_read_raw :: "extern \<Rightarrow> 'c cpu \<Rightarrow> 'c \<Rightarrow> (u16 \<times> u16) option" where
  "Star_read_raw X C s = do {
     let msr_value = Msr_read C Star_MSR s;
     sysret \<leftarrow> get_bits X msr_value 48 64;
     syscall \<leftarrow> get_bits X msr_value 32 48;
     sysret \<leftarrow> u16_try_from_unwrap sysret;
     syscall \<leftarrow> u16_try_from_unwrap syscall;
     Some (sysret, syscall)
   }"

definition Star_read :: "extern \<Rightarrow> 'c cpu \<Rightarrow> 'c \<Rightarrow>
    (SegmentSelector \<times> SegmentSelector \<times> SegmentSelector \<times> SegmentSelector) option" where
  "Star_read X C s = do {
     (raw_0, raw_1) \<leftarrow> Star_read_raw X C s;
     cs_sysret \<leftarrow> add_op X raw_0 16;
     ss_sysret \<leftarrow> add_op X raw_0 8;
     ss_syscall \<leftarrow> add_op X raw_1 8;
     Some (SegmentSelector cs_sysret, SegmentSelector ss_sysret, SegmentSelector raw_1, SegmentSelector ss_syscall)
   }"

definition Star_write_raw :: "extern \<Rightarrow> 'c cpu \<Rightarrow> u16 \<Rightarrow> u16 \<Rightarrow> 'c \<Rightarrow> 'c option" where
  "Star_write_raw X C sysret syscall s = do {
     msr_value \<leftarrow> set_bits X 0 48 64 (ucast sysret);
     msr_value \<leftarrow> set_bits X msr_value 32 48 (ucast syscall);
     Some (Msr_write C Star_MSR msr_value s)
   }"

datatype InvalidStarSegmentSelectors =
  SysretOffset | SyscallOffset | SysretPrivilegeLevel | SyscallPrivilegeLevel

text \<open>The \<open>i32\<close> values of the comparison stay within its range, so they are integers here.\<close>

definition Star_write :: "extern \<Rightarrow> 'c cpu \<Rightarrow> SegmentSelector \<Rightarrow> SegmentSelector \<Rightarrow> SegmentSelector \<Rightarrow>
    SegmentSelector \<Rightarrow> 'c \<Rightarrow> ((InvalidStarSegmentSelectors + unit) \<times> 'c) option" where
  "Star_write X C cs_sysret ss_sysret cs_syscall ss_syscall s = do {
     let cs_sysret_cmp = uint (selector_u16 cs_sysret) - 16;
     let ss_sysret_cmp = uint (selector_u16 ss_sysret) - 8;
     let cs_syscall_cmp = uint (selector_u16 cs_syscall);
     let ss_syscall_cmp = uint (selector_u16 ss_syscall) - 8;
     if cs_sysret_cmp \<noteq> ss_sysret_cmp then Some (Inl SysretOffset, s)
     else if cs_syscall_cmp \<noteq> ss_syscall_cmp then Some (Inl SyscallOffset, s)
     else do {
       rpl \<leftarrow> SegmentSelector_rpl X ss_sysret;
       if rpl \<noteq> Ring3 then Some (Inl SysretPrivilegeLevel, s)
       else do {
         rpl \<leftarrow> SegmentSelector_rpl X ss_syscall;
         if rpl \<noteq> Ring0 then Some (Inl SyscallPrivilegeLevel, s)
         else do {
           sysret \<leftarrow> sub_op X (selector_u16 ss_sysret) 8;
           s \<leftarrow> Star_write_raw X C sysret (selector_u16 cs_syscall) s;
           Some (Inr (), s)
         }
       }
     }
   }"

definition LStar_read :: "'c cpu \<Rightarrow> 'c \<Rightarrow> VirtAddr option" where
  "LStar_read C s = VirtAddr_new (Msr_read C LStar_MSR s)"

definition LStar_write :: "'c cpu \<Rightarrow> VirtAddr \<Rightarrow> 'c \<Rightarrow> 'c" where
  "LStar_write C address s = Msr_write C LStar_MSR (VirtAddr_as_u64 address) s"

definition SFMask_read :: "extern \<Rightarrow> 'c cpu \<Rightarrow> 'c \<Rightarrow> RFlags option" where
  "SFMask_read X C s = bitflags_from_bits X RFlags_all (Msr_read C SFMask_MSR s)"

definition SFMask_write :: "'c cpu \<Rightarrow> RFlags \<Rightarrow> 'c \<Rightarrow> 'c" where
  "SFMask_write C value s = Msr_write C SFMask_MSR value s"

definition SFMask_update :: "extern \<Rightarrow> 'c cpu \<Rightarrow> (RFlags, 'c) updater \<Rightarrow> 'c \<Rightarrow> 'c option" where
  "SFMask_update X C f s = do {
     flags \<leftarrow> SFMask_read X C s;
     (flags, s) \<leftarrow> f flags s;
     Some (SFMask_write C flags s)
   }"

section \<open>Control-flow enforcement\<close>

type_synonym CetFlags = u64

definition CetFlags_SS_ENABLE :: CetFlags where "CetFlags_SS_ENABLE = push_bit 0 1"
definition CetFlags_SS_WRITE_ENABLE :: CetFlags where "CetFlags_SS_WRITE_ENABLE = push_bit 1 1"
definition CetFlags_IBT_ENABLE :: CetFlags where "CetFlags_IBT_ENABLE = push_bit 2 1"
definition CetFlags_IBT_LEGACY_ENABLE :: CetFlags where "CetFlags_IBT_LEGACY_ENABLE = push_bit 3 1"
definition CetFlags_IBT_NO_TRACK_ENABLE :: CetFlags where "CetFlags_IBT_NO_TRACK_ENABLE = push_bit 4 1"
definition CetFlags_IBT_LEGACY_SUPPRESS_ENABLE :: CetFlags where "CetFlags_IBT_LEGACY_SUPPRESS_ENABLE = push_bit 5 1"
definition CetFlags_IBT_SUPPRESS_ENABLE :: CetFlags where "CetFlags_IBT_SUPPRESS_ENABLE = push_bit 10 1"
definition CetFlags_IBT_TRACKED :: CetFlags where "CetFlags_IBT_TRACKED = push_bit 11 1"

definition CetFlags_all :: CetFlags where
  "CetFlags_all = fold (OR) [CetFlags_SS_ENABLE, CetFlags_SS_WRITE_ENABLE, CetFlags_IBT_ENABLE,
     CetFlags_IBT_LEGACY_ENABLE, CetFlags_IBT_NO_TRACK_ENABLE,
     CetFlags_IBT_LEGACY_SUPPRESS_ENABLE, CetFlags_IBT_SUPPRESS_ENABLE, CetFlags_IBT_TRACKED] 0"

lemmas CetFlags_defs = CetFlags_SS_ENABLE_def CetFlags_SS_WRITE_ENABLE_def CetFlags_IBT_ENABLE_def
  CetFlags_IBT_LEGACY_ENABLE_def CetFlags_IBT_NO_TRACK_ENABLE_def
  CetFlags_IBT_LEGACY_SUPPRESS_ENABLE_def CetFlags_IBT_SUPPRESS_ENABLE_def
  CetFlags_IBT_TRACKED_def CetFlags_all_def

definition UCet_read_raw :: "'c cpu \<Rightarrow> 'c \<Rightarrow> u64" where
  "UCet_read_raw C s = Msr_read C UCet_MSR s"

definition UCet_write_raw :: "'c cpu \<Rightarrow> u64 \<Rightarrow> 'c \<Rightarrow> 'c" where
  "UCet_write_raw C value s = Msr_write C UCet_MSR value s"

definition UCet_read :: "extern \<Rightarrow> 'c cpu \<Rightarrow> 'c \<Rightarrow> (CetFlags \<times> Page) option" where
  "UCet_read X C s = do {
     let value = UCet_read_raw C s;
     let cet_flags = bitflags_from_bits_truncate X CetFlags_all value;
     a \<leftarrow> VirtAddr_new (value AND NOT (SIZE Size4KiB - 1));
     r \<leftarrow> Page_from_start_address Size4KiB a;
     case r of
       Inl _ \<Rightarrow> panic
     | Inr legacy_bitmap \<Rightarrow> Some (cet_flags, legacy_bitmap)
   }"

definition UCet_write :: "'c cpu \<Rightarrow> CetFlags \<Rightarrow> Page \<Rightarrow> 'c \<Rightarrow> 'c" where
  "UCet_write C flags legacy_bitmap s =
     UCet_write_raw C (flags OR VirtAddr_as_u64 (Page_start_address legacy_bitmap)) s"

definition UCet_update :: "extern \<Rightarrow> 'c cpu \<Rightarrow> (CetFlags \<times> Page, 'c) updater \<Rightarrow> 'c \<Rightarrow> 'c option" where
  "UCet_update X C f s = do {
     (flags, legacy_bitmap) \<leftarrow> UCet_read X C s;
     ((flags, legacy_bitmap), s) \<leftarrow> f (flags, legacy_bitmap) s;
     Some (UCet_write C flags legacy_bitmap s)
   }"

definition SCet_read_raw :: "'c cpu \<Rightarrow> 'c \<Rightarrow> u64" where
  "SCet_read_raw C s = Msr_read C SCet_MSR s"

definition SCet_write_raw :: "'c cpu \<Rightarrow> u64 \<Rightarrow> 'c \<Rightarrow> 'c" where
  "SCet_write_raw C value s = Msr_write C SCet_MSR value s"

definition SCet_read :: "extern \<Rightarrow> 'c cpu \<Rightarrow> 'c \<Rightarrow> (CetFlags \<times> Page) option" where
  "SCet_read X C s = do {
     let value = SCet_read_raw C s;
     let cet_flags = bitflags_from_bits_truncate X CetFlags_all value;
     a \<leftarrow> VirtAddr_new (value AND NOT (SIZE Size4KiB - 1));
     r \<leftarrow> Page_from_start_address Size4KiB a;
     case r of
       Inl _ \<Rightarrow> panic
     | Inr legacy_bitmap \<Rightarrow> Some (cet_flags, legacy_bitmap)
   }"

definition SCet_write :: "'c cpu \<Rightarrow> CetFlags \<Rightarrow> Page \<Rightarrow> 'c \<Rightarrow> 'c" where
  "SCet_write C flags legacy_bitmap s =
     SCet_write_raw C (flags OR VirtAddr_as_u64 (Page_start_address legacy_bitmap)) s"

definition SCet_update :: "extern \<Rightarrow> 'c cpu \<Rightarrow> (CetFlags \<times> Page, 'c) updater \<Rightarrow> 'c \<Rightarrow> 'c option" where
  "SCet_update X C f s = do {
     (flags, legacy_bitmap) \<leftarrow> SCet_read X C s;
     ((flags, legacy_bitmap), s) \<leftarrow> f (flags, legacy_bitmap) s;
     Some (SCet_write C flags legacy_bitmap s)
   }"

section \<open>The page attribute table\<close>

datatype PatMemoryType =
  StrongUncacheable | WriteCombining | WriteThrough | WriteProtected | WriteBack | Uncacheable

definition PatMemoryType_from_bits :: "u8 \<Rightarrow> PatMemoryType option" where
  "PatMemoryType_from_bits bits =
     (if bits = 0x00 then Some StrongUncacheable
      else if bits = 0x01 then Some WriteCombining
      else if bits = 0x04 then Some WriteThrough
      else if bits = 0x05 then Some WriteProtected
      else if bits = 0x06 then Some WriteBack
      else if bits = 0x07 then Some Uncacheable
      else None)"

fun PatMemoryType_bits :: "PatMemoryType \<Rightarrow> u8" where
  "PatMemoryType_bits StrongUncacheable = 0x00"
| "PatMemoryType_bits WriteCombining = 0x01"
| "PatMemoryType_bits WriteThrough = 0x04"
| "PatMemoryType_bits WriteProtected = 0x05"
| "PatMemoryType_bits WriteBack = 0x06"
| "PatMemoryType_bits Uncacheable = 0x07"

definition Pat_DEFAULT :: "PatMemoryType list" where
  "Pat_DEFAULT = [WriteBack, WriteThrough, Uncacheable, StrongUncacheable,
     WriteBack, WriteThrough, Uncacheable, StrongUncacheable]"

text \<open>The bytes of a 64-bit value in memory order; the target is little-endian.\<close>

definition to_ne_bytes :: "u64 \<Rightarrow> u8 list" where
  "to_ne_bytes v = map (\<lambda>i. ucast (drop_bit (8 * i) v)) [0..<8]"

definition from_ne_bytes :: "u8 list \<Rightarrow> u64" where
  "from_ne_bytes bs = foldr (\<lambda>b v. push_bit 8 v OR ucast b) bs 0"

fun map_unwrap :: "('a \<Rightarrow> 'b option) \<Rightarrow> 'a list \<Rightarrow> 'b list option" where
  "map_unwrap f [] = Some []"
| "map_unwrap f (x # xs) = do { y \<leftarrow> f x; ys \<leftarrow> map_unwrap f xs; Some (y # ys) }"

definition Pat_read :: "'c cpu \<Rightarrow> 'c \<Rightarrow> PatMemoryType list option" where
  "Pat_read C s = map_unwrap PatMemoryType_from_bits (to_ne_bytes (Msr_read C Pat_MSR s))"

definition Pat_write :: "'c cpu \<Rightarrow> PatMemoryType list \<Rightarrow> 'c \<Rightarrow> 'c" where
  "Pat_write C table s = Msr_write C Pat_MSR (from_ne_bytes (map PatMemoryType_bits table)) s"

section \<open>The local APIC\<close>

type_synonym ApicBaseFlags = u64

definition ApicBaseFlags_BSP :: ApicBaseFlags where "ApicBaseFlags_BSP = push_bit 8 1"
definition ApicBaseFlags_X2APIC_ENABLE :: ApicBaseFlags where "ApicBaseFlags_X2APIC_ENABLE = push_bit 10 1"
definition ApicBaseFlags_LAPIC_ENABLE :: ApicBaseFlags where "ApicBaseFlags_LAPIC_ENABLE = push_bit 11 1"

definition ApicBaseFlags_all :: ApicBaseFlags where
  "ApicBaseFlags_all = fold (OR) [ApicBaseFlags_BSP, ApicBaseFlags_X2APIC_ENABLE, ApicBaseFlags_LAPIC_ENABLE] 0"

lemmas ApicBaseFlags_defs = ApicBaseFlags_BSP_def ApicBaseFlags_X2APIC_ENABLE_def ApicBaseFlags_LAPIC_ENABLE_def
  ApicBaseFlags_all_def

definition ApicBase_read_raw :: "'c cpu \<Rightarrow> 'c \<Rightarrow> (PhysFrame \<times> u64) option" where
  "ApicBase_read_raw C s = do {
     let raw_value = Msr_read C ApicBase_MSR s;
     let addr = PhysAddr_new_truncate raw_value;
     frame \<leftarrow> PhysFrame_containing_address Size4KiB addr;
     Some (frame, raw_value)
   }"

definition ApicBase_read :: "extern \<Rightarrow> 'c cpu \<Rightarrow> 'c \<Rightarrow> (PhysFrame \<times> ApicBaseFlags) option" where
  "ApicBase_read X C s = do {
     (frame, flags) \<leftarrow> ApicBase_read_raw C s;
     Some (frame, bitflags_from_bits_truncate X ApicBaseFlags_all flags)
   }"

definition ApicBase_write_raw :: "'c cpu \<Rightarrow> PhysFrame \<Rightarrow> u64 \<Rightarrow> 'c \<Rightarrow> 'c" where
  "ApicBase_write_raw C frame flags s =
     (let addr = PhysFrame_start_address frame
      in Msr_write C ApicBase_MSR (flags OR PhysAddr_as_u64 addr) s)"

definition ApicBase_write :: "'c cpu \<Rightarrow> PhysFrame \<Rightarrow> ApicBaseFlags \<Rightarrow> 'c \<Rightarrow> 'c option" where
  "ApicBase_write C frame flags s = do {
     (_, old_flags) \<leftarrow> ApicBase_read_raw C s;
     let reserved = old_flags AND NOT ApicBaseFlags_all;
     let new_flags = reserved OR flags;
     Some (ApicBase_write_raw C frame new_flags s)
   }"

section \<open>Reading back\<close>

sublocale extern_ok \<subseteq> efer: flag_register EferFlags_all "Efer_read_raw C" "Efer_write_raw C"
  "Efer_read X C" "Efer_write C" "Efer_update X C" for C
  by unfold_locales (simp_all add: Efer_read_def Efer_write_def Efer_update_def Let_def)

lemma Msr_read_join: "Msr_read C r s = join_halves (rdmsr C (msr_u32 r) s)"
  by (simp add: Msr_read_def join_halves_def)

lemma Msr_write_split: "Msr_write C r v s = wrmsr C (msr_u32 r) (split_halves v) s"
  by (simp add: Msr_write_def split_halves_def)

lemmas msr_defs = FsBase_MSR_def GsBase_MSR_def KernelGsBase_MSR_def Star_MSR_def LStar_MSR_def SFMask_MSR_def
  UCet_MSR_def SCet_MSR_def Pat_MSR_def ApicBase_MSR_def

lemma msrs_stored: "r \<in> {FsBase_MSR, GsBase_MSR, KernelGsBase_MSR, Star_MSR, LStar_MSR, SFMask_MSR, UCet_MSR,
    SCet_MSR, Pat_MSR, ApicBase_MSR} \<Longrightarrow> msr_u32 r \<in> stored_msrs"
  by (auto simp: msr_defs stored_msrs_def)

context cpu_ok
begin

lemma Msr_read_write: "msr_u32 r \<in> stored_msrs \<Longrightarrow> Msr_read C r (Msr_write C r v s) = v"
  by (simp add: Msr_read_join Msr_write_split msr_stored)

lemmas msr_read_back = Msr_read_write [OF msrs_stored]

end

lemma from_ne_bytes_Cons: "from_ne_bytes (b # bs) = push_bit 8 (from_ne_bytes bs) OR ucast b"
  by (simp add: from_ne_bytes_def)

lemma from_ne_bytes_bits:
  "bit (from_ne_bytes bs) k \<longleftrightarrow> k < 64 \<and> k < 8 * length bs \<and> bit (bs ! (k div 8)) (k mod 8)"
proof (induction bs arbitrary: k)
  case Nil
  then show ?case by (simp add: from_ne_bytes_def)
next
  case (Cons b bs)
  show ?case
  proof (cases "k < 8")
    case True
    then show ?thesis by (simp add: from_ne_bytes_Cons bit_simps)
  next
    case False
    then obtain j where j: "k = j + 8" by (metis add.commute le_Suc_ex not_less)
    moreover have "(j + 8) div 8 = Suc (j div 8)" by simp
    ultimately show ?thesis
      using Cons.IH [of j] by (auto simp: from_ne_bytes_Cons bit_simps dest: bit_imp_le_length)
  qed
qed

lemma to_from_ne_bytes: "length bs = 8 \<Longrightarrow> to_ne_bytes (from_ne_bytes bs) = bs"
proof (rule nth_equalityI)
  fix i assume l: "length bs = 8" and "i < length (to_ne_bytes (from_ne_bytes bs))"
  then have i: "i < 8" by (simp add: to_ne_bytes_def)
  have "ucast (drop_bit (8 * i) (from_ne_bytes bs)) = bs ! i"
    by (rule bit_word_eqI) (use i l in \<open>simp add: bit_simps from_ne_bytes_bits\<close>)
  then show "to_ne_bytes (from_ne_bytes bs) ! i = bs ! i" using i by (simp add: to_ne_bytes_def)
qed (simp add: to_ne_bytes_def)

lemma map_unwrap_map: "(\<And>x. f (g x) = Some x) \<Longrightarrow> map_unwrap f (map g xs) = Some xs"
  by (induction xs) simp_all

lemma pat_type_roundtrip [simp]: "PatMemoryType_from_bits (PatMemoryType_bits t) = Some t"
  by (cases t) (simp_all add: PatMemoryType_from_bits_def)

text \<open>A value of flags below bit 12 and a page.\<close>

lemma cet_flags_low: "fl AND NOT CetFlags_all = 0 \<Longrightarrow> bit fl k \<Longrightarrow> k < 12"
proof -
  assume "fl AND NOT CetFlags_all = 0" "bit fl k"
  then have "bit CetFlags_all k" by (rule flags_subset)
  moreover have "CetFlags_all = CetFlags_all AND mask 12" by (simp add: CetFlags_defs mask_eq_exp_minus_1)
  ultimately show "k < 12" by (metis bit_and_iff bit_mask_iff)
qed

lemma page_addr_bits: "page_ok Size4KiB p \<Longrightarrow> bit (va (page_start p)) k \<Longrightarrow> 12 \<le> k"
proof -
  assume p: "page_ok Size4KiB p" and b: "bit (va (page_start p)) k"
  have "lin (page_start p) mod 2 ^ 12 = 0" using p by (simp add: page_ok_def)
  moreover have "unat (va (page_start p)) mod 2 ^ 12 = lin (page_start p) mod 2 ^ 12"
    unfolding lin_def by (simp add: mod_mod_cancel)
  ultimately have "take_bit 12 (va (page_start p)) = 0" by (simp add: word_unat_eq_iff unat_take_bit)
  then show "12 \<le> k" using b by (metis bit_take_bit_iff bit_0_eq bot_apply bot_bool_def not_le)
qed

lemma cet_value_parts:
  assumes "fl AND NOT CetFlags_all = 0" "page_ok Size4KiB p"
  shows "(fl OR va (page_start p)) AND CetFlags_all = fl" "(fl OR va (page_start p)) AND NOT 0xFFF = va (page_start p)"
proof -
  note fb = cet_flags_low [OF assms(1)] flags_subset [OF assms(1)] and pb = page_addr_bits [OF assms(2)]
  have c: "bit CetFlags_all k \<Longrightarrow> k < 12" for k
    by (rule cet_flags_low [of CetFlags_all]) simp_all
  show "(fl OR va (page_start p)) AND CetFlags_all = fl"
    by (rule bit_word_eqI) (use fb pb c in \<open>fastforce simp: bit_and_iff bit_or_iff\<close>)
  have "(fl OR va (page_start p)) AND NOT (mask 12) = va (page_start p)"
    by (rule bit_word_eqI) (use fb pb in \<open>force simp: bit_simps\<close>)
  then show "(fl OR va (page_start p)) AND NOT 0xFFF = va (page_start p)"
    by (simp add: mask_eq_exp_minus_1)
qed

end
