(* ===== verification/Interrupts.thy ===== *)
theory Interrupts
  imports Model_Specific
begin

text \<open>
  \<open>instructions/interrupts.rs\<close> (enabling, disabling and running a closure without interrupts, halting and
  software interrupts) and
  \<open>instructions/segmentation.rs\<close> (the segment registers and the bases of \<open>FS\<close> and \<open>GS\<close>).
\<close>

section \<open>Interrupts\<close>

definition are_enabled :: "extern \<Rightarrow> 'c cpu \<Rightarrow> 'c \<Rightarrow> bool" where
  "are_enabled X C s = bitflags_contains X (rflags_read X C s) RFlags_INTERRUPT_FLAG"

definition interrupts_enable :: "'c cpu \<Rightarrow> 'c \<Rightarrow> 'c" where
  "interrupts_enable C s = sti C s"

definition interrupts_disable :: "'c cpu \<Rightarrow> 'c \<Rightarrow> 'c" where
  "interrupts_disable C s = cli C s"

text \<open>The closure may execute instructions and may panic.\<close>

definition without_interrupts :: "extern \<Rightarrow> 'c cpu \<Rightarrow> ('c \<Rightarrow> ('r \<times> 'c) option) \<Rightarrow> 'c \<Rightarrow> ('r \<times> 'c) option" where
  "without_interrupts X C f s = do {
     let saved_intpt_flag = are_enabled X C s;
     let s = (if saved_intpt_flag then interrupts_disable C s else s);
     (ret, s) \<leftarrow> f s;
     let s = (if saved_intpt_flag then interrupts_enable C s else s);
     Some (ret, s)
   }"

definition enable_and_hlt :: "'c cpu \<Rightarrow> 'c \<Rightarrow> 'c" where
  "enable_and_hlt C s = hlt_instr C (sti C s)"

definition int3 :: "'c cpu \<Rightarrow> 'c \<Rightarrow> 'c" where
  "int3 C s = int3_instr C s"

definition software_interrupt :: "'c cpu \<Rightarrow> u8 \<Rightarrow> 'c \<Rightarrow> 'c" where
  "software_interrupt C NUM s = int_instr C NUM s"

section \<open>Segment registers\<close>

text \<open>The macros \<open>get_reg_impl\<close>, \<open>segment_impl\<close> and \<open>segment64_impl\<close>, with the register as an argument.\<close>

definition Segment_get_reg :: "'c cpu \<Rightarrow> segment_register \<Rightarrow> 'c \<Rightarrow> SegmentSelector" where
  "Segment_get_reg C r s = SegmentSelector (mov_from_seg C r s)"

definition Segment_set_reg :: "'c cpu \<Rightarrow> segment_register \<Rightarrow> SegmentSelector \<Rightarrow> 'c \<Rightarrow> 'c" where
  "Segment_set_reg C r sel s = mov_to_seg C r (selector_u16 sel) s"

text \<open>\<open>CS\<close> cannot be the target of a move: the selector is pushed and loaded by a far return.\<close>

definition CS_set_reg :: "'c cpu \<Rightarrow> SegmentSelector \<Rightarrow> 'c \<Rightarrow> 'c" where
  "CS_set_reg C sel s = retfq C (ucast (selector_u16 sel)) s"

fun Segment64_BASE :: "segment_register \<Rightarrow> Msr" where
  "Segment64_BASE Seg_FS = FsBase_MSR"
| "Segment64_BASE Seg_GS = GsBase_MSR"

definition Segment64_read_base :: "'c cpu \<Rightarrow> segment_register \<Rightarrow> 'c \<Rightarrow> VirtAddr" where
  "Segment64_read_base C r s = VirtAddr_new_unsafe (rdbase C r s)"

definition Segment64_write_base :: "'c cpu \<Rightarrow> segment_register \<Rightarrow> VirtAddr \<Rightarrow> 'c \<Rightarrow> 'c" where
  "Segment64_write_base C r base_addr s = wrbase C r (VirtAddr_as_u64 base_addr) s"

definition GS_swap :: "'c cpu \<Rightarrow> 'c \<Rightarrow> 'c" where
  "GS_swap C s = swapgs C s"

context cpu_ok
begin

lemma segment_registers_stored:
  "r \<noteq> Seg_CS \<Longrightarrow> Segment_get_reg C q (Segment_set_reg C r sel s) = (if q = r then sel else Segment_get_reg C q s)"
  "Segment_get_reg C q (CS_set_reg C sel s) = (if q = Seg_CS then sel else Segment_get_reg C q s)"
proof -
  show "r \<noteq> Seg_CS \<Longrightarrow> Segment_get_reg C q (Segment_set_reg C r sel s) = (if q = r then sel else Segment_get_reg C q s)"
    by (cases sel) (auto simp: Segment_get_reg_def Segment_set_reg_def segment_stored segment_other)
  show "Segment_get_reg C q (CS_set_reg C sel s) = (if q = Seg_CS then sel else Segment_get_reg C q s)"
    by (cases sel) (auto simp: Segment_get_reg_def CS_set_reg_def cs_stored bit_simps intro!: bit_word_eqI)
qed

end

section \<open>The interrupt flag\<close>

lemma interrupt_flag_bit: "RFlags_all AND RFlags_INTERRUPT_FLAG = RFlags_INTERRUPT_FLAG"
  "RFlags_INTERRUPT_FLAG = push_bit 9 1"
  by (simp_all add: RFlags_defs)

context extern_ok
begin

lemma are_enabled_bit: "are_enabled X C s \<longleftrightarrow> bit (pushfq C s) 9"
proof -
  have "are_enabled X C s \<longleftrightarrow> pushfq C s AND push_bit 9 1 = push_bit 9 1"
    unfolding are_enabled_def rflags_read_def rflags_read_raw_def contains from_bits_truncate and.assoc
      interrupt_flag_bit(1) unfolding interrupt_flag_bit(2) ..
  then show ?thesis unfolding and_single_bit by simp
qed

end

end
