(* ===== verification/Tlb.thy ===== *)
theory Tlb
  imports Interrupts
begin

text \<open>
  \<open>instructions/tlb.rs\<close>: flushing the translation lookaside buffer with \<open>invlpg\<close>, by reloading \<open>CR3\<close>, with
  \<open>invpcid\<close>, and on all processors with \<open>invlpgb\<close>. The page size of a builder is an argument of the
  methods that depend on it. The lemmas read the operands of \<open>invlpgb\<close> as fields and cut a range of
  pages into the pieces that the loop of \<open>flush\<close> hands to the instruction.
\<close>

section \<open>The local processor\<close>

definition tlb_flush :: "'c cpu \<Rightarrow> VirtAddr \<Rightarrow> 'c \<Rightarrow> 'c" where
  "tlb_flush C addr s = invlpg C (VirtAddr_as_u64 addr) s"

definition tlb_flush_all :: "extern \<Rightarrow> 'c cpu \<Rightarrow> 'c \<Rightarrow> 'c option" where
  "tlb_flush_all X C s = do {
     (frame, flags) \<leftarrow> Cr3_read X C s;
     Some (Cr3_write C frame flags s)
   }"

datatype InvPcidCommand = InvPcid_Address VirtAddr Pcid | InvPcid_Single Pcid | InvPcid_All | InvPcid_AllExceptGlobal

record InvpcidDescriptor =
  desc_pcid :: u64
  desc_address :: u64

definition flush_pcid :: "'c cpu \<Rightarrow> InvPcidCommand \<Rightarrow> 'c \<Rightarrow> 'c" where
  "flush_pcid C command s =
     (let desc = \<lparr>desc_pcid = 0, desc_address = 0\<rparr>;
          (kind, desc) = (case command of
              InvPcid_Address addr pcid \<Rightarrow>
                (0, desc\<lparr>desc_pcid := ucast (Pcid_value pcid), desc_address := VirtAddr_as_u64 addr\<rparr>)
            | InvPcid_Single pcid \<Rightarrow> (1, desc\<lparr>desc_pcid := ucast (pcid_u16 pcid)\<rparr>)
            | InvPcid_All \<Rightarrow> (2, desc)
            | InvPcid_AllExceptGlobal \<Rightarrow> (3, desc))
      in invpcid C kind (desc_pcid desc, desc_address desc) s)"

section \<open>All processors\<close>

record Invlpgb =
  invlpgb_count_max :: u16
  tlb_flush_nested :: bool
  nasid :: u32

definition Invlpgb_new :: "extern \<Rightarrow> 'c cpu \<Rightarrow> 'c \<Rightarrow> Invlpgb option option" where
  "Invlpgb_new X C s = do {
     let cs = Segment_get_reg C Seg_CS s;
     rpl \<leftarrow> SegmentSelector_rpl X cs;
     assert_that (rpl = Ring0);
     let (_, ebx, _, edx) = cpuid C 0x80000008 s;
     supported \<leftarrow> get_bit_u32 X ebx 3;
     if \<not> supported then Some None
     else do {
       nested \<leftarrow> get_bit_u32 X ebx 21;
       count_max \<leftarrow> get_bits_u32 X edx 0 16;
       let (_, ebx, _, _) = cpuid C 0x8000000a s;
       Some (Some \<lparr>invlpgb_count_max = ucast count_max, tlb_flush_nested = nested, nasid = ebx\<rparr>)
     }
   }"

definition Invlpgb_tlbsync :: "'c cpu \<Rightarrow> 'c \<Rightarrow> 'c" where
  "Invlpgb_tlbsync C s = tlbsync C s"

record InvlpgbFlushBuilder =
  builder_invlpgb :: Invlpgb
  builder_page_range :: "PageRange option"
  builder_pcid :: "Pcid option"
  builder_asid :: "u16 option"
  builder_include_global :: bool
  builder_final_translation_only :: bool
  builder_include_nested_translations :: bool

definition Invlpgb_build :: "Invlpgb \<Rightarrow> InvlpgbFlushBuilder" where
  "Invlpgb_build self = \<lparr>
     builder_invlpgb = self,
     builder_page_range = None,
     builder_pcid = None,
     builder_asid = None,
     builder_include_global = False,
     builder_final_translation_only = False,
     builder_include_nested_translations = False\<rparr>"

definition Builder_pages :: "InvlpgbFlushBuilder \<Rightarrow> PageRange \<Rightarrow> InvlpgbFlushBuilder" where
  "Builder_pages self page_range = \<lparr>
     builder_invlpgb = builder_invlpgb self,
     builder_page_range = Some page_range,
     builder_pcid = builder_pcid self,
     builder_asid = builder_asid self,
     builder_include_global = builder_include_global self,
     builder_final_translation_only = builder_final_translation_only self,
     builder_include_nested_translations = builder_include_nested_translations self\<rparr>"

definition Builder_pcid :: "InvlpgbFlushBuilder \<Rightarrow> Pcid \<Rightarrow> InvlpgbFlushBuilder" where
  "Builder_pcid self pcid = self\<lparr>builder_pcid := Some pcid\<rparr>"

record AsidOutOfRangeError =
  err_asid :: u16
  err_nasid :: u32

definition Builder_asid :: "InvlpgbFlushBuilder \<Rightarrow> u16 \<Rightarrow> AsidOutOfRangeError + InvlpgbFlushBuilder" where
  "Builder_asid self asid =
     (if ucast asid \<ge> nasid (builder_invlpgb self)
      then Inl \<lparr>err_asid = asid, err_nasid = nasid (builder_invlpgb self)\<rparr>
      else Inr (self\<lparr>builder_asid := Some asid\<rparr>))"

definition Builder_include_global :: "InvlpgbFlushBuilder \<Rightarrow> InvlpgbFlushBuilder" where
  "Builder_include_global self = self\<lparr>builder_include_global := True\<rparr>"

definition Builder_final_translation_only :: "InvlpgbFlushBuilder \<Rightarrow> InvlpgbFlushBuilder" where
  "Builder_final_translation_only self = self\<lparr>builder_final_translation_only := True\<rparr>"

definition Builder_include_nested_translations :: "InvlpgbFlushBuilder \<Rightarrow> InvlpgbFlushBuilder option" where
  "Builder_include_nested_translations self = do {
     assert_that (tlb_flush_nested (builder_invlpgb self));
     Some (self\<lparr>builder_include_nested_translations := True\<rparr>)
   }"

definition flush_broadcast :: "extern \<Rightarrow> 'c cpu \<Rightarrow> PageSize \<Rightarrow> (Page \<times> u16) option \<Rightarrow> Pcid option \<Rightarrow> u16 option \<Rightarrow>
    bool \<Rightarrow> bool \<Rightarrow> bool \<Rightarrow> 'c \<Rightarrow> 'c option" where
  "flush_broadcast X C S va_and_count pcid asid include_global final_translation_only include_nested_translations s = do {
     let rax = 0;
     let ecx = 0;
     let edx = 0;
     (rax, ecx) \<leftarrow> (case va_and_count of
         None \<Rightarrow> Some (rax, ecx)
       | Some (virt, count) \<Rightarrow> do {
           rax \<leftarrow> set_bit_u64 X rax 0 True;
           addr \<leftarrow> get_bits X (VirtAddr_as_u64 (Page_start_address virt)) 12 64;
           rax \<leftarrow> set_bits X rax 12 64 addr;
           ecx \<leftarrow> set_bits_u32 X ecx 0 16 (ucast count);
           ecx \<leftarrow> set_bit_u32 X ecx 31 (SIZE S = SIZE Size2MiB);
           Some (rax, ecx)
         });
     (rax, edx) \<leftarrow> (case pcid of
         None \<Rightarrow> Some (rax, edx)
       | Some pcid \<Rightarrow> do {
           rax \<leftarrow> set_bit_u64 X rax 1 True;
           edx \<leftarrow> set_bits_u32 X edx 16 28 (ucast (Pcid_value pcid));
           Some (rax, edx)
         });
     (rax, edx) \<leftarrow> (case asid of
         None \<Rightarrow> Some (rax, edx)
       | Some asid \<Rightarrow> do {
           rax \<leftarrow> set_bit_u64 X rax 2 True;
           edx \<leftarrow> set_bits_u32 X edx 0 16 (ucast asid);
           Some (rax, edx)
         });
     rax \<leftarrow> set_bit_u64 X rax 3 include_global;
     rax \<leftarrow> set_bit_u64 X rax 4 final_translation_only;
     rax \<leftarrow> set_bit_u64 X rax 5 include_nested_translations;
     Some (invlpgb C rax ecx edx s)
   }"

text \<open>\<open>u16::try_from(count).unwrap_or(u16::MAX)\<close>.\<close>

definition u16_try_from_or_max :: "usize \<Rightarrow> u16" where
  "u16_try_from_or_max n = (if unat n < 2 ^ 16 then ucast n else -1)"

text \<open>The loop of \<open>flush\<close> over the pages that are left.\<close>

partial_function (option) flush_pages :: "extern \<Rightarrow> 'c cpu \<Rightarrow> PageSize \<Rightarrow> InvlpgbFlushBuilder \<Rightarrow> PageRange \<Rightarrow> 'c \<Rightarrow> 'c option"
where
  "flush_pages X C S self pages s =
     (if PageRange_is_empty pages then Some s
      else do {
        half_addr \<leftarrow> VirtAddr_new 0xffff800000000000;
        second_half_start \<leftarrow> Page_containing_address S half_addr;
        let count = fst (Page_steps_between_impl S (start_page pages) (end_page pages));
        let count = (if start_page pages < second_half_start
          then min count (fst (Page_steps_between_impl S (start_page pages) second_half_start)) else count);
        let count = min (u16_try_from_or_max count) (invlpgb_count_max (builder_invlpgb self));
        s \<leftarrow> flush_broadcast X C S (Some (start_page pages, count)) (builder_pcid self) (builder_asid self)
          (builder_include_global self) (builder_final_translation_only self)
          (builder_include_nested_translations self) s;
        next_page \<leftarrow> Page_forward_checked_impl X S (start_page pages) (ucast (max count 1));
        start \<leftarrow> next_page;
        flush_pages X C S self (pages\<lparr>start_page := start\<rparr>) s
      })"

definition Builder_flush :: "extern \<Rightarrow> 'c cpu \<Rightarrow> PageSize \<Rightarrow> InvlpgbFlushBuilder \<Rightarrow> 'c \<Rightarrow> 'c option" where
  "Builder_flush X C S self s =
     (case builder_page_range self of
        Some pages \<Rightarrow> flush_pages X C S self pages s
      | None \<Rightarrow> flush_broadcast X C S None (builder_pcid self) (builder_asid self) (builder_include_global self)
          (builder_final_translation_only self) (builder_include_nested_translations self) s)"

section \<open>The operands of \<open>invlpgb\<close>\<close>

text \<open>
  Where the operands are: the address of the first page and the valid bits in \<open>rax\<close>, the count
  and the page size in \<open>ecx\<close>, the process-context and address space identifiers in \<open>edx\<close>.
\<close>

definition broadcast_rax :: "Page option \<Rightarrow> Pcid option \<Rightarrow> u16 option \<Rightarrow> bool \<Rightarrow> bool \<Rightarrow> bool \<Rightarrow> u64" where
  "broadcast_rax page pcid asid g f n =
     (case page of None \<Rightarrow> 0 | Some p \<Rightarrow> (va (page_start p) AND NOT (mask 12)) OR 1) OR
     push_bit 1 (of_bool (pcid \<noteq> None)) OR push_bit 2 (of_bool (asid \<noteq> None)) OR
     push_bit 3 (of_bool g) OR push_bit 4 (of_bool f) OR push_bit 5 (of_bool n)"

definition broadcast_ecx :: "PageSize \<Rightarrow> u16 option \<Rightarrow> u32" where
  "broadcast_ecx S count =
     (case count of None \<Rightarrow> 0 | Some c \<Rightarrow> ucast c OR push_bit 31 (of_bool (S = Size2MiB)))"

definition broadcast_edx :: "Pcid option \<Rightarrow> u16 option \<Rightarrow> u32" where
  "broadcast_edx pcid asid =
     (case pcid of None \<Rightarrow> 0 | Some p \<Rightarrow> push_bit 16 (ucast (pcid_u16 p))) OR
     (case asid of None \<Rightarrow> 0 | Some a \<Rightarrow> ucast a)"

definition pcid_ok :: "Pcid option \<Rightarrow> bool" where
  "pcid_ok pcid \<longleftrightarrow> (\<forall>p\<in>set_option pcid. pcid_u16 p < 4096)"

lemma take_bit_pcid: "pcid_u16 p < 4096 \<Longrightarrow> take_bit 12 (ucast (pcid_u16 p) :: u32) = ucast (pcid_u16 p)"
proof -
  assume "pcid_u16 p < 4096"
  then have "unat (ucast (pcid_u16 p) :: u32) < 2 ^ 12"
    by (simp add: word_less_nat_alt unat_ucast_up)
  then show ?thesis by (simp add: take_bit_word_eq_self_iff word_less_nat_alt)
qed

lemma take_bit_u16: "take_bit 16 (ucast (a :: u16) :: u32) = ucast a"
  by (rule bit_word_eqI) (auto simp: bit_simps dest: bit_imp_le_length)

lemma SIZE_2MiB: "SIZE S = 2097152 \<longleftrightarrow> S = Size2MiB"
  by (cases S) simp_all

text \<open>Writing a bit or a field that is still zero adds it.\<close>

lemma set_or: "\<not> bit (v :: 'a::len word) k \<Longrightarrow> (if b then set_bit k v else unset_bit k v) = v OR push_bit k (of_bool b)"
  by (rule bit_word_eqI) (auto simp: bit_simps)

lemma set_range_or:
  assumes "\<And>k. lo \<le> k \<Longrightarrow> k < hi \<Longrightarrow> \<not> bit (v :: 'a::len word) k"
  shows "set_range v lo hi w = v OR push_bit lo w"
proof -
  have "v AND NOT (push_bit lo (mask (hi - lo))) = v"
    by (rule bit_word_eqI) (use assms in \<open>auto simp: bit_simps\<close>)
  then show ?thesis by (simp add: set_range_def)
qed

lemma rax_page: "set_range (1 :: u64) 12 64 (get_range v 12 64) = (v AND NOT (mask 12)) OR 1"
proof -
  have "push_bit 12 (get_range v 12 64) = v AND NOT (mask 12)"
    by (rule bit_word_eqI) (auto simp: bit_simps)
  moreover have "set_range (1 :: u64) 12 64 w = 1 OR push_bit 12 w" for w
    by (rule set_range_or) (auto simp: bit_simps)
  ultimately show ?thesis by (simp add: or.commute)
qed

lemma rax_low_bits:
  "0 < k \<Longrightarrow> k < 12 \<Longrightarrow> \<not> bit (case page of None \<Rightarrow> 0 | Some p \<Rightarrow> (va (page_start p) AND NOT (mask 12)) OR 1) k"
  by (cases page) (simp_all add: bit_simps)

context extern_ok
begin

lemma stage_page:
  "(case vc of None \<Rightarrow> Some (0, 0)
    | Some (virt, count) \<Rightarrow> do {
        rax \<leftarrow> set_bit_u64 X 0 0 True;
        addr \<leftarrow> get_bits X (VirtAddr_as_u64 (Page_start_address virt)) 12 64;
        rax \<leftarrow> set_bits X rax 12 64 addr;
        ecx \<leftarrow> set_bits_u32 X 0 0 16 (ucast count);
        ecx \<leftarrow> set_bit_u32 X ecx 31 (SIZE S = SIZE Size2MiB);
        Some (rax, ecx)
      }) = Some (case map_option fst vc of None \<Rightarrow> 0 | Some p \<Rightarrow> (va (page_start p) AND NOT (mask 12)) OR 1,
        broadcast_ecx S (map_option snd vc))"
proof (cases vc)
  case (Some pc)
  obtain p c where pc: "pc = (p, c)" by (cases pc)
  have "take_bit 52 (get_range v 12 64) = get_range v 12 64" for v :: u64
    by (rule bit_word_eqI) (auto simp: bit_simps)
  moreover have "set_range (0 :: u32) 0 16 (ucast c) = ucast c"
    by (subst set_range_or) simp_all
  moreover have "\<not> bit (ucast c :: u32) 31" by (auto simp: bit_simps dest: bit_imp_le_length)
  ultimately show ?thesis
    using Some pc by (simp add: rax_page take_bit_u16 SIZE_2MiB set_or broadcast_ecx_def
        VirtAddr_as_u64_def Page_start_address_def)
qed (simp add: broadcast_ecx_def)

lemma flush_broadcast_eq:
  assumes "pcid_ok pcid"
  shows "flush_broadcast X C S vc pcid asid g f n s =
    Some (invlpgb C (broadcast_rax (map_option fst vc) pcid asid g f n) (broadcast_ecx S (map_option snd vc))
      (broadcast_edx pcid asid) s)"
proof -
  define r :: u64 where "r = (case map_option fst vc of None \<Rightarrow> 0 | Some p \<Rightarrow> (va (page_start p) AND NOT (mask 12)) OR 1)"
  have r: "\<not> bit r k" if "0 < k" "k < 12" for k
    unfolding r_def using rax_low_bits [OF that] .
  define r1 where "r1 = r OR push_bit 1 (of_bool (pcid \<noteq> None))"
  define r2 where "r2 = r1 OR push_bit 2 (of_bool (asid \<noteq> None))"
  define e1 :: u32 where "e1 = (case pcid of None \<Rightarrow> 0 | Some p \<Rightarrow> push_bit 16 (ucast (pcid_u16 p)))"
  have 1: "(case pcid of None \<Rightarrow> Some (r, 0) | Some pcid \<Rightarrow> do {
      rax \<leftarrow> set_bit_u64 X r 1 True;
      edx \<leftarrow> set_bits_u32 X 0 16 28 (ucast (Pcid_value pcid));
      Some (rax, edx) }) = Some (r1, e1)"
    using assms by (cases pcid) (simp_all add: r1_def e1_def pcid_ok_def Pcid_value_def take_bit_pcid set_range_or set_bit_eq_or)
  have 2: "(case asid of None \<Rightarrow> Some (r1, e1) | Some asid \<Rightarrow> do {
      rax \<leftarrow> set_bit_u64 X r1 2 True;
      edx \<leftarrow> set_bits_u32 X e1 0 16 (ucast asid);
      Some (rax, edx) }) = Some (r2, broadcast_edx pcid asid)"
  proof (cases asid)
    case (Some a)
    have "\<not> bit e1 k" if "k < 16" for k using that by (simp add: e1_def bit_simps split: option.split)
    then have "set_range e1 0 16 (ucast a) = e1 OR ucast a" by (subst set_range_or) simp_all
    with Some show ?thesis by (simp add: r2_def e1_def broadcast_edx_def take_bit_u16 set_bit_eq_or)
  qed (simp add: r2_def e1_def broadcast_edx_def)
  have r2: "\<not> bit r2 k" if "2 < k" "k < 12" for k
    using that r [of k] by (auto simp: r2_def r1_def bit_simps)
  have "broadcast_rax (map_option fst vc) pcid asid g f n =
      ((r2 OR push_bit 3 (of_bool g)) OR push_bit 4 (of_bool f)) OR push_bit 5 (of_bool n)"
    unfolding broadcast_rax_def r2_def r1_def r_def or.assoc ..
  moreover have "\<not> bit r2 3" "\<not> bit (r2 OR push_bit 3 (of_bool g)) 4"
    "\<not> bit (r2 OR push_bit 3 (of_bool g) OR push_bit 4 (of_bool f)) 5"
    using r2 by (simp_all add: bit_simps)
  ultimately show ?thesis
    unfolding flush_broadcast_def Let_def stage_page bind.bind_lunit prod.case r_def [symmetric] 1 2
    by (simp add: set_or or.assoc)
qed

end

section \<open>The pieces of a range\<close>

text \<open>One execution of \<open>invlpgb\<close> for the builder, on the pages of a piece.\<close>

definition broadcast :: "'c cpu \<Rightarrow> PageSize \<Rightarrow> InvlpgbFlushBuilder \<Rightarrow> Page \<times> u16 \<Rightarrow> 'c \<Rightarrow> 'c" where
  "broadcast C S self piece = invlpgb C
     (broadcast_rax (Some (fst piece)) (builder_pcid self) (builder_asid self) (builder_include_global self)
       (builder_final_translation_only self) (builder_include_nested_translations self))
     (broadcast_ecx S (Some (snd piece))) (broadcast_edx (builder_pcid self) (builder_asid self))"

definition half_num :: "PageSize \<Rightarrow> nat" where
  "half_num S = 2 ^ (47 - size_bits S)"

text \<open>
  The numbers of the pages by which the loop advances after a piece: the count, but at least one.
\<close>

definition piece_steps :: "PageSize \<Rightarrow> Page \<times> u16 \<Rightarrow> nat list" where
  "piece_steps S piece = [page_num S (fst piece)..<page_num S (fst piece) + max 1 (unat (snd piece))]"

text \<open>
  The addresses at which the instruction flushes. The manual that \<open>flush_broadcast\<close> refers to (AMD64
  Architecture Programmer's Manual, volume 3, \<open>INVLPGB\<close>) gives \<open>ECX[15:0]\<close> as the number of pages to flush in
  addition to the first one: a count of zero flushes one page, a count of \<open>n\<close> flushes \<open>n + 1\<close>.
\<close>

definition flushed_addresses :: "PageSize \<Rightarrow> Page \<times> u16 \<Rightarrow> nat set" where
  "flushed_addresses S piece = (\<lambda>k. unat (va (page_start (fst piece))) + k * 2 ^ size_bits S) ` {..unat (snd piece)}"

definition piece_ok :: "PageSize \<Rightarrow> u16 \<Rightarrow> Page \<times> u16 \<Rightarrow> bool" where
  "piece_ok S count_max piece \<longleftrightarrow> page_ok S (fst piece) \<and> snd piece \<le> count_max \<and>
     (snd piece = 0 \<longrightarrow> count_max = 0) \<and>
     (page_num S (fst piece) < half_num S \<longrightarrow> page_num S (fst piece) + max 1 (unat (snd piece)) \<le> half_num S)"

lemma second_half:
  "\<exists>h. VirtAddr_new 0xffff800000000000 = Some (VirtAddr 0xffff800000000000) \<and>
     Page_containing_address S (VirtAddr 0xffff800000000000) = Some h \<and> page_ok S h \<and> page_num S h = half_num S"
proof -
  have c: "canonical (VirtAddr 0xffff800000000000)" by (simp add: canonical_iff_unat)
  have "lin (VirtAddr 0xffff800000000000) = 2 ^ 47" by (simp add: lin_def)
  moreover have "(2 :: nat) ^ 47 div 2 ^ size_bits S = half_num S"
    using size_bits_le [of S] unfolding half_num_def by (intro power_diff [symmetric]) simp_all
  ultimately show ?thesis
    using Page_containing_address_spec [OF c, of S] c by (auto simp: VirtAddr_new_eq)
qed

lemma half_num_less: "half_num S < 2 ^ (48 - size_bits S)"
  using size_bits_le [of S] unfolding half_num_def by (intro power_strict_increasing) simp_all

lemma unat_u16_or_max: "unat (u16_try_from_or_max n) = min (unat n) 65535"
  by (simp add: u16_try_from_or_max_def unat_ucast_mod min_def unsigned_minus_1_eq_mask mask_eq_exp_minus_1)

lemma unat_min: "unat (min a b) = min (unat a) (unat (b :: 'a::len word))"
  by (simp add: min_def word_le_nat_alt)

lemma unat_max: "unat (max a b) = max (unat a) (unat (b :: 'a::len word))"
  by (simp add: max_def word_le_nat_alt)

context extern_ok
begin

lemma steps_num:
  assumes "page_ok S p" "page_ok S q" "page_num S p \<le> page_num S q"
  shows "unat (fst (Page_steps_between_impl S p q)) = page_num S q - page_num S p"
proof -
  have "(2 :: nat) ^ (48 - size_bits S) \<le> 2 ^ 64" by (rule power_increasing) simp_all
  then have "page_num S q - page_num S p < 2 ^ 64" using page_num_lt [OF assms(2)] by linarith
  then have "unat (of_nat (page_num S q - page_num S p) :: usize) = page_num S q - page_num S p"
    by (intro unat_of_nat_small) simp
  then show ?thesis
    using Page_steps_between_eq [OF assms(1,2)] assms(3) by (simp only: Page_steps_between_def if_True fst_conv)
qed

text \<open>One round of the loop.\<close>

lemma flush_pages_round:
  assumes ok: "page_ok S p" "page_ok S e" and lt: "page_num S p < page_num S e" and pcid: "pcid_ok (builder_pcid self)"
  shows "\<exists>c q. flush_pages X C S self \<lparr>start_page = p, end_page = e\<rparr> s =
      flush_pages X C S self \<lparr>start_page = q, end_page = e\<rparr> (broadcast C S self (p, c) s) \<and>
    page_ok S q \<and> page_num S q = page_num S p + max 1 (unat c) \<and> page_num S q \<le> page_num S e \<and>
    piece_ok S (invlpgb_count_max (builder_invlpgb self)) (p, c)"
proof -
  obtain h where h: "VirtAddr_new 0xffff800000000000 = Some (VirtAddr 0xffff800000000000)"
      "Page_containing_address S (VirtAddr 0xffff800000000000) = Some h" "page_ok S h" "page_num S h = half_num S"
    using second_half by blast
  define n where "n = fst (Page_steps_between_impl S p e)"
  define k where "k = (if p < h then min n (fst (Page_steps_between_impl S p h)) else n)"
  define c where "c = min (u16_try_from_or_max k) (invlpgb_count_max (builder_invlpgb self))"
  have half: "p < h \<longleftrightarrow> page_num S p < half_num S" using page_num_less_iff [OF ok(1) h(3)] h(4) by simp
  have n: "unat n = page_num S e - page_num S p" using steps_num ok lt by (simp add: n_def)
  have k: "unat k = (if page_num S p < half_num S then min (unat n) (half_num S - page_num S p) else unat n)"
    using steps_num [OF ok(1) h(3)] h(4) half by (simp add: k_def unat_min)
  have ck: "unat c \<le> unat k" "c \<le> invlpgb_count_max (builder_invlpgb self)"
    by (simp_all add: c_def unat_min unat_u16_or_max)
  have k1: "1 \<le> unat k" using k n lt by auto
  have c0: "invlpgb_count_max (builder_invlpgb self) = 0" if "c = 0"
  proof -
    have "min (min (unat k) 65535) (unat (invlpgb_count_max (builder_invlpgb self))) = unat c"
      by (simp add: c_def unat_min unat_u16_or_max)
    then show ?thesis using k1 that by (simp add: min_def unat_eq_zero split: if_splits)
  qed
  have bound: "page_num S p + max 1 (unat c) \<le> page_num S e"
    "page_num S p < half_num S \<longrightarrow> page_num S p + max 1 (unat c) \<le> half_num S"
    using k n ck(1) lt by (auto split: if_splits)
  have u: "unat (ucast (max c 1) :: usize) = max 1 (unat c)"
    by (simp add: unat_ucast_up unat_max max.commute)
  have "page_num S p + max 1 (unat c) < 2 ^ (48 - size_bits S)"
    using bound(1) page_num_lt [OF ok(2)] by linarith
  then obtain q where q: "Page_forward_checked_impl X S p (ucast (max c 1)) = Some (Some q)" "page_ok S q"
      "page_num S q = page_num S p + max 1 (unat c)"
    using page_forward_some [OF ok(1), of "ucast (max c 1)"] u by (auto simp: Page_forward_checked_def)
  have "\<not> PageRange_is_empty \<lparr>start_page = p, end_page = e\<rparr>"
    using page_num_less_iff [OF ok] lt by (simp add: PageRange_is_empty_def)
  then have "flush_pages X C S self \<lparr>start_page = p, end_page = e\<rparr> s =
      flush_pages X C S self \<lparr>start_page = q, end_page = e\<rparr> (broadcast C S self (p, c) s)"
    unfolding flush_pages.simps [of X C S self "\<lparr>start_page = p, end_page = e\<rparr>"] h(1,2) Let_def bind.bind_lunit
      PageRange.select_convs n_def [symmetric] k_def [symmetric] c_def [symmetric] q(1) flush_broadcast_eq [OF pcid]
    by (simp add: broadcast_def)
  moreover have "piece_ok S (invlpgb_count_max (builder_invlpgb self)) (p, c)"
    using bound(2) ck(2) ok(1) c0 by (simp add: piece_ok_def)
  ultimately show ?thesis using q(2,3) bound(1) by (metis (no_types))
qed

lemma flush_pages_pieces:
  assumes "page_ok S p" "page_ok S e" and pcid: "pcid_ok (builder_pcid self)"
  shows "\<exists>pieces. flush_pages X C S self \<lparr>start_page = p, end_page = e\<rparr> s = Some (fold (broadcast C S self) pieces s) \<and>
    concat (map (piece_steps S) pieces) = [page_num S p..<page_num S e] \<and>
    list_all (piece_ok S (invlpgb_count_max (builder_invlpgb self))) pieces"
  using assms
proof (induction "page_num S e - page_num S p" arbitrary: p s rule: less_induct)
  case less
  show ?case
  proof (cases "page_num S p < page_num S e")
    case False
    then have "PageRange_is_empty \<lparr>start_page = p, end_page = e\<rparr>"
      using page_num_less_iff [OF less.prems(1,2)] by (simp add: PageRange_is_empty_def not_less)
    then have "flush_pages X C S self \<lparr>start_page = p, end_page = e\<rparr> s = Some s"
      by (subst flush_pages.simps) (simp only: if_True)
    with False show ?thesis by (intro exI [of _ "[]"]) simp
  next
    case True
    obtain c q where q: "flush_pages X C S self \<lparr>start_page = p, end_page = e\<rparr> s =
        flush_pages X C S self \<lparr>start_page = q, end_page = e\<rparr> (broadcast C S self (p, c) s)"
        "page_ok S q" "page_num S q = page_num S p + max 1 (unat c)" "page_num S q \<le> page_num S e"
        "piece_ok S (invlpgb_count_max (builder_invlpgb self)) (p, c)"
      using flush_pages_round [OF less.prems(1,2) True pcid, of C s] by (elim exE conjE) (rule that)
    have "page_num S e - page_num S q < page_num S e - page_num S p" using q(3) True by linarith
    from less.hyps [OF this q(2) less.prems(2) pcid] obtain pieces where
      ps: "flush_pages X C S self \<lparr>start_page = q, end_page = e\<rparr> (broadcast C S self (p, c) s) =
          Some (fold (broadcast C S self) pieces (broadcast C S self (p, c) s))"
        "concat (map (piece_steps S) pieces) = [page_num S q..<page_num S e]"
        "list_all (piece_ok S (invlpgb_count_max (builder_invlpgb self))) pieces"
      by blast
    have "piece_steps S (p, c) @ [page_num S q..<page_num S e] = [page_num S p..<page_num S e]"
      using q(3,4) upt_add_eq_append [of "page_num S p" "page_num S q" "page_num S e - page_num S q"]
      by (simp add: piece_steps_def)
    with ps q(1,5) show ?thesis by (intro exI [of _ "(p, c) # pieces"]) simp
  qed
qed

end

section \<open>The pages that are flushed\<close>

lemma half_num_size: "half_num S * 2 ^ size_bits S = 2 ^ 47"
  using size_bits_le [of S] by (simp add: half_num_def flip: power_add)

lemma unat_page_start:
  assumes "page_ok S p"
  shows "unat (va (page_start p)) = page_num S p * 2 ^ size_bits S + (if page_num S p < half_num S then 0 else 2 ^ 64 - 2 ^ 48)"
proof -
  have "lin (page_start p) < 2 ^ 47 \<longleftrightarrow> page_num S p < half_num S"
    using lin_page_num [OF assms] half_num_size [of S] by (metis mult_less_cancel2 zero_less_numeral zero_less_power)
  then show ?thesis
    using canonical_unat [of "page_start p"] page_ok_canonical [OF assms] lin_page_num [OF assms] by simp
qed

lemma unat_page_later:
  assumes "page_ok S p" "page_ok S q" "page_num S q = page_num S p + k"
    and "page_num S p < half_num S \<longrightarrow> page_num S q < half_num S"
  shows "unat (va (page_start q)) = unat (va (page_start p)) + k * 2 ^ size_bits S"
proof -
  have "page_num S q < half_num S \<longleftrightarrow> page_num S p < half_num S" using assms(3,4) by auto
  with assms show ?thesis by (simp add: unat_page_start algebra_simps)
qed

text \<open>The page at every step of a piece is flushed.\<close>

lemma piece_step_flushed:
  assumes "piece_ok S cm piece" "page_ok S q" "page_num S q \<in> set (piece_steps S piece)"
  shows "unat (va (page_start q)) \<in> flushed_addresses S piece"
proof -
  have k: "page_num S q = page_num S (fst piece) + (page_num S q - page_num S (fst piece))"
    "page_num S q - page_num S (fst piece) \<le> unat (snd piece)"
    using assms(3) by (auto simp: piece_steps_def)
  have "page_num S (fst piece) < half_num S \<longrightarrow> page_num S q < half_num S"
    using assms(1,3) by (auto simp: piece_ok_def piece_steps_def)
  from unat_page_later [OF _ assms(2) k(1) this] k(2) assms(1) show ?thesis
    by (auto simp: flushed_addresses_def piece_ok_def)
qed

text \<open>Every address that a piece flushes is at one of its steps, or \<open>count\<close> pages after its first page.\<close>

lemma piece_flushes_step:
  assumes "piece_ok S cm piece" and n: "\<And>n. n \<in> set (piece_steps S piece) \<Longrightarrow> n < 2 ^ (48 - size_bits S)"
    and "x \<in> flushed_addresses S piece"
    and x: "x \<noteq> unat (va (page_start (fst piece))) + unat (snd piece) * 2 ^ size_bits S"
  shows "\<exists>q. page_ok S q \<and> page_num S q \<in> set (piece_steps S piece) \<and> x = unat (va (page_start q))"
proof -
  obtain k where k: "k \<le> unat (snd piece)" "x = unat (va (page_start (fst piece))) + k * 2 ^ size_bits S"
    using assms(3) by (auto simp: flushed_addresses_def)
  with x have "k < unat (snd piece)" by (cases "k = unat (snd piece)") auto
  then have s: "page_num S (fst piece) + k \<in> set (piece_steps S piece)" by (simp add: piece_steps_def)
  note q = page_at [OF n [OF s]]
  have "unat (va (page_start (page_at S (page_num S (fst piece) + k)))) = x"
    unfolding k(2) using assms(1) s q
    by (intro unat_page_later) (auto simp: piece_ok_def piece_steps_def)
  with q s show ?thesis by metis
qed

text \<open>The step after the last piece is flushed as well.\<close>

lemma last_piece_flushes:
  assumes ok: "list_all (piece_ok S cm) pieces" and c: "concat (map (piece_steps S) pieces) = [page_num S p..<page_num S e]"
    and e: "page_ok S e" "page_num S e \<noteq> half_num S" and lt: "page_num S p < page_num S e" and cm: "cm \<noteq> 0"
  shows "\<exists>piece\<in>set pieces. unat (va (page_start e)) \<in> flushed_addresses S piece"
proof -
  have "concat (map (piece_steps S) pieces) \<noteq> []" unfolding c using lt by simp
  then have "pieces \<noteq> []" by auto
  then obtain ps piece where ps: "pieces = ps @ [piece]" by (metis rev_exhaust)
  have ne: "piece_steps S piece \<noteq> []" by (simp add: piece_steps_def)
  have "last [page_num S p..<page_num S e] = last (piece_steps S piece)"
    using ne by (simp flip: c add: ps last_append)
  then have l: "page_num S e = page_num S (fst piece) + max 1 (unat (snd piece))"
    using lt by (simp add: piece_steps_def)
  have o: "piece_ok S cm piece" using ok ps by simp
  then have "unat (snd piece) \<noteq> 0" using cm by (auto simp: piece_ok_def unat_eq_zero)
  then have m: "max 1 (unat (snd piece)) = unat (snd piece)" by simp
  have "unat (va (page_start e)) = unat (va (page_start (fst piece))) + unat (snd piece) * 2 ^ size_bits S"
    using o l e unfolding m by (intro unat_page_later) (auto simp: piece_ok_def m)
  then show ?thesis by (auto simp: ps flushed_addresses_def)
qed

end
