(* ===== verification/Instructions.thy ===== *)
theory Instructions
  imports Tlb Idt
begin

text \<open>
  The remaining instructions: loading and storing the descriptor table registers
  (\<open>instructions/tables.rs\<close> and the \<open>load\<close> methods of \<open>structures/gdt.rs\<close> and \<open>structures/idt.rs\<close>), port
  input and output (\<open>instructions/port.rs\<close>), the instructions of \<open>instructions/mod.rs\<close>, and random numbers (\<open>instructions/random.rs\<close>).
\<close>

section \<open>Descriptor table registers\<close>

definition lgdt :: "'c cpu \<Rightarrow> DescriptorTablePointer \<Rightarrow> 'c \<Rightarrow> 'c" where
  "lgdt C gdt s = lgdt_instr C (limit gdt, va (base gdt)) s"

definition lidt :: "'c cpu \<Rightarrow> DescriptorTablePointer \<Rightarrow> 'c \<Rightarrow> 'c" where
  "lidt C idt s = lidt_instr C (limit idt, va (base idt)) s"

text \<open>The instruction overwrites both fields of the structure, whatever the base address is.\<close>

definition sgdt :: "'c cpu \<Rightarrow> 'c \<Rightarrow> DescriptorTablePointer option" where
  "sgdt C s = do {
     a \<leftarrow> VirtAddr_new 0;
     let gdt = \<lparr>limit = 0, base = a\<rparr>;
     let (l, b) = sgdt_instr C s;
     Some (gdt\<lparr>limit := l, base := VirtAddr b\<rparr>)
   }"

definition sidt :: "'c cpu \<Rightarrow> 'c \<Rightarrow> DescriptorTablePointer option" where
  "sidt C s = do {
     a \<leftarrow> VirtAddr_new 0;
     let idt = \<lparr>limit = 0, base = a\<rparr>;
     let (l, b) = sidt_instr C s;
     Some (idt\<lparr>limit := l, base := VirtAddr b\<rparr>)
   }"

definition load_tss :: "'c cpu \<Rightarrow> SegmentSelector \<Rightarrow> 'c \<Rightarrow> 'c" where
  "load_tss C sel s = ltr_instr C (selector_u16 sel) s"

text \<open>\<open>addr\<close> is the address of the table.\<close>

definition Gdt_load_unsafe :: "extern \<Rightarrow> 'c cpu \<Rightarrow> u64 \<Rightarrow> GlobalDescriptorTable \<Rightarrow> 'c \<Rightarrow> 'c option" where
  "Gdt_load_unsafe X C addr self s = do {
     p \<leftarrow> Gdt_pointer X addr self;
     Some (lgdt C p s)
   }"

definition Gdt_load :: "extern \<Rightarrow> 'c cpu \<Rightarrow> u64 \<Rightarrow> GlobalDescriptorTable \<Rightarrow> 'c \<Rightarrow> 'c option" where
  "Gdt_load X C addr self s = Gdt_load_unsafe X C addr self s"

definition Idt_load_unsafe :: "'c cpu \<Rightarrow> u64 \<Rightarrow> 'c \<Rightarrow> 'c option" where
  "Idt_load_unsafe C addr s = do {
     p \<leftarrow> Idt_pointer addr;
     Some (lidt C p s)
   }"

definition Idt_load :: "'c cpu \<Rightarrow> u64 \<Rightarrow> 'c \<Rightarrow> 'c option" where
  "Idt_load C addr s = Idt_load_unsafe C addr s"

section \<open>Ports\<close>

definition u8_read_from_port :: "'c cpu \<Rightarrow> u16 \<Rightarrow> 'c \<Rightarrow> u8 \<times> 'c" where
  "u8_read_from_port C port s = in_u8 C port s"

definition u16_read_from_port :: "'c cpu \<Rightarrow> u16 \<Rightarrow> 'c \<Rightarrow> u16 \<times> 'c" where
  "u16_read_from_port C port s = in_u16 C port s"

definition u32_read_from_port :: "'c cpu \<Rightarrow> u16 \<Rightarrow> 'c \<Rightarrow> u32 \<times> 'c" where
  "u32_read_from_port C port s = in_u32 C port s"

definition u8_write_to_port :: "'c cpu \<Rightarrow> u16 \<Rightarrow> u8 \<Rightarrow> 'c \<Rightarrow> 'c" where
  "u8_write_to_port C port value s = out_u8 C port value s"

definition u16_write_to_port :: "'c cpu \<Rightarrow> u16 \<Rightarrow> u16 \<Rightarrow> 'c \<Rightarrow> 'c" where
  "u16_write_to_port C port value s = out_u16 C port value s"

definition u32_write_to_port :: "'c cpu \<Rightarrow> u16 \<Rightarrow> u32 \<Rightarrow> 'c \<Rightarrow> 'c" where
  "u32_write_to_port C port value s = out_u32 C port value s"

text \<open>The implementation of \<open>PortRead\<close> or \<open>PortWrite\<close> for the type of the port's values is an argument.\<close>

record PortGeneric =
  port_number :: u16

definition PortGeneric_new :: "u16 \<Rightarrow> PortGeneric" where
  "PortGeneric_new port = \<lparr>port_number = port\<rparr>"

definition PortGeneric_read :: "(u16 \<Rightarrow> 'c \<Rightarrow> 't \<times> 'c) \<Rightarrow> PortGeneric \<Rightarrow> 'c \<Rightarrow> 't \<times> 'c" where
  "PortGeneric_read read_from_port self s = read_from_port (port_number self) s"

definition PortGeneric_write :: "(u16 \<Rightarrow> 't \<Rightarrow> 'c \<Rightarrow> 'c) \<Rightarrow> PortGeneric \<Rightarrow> 't \<Rightarrow> 'c \<Rightarrow> 'c" where
  "PortGeneric_write write_to_port self value s = write_to_port (port_number self) value s"

definition PortGeneric_eq :: "PortGeneric \<Rightarrow> PortGeneric \<Rightarrow> bool" where
  "PortGeneric_eq self other \<longleftrightarrow> port_number self = port_number other"

definition PortGeneric_clone :: "PortGeneric \<Rightarrow> PortGeneric" where
  "PortGeneric_clone self = \<lparr>port_number = port_number self\<rparr>"

section \<open>Miscellaneous instructions\<close>

definition hlt :: "'c cpu \<Rightarrow> 'c \<Rightarrow> 'c" where
  "hlt C s = hlt_instr C s"

definition nop :: "'c cpu \<Rightarrow> 'c \<Rightarrow> 'c" where
  "nop C s = nop_instr C s"

definition bochs_breakpoint :: "'c cpu \<Rightarrow> 'c \<Rightarrow> 'c" where
  "bochs_breakpoint C s = xchg_bx_bx C s"

definition read_rip :: "'c cpu \<Rightarrow> 'c \<Rightarrow> VirtAddr option" where
  "read_rip C s = do {
     let rip = lea_rip C s;
     VirtAddr_new rip
   }"

text \<open>\<open>InterruptStackFrameValue::iretq\<close> pushes the five words that the instruction pops.\<close>

definition iretq :: "'c cpu \<Rightarrow> InterruptStackFrameValue \<Rightarrow> 'c \<Rightarrow> 'c" where
  "iretq C self s = iretq_instr C (ucast (selector_u16 (stack_segment self)), VirtAddr_as_u64 (stack_pointer self),
     cpu_flags self, ucast (selector_u16 (code_segment self)), VirtAddr_as_u64 (instruction_pointer self)) s"

section \<open>Random numbers\<close>

datatype RdRand = RdRand

definition RdRand_new :: "'c cpu \<Rightarrow> 'c \<Rightarrow> RdRand option" where
  "RdRand_new C s =
     (let (_, _, ecx, _) = cpuid C 0x1 s
      in if ecx AND push_bit 30 1 \<noteq> 0 then Some RdRand else None)"

text \<open>The three sizes differ in the instruction only.\<close>

definition rdrand_result :: "extern \<Rightarrow> (u32 \<times> 'v) \<times> 'c \<Rightarrow> ('v option \<times> 'c) option" where
  "rdrand_result X step_result =
     (case step_result of ((x, res), s) \<Rightarrow>
        if x = 1 then Some (Some res, s)
        else do {
          assert_that (\<not> debug_assertions X \<or> x = 0);
          Some (None, s)
        })"

definition RdRand_get_u64 :: "extern \<Rightarrow> 'c cpu \<Rightarrow> RdRand \<Rightarrow> 'c \<Rightarrow> (u64 option \<times> 'c) option" where
  "RdRand_get_u64 X C self s = rdrand_result X (rdrand64_step C s)"

definition RdRand_get_u32 :: "extern \<Rightarrow> 'c cpu \<Rightarrow> RdRand \<Rightarrow> 'c \<Rightarrow> (u32 option \<times> 'c) option" where
  "RdRand_get_u32 X C self s = rdrand_result X (rdrand32_step C s)"

definition RdRand_get_u16 :: "extern \<Rightarrow> 'c cpu \<Rightarrow> RdRand \<Rightarrow> 'c \<Rightarrow> (u16 option \<times> 'c) option" where
  "RdRand_get_u16 X C self s = rdrand_result X (rdrand16_step C s)"

section \<open>Loading a table\<close>

lemma VirtAddr_new_0: "VirtAddr_new 0 = Some (VirtAddr 0)"
  by (simp add: VirtAddr_new_eq canonical_iff_unat)

context cpu_ok
begin

lemma sgdt_lgdt: "sgdt C (lgdt C p s) = Some p" "sidt C (lidt C p s) = Some p"
  "sidt C (lgdt C p s) = sidt C s" "sgdt C (lidt C p s) = sgdt C s"
  by (cases p; simp add: sgdt_def sidt_def lgdt_def lidt_def gdtr_stored idtr_stored gdtr_other idtr_other VirtAddr_new_0)+

end

text \<open>
  Loading a global descriptor table of \<open>n\<close> entries at a canonical address makes the CPU's register
  point to it, with the offset of its last byte as the limit, and loading an interrupt descriptor
  table makes the other register point to 256 entries of 16 bytes; neither load disturbs the other.
\<close>

theorem loaded_tables_are_active:
  assumes "cpu_ok C" and "canonical (VirtAddr a)" and "canonical (VirtAddr b)"
    and "gdt_ok gdt"
  shows "\<exists>s1 s2. Gdt_load X C a gdt s = Some s1 \<and> Idt_load C b s1 = Some s2 \<and>
    (\<exists>l. sgdt C s2 = Some \<lparr>limit = l, base = VirtAddr a\<rparr> \<and> unat l + 1 = 8 * unat (gdt_len gdt)) \<and>
    sidt C s2 = Some \<lparr>limit = 4095, base = VirtAddr b\<rparr>"
proof -
  have v: "VirtAddr_new a = Some (VirtAddr a)" "VirtAddr_new b = Some (VirtAddr b)"
    using assms(2,3) by (simp_all add: VirtAddr_new_eq)
  obtain l where l: "Gdt_limit X gdt = Some l" "unat l + 1 = 8 * unat (gdt_len gdt)"
    using Gdt_limit_bytes [OF assms(4), of X] by blast
  let ?p = "\<lparr>limit = l, base = VirtAddr a\<rparr>" and ?q = "\<lparr>limit = 4095, base = VirtAddr b\<rparr>"
  have "Gdt_load X C a gdt s = Some (lgdt C ?p s)"
    by (simp add: Gdt_load_def Gdt_load_unsafe_def Gdt_pointer_def v l)
  moreover have "Idt_load C b (lgdt C ?p s) = Some (lidt C ?q (lgdt C ?p s))"
    by (simp add: Idt_load_def Idt_load_unsafe_def Idt_pointer_def v)
  ultimately show ?thesis using cpu_ok.sgdt_lgdt [OF assms(1)] l(2) by auto
qed

theorem loaded_tables_are_active_witness:
  "\<exists>s1 s2. Gdt_load (std_extern True) std_cpu 0x5000 \<lparr>gdt_table = replicate 8 (Entry 0), gdt_len = 3\<rparr> std_machine = Some s1 \<and>
    Idt_load std_cpu 0x6000 s1 = Some s2 \<and> sgdt std_cpu s2 = Some \<lparr>limit = 23, base = VirtAddr 0x5000\<rparr>"
proof -
  let ?g = "\<lparr>gdt_table = replicate 8 (Entry 0), gdt_len = 3\<rparr>"
  have "gdt_ok ?g" by (simp add: gdt_ok_def)
  moreover have "canonical (VirtAddr 0x5000)" "canonical (VirtAddr 0x6000)" by (simp_all add: canonical_iff_unat)
  ultimately obtain s1 s2 l where "Gdt_load (std_extern True) std_cpu 0x5000 ?g std_machine = Some s1"
      "Idt_load std_cpu 0x6000 s1 = Some s2" "sgdt std_cpu s2 = Some \<lparr>limit = l, base = VirtAddr 0x5000\<rparr>"
      "unat l + 1 = 8 * unat (gdt_len ?g)"
    using loaded_tables_are_active [OF std_cpu_ok, of "0x5000" "0x6000" ?g "std_extern True" std_machine] by blast
  moreover from this have "l = 23" by (simp add: word_unat_eq_iff)
  ultimately show ?thesis by blast
qed

end
