(* ===== verification/Debug_Registers.thy ===== *)
theory Debug_Registers
  imports Cpu
begin

text \<open>
  The debug registers (\<open>registers/debug.rs\<close>): the address registers, the status register \<open>DR6\<close>, and the
  control register \<open>DR7\<close> with its flags and, for each address register, a condition and a size field.
\<close>

section \<open>Address registers\<close>

datatype DebugAddressRegisterNumber = Dr0 | Dr1 | Dr2 | Dr3

definition DebugAddressRegisterNumber_new :: "u8 \<Rightarrow> DebugAddressRegisterNumber option" where
  "DebugAddressRegisterNumber_new n =
     (if n = 0 then Some Dr0
      else if n = 1 then Some Dr1
      else if n = 2 then Some Dr2
      else if n = 3 then Some Dr3
      else None)"

fun DebugAddressRegisterNumber_get :: "DebugAddressRegisterNumber \<Rightarrow> u8" where
  "DebugAddressRegisterNumber_get Dr0 = 0"
| "DebugAddressRegisterNumber_get Dr1 = 1"
| "DebugAddressRegisterNumber_get Dr2 = 2"
| "DebugAddressRegisterNumber_get Dr3 = 3"

text \<open>
  The macro \<open>debug_address_register\<close>: one type per register, here its number, with the instructions on
  the register of the same name.
\<close>

fun dr_name :: "DebugAddressRegisterNumber \<Rightarrow> register" where
  "dr_name Dr0 = DR0"
| "dr_name Dr1 = DR1"
| "dr_name Dr2 = DR2"
| "dr_name Dr3 = DR3"

definition Dr_read :: "'c cpu \<Rightarrow> DebugAddressRegisterNumber \<Rightarrow> 'c \<Rightarrow> u64" where
  "Dr_read C n s = mov_from C (dr_name n) s"

definition Dr_write :: "'c cpu \<Rightarrow> DebugAddressRegisterNumber \<Rightarrow> u64 \<Rightarrow> 'c \<Rightarrow> 'c" where
  "Dr_write C n addr s = mov_to C (dr_name n) addr s"

section \<open>The status register\<close>

type_synonym Dr6Flags = u64

definition Dr6Flags_TRAP0 :: Dr6Flags where "Dr6Flags_TRAP0 = 1"
definition Dr6Flags_TRAP1 :: Dr6Flags where "Dr6Flags_TRAP1 = push_bit 1 1"
definition Dr6Flags_TRAP2 :: Dr6Flags where "Dr6Flags_TRAP2 = push_bit 2 1"
definition Dr6Flags_TRAP3 :: Dr6Flags where "Dr6Flags_TRAP3 = push_bit 3 1"
definition Dr6Flags_TRAP :: Dr6Flags where "Dr6Flags_TRAP = Dr6Flags_TRAP0 OR Dr6Flags_TRAP1 OR Dr6Flags_TRAP2 OR Dr6Flags_TRAP3"
definition Dr6Flags_ACCESS_DETECTED :: Dr6Flags where "Dr6Flags_ACCESS_DETECTED = push_bit 13 1"
definition Dr6Flags_STEP :: Dr6Flags where "Dr6Flags_STEP = push_bit 14 1"
definition Dr6Flags_SWITCH :: Dr6Flags where "Dr6Flags_SWITCH = push_bit 15 1"
definition Dr6Flags_RTM :: Dr6Flags where "Dr6Flags_RTM = push_bit 16 1"

definition Dr6Flags_all :: Dr6Flags where
  "Dr6Flags_all = fold (OR) [Dr6Flags_TRAP0, Dr6Flags_TRAP1, Dr6Flags_TRAP2, Dr6Flags_TRAP3, Dr6Flags_TRAP,
     Dr6Flags_ACCESS_DETECTED, Dr6Flags_STEP, Dr6Flags_SWITCH, Dr6Flags_RTM] 0"

lemmas Dr6Flags_defs = Dr6Flags_TRAP0_def Dr6Flags_TRAP1_def Dr6Flags_TRAP2_def Dr6Flags_TRAP3_def
  Dr6Flags_TRAP_def Dr6Flags_ACCESS_DETECTED_def Dr6Flags_STEP_def Dr6Flags_SWITCH_def
  Dr6Flags_RTM_def Dr6Flags_all_def

fun Dr6Flags_trap :: "DebugAddressRegisterNumber \<Rightarrow> Dr6Flags" where
  "Dr6Flags_trap Dr0 = Dr6Flags_TRAP0"
| "Dr6Flags_trap Dr1 = Dr6Flags_TRAP1"
| "Dr6Flags_trap Dr2 = Dr6Flags_TRAP2"
| "Dr6Flags_trap Dr3 = Dr6Flags_TRAP3"

definition Dr6_read_raw :: "'c cpu \<Rightarrow> 'c \<Rightarrow> u64" where
  "Dr6_read_raw C s = mov_from C DR6 s"

definition Dr6_read :: "extern \<Rightarrow> 'c cpu \<Rightarrow> 'c \<Rightarrow> Dr6Flags" where
  "Dr6_read X C s = bitflags_from_bits_truncate X Dr6Flags_all (Dr6_read_raw C s)"

section \<open>The flags of the control register\<close>

type_synonym Dr7Flags = u64

definition Dr7Flags_LOCAL_BREAKPOINT_0_ENABLE :: Dr7Flags where "Dr7Flags_LOCAL_BREAKPOINT_0_ENABLE = 1"
definition Dr7Flags_LOCAL_BREAKPOINT_1_ENABLE :: Dr7Flags where "Dr7Flags_LOCAL_BREAKPOINT_1_ENABLE = push_bit 2 1"
definition Dr7Flags_LOCAL_BREAKPOINT_2_ENABLE :: Dr7Flags where "Dr7Flags_LOCAL_BREAKPOINT_2_ENABLE = push_bit 4 1"
definition Dr7Flags_LOCAL_BREAKPOINT_3_ENABLE :: Dr7Flags where "Dr7Flags_LOCAL_BREAKPOINT_3_ENABLE = push_bit 6 1"
definition Dr7Flags_GLOBAL_BREAKPOINT_0_ENABLE :: Dr7Flags where "Dr7Flags_GLOBAL_BREAKPOINT_0_ENABLE = push_bit 1 1"
definition Dr7Flags_GLOBAL_BREAKPOINT_1_ENABLE :: Dr7Flags where "Dr7Flags_GLOBAL_BREAKPOINT_1_ENABLE = push_bit 3 1"
definition Dr7Flags_GLOBAL_BREAKPOINT_2_ENABLE :: Dr7Flags where "Dr7Flags_GLOBAL_BREAKPOINT_2_ENABLE = push_bit 5 1"
definition Dr7Flags_GLOBAL_BREAKPOINT_3_ENABLE :: Dr7Flags where "Dr7Flags_GLOBAL_BREAKPOINT_3_ENABLE = push_bit 7 1"
definition Dr7Flags_LOCAL_EXACT_BREAKPOINT_ENABLE :: Dr7Flags where "Dr7Flags_LOCAL_EXACT_BREAKPOINT_ENABLE = push_bit 8 1"
definition Dr7Flags_GLOBAL_EXACT_BREAKPOINT_ENABLE :: Dr7Flags where "Dr7Flags_GLOBAL_EXACT_BREAKPOINT_ENABLE = push_bit 9 1"
definition Dr7Flags_RESTRICTED_TRANSACTIONAL_MEMORY :: Dr7Flags where "Dr7Flags_RESTRICTED_TRANSACTIONAL_MEMORY = push_bit 11 1"
definition Dr7Flags_GENERAL_DETECT_ENABLE :: Dr7Flags where "Dr7Flags_GENERAL_DETECT_ENABLE = push_bit 13 1"

definition Dr7Flags_all :: Dr7Flags where
  "Dr7Flags_all = fold (OR) [Dr7Flags_LOCAL_BREAKPOINT_0_ENABLE, Dr7Flags_LOCAL_BREAKPOINT_1_ENABLE,
     Dr7Flags_LOCAL_BREAKPOINT_2_ENABLE, Dr7Flags_LOCAL_BREAKPOINT_3_ENABLE,
     Dr7Flags_GLOBAL_BREAKPOINT_0_ENABLE, Dr7Flags_GLOBAL_BREAKPOINT_1_ENABLE,
     Dr7Flags_GLOBAL_BREAKPOINT_2_ENABLE, Dr7Flags_GLOBAL_BREAKPOINT_3_ENABLE,
     Dr7Flags_LOCAL_EXACT_BREAKPOINT_ENABLE, Dr7Flags_GLOBAL_EXACT_BREAKPOINT_ENABLE,
     Dr7Flags_RESTRICTED_TRANSACTIONAL_MEMORY, Dr7Flags_GENERAL_DETECT_ENABLE] 0"

lemmas Dr7Flags_defs = Dr7Flags_LOCAL_BREAKPOINT_0_ENABLE_def Dr7Flags_LOCAL_BREAKPOINT_1_ENABLE_def
  Dr7Flags_LOCAL_BREAKPOINT_2_ENABLE_def Dr7Flags_LOCAL_BREAKPOINT_3_ENABLE_def
  Dr7Flags_GLOBAL_BREAKPOINT_0_ENABLE_def Dr7Flags_GLOBAL_BREAKPOINT_1_ENABLE_def
  Dr7Flags_GLOBAL_BREAKPOINT_2_ENABLE_def Dr7Flags_GLOBAL_BREAKPOINT_3_ENABLE_def
  Dr7Flags_LOCAL_EXACT_BREAKPOINT_ENABLE_def Dr7Flags_GLOBAL_EXACT_BREAKPOINT_ENABLE_def
  Dr7Flags_RESTRICTED_TRANSACTIONAL_MEMORY_def Dr7Flags_GENERAL_DETECT_ENABLE_def
  Dr7Flags_all_def

fun local_breakpoint_enable :: "DebugAddressRegisterNumber \<Rightarrow> Dr7Flags" where
  "local_breakpoint_enable Dr0 = Dr7Flags_LOCAL_BREAKPOINT_0_ENABLE"
| "local_breakpoint_enable Dr1 = Dr7Flags_LOCAL_BREAKPOINT_1_ENABLE"
| "local_breakpoint_enable Dr2 = Dr7Flags_LOCAL_BREAKPOINT_2_ENABLE"
| "local_breakpoint_enable Dr3 = Dr7Flags_LOCAL_BREAKPOINT_3_ENABLE"

fun global_breakpoint_enable :: "DebugAddressRegisterNumber \<Rightarrow> Dr7Flags" where
  "global_breakpoint_enable Dr0 = Dr7Flags_GLOBAL_BREAKPOINT_0_ENABLE"
| "global_breakpoint_enable Dr1 = Dr7Flags_GLOBAL_BREAKPOINT_1_ENABLE"
| "global_breakpoint_enable Dr2 = Dr7Flags_GLOBAL_BREAKPOINT_2_ENABLE"
| "global_breakpoint_enable Dr3 = Dr7Flags_GLOBAL_BREAKPOINT_3_ENABLE"

section \<open>The fields of the control register\<close>

datatype BreakpointCondition = InstructionExecution | DataWrites | IoReadsWrites | DataReadsWrites

fun BreakpointCondition_as_u64 :: "BreakpointCondition \<Rightarrow> u64" where
  "BreakpointCondition_as_u64 InstructionExecution = 0b00"
| "BreakpointCondition_as_u64 DataWrites = 0b01"
| "BreakpointCondition_as_u64 IoReadsWrites = 0b10"
| "BreakpointCondition_as_u64 DataReadsWrites = 0b11"

definition BreakpointCondition_from_bits :: "u64 \<Rightarrow> BreakpointCondition option" where
  "BreakpointCondition_from_bits bits =
     (if bits = 0b00 then Some InstructionExecution
      else if bits = 0b01 then Some DataWrites
      else if bits = 0b10 then Some IoReadsWrites
      else if bits = 0b11 then Some DataReadsWrites
      else None)"

definition BreakpointCondition_bit_range :: "DebugAddressRegisterNumber \<Rightarrow> nat \<times> nat" where
  "BreakpointCondition_bit_range n =
     (let lsb = unat (16 + 4 * DebugAddressRegisterNumber_get n) in (lsb, lsb + 2))"

datatype BreakpointSize = Length1B | Length2B | Length8B | Length4B

fun BreakpointSize_as_u64 :: "BreakpointSize \<Rightarrow> u64" where
  "BreakpointSize_as_u64 Length1B = 0b00"
| "BreakpointSize_as_u64 Length2B = 0b01"
| "BreakpointSize_as_u64 Length8B = 0b10"
| "BreakpointSize_as_u64 Length4B = 0b11"

definition BreakpointSize_new :: "usize \<Rightarrow> BreakpointSize option" where
  "BreakpointSize_new sz =
     (if sz = 1 then Some Length1B
      else if sz = 2 then Some Length2B
      else if sz = 8 then Some Length8B
      else if sz = 4 then Some Length4B
      else None)"

definition BreakpointSize_from_bits :: "u64 \<Rightarrow> BreakpointSize option" where
  "BreakpointSize_from_bits bits =
     (if bits = 0b00 then Some Length1B
      else if bits = 0b01 then Some Length2B
      else if bits = 0b10 then Some Length8B
      else if bits = 0b11 then Some Length4B
      else None)"

definition BreakpointSize_bit_range :: "DebugAddressRegisterNumber \<Rightarrow> nat \<times> nat" where
  "BreakpointSize_bit_range n =
     (let lsb = unat (18 + 4 * DebugAddressRegisterNumber_get n) in (lsb, lsb + 2))"

record Dr7Value =
  dr7_bits :: u64

definition Dr7Value_valid_bits :: u64 where
  "Dr7Value_valid_bits =
     (let field_valid_bits = push_bit 32 1 - push_bit 16 1;
          flag_valid_bits = Dr7Flags_all
      in field_valid_bits OR flag_valid_bits)"

definition Dr7Value_from_bits :: "u64 \<Rightarrow> Dr7Value option" where
  "Dr7Value_from_bits bits =
     (if bits AND NOT Dr7Value_valid_bits = 0 then Some \<lparr>dr7_bits = bits\<rparr> else None)"

definition Dr7Value_from_bits_truncate :: "u64 \<Rightarrow> Dr7Value" where
  "Dr7Value_from_bits_truncate bits = \<lparr>dr7_bits = bits AND Dr7Value_valid_bits\<rparr>"

definition Dr7Value_from_bits_unchecked :: "u64 \<Rightarrow> Dr7Value" where
  "Dr7Value_from_bits_unchecked bits = \<lparr>dr7_bits = bits\<rparr>"

definition Dr7Value_from :: "Dr7Flags \<Rightarrow> Dr7Value" where
  "Dr7Value_from dr7_flags = Dr7Value_from_bits_truncate dr7_flags"

definition Dr7Value_bits :: "Dr7Value \<Rightarrow> u64" where
  "Dr7Value_bits self = dr7_bits self"

definition Dr7Value_flags :: "extern \<Rightarrow> Dr7Value \<Rightarrow> Dr7Flags" where
  "Dr7Value_flags X self = bitflags_from_bits_truncate X Dr7Flags_all (dr7_bits self)"

definition Dr7Value_insert_flags :: "Dr7Value \<Rightarrow> Dr7Flags \<Rightarrow> Dr7Value" where
  "Dr7Value_insert_flags self flags = self\<lparr>dr7_bits := dr7_bits self OR flags\<rparr>"

definition Dr7Value_remove_flags :: "Dr7Value \<Rightarrow> Dr7Flags \<Rightarrow> Dr7Value" where
  "Dr7Value_remove_flags self flags = self\<lparr>dr7_bits := dr7_bits self AND NOT flags\<rparr>"

definition Dr7Value_toggle_flags :: "Dr7Value \<Rightarrow> Dr7Flags \<Rightarrow> Dr7Value" where
  "Dr7Value_toggle_flags self flags = self\<lparr>dr7_bits := dr7_bits self XOR flags\<rparr>"

definition Dr7Value_set_flags :: "Dr7Value \<Rightarrow> Dr7Flags \<Rightarrow> bool \<Rightarrow> Dr7Value" where
  "Dr7Value_set_flags self flags value =
     (if value then Dr7Value_insert_flags self flags else Dr7Value_remove_flags self flags)"

definition condition :: "extern \<Rightarrow> Dr7Value \<Rightarrow> DebugAddressRegisterNumber \<Rightarrow> BreakpointCondition option" where
  "condition X self n = do {
     let (lo, hi) = BreakpointCondition_bit_range n;
     bits \<leftarrow> get_bits X (dr7_bits self) lo hi;
     BreakpointCondition_from_bits bits
   }"

definition set_condition ::
  "extern \<Rightarrow> Dr7Value \<Rightarrow> DebugAddressRegisterNumber \<Rightarrow> BreakpointCondition \<Rightarrow> Dr7Value option" where
  "set_condition X self n cond = do {
     let (lo, hi) = BreakpointCondition_bit_range n;
     bits \<leftarrow> set_bits X (dr7_bits self) lo hi (BreakpointCondition_as_u64 cond);
     Some (self\<lparr>dr7_bits := bits\<rparr>)
   }"

definition Dr7Value_size :: "extern \<Rightarrow> Dr7Value \<Rightarrow> DebugAddressRegisterNumber \<Rightarrow> BreakpointSize option" where
  "Dr7Value_size X self n = do {
     let (lo, hi) = BreakpointSize_bit_range n;
     bits \<leftarrow> get_bits X (dr7_bits self) lo hi;
     BreakpointSize_from_bits bits
   }"

definition set_size :: "extern \<Rightarrow> Dr7Value \<Rightarrow> DebugAddressRegisterNumber \<Rightarrow> BreakpointSize \<Rightarrow> Dr7Value option" where
  "set_size X self n sz = do {
     let (lo, hi) = BreakpointSize_bit_range n;
     bits \<leftarrow> set_bits X (dr7_bits self) lo hi (BreakpointSize_as_u64 sz);
     Some (self\<lparr>dr7_bits := bits\<rparr>)
   }"

section \<open>Access to the control register\<close>

definition Dr7_read_raw :: "'c cpu \<Rightarrow> 'c \<Rightarrow> u64" where
  "Dr7_read_raw C s = mov_from C DR7 s"

definition Dr7_read :: "'c cpu \<Rightarrow> 'c \<Rightarrow> Dr7Value" where
  "Dr7_read C s = Dr7Value_from_bits_truncate (Dr7_read_raw C s)"

definition Dr7_write_raw :: "'c cpu \<Rightarrow> u64 \<Rightarrow> 'c \<Rightarrow> 'c" where
  "Dr7_write_raw C value s = mov_to C DR7 value s"

definition Dr7_write :: "'c cpu \<Rightarrow> Dr7Value \<Rightarrow> 'c \<Rightarrow> 'c" where
  "Dr7_write C value s =
     (let old_value = Dr7_read_raw C s;
          reserved = old_value AND NOT Dr7Value_valid_bits;
          new_value = reserved OR Dr7Value_bits value
      in Dr7_write_raw C new_value s)"

definition Dr7_update :: "'c cpu \<Rightarrow> (Dr7Value, 'c) updater \<Rightarrow> 'c \<Rightarrow> 'c option" where
  "Dr7_update C f s = do {
     (value, s) \<leftarrow> f (Dr7_read C s) s;
     Some (Dr7_write C value s)
   }"

section \<open>The control register as independent fields\<close>

text \<open>
  A value is its flags and, for each address register, the two bits of the condition and of the size.
  Every setter changes its own field only.
\<close>

definition dr7_ok :: "Dr7Value \<Rightarrow> bool" where
  "dr7_ok v \<longleftrightarrow> dr7_bits v AND NOT Dr7Value_valid_bits = 0"

fun dr_index :: "DebugAddressRegisterNumber \<Rightarrow> nat" where
  "dr_index Dr0 = 0"
| "dr_index Dr1 = 1"
| "dr_index Dr2 = 2"
| "dr_index Dr3 = 3"

lemma dr_index_lt: "dr_index n < 4"
  by (cases n) simp_all

lemma dr_index_inj: "dr_index n = dr_index m \<longleftrightarrow> n = m"
  by (cases n; cases m) simp_all

lemma bit_ranges:
  "BreakpointCondition_bit_range n = (16 + 4 * dr_index n, 18 + 4 * dr_index n)"
  "BreakpointSize_bit_range n = (18 + 4 * dr_index n, 20 + 4 * dr_index n)"
  by (cases n; simp add: BreakpointCondition_bit_range_def BreakpointSize_bit_range_def)+

lemma dr7_flags_alt: "Dr7Flags_all = mask 10 OR push_bit 11 1 OR push_bit 13 1"
  by (simp add: Dr7Flags_defs mask_eq_exp_minus_1)

lemma valid_bits_alt: "Dr7Value_valid_bits = push_bit 16 (mask 16) OR Dr7Flags_all"
  by (simp add: Dr7Value_valid_bits_def mask_eq_exp_minus_1)

lemma bit_valid_bits: "bit Dr7Value_valid_bits k \<longleftrightarrow> (16 \<le> k \<and> k < 32) \<or> bit Dr7Flags_all k"
  by (auto simp: valid_bits_alt bit_simps)

lemma bit_dr7_flags: "bit Dr7Flags_all k \<longleftrightarrow> k < 10 \<or> k = 11 \<or> k = 13"
  unfolding dr7_flags_alt bit_or_iff bit_mask_iff bit_push_bit_iff bit_1_iff by auto

lemma dr7_ok_bit: "dr7_ok v \<Longrightarrow> bit (dr7_bits v) k \<Longrightarrow> (16 \<le> k \<and> k < 32) \<or> k < 10 \<or> k = 11 \<or> k = 13"
  using flags_subset [of "dr7_bits v" Dr7Value_valid_bits k]
  by (auto simp: dr7_ok_def bit_valid_bits bit_dr7_flags)

lemma dr7_okI: "(\<And>k. bit (dr7_bits v) k \<Longrightarrow> (16 \<le> k \<and> k < 32) \<or> bit Dr7Flags_all k) \<Longrightarrow> dr7_ok v"
  unfolding dr7_ok_def by (rule bit_word_eqI) (auto simp: bit_simps bit_valid_bits)

lemma cond_from_as [simp]: "BreakpointCondition_from_bits (BreakpointCondition_as_u64 c) = Some c"
  "take_bit 2 (BreakpointCondition_as_u64 c) = BreakpointCondition_as_u64 c"
  by (cases c; simp add: BreakpointCondition_from_bits_def)+

lemma size_from_as [simp]: "BreakpointSize_from_bits (BreakpointSize_as_u64 z) = Some z"
  "take_bit 2 (BreakpointSize_as_u64 z) = BreakpointSize_as_u64 z"
  by (cases z; simp add: BreakpointSize_from_bits_def)+

lemma take_bit_2_cases: "take_bit 2 (w :: u64) = 0 \<or> take_bit 2 w = 1 \<or> take_bit 2 w = 2 \<or> take_bit 2 w = 3"
proof -
  have "unat (take_bit 2 w) < 4" by (simp add: unat_take_bit)
  then have "unat (take_bit 2 w) = unat (0 :: u64) \<or> unat (take_bit 2 w) = unat (1 :: u64) \<or>
      unat (take_bit 2 w) = unat (2 :: u64) \<or> unat (take_bit 2 w) = unat (3 :: u64)" by simp linarith
  then show ?thesis by (simp only: word_unat_eq_iff)
qed

context extern_ok
begin

lemma condition_eq: "condition X v n = BreakpointCondition_from_bits (get_range (dr7_bits v) (16 + 4 * dr_index n) (18 + 4 * dr_index n))"
  using dr_index_lt [of n] by (simp add: condition_def bit_ranges)

lemma size_eq: "Dr7Value_size X v n = BreakpointSize_from_bits (get_range (dr7_bits v) (18 + 4 * dr_index n) (20 + 4 * dr_index n))"
  using dr_index_lt [of n] by (simp add: Dr7Value_size_def bit_ranges)

lemma fields_total: "\<exists>c. condition X v n = Some c" "\<exists>z. Dr7Value_size X v n = Some z"
  using take_bit_2_cases [of "drop_bit (16 + 4 * dr_index n) (dr7_bits v)"]
    take_bit_2_cases [of "drop_bit (18 + 4 * dr_index n) (dr7_bits v)"]
  by (auto simp: condition_eq size_eq get_range_def BreakpointCondition_from_bits_def BreakpointSize_from_bits_def)

lemma dr7_flags_eq: "Dr7Value_flags X v = dr7_bits v AND Dr7Flags_all"
  by (simp add: Dr7Value_flags_def)

text \<open>Overwriting one of the two-bit fields between bit 16 and bit 31.\<close>

lemma set_field:
  fixes v :: Dr7Value
  assumes "16 \<le> lo" "lo \<le> 30" "take_bit 2 w = w"
  defines "v' \<equiv> v\<lparr>dr7_bits := set_range (dr7_bits v) lo (lo + 2) w\<rparr>"
  shows "Dr7Value_flags X v' = Dr7Value_flags X v" "dr7_ok v \<Longrightarrow> dr7_ok v'"
    "a + 2 \<le> lo \<or> lo + 2 \<le> a \<Longrightarrow> a \<le> 30 \<Longrightarrow> get_range (dr7_bits v') a (a + 2) = get_range (dr7_bits v) a (a + 2)"
    "get_range (dr7_bits v') lo (lo + 2) = w"
proof -
  have b: "bit (dr7_bits v') k \<longleftrightarrow> (if lo \<le> k \<and> k < lo + 2 then bit w (k - lo) else bit (dr7_bits v) k)" if "k < 64" for k
    unfolding v'_def using that assms(3) by (simp add: bit_set_range)
  show "Dr7Value_flags X v' = Dr7Value_flags X v"
    unfolding dr7_flags_eq by (rule bit_word_eqI) (use b assms(1) in \<open>auto simp: bit_simps bit_dr7_flags\<close>)
  show "dr7_ok v'" if "dr7_ok v"
  proof (rule dr7_okI)
    fix k assume k: "bit (dr7_bits v') k"
    then have "k < 64" using bit_imp_le_length by fastforce
    with b [OF this] k dr7_ok_bit [OF that, of k] assms(1,2)
    show "(16 \<le> k \<and> k < 32) \<or> bit Dr7Flags_all k" by (auto simp: bit_dr7_flags split: if_splits)
  qed
  show "get_range (dr7_bits v') a (a + 2) = get_range (dr7_bits v) a (a + 2)"
    if "a + 2 \<le> lo \<or> lo + 2 \<le> a" "a \<le> 30"
    unfolding v'_def using that assms(3) by (simp add: set_range_other)
  show "get_range (dr7_bits v') lo (lo + 2) = w"
    unfolding v'_def using assms(2,3) by (simp add: set_range_same)
qed

text \<open>What a setter does, over the view of a value as its flags, conditions and sizes.\<close>

lemma condition_size_eq:
  "condition X v n = BreakpointCondition_from_bits (get_range (dr7_bits v) (16 + 4 * dr_index n) (16 + 4 * dr_index n + 2))"
  "Dr7Value_size X v n = BreakpointSize_from_bits (get_range (dr7_bits v) (18 + 4 * dr_index n) (18 + 4 * dr_index n + 2))"
  by (simp_all add: condition_eq size_eq)

lemma index_apart: "m \<noteq> n \<Longrightarrow> 4 * dr_index m + 4 \<le> 4 * dr_index n \<or> 4 * dr_index n + 4 \<le> 4 * dr_index m"
  using dr_index_inj [of m n] by linarith

lemma index_bound: "16 + 4 * dr_index m \<le> 30" "18 + 4 * dr_index m \<le> 30"
  using dr_index_lt [of m] by simp_all

lemma set_condition_spec:
  "\<exists>v'. set_condition X v n c = Some v' \<and> (dr7_ok v \<longrightarrow> dr7_ok v') \<and> Dr7Value_flags X v' = Dr7Value_flags X v \<and>
    (\<forall>m. condition X v' m = (if m = n then Some c else condition X v m)) \<and> (\<forall>m. Dr7Value_size X v' m = Dr7Value_size X v m)"
proof -
  define lo where "lo = 16 + 4 * dr_index n"
  have lo: "16 \<le> lo" "lo \<le> 30" using index_bound by (simp_all add: lo_def)
  define v' where "v' = v\<lparr>dr7_bits := set_range (dr7_bits v) lo (lo + 2) (BreakpointCondition_as_u64 c)\<rparr>"
  note f = set_field [OF lo cond_from_as(2) [of c], where v = v, folded v'_def]
  have "set_condition X v n c = Some v'"
    using lo by (simp add: set_condition_def bit_ranges v'_def lo_def)
  moreover have "condition X v' m = (if m = n then Some c else condition X v m)" for m
  proof (cases "m = n")
    case True
    then show ?thesis using f(4) by (simp add: condition_size_eq(1) lo_def)
  next
    case False
    then have "16 + 4 * dr_index m + 2 \<le> lo \<or> lo + 2 \<le> 16 + 4 * dr_index m"
      using index_apart [OF False] unfolding lo_def by linarith
    with False show ?thesis
      using f(3) [OF _ index_bound(1)] by (simp only: condition_size_eq(1) if_False)
  qed
  moreover have "Dr7Value_size X v' m = Dr7Value_size X v m" for m
  proof -
    have "18 + 4 * dr_index m + 2 \<le> lo \<or> lo + 2 \<le> 18 + 4 * dr_index m"
      using index_apart [of m n] unfolding lo_def by (cases "m = n") auto
    then show ?thesis using f(3) [OF _ index_bound(2)] by (simp only: condition_size_eq(2))
  qed
  ultimately show ?thesis using f(1,2) by blast
qed

lemma set_size_spec:
  "\<exists>v'. set_size X v n z = Some v' \<and> (dr7_ok v \<longrightarrow> dr7_ok v') \<and> Dr7Value_flags X v' = Dr7Value_flags X v \<and>
    (\<forall>m. condition X v' m = condition X v m) \<and> (\<forall>m. Dr7Value_size X v' m = (if m = n then Some z else Dr7Value_size X v m))"
proof -
  define lo where "lo = 18 + 4 * dr_index n"
  have lo: "16 \<le> lo" "lo \<le> 30" using index_bound by (simp_all add: lo_def)
  define v' where "v' = v\<lparr>dr7_bits := set_range (dr7_bits v) lo (lo + 2) (BreakpointSize_as_u64 z)\<rparr>"
  note f = set_field [OF lo size_from_as(2) [of z], where v = v, folded v'_def]
  have "set_size X v n z = Some v'"
    using lo by (simp add: set_size_def bit_ranges v'_def lo_def)
  moreover have "Dr7Value_size X v' m = (if m = n then Some z else Dr7Value_size X v m)" for m
  proof (cases "m = n")
    case True
    then show ?thesis using f(4) by (simp add: condition_size_eq(2) lo_def)
  next
    case False
    then have "18 + 4 * dr_index m + 2 \<le> lo \<or> lo + 2 \<le> 18 + 4 * dr_index m"
      using index_apart [OF False] unfolding lo_def by linarith
    with False show ?thesis
      using f(3) [OF _ index_bound(2)] by (simp only: condition_size_eq(2) if_False)
  qed
  moreover have "condition X v' m = condition X v m" for m
  proof -
    have "16 + 4 * dr_index m + 2 \<le> lo \<or> lo + 2 \<le> 16 + 4 * dr_index m"
      using index_apart [of m n] unfolding lo_def by (cases "m = n") auto
    then show ?thesis using f(3) [OF _ index_bound(1)] by (simp only: condition_size_eq(1))
  qed
  ultimately show ?thesis using f(1,2) by blast
qed

text \<open>Changing flags leaves the fields alone.\<close>

lemma flag_change:
  assumes "\<And>k. 16 \<le> k \<Longrightarrow> k < 32 \<Longrightarrow> bit (dr7_bits v') k = bit (dr7_bits v) k"
  shows "condition X v' m = condition X v m" "Dr7Value_size X v' m = Dr7Value_size X v m"
proof -
  have "get_range (dr7_bits v') a (a + 2) = get_range (dr7_bits v) a (a + 2)" if "16 \<le> a" "a \<le> 30" for a
    by (rule bit_word_eqI) (use assms that in \<open>auto simp: bit_get_range\<close>)
  from this [of "16 + 4 * dr_index m"] this [of "18 + 4 * dr_index m"]
  show "condition X v' m = condition X v m" "Dr7Value_size X v' m = Dr7Value_size X v m"
    using index_bound [of m] by (simp_all add: condition_size_eq)
qed

lemma dr7_flag_bits:
  assumes "fl AND NOT Dr7Flags_all = 0" "bit fl k"
  shows "k < 10 \<or> k = 11 \<or> k = 13"
  using flags_subset [OF assms] by (simp add: bit_dr7_flags)

lemma set_flags_spec:
  fixes v :: Dr7Value and on :: bool
  assumes fl: "fl AND NOT Dr7Flags_all = 0"
  defines "v' \<equiv> Dr7Value_set_flags v fl on"
  shows "condition X v' m = condition X v m" "Dr7Value_size X v' m = Dr7Value_size X v m"
    "Dr7Value_flags X v' = (if on then Dr7Value_flags X v OR fl else Dr7Value_flags X v AND NOT fl)"
    "dr7_ok v \<Longrightarrow> dr7_ok v'"
proof -
  have b: "bit (dr7_bits v') k \<longleftrightarrow> (if bit fl k then on else bit (dr7_bits v) k)" if "k < 64" for k
    using that by (auto simp: v'_def Dr7Value_set_flags_def Dr7Value_insert_flags_def Dr7Value_remove_flags_def bit_simps)
  have "bit (dr7_bits v') k = bit (dr7_bits v) k" if "16 \<le> k" "k < 32" for k
    using dr7_flag_bits [OF fl, of k] that b [of k] by auto
  then show "condition X v' m = condition X v m" "Dr7Value_size X v' m = Dr7Value_size X v m"
    using flag_change by blast+
  show "Dr7Value_flags X v' = (if on then Dr7Value_flags X v OR fl else Dr7Value_flags X v AND NOT fl)"
    unfolding dr7_flags_eq using dr7_flag_bits [OF fl] b
    by (intro bit_word_eqI) (auto simp: bit_simps bit_dr7_flags)
  show "dr7_ok v'" if "dr7_ok v"
  proof (rule dr7_okI)
    fix k assume k: "bit (dr7_bits v') k"
    then have "k < 64" using bit_imp_le_length by fastforce
    with k b [OF this] dr7_flag_bits [OF fl, of k] dr7_ok_bit [OF that, of k]
    show "(16 \<le> k \<and> k < 32) \<or> bit Dr7Flags_all k" by (auto simp: bit_dr7_flags split: if_splits)
  qed
qed

end

sublocale extern_ok \<subseteq> dr7: flag_register Dr7Value_valid_bits "Dr7_read_raw C" "Dr7_write_raw C"
  "\<lambda>s. Dr7Value_bits (Dr7_read C s)" "\<lambda>v. Dr7_write C \<lparr>dr7_bits = v\<rparr>"
  "\<lambda>f. Dr7_update C (\<lambda>v s. map_option (map_prod (\<lambda>b. \<lparr>dr7_bits = b\<rparr>) id) (f (Dr7Value_bits v) s))" for C
  by unfold_locales (auto simp: Dr7_read_def Dr7Value_bits_def Dr7Value_from_bits_truncate_def Dr7_write_def
      Let_def Dr7_update_def split: bind_splits)

end
