(* ===== verification/Register_Properties.thy ===== *)
theory Register_Properties
  imports Debug_Registers Tlb
begin

text \<open>
  The properties of the registers and of the TLB instructions: which value reaches the register, that
  reserved bits survive, that what was written is read back, and that a flush of a range of pages
  covers the range. The witnesses run on the register file \<open>std_cpu\<close>.
\<close>

section \<open>Registers of flags\<close>

text \<open>
  The contract of a write to a register of flags: it replaces the known bits by the given flags and
  keeps the reserved ones.
\<close>

definition keeps_reserved :: "u64 \<Rightarrow> ('c \<Rightarrow> u64) \<Rightarrow> (u64 \<Rightarrow> 'c \<Rightarrow> 'c) \<Rightarrow> (u64 \<Rightarrow> 'c \<Rightarrow> 'c) \<Rightarrow> bool" where
  "keeps_reserved all read_raw write_raw write \<longleftrightarrow> (\<forall>flags s. flags AND NOT all = 0 \<longrightarrow>
     (\<exists>v. write flags s = write_raw v s \<and> v AND all = flags \<and> v AND NOT all = read_raw s AND NOT all))"

lemma keeps_reservedI:
  "flag_register all read_raw write_raw read write update \<Longrightarrow> keeps_reserved all read_raw write_raw write"
  by (simp add: keeps_reserved_def flag_register.write_keeps_reserved)

text \<open>The value of a model specific register, as the instructions \<open>rdmsr\<close> and \<open>wrmsr\<close> see it.\<close>

lemma efer_instructions:
  "Efer_read_raw C s = join_halves (rdmsr C 0xC0000080 s)" "Efer_write_raw C v s = wrmsr C 0xC0000080 (split_halves v) s"
  by (simp_all add: Efer_read_raw_def Efer_write_raw_def Efer_MSR_def Msr_read_join Msr_write_split)

context extern_ok
begin

text \<open>Updating \<open>DR7\<close> with a function that changes nothing.\<close>

lemma dr7_update_nothing: "Dr7_update C (\<lambda>v s. Some (v, s)) s = Some (Dr7_write_raw C (Dr7_read_raw C s) s)"
proof -
  have "\<lparr>dr7_bits = Dr7Value_bits v\<rparr> = v" for v by (simp add: Dr7Value_bits_def)
  with dr7.update_nothing [of C s] show ?thesis by simp
qed

lemma flag_registers:
  "keeps_reserved Cr0Flags_all (Cr0_read_raw C) (Cr0_write_raw C) (Cr0_write C) \<and>
    keeps_reserved Cr4Flags_all (Cr4_read_raw C) (Cr4_write_raw C) (Cr4_write C) \<and>
    keeps_reserved EferFlags_all (Efer_read_raw C) (Efer_write_raw C) (Efer_write C) \<and>
    keeps_reserved RFlags_all (rflags_read_raw C) (rflags_write_raw C) (rflags_write C) \<and>
    keeps_reserved Dr7Value_valid_bits (Dr7_read_raw C) (Dr7_write_raw C) (\<lambda>v. Dr7_write C \<lparr>dr7_bits = v\<rparr>) \<and>
    Cr0_update X C (\<lambda>fl s. Some (fl, s)) s = Some (Cr0_write_raw C (Cr0_read_raw C s) s) \<and>
    Cr4_update X C (\<lambda>fl s. Some (fl, s)) s = Some (Cr4_write_raw C (Cr4_read_raw C s) s) \<and>
    Efer_update X C (\<lambda>fl s. Some (fl, s)) s = Some (Efer_write_raw C (Efer_read_raw C s) s) \<and>
    rflags_update X C (\<lambda>fl s. Some (fl, s)) s = Some (rflags_write_raw C (rflags_read_raw C s) s)"
  by (intro conjI cr0.update_nothing cr4.update_nothing efer.update_nothing rflags.update_nothing
    keeps_reservedI [OF cr0.flag_register_axioms] keeps_reservedI [OF cr4.flag_register_axioms]
    keeps_reservedI [OF efer.flag_register_axioms] keeps_reservedI [OF rflags.flag_register_axioms]
    keeps_reservedI [OF dr7.flag_register_axioms])

end

text \<open>
  C34. Writing the flags of \<open>CR0\<close>, \<open>CR4\<close>, \<open>EFER\<close>, \<open>RFLAGS\<close> and \<open>DR7\<close> reads the register with the
  instruction for it, and writes it with a value that keeps the reserved bits of what was read and sets
  the known bits to the given flags; an update that changes nothing writes back exactly the value that the
  register holds.
\<close>

theorem flag_writes_keep_reserved:
  fixes C :: "'c cpu"
  assumes "extern_ok X"
  shows "keeps_reserved Cr0Flags_all (mov_from C CR0) (mov_to C CR0) (Cr0_write C) \<and>
    keeps_reserved Cr4Flags_all (mov_from C CR4) (mov_to C CR4) (Cr4_write C) \<and>
    keeps_reserved EferFlags_all (\<lambda>s. join_halves (rdmsr C 0xC0000080 s))
      (\<lambda>v. wrmsr C 0xC0000080 (split_halves v)) (Efer_write C) \<and>
    keeps_reserved RFlags_all (pushfq C) (popfq C) (rflags_write C) \<and>
    keeps_reserved Dr7Value_valid_bits (mov_from C DR7) (mov_to C DR7) (\<lambda>v. Dr7_write C \<lparr>dr7_bits = v\<rparr>) \<and>
    Cr0_update X C (\<lambda>fl s. Some (fl, s)) s = Some (mov_to C CR0 (mov_from C CR0 s) s) \<and>
    Cr4_update X C (\<lambda>fl s. Some (fl, s)) s = Some (mov_to C CR4 (mov_from C CR4 s) s) \<and>
    Efer_update X C (\<lambda>fl s. Some (fl, s)) s = Some (wrmsr C 0xC0000080 (rdmsr C 0xC0000080 s) s) \<and>
    rflags_update X C (\<lambda>fl s. Some (fl, s)) s = Some (popfq C (pushfq C s) s) \<and>
    Dr7_update C (\<lambda>v s. Some (v, s)) s = Some (mov_to C DR7 (mov_from C DR7 s) s)"
  using extern_ok.flag_registers [OF assms, of C s] extern_ok.dr7_update_nothing [OF assms, of C s]
  by (simp add: keeps_reserved_def efer_instructions Cr0_read_raw_def Cr0_write_raw_def Cr4_read_raw_def Cr4_write_raw_def
      rflags_read_raw_def rflags_write_raw_def Dr7_read_raw_def Dr7_write_raw_def)

theorem flag_writes_keep_reserved_witness:
  "\<exists>v. Cr0_write std_cpu Cr0Flags_PAGING (std_machine\<lparr>m_regs := (\<lambda>_. 0x100000011)\<rparr>) =
      mov_to std_cpu CR0 v (std_machine\<lparr>m_regs := (\<lambda>_. 0x100000011)\<rparr>) \<and>
    v AND Cr0Flags_all = 0x80000000 \<and> v AND NOT Cr0Flags_all = 0x100000000"
proof -
  have "keeps_reserved Cr0Flags_all (mov_from (std_cpu :: machine cpu) CR0) (mov_to std_cpu CR0) (Cr0_write std_cpu)"
    using flag_writes_keep_reserved [of "std_extern True" std_cpu std_machine] by simp
  then show ?thesis
    unfolding keeps_reserved_def
    by (elim allE [of _ Cr0Flags_PAGING] allE [of _ "std_machine\<lparr>m_regs := (\<lambda>_. 0x100000011)\<rparr>"])
      (simp add: Cr0Flags_defs std_cpu_def)
qed

text \<open>The combinations of state components that the manual allows in \<open>XCR0\<close>.\<close>

definition xcr0_valid :: "u64 \<Rightarrow> bool" where
  "xcr0_valid fl \<longleftrightarrow> bit fl 0 \<and> (bit fl 2 \<longrightarrow> bit fl 1) \<and> (bit fl 3 \<longleftrightarrow> bit fl 4) \<and>
     (bit fl 5 \<longleftrightarrow> bit fl 6) \<and> (bit fl 6 \<longleftrightarrow> bit fl 7) \<and> (bit fl 5 \<longrightarrow> bit fl 2)"

lemma and_zero_bits:
  "fl AND (push_bit a 1 OR push_bit b 1) = 0 \<longleftrightarrow> \<not> bit fl a \<and> \<not> bit (fl :: u64) b" if "a < 64" "b < 64"
proof
  assume z: "fl AND (push_bit a 1 OR push_bit b 1) = 0"
  have "\<not> bit (fl AND (push_bit a 1 OR push_bit b 1)) k" for k unfolding z by simp
  from this [of a] this [of b] that show "\<not> bit fl a \<and> \<not> bit fl b" by (auto simp: bit_simps)
qed (rule bit_word_eqI, auto simp: bit_simps)

lemma and_or_eq: "fl AND (x OR y) = x OR y \<longleftrightarrow> fl AND x = x \<and> fl AND y = (y :: u64)"
proof
  assume e: "fl AND (x OR y) = x OR y"
  have "bit (fl AND (x OR y)) k = bit (x OR y) k" for k unfolding e ..
  then have "bit x k \<longrightarrow> bit fl k" "bit y k \<longrightarrow> bit fl k" for k by (auto simp: bit_simps)
  then show "fl AND x = x \<and> fl AND y = y" by (auto intro!: bit_word_eqI simp: bit_simps)
qed (simp add: bit.conj_disj_distrib)

text \<open>
  C35. \<open>XCr0::write\<close> accepts exactly the combinations of flags that the manual allows (x87 always, SSE
  with AVX, the two MPX flags together, the three AVX-512 flags together and only with AVX) and panics
  on every other; an accepted write keeps the reserved bits and sets the flags.
\<close>

theorem xcr0_write_exact:
  assumes "extern_ok X"
  shows "XCr0_write X C flags s = (if xcr0_valid flags
    then Some (XCr0_write_raw C ((XCr0_read_raw C s AND NOT XCr0Flags_all) OR flags) s) else panic)"
proof -
  have c: "flags AND push_bit k 1 = push_bit k 1 \<longleftrightarrow> bit flags k" if "k < 64" for k
    using that by (simp only: and_single_bit simp_thms)
  have x87: "flags AND XCr0Flags_X87 = XCr0Flags_X87 \<longleftrightarrow> bit flags 0"
    using c [of 0] by (simp add: XCr0Flags_X87_def)
  have three: "flags AND ((push_bit 5 1 OR push_bit 6 1) OR push_bit 7 1) = 0 \<longleftrightarrow>
      \<not> bit flags 5 \<and> \<not> bit flags 6 \<and> \<not> bit flags 7"
    using and_zero_bits [of 5 6 flags] and_zero_bits [of 7 7 flags]
    by (simp only: bit.conj_disj_distrib or_eq_0_iff or.idem) simp
  show ?thesis
    unfolding XCr0_write_def extern_ok.contains [OF assms] extern_ok.intersects [OF assms] extern_ok.flags_or [OF assms] Let_def
      x87 XCr0Flags_AVX_def XCr0Flags_SSE_def XCr0Flags_BNDREG_def XCr0Flags_BNDCSR_def XCr0Flags_OPMASK_def
      XCr0Flags_ZMM_HI256_def XCr0Flags_HI16_ZMM_def and_or_eq three
    by (simp only: c and_zero_bits xcr0_valid_def) (auto simp del: push_bit_numeral simp: assert_that_def)
qed

theorem xcr0_write_exact_witness:
  "XCr0_write (std_extern True) std_cpu 7 std_machine = Some (XCr0_write_raw std_cpu 7 std_machine) \<and>
    XCr0_write (std_extern True) std_cpu 5 std_machine = panic"
proof -
  have "xcr0_valid 7" "\<not> xcr0_valid 5" by (simp_all add: xcr0_valid_def)
  moreover have "XCr0_read_raw std_cpu std_machine AND NOT XCr0Flags_all = 0"
    by (simp add: XCr0_read_raw_def std_cpu_def std_machine_def split_halves_def XCr0Flags_defs)
  ultimately show ?thesis
    using xcr0_write_exact [OF std_extern_ok, of True std_cpu 7 std_machine]
      xcr0_write_exact [OF std_extern_ok, of True std_cpu 5 std_machine] by simp
qed

section \<open>\<open>CR3\<close>\<close>

lemma bit_cr3_flags: "bit Cr3Flags_all k \<longleftrightarrow> k = 3 \<or> k = 4" "bit (0x18 :: u16) k \<longleftrightarrow> k = 3 \<or> k = 4"
proof -
  have e: "Cr3Flags_all = push_bit 3 1 OR push_bit 4 1" "(0x18 :: u16) = push_bit 3 1 OR push_bit 4 1"
    by (simp_all add: Cr3Flags_defs)
  show "bit Cr3Flags_all k \<longleftrightarrow> k = 3 \<or> k = 4" "bit (0x18 :: u16) k \<longleftrightarrow> k = 3 \<or> k = 4"
    unfolding e bit_or_iff bit_push_bit_iff bit_1_iff by auto
qed

lemma cr3_flags_bits: "fl AND NOT Cr3Flags_all = 0 \<Longrightarrow> bit fl k \<Longrightarrow> k = 3 \<or> k = 4"
  using flags_subset [of fl Cr3Flags_all k] by (simp add: bit_cr3_flags)

lemma cr3_flags_cast:
  assumes "fl AND NOT Cr3Flags_all = 0"
  shows "take_bit 12 (ucast fl :: u16) = ucast fl" "ucast (ucast fl :: u16) AND Cr3Flags_all = fl"
proof -
  note b = cr3_flags_bits [OF assms] and s = flags_subset [OF assms]
  show "take_bit 12 (ucast fl :: u16) = ucast fl"
    by (rule bit_word_eqI) (use b in \<open>force simp: bit_take_bit_iff bit_ucast_iff\<close>)
  show "ucast (ucast fl :: u16) AND Cr3Flags_all = fl"
    by (rule bit_word_eqI) (use b s in \<open>force simp: bit_and_iff bit_ucast_iff\<close>)
qed

lemma take_bit_12: "n < 4096 \<Longrightarrow> take_bit 12 n = (n :: u16)"
  by (simp add: take_bit_word_eq_self_iff word_less_nat_alt)

text \<open>
  What is written to \<open>CR3\<close> is read back: a frame with cache flags, a frame with a process-context
  identifier, and the latter also when the write asks the CPU not to flush, which sets the top bit of
  the value that the instruction gets and no other bit.
\<close>

theorem cr3_roundtrip:
  assumes "extern_ok X" and "cpu_ok C" and "frame_ok Size4KiB frame" and "flags AND NOT Cr3Flags_all = 0"
    and "Pcid_new n = Inr pcid"
  shows "Cr3_read X C (Cr3_write C frame flags s) = Some (frame, flags) \<and>
    Cr3_read_pcid C (Cr3_write_pcid C frame pcid s) = Some (frame, pcid) \<and>
    Cr3_read_pcid C (Cr3_write_pcid_no_flush C frame pcid s) = Some (frame, pcid) \<and>
    (\<exists>v. \<not> bit v 63 \<and> Cr3_write_pcid C frame pcid s = mov_to C CR3 v s \<and>
       Cr3_write_pcid_no_flush C frame pcid s = mov_to C CR3 (set_bit 63 v) s)"
proof -
  have p: "pcid = Pcid n" "n < 4096" using assms(5) by (auto simp: Pcid_new_def split: if_splits)
  then have n: "take_bit 12 n = n" by (simp only: take_bit_12)
  note raw = cpu_ok.cr3_write_read_raw [OF assms(2,3)]
  have "Cr3_read X C (Cr3_write C frame flags s) = Some (frame, flags)"
    using raw [OF cr3_flags_cast(1) [OF assms(4)]] cr3_flags_cast(2) [OF assms(4)] extern_ok.from_bits_truncate [OF assms(1)]
    by (simp add: Cr3_read_def Cr3_write_def)
  moreover have "Cr3_read_pcid C (Cr3_write_raw_impl C t frame n s) = Some (frame, pcid)" for t
    using raw [OF n] p by (simp add: Cr3_read_pcid_def Pcid_new_def)
  moreover define v where "v = pa (frame_start frame) OR (ucast n :: u64)"
  have "\<not> bit v 63"
    using frame_addr_bits [OF assms(3), of 63] by (auto simp: v_def bit_simps dest: bit_imp_le_length)
  moreover have "Cr3_write_pcid C frame pcid s = mov_to C CR3 v s"
    by (simp add: Cr3_write_pcid_def Cr3_write_raw_impl_def p Pcid_value_def v_def PhysAddr_as_u64_def PhysFrame_start_address_def)
  moreover have "Cr3_write_pcid_no_flush C frame pcid s = mov_to C CR3 (set_bit 63 v) s"
    by (simp add: Cr3_write_pcid_no_flush_def Cr3_write_raw_impl_def p Pcid_value_def v_def PhysAddr_as_u64_def
        PhysFrame_start_address_def set_bit_eq_or or.commute or.left_commute)
  ultimately show ?thesis
    unfolding Cr3_write_pcid_def Cr3_write_pcid_no_flush_def p(1) Pcid_value_def Pcid.sel by blast
qed

theorem cr3_roundtrip_witness:
  "Cr3_read (std_extern True) std_cpu (Cr3_write std_cpu (PhysFrame (PhysAddr 0x5000)) 8 std_machine) =
      Some (PhysFrame (PhysAddr 0x5000), 8) \<and>
    Cr3_read_pcid std_cpu (Cr3_write_pcid_no_flush std_cpu (PhysFrame (PhysAddr 0x5000)) (Pcid 77) std_machine) =
      Some (PhysFrame (PhysAddr 0x5000), Pcid 77)"
proof -
  have "frame_ok Size4KiB (PhysFrame (PhysAddr 0x5000))" by (simp add: frame_ok_def phys_ok_def)
  moreover have "8 AND NOT Cr3Flags_all = 0" by (simp add: Cr3Flags_defs)
  moreover have "Pcid_new 77 = Inr (Pcid 77)" by (simp add: Pcid_new_def)
  ultimately show ?thesis
    using cr3_roundtrip [OF std_extern_ok std_cpu_ok, of "PhysFrame (PhysAddr 0x5000)" 8 77 "Pcid 77" True std_machine] by blast
qed

text \<open>
  C36. Flushing the whole TLB reloads \<open>CR3\<close> through its cache flags: when process-context identifiers are
  in use, the reload changes the current identifier to the bits 3 and 4 of the old one.
\<close>

theorem flush_all_changes_pcid:
  assumes "extern_ok X" and "cpu_ok C" and "Cr3_read_pcid C s = Some (frame, pcid)"
  shows "\<exists>s'. tlb_flush_all X C s = Some s' \<and> Cr3_read_pcid C s' = Some (frame, Pcid (pcid_u16 pcid AND 0x18))"
proof -
  let ?v = "mov_from C CR3 s"
  have raw: "Cr3_read_raw C s = Some (frame, pcid_u16 pcid)" "pcid_u16 pcid < 4096"
    using assms(3) by (auto simp: Cr3_read_pcid_def Pcid_new_def split: bind_splits if_splits)
  have f: "frame_ok Size4KiB frame" using raw(1) by (auto simp: Cr3_read_raw_eq)
  define fl where "fl = ucast (pcid_u16 pcid) AND Cr3Flags_all"
  have fl: "fl AND NOT Cr3Flags_all = 0" by (rule bit_word_eqI) (simp add: fl_def bit_simps)
  have "Cr3_read X C s = Some (frame, fl)"
    using raw extern_ok.from_bits_truncate [OF assms(1)] by (simp add: Cr3_read_def fl_def)
  then have "tlb_flush_all X C s = Some (Cr3_write C frame fl s)" by (simp add: tlb_flush_all_def)
  moreover have "ucast fl = pcid_u16 pcid AND 0x18"
    by (rule bit_word_eqI) (simp only: fl_def bit_cr3_flags bit_ucast_iff bit_and_iff, auto)
  moreover have "pcid_u16 pcid AND 0x18 < 4096"
    using raw(2) word_and_le2 [of "pcid_u16 pcid" "0x18"] by (auto simp: and.commute dest: le_less_trans)
  ultimately show ?thesis
    using cpu_ok.cr3_write_read_raw [OF assms(2) f cr3_flags_cast(1) [OF fl]]
    by (simp add: Cr3_write_def Cr3_read_pcid_def Pcid_new_def)
qed

theorem flush_all_changes_pcid_witness:
  "\<exists>s'. tlb_flush_all (std_extern True) std_cpu (std_machine\<lparr>m_regs := (\<lambda>_. 0x5007)\<rparr>) = Some s' \<and>
    Cr3_read_pcid std_cpu (std_machine\<lparr>m_regs := (\<lambda>_. 0x5007)\<rparr>) = Some (PhysFrame (PhysAddr 0x5000), Pcid 7) \<and>
    Cr3_read_pcid std_cpu s' = Some (PhysFrame (PhysAddr 0x5000), Pcid 0)"
proof -
  have "Cr3_read_pcid std_cpu (std_machine\<lparr>m_regs := (\<lambda>_. 0x5007)\<rparr>) = Some (PhysFrame (PhysAddr 0x5000), Pcid 7)"
    by (simp add: Cr3_read_pcid_def Cr3_read_raw_eq std_cpu_def entry_addr_def ADDR_MASK_def Pcid_new_def)
  from this flush_all_changes_pcid [OF std_extern_ok std_cpu_ok this, of True] show ?thesis by simp
qed

section \<open>Model specific registers\<close>

lemma rpl_bits:
  assumes "extern_ok X"
  shows "\<exists>r. SegmentSelector_rpl X sel = Some r \<and> (r = Ring3 \<longleftrightarrow> selector_u16 sel AND 3 = 3) \<and>
    (r = Ring0 \<longleftrightarrow> selector_u16 sel AND 3 = 0)"
proof -
  let ?w = "selector_u16 sel AND 3"
  have m: "(3 :: u16) = mask 2" by (simp add: mask_eq_exp_minus_1)
  have g: "get_range (selector_u16 sel) 0 2 = ?w"
    unfolding m by (simp add: get_range_def take_bit_eq_mask)
  have "unat ?w < 4" unfolding m by (simp add: unat_take_bit flip: take_bit_eq_mask)
  then have "unat ?w = unat (0 :: u16) \<or> unat ?w = unat (1 :: u16) \<or> unat ?w = unat (2 :: u16) \<or> unat ?w = unat (3 :: u16)"
    by simp linarith
  then have "?w = 0 \<or> ?w = 1 \<or> ?w = 2 \<or> ?w = 3" by (simp only: word_unat_eq_iff)
  then show ?thesis
    using extern_ok.get_bits_u16 [OF assms, of 0 2 "selector_u16 sel"] g
    by (auto simp: SegmentSelector_rpl_def PrivilegeLevel_from_u16_def)
qed

definition star_value :: "u16 \<Rightarrow> u16 \<Rightarrow> u64" where
  "star_value sysret syscall = push_bit 48 (ucast sysret) OR push_bit 32 (ucast syscall)"

lemma take_bit_u16_u64: "take_bit 16 (ucast (a :: u16) :: u64) = ucast a"
  by (rule bit_word_eqI) (auto simp: bit_simps dest: bit_imp_le_length)

lemma Star_write_raw_eq:
  assumes "extern_ok X"
  shows "Star_write_raw X C a b s = Some (Msr_write C Star_MSR (star_value a b) s)"
proof -
  have "set_range (0 :: u64) 48 64 (ucast a) = push_bit 48 (ucast a)" by (subst set_range_or) simp_all
  moreover have "set_range (push_bit 48 (ucast a) :: u64) 32 48 (ucast b) = star_value a b"
    unfolding star_value_def by (rule set_range_or) (simp add: bit_simps)
  ultimately show ?thesis
    using extern_ok.set_bits [OF assms, of 48 64 0 "ucast a"]
      extern_ok.set_bits [OF assms, of 32 48 "push_bit 48 (ucast a)" "ucast b"]
    by (simp add: Star_write_raw_def take_bit_u16_u64)
qed

lemma Star_write_eq:
  assumes "extern_ok X"
  shows "Star_write X C cs_sysret ss_sysret cs_syscall ss_syscall s =
    (if unat (selector_u16 cs_sysret) \<noteq> unat (selector_u16 ss_sysret) + 8 then Some (Inl SysretOffset, s)
     else if unat (selector_u16 ss_syscall) \<noteq> unat (selector_u16 cs_syscall) + 8 then Some (Inl SyscallOffset, s)
     else if selector_u16 ss_sysret AND 3 \<noteq> 3 then Some (Inl SysretPrivilegeLevel, s)
     else if selector_u16 ss_syscall AND 3 \<noteq> 0 then Some (Inl SyscallPrivilegeLevel, s)
     else if overflow_checks X \<and> selector_u16 ss_sysret < 8 then panic
     else Some (Inr (), Msr_write C Star_MSR (star_value (selector_u16 ss_sysret - 8) (selector_u16 cs_syscall)) s))"
proof -
  obtain r3 where r3: "SegmentSelector_rpl X ss_sysret = Some r3" "r3 = Ring3 \<longleftrightarrow> selector_u16 ss_sysret AND 3 = 3"
    using rpl_bits [OF assms] by blast
  obtain r0 where r0: "SegmentSelector_rpl X ss_syscall = Some r0" "r0 = Ring0 \<longleftrightarrow> selector_u16 ss_syscall AND 3 = 0"
    using rpl_bits [OF assms] by blast
  have 1: "uint (selector_u16 cs_sysret) - 16 = uint (selector_u16 ss_sysret) - 8 \<longleftrightarrow>
      unat (selector_u16 cs_sysret) = unat (selector_u16 ss_sysret) + 8"
    unfolding uint_nat by presburger
  have 2: "uint (selector_u16 cs_syscall) = uint (selector_u16 ss_syscall) - 8 \<longleftrightarrow>
      unat (selector_u16 ss_syscall) = unat (selector_u16 cs_syscall) + 8"
    unfolding uint_nat by presburger
  have 3: "sub_op X (selector_u16 ss_sysret) 8 =
      (if overflow_checks X \<and> selector_u16 ss_sysret < 8 then panic else Some (selector_u16 ss_sysret - 8))"
    by (simp add: sub_op_def checked_sub_def not_less)
  show ?thesis
    unfolding Star_write_def Let_def 1 2 3 r3(1) r0(1) bind.bind_lunit Star_write_raw_eq [OF assms] r3(2) r0(2)
    by simp
qed

text \<open>
  C37. \<open>Star::write\<close> on every branch: the four errors in the order of the code, each without touching the
  register, and otherwise the two selectors in their fields. The subtraction of 8 from the \<open>sysret\<close>
  stack selector is not covered by the checks: below 8 it panics in a build with overflow checks and
  wraps around in a build without.
\<close>

theorem star_write_exact:
  assumes "extern_ok X"
  shows "Star_write X C cs_sysret ss_sysret cs_syscall ss_syscall s =
    (if unat (selector_u16 cs_sysret) \<noteq> unat (selector_u16 ss_sysret) + 8 then Some (Inl SysretOffset, s)
     else if unat (selector_u16 ss_syscall) \<noteq> unat (selector_u16 cs_syscall) + 8 then Some (Inl SyscallOffset, s)
     else if selector_u16 ss_sysret AND 3 \<noteq> 3 then Some (Inl SysretPrivilegeLevel, s)
     else if selector_u16 ss_syscall AND 3 \<noteq> 0 then Some (Inl SyscallPrivilegeLevel, s)
     else if overflow_checks X \<and> selector_u16 ss_sysret < 8 then panic
     else Some (Inr (), Msr_write C Star_MSR (star_value (selector_u16 ss_sysret - 8) (selector_u16 cs_syscall)) s))"
  by (rule Star_write_eq [OF assms])

theorem star_write_exact_witness:
  "Star_write (std_extern True) std_cpu (SegmentSelector 0x2b) (SegmentSelector 0x23) (SegmentSelector 8)
      (SegmentSelector 0x10) std_machine =
      Some (Inr (), Msr_write std_cpu Star_MSR 0x001b000800000000 std_machine) \<and>
    Star_write (std_extern True) std_cpu (SegmentSelector 11) (SegmentSelector 3) (SegmentSelector 8)
      (SegmentSelector 0x10) std_machine = panic"
  using star_write_exact [OF std_extern_ok, of True std_cpu "SegmentSelector 0x2b" "SegmentSelector 0x23"
      "SegmentSelector 8" "SegmentSelector 0x10" std_machine]
    star_write_exact [OF std_extern_ok, of True std_cpu "SegmentSelector 11" "SegmentSelector 3"
      "SegmentSelector 8" "SegmentSelector 0x10" std_machine]
  by (simp add: star_value_def)

lemma star_fields: "get_range (star_value a b) 48 64 = ucast a" "get_range (star_value a b) 32 48 = ucast b"
  unfolding star_value_def by (rule bit_word_eqI, auto simp: bit_simps dest: bit_imp_le_length)+

lemma u16_try_from_ucast: "u16_try_from_unwrap (ucast (a :: u16)) = Some a"
proof -
  have "ucast (ucast a :: u64) = a" by (rule bit_word_eqI) (simp add: bit_simps)
  then show ?thesis
    using unsigned_less [of a, where 'a = nat] by (simp add: u16_try_from_unwrap_def unat_ucast_up)
qed

lemma add_op_exact:
  "unat a + unat b < 2 ^ LENGTH('a) \<Longrightarrow> unat c = unat a + unat b \<Longrightarrow> add_op X a b = Some (c :: 'a::len word)"
  by (simp add: add_op_def checked_add_def word_unat_eq_iff unat_add_no_wrap)

text \<open>
  A successful \<open>Star::write\<close> is read back: \<open>Star::read\<close> returns the four selectors, if the \<open>sysret\<close>
  stack selector is at least 8.
\<close>

theorem star_roundtrip:
  assumes X: "extern_ok X" and C: "cpu_ok C" and ge: "8 \<le> selector_u16 ss_sysret"
    and w: "Star_write X C cs_sysret ss_sysret cs_syscall ss_syscall s = Some (Inr (), s')"
  shows "Star_read X C s' = Some (cs_sysret, ss_sysret, cs_syscall, ss_syscall)"
proof -
  let ?a = "selector_u16 ss_sysret - 8" and ?b = "selector_u16 cs_syscall"
  have off: "unat (selector_u16 cs_sysret) = unat (selector_u16 ss_sysret) + 8"
      "unat (selector_u16 ss_syscall) = unat ?b + 8"
    and s': "s' = Msr_write C Star_MSR (star_value ?a ?b) s"
    using w ge unfolding Star_write_eq [OF X] by (auto split: if_splits)
  have "Msr_read C Star_MSR s' = star_value ?a ?b"
    unfolding s' by (rule cpu_ok.msr_read_back [OF C]) simp
  then have raw: "Star_read_raw X C s' = Some (?a, ?b)"
    using extern_ok.get_bits [OF X] by (simp add: Star_read_raw_def star_fields u16_try_from_ucast)
  have ua: "unat ?a = unat (selector_u16 ss_sysret) - 8" "8 \<le> unat (selector_u16 ss_sysret)"
    using ge by (simp_all add: unat_sub_no_wrap word_le_nat_alt)
  have "add_op X ?a 16 = Some (selector_u16 cs_sysret)" "add_op X ?a 8 = Some (selector_u16 ss_sysret)"
      "add_op X ?b 8 = Some (selector_u16 ss_syscall)"
    using off ua unsigned_less [of "selector_u16 cs_sysret", where 'a = nat]
      unsigned_less [of "selector_u16 ss_syscall", where 'a = nat]
    by (simp_all add: add_op_exact)
  with raw show ?thesis by (simp add: Star_read_def)
qed

theorem star_roundtrip_witness:
  "\<exists>s'. Star_write (std_extern True) std_cpu (SegmentSelector 0x2b) (SegmentSelector 0x23) (SegmentSelector 8)
      (SegmentSelector 0x10) std_machine = Some (Inr (), s') \<and>
    Star_read (std_extern True) std_cpu s' =
      Some (SegmentSelector 0x2b, SegmentSelector 0x23, SegmentSelector 8, SegmentSelector 0x10)"
proof -
  obtain s' where s': "Star_write (std_extern True) std_cpu (SegmentSelector 0x2b) (SegmentSelector 0x23) (SegmentSelector 8)
      (SegmentSelector 0x10) std_machine = Some (Inr (), s')"
    by (simp add: Star_write_eq)
  from star_roundtrip [OF std_extern_ok std_cpu_ok _ this] show ?thesis using s' by simp
qed

lemma ADDR_MASK_truncate: "PhysFrame_containing_address Size4KiB (PhysAddr_new_truncate v) = Some (PhysFrame (PhysAddr (v AND ADDR_MASK)))"
  unfolding PhysFrame_containing_address_eq phys_new_truncate
  by (simp only: PhysFrame.sel PhysAddr.sel unat_mask_addr unat_take_bit size_bits.simps)

lemma bit_apic_flags: "bit ApicBaseFlags_all k \<longleftrightarrow> k = 8 \<or> k = 10 \<or> k = 11"
proof -
  have e: "ApicBaseFlags_all = push_bit 8 1 OR push_bit 10 1 OR push_bit 11 1" by (simp add: ApicBaseFlags_defs)
  show ?thesis unfolding e bit_or_iff bit_push_bit_iff bit_1_iff by auto
qed

lemma apic_value_parts:
  fixes old :: u64
  assumes fl: "flags AND NOT ApicBaseFlags_all = 0" and f: "frame_ok Size4KiB frame"
  defines "v \<equiv> ((old AND NOT ApicBaseFlags_all) OR flags) OR pa (frame_start frame)"
  shows "v AND ADDR_MASK = (old AND ADDR_MASK) OR pa (frame_start frame)" "v AND ApicBaseFlags_all = flags"
proof -
  note b = flags_subset [OF fl, unfolded bit_apic_flags] and fb = frame_addr_bits [OF f]
  show "v AND ADDR_MASK = (old AND ADDR_MASK) OR pa (frame_start frame)"
    unfolding v_def by (rule bit_word_eqI) (use b fb in \<open>force simp: bit_simps bit_ADDR_MASK bit_apic_flags\<close>)
  show "v AND ApicBaseFlags_all = flags"
    unfolding v_def by (rule bit_word_eqI) (use b fb in \<open>force simp: bit_simps bit_apic_flags\<close>)
qed

text \<open>
  C38. \<open>ApicBase::write\<close> treats the old base address as reserved bits: the register then holds the
  bitwise union of the old and the new base address, so a base can only be moved to an address that
  has all the bits of the old one. The flags are written as given.
\<close>

theorem apic_base_write_keeps_old_address:
  assumes "extern_ok X" and "cpu_ok C" and "frame_ok Size4KiB frame" and "flags AND NOT ApicBaseFlags_all = 0"
    and "ApicBase_read X C s = Some (old_frame, old_flags)"
  shows "\<exists>s'. ApicBase_write C frame flags s = Some s' \<and>
    ApicBase_read X C s' = Some (PhysFrame (PhysAddr (pa (frame_start old_frame) OR pa (frame_start frame))), flags)"
proof -
  let ?old = "Msr_read C ApicBase_MSR s"
  let ?v = "((?old AND NOT ApicBaseFlags_all) OR flags) OR pa (frame_start frame)"
  have old: "old_frame = PhysFrame (PhysAddr (?old AND ADDR_MASK))"
    using assms(5) by (auto simp: ApicBase_read_def ApicBase_read_raw_def ADDR_MASK_truncate Let_def)
  have w: "ApicBase_write C frame flags s = Some (Msr_write C ApicBase_MSR ?v s)"
    by (simp add: ApicBase_write_def ApicBase_read_raw_def ADDR_MASK_truncate ApicBase_write_raw_def PhysAddr_as_u64_def
        PhysFrame_start_address_def Let_def)
  have "Msr_read C ApicBase_MSR (Msr_write C ApicBase_MSR ?v s) = ?v"
    by (rule cpu_ok.msr_read_back [OF assms(2)]) simp
  then have "ApicBase_read X C (Msr_write C ApicBase_MSR ?v s) =
      Some (PhysFrame (PhysAddr (pa (frame_start old_frame) OR pa (frame_start frame))), flags)"
    using apic_value_parts [OF assms(4,3), of ?old] extern_ok.from_bits_truncate [OF assms(1)]
    by (simp add: ApicBase_read_def ApicBase_read_raw_def ADDR_MASK_truncate Let_def old)
  with w show ?thesis by blast
qed

theorem apic_base_write_keeps_old_address_witness:
  "\<exists>s'. ApicBase_write std_cpu (PhysFrame (PhysAddr 0x1000)) 0x800 (std_machine\<lparr>m_msrs := (\<lambda>_. 0xfee00900)\<rparr>) = Some s' \<and>
    ApicBase_read (std_extern True) std_cpu s' = Some (PhysFrame (PhysAddr 0xfee01000), 0x800)"
proof -
  have "frame_ok Size4KiB (PhysFrame (PhysAddr 0x1000))" by (simp add: frame_ok_def phys_ok_def)
  moreover have "0x800 AND NOT ApicBaseFlags_all = 0" by (simp add: ApicBaseFlags_defs)
  moreover have "ApicBase_read (std_extern True) std_cpu (std_machine\<lparr>m_msrs := (\<lambda>_. 0xfee00900)\<rparr>) =
      Some (PhysFrame (PhysAddr 0xfee00000), 0x900)"
    by (simp add: ApicBase_read_def ApicBase_read_raw_def ADDR_MASK_truncate Msr_read_join std_cpu_def ADDR_MASK_def
        ApicBaseFlags_defs)
  ultimately show ?thesis
    using apic_base_write_keeps_old_address [OF std_extern_ok std_cpu_ok, of "PhysFrame (PhysAddr 0x1000)" "0x800" True
        "std_machine\<lparr>m_msrs := (\<lambda>_. 0xfee00900)\<rparr>" "PhysFrame (PhysAddr 0xfee00000)" "0x900"] by simp
qed

text \<open>
  What is written to the other model specific registers is read back: the bases of \<open>FS\<close> and \<open>GS\<close>, the
  target and the mask of \<open>syscall\<close>, the control-flow enforcement registers (flags and bitmap page share
  one value), and the page attribute table.
\<close>

theorem msr_roundtrips:
  assumes "extern_ok X" and "cpu_ok C" and "canonical a" and "rf AND NOT RFlags_all = 0"
    and "cet AND NOT CetFlags_all = 0" and "page_ok Size4KiB bitmap" and "length table = 8"
  shows "FsBase_read C (FsBase_write C a s) = Some a \<and> GsBase_read C (GsBase_write C a s) = Some a \<and>
    KernelGsBase_read C (KernelGsBase_write C a s) = Some a \<and> LStar_read C (LStar_write C a s) = Some a \<and>
    SFMask_read X C (SFMask_write C rf s) = Some rf \<and>
    UCet_read X C (UCet_write C cet bitmap s) = Some (cet, bitmap) \<and>
    SCet_read X C (SCet_write C cet bitmap s) = Some (cet, bitmap) \<and>
    Pat_read C (Pat_write C table s) = Some table"
proof -
  note stored = cpu_ok.msr_read_back [OF assms(2)]
  have new: "VirtAddr_new (va a) = Some a" using assms(3) by (simp add: VirtAddr_new_eq)
  have page: "VirtAddr_new (va (page_start bitmap)) = Some (page_start bitmap)"
      "Page_from_start_address Size4KiB (page_start bitmap) = Some (Inr bitmap)"
    using assms(6) by (cases bitmap, simp add: VirtAddr_new_eq page_ok_def Page_from_start_address_eq)+
  have cet: "(cet OR va (page_start bitmap)) AND CetFlags_all = cet"
      "(cet OR va (page_start bitmap)) AND - 4096 = va (page_start bitmap)"
    using cet_value_parts [OF assms(5,6)] by simp_all
  have pat: "map_unwrap PatMemoryType_from_bits (to_ne_bytes (from_ne_bytes (map PatMemoryType_bits table))) = Some table"
    using assms(7) by (simp add: to_from_ne_bytes map_unwrap_map)
  note ops = FsBase_read_def FsBase_write_def GsBase_read_def GsBase_write_def KernelGsBase_read_def
    KernelGsBase_write_def LStar_read_def LStar_write_def SFMask_read_def SFMask_write_def UCet_read_def
    UCet_read_raw_def UCet_write_def UCet_write_raw_def SCet_read_def SCet_read_raw_def SCet_write_def
    SCet_write_raw_def Pat_read_def Pat_write_def VirtAddr_as_u64_def Page_start_address_def
  show ?thesis
    using assms(4) extern_ok.from_bits [OF assms(1)] extern_ok.from_bits_truncate [OF assms(1)]
    by (simp add: ops stored new page cet pat)
qed

theorem msr_roundtrips_witness:
  "LStar_read std_cpu (LStar_write std_cpu (VirtAddr 0xffff800000001234) std_machine) = Some (VirtAddr 0xffff800000001234) \<and>
    UCet_read (std_extern True) std_cpu (UCet_write std_cpu 5 (Page (VirtAddr 0x7000)) std_machine) =
      Some (5, Page (VirtAddr 0x7000)) \<and>
    Pat_read std_cpu (Pat_write std_cpu Pat_DEFAULT std_machine) = Some Pat_DEFAULT"
proof -
  have "canonical (VirtAddr 0xffff800000001234)" by (simp add: canonical_iff_unat)
  moreover have "(0 :: u64) AND NOT RFlags_all = 0" by simp
  moreover have "5 AND NOT CetFlags_all = 0" by (simp add: CetFlags_defs)
  moreover have "page_ok Size4KiB (Page (VirtAddr 0x7000))" by (simp add: page_ok_def canonical_iff_unat lin_def)
  moreover have "length Pat_DEFAULT = 8" by (simp add: Pat_DEFAULT_def)
  ultimately show ?thesis
    using msr_roundtrips [OF std_extern_ok std_cpu_ok, of "VirtAddr 0xffff800000001234" 0 5 "Page (VirtAddr 0x7000)"
        Pat_DEFAULT std_machine True] by blast
qed

section \<open>Debug registers\<close>

text \<open>
  A value of \<open>DR7\<close> behaves as independent fields: setting the condition or the size of one address
  register, and setting or clearing flags, never panics on a valid value, keeps it valid, changes
  that field as asked and leaves every other field alone.
\<close>

theorem dr7_fields_independent:
  assumes "extern_ok X" and "dr7_ok v" and "fl AND NOT Dr7Flags_all = 0"
  shows "(\<exists>v'. set_condition X v n c = Some v' \<and> dr7_ok v' \<and> Dr7Value_flags X v' = Dr7Value_flags X v \<and>
      (\<forall>m. condition X v' m = (if m = n then Some c else condition X v m)) \<and>
      (\<forall>m. Dr7Value_size X v' m = Dr7Value_size X v m)) \<and>
    (\<exists>v'. set_size X v n z = Some v' \<and> dr7_ok v' \<and> Dr7Value_flags X v' = Dr7Value_flags X v \<and>
      (\<forall>m. condition X v' m = condition X v m) \<and>
      (\<forall>m. Dr7Value_size X v' m = (if m = n then Some z else Dr7Value_size X v m))) \<and>
    (\<exists>v'. Dr7Value_set_flags v fl on = v' \<and> dr7_ok v' \<and>
      Dr7Value_flags X v' = (if on then Dr7Value_flags X v OR fl else Dr7Value_flags X v AND NOT fl) \<and>
      (\<forall>m. condition X v' m = condition X v m) \<and> (\<forall>m. Dr7Value_size X v' m = Dr7Value_size X v m)) \<and>
    condition X v n \<noteq> None \<and> Dr7Value_size X v n \<noteq> None"
  using extern_ok.set_condition_spec [OF assms(1), of v n c] extern_ok.set_size_spec [OF assms(1), of v n z]
    extern_ok.set_flags_spec [OF assms(1,3), of v on] extern_ok.fields_total [OF assms(1), of v n] assms(2)
  by (intro conjI) (blast | simp)+

theorem dr7_fields_independent_witness:
  "\<exists>v'. set_condition (std_extern True) \<lparr>dr7_bits = 0xf0000\<rparr> Dr1 DataWrites = Some v' \<and>
    condition (std_extern True) v' Dr1 = Some DataWrites \<and> condition (std_extern True) v' Dr0 = Some DataReadsWrites \<and>
    Dr7Value_size (std_extern True) v' Dr0 = Some Length4B"
proof -
  have ok: "dr7_ok \<lparr>dr7_bits = 0xf0000\<rparr>" by (simp add: dr7_ok_def valid_bits_alt Dr7Flags_defs mask_eq_exp_minus_1)
  have z: "(0 :: u64) AND NOT Dr7Flags_all = 0" by simp
  from dr7_fields_independent [where n = Dr1 and c = DataWrites, OF std_extern_ok ok z, THEN conjunct1]
  obtain v' where "set_condition (std_extern True) \<lparr>dr7_bits = 0xf0000\<rparr> Dr1 DataWrites = Some v'"
      "\<forall>m. condition (std_extern True) v' m =
        (if m = Dr1 then Some DataWrites else condition (std_extern True) \<lparr>dr7_bits = 0xf0000\<rparr> m)"
      "\<forall>m. Dr7Value_size (std_extern True) v' m = Dr7Value_size (std_extern True) \<lparr>dr7_bits = 0xf0000\<rparr> m"
    by blast
  moreover have "condition (std_extern True) \<lparr>dr7_bits = 0xf0000\<rparr> Dr0 = Some DataReadsWrites"
      "Dr7Value_size (std_extern True) \<lparr>dr7_bits = 0xf0000\<rparr> Dr0 = Some Length4B"
    by (simp_all add: std.condition_eq std.size_eq get_range_def BreakpointCondition_from_bits_def BreakpointSize_from_bits_def)
  ultimately show ?thesis by auto
qed

section \<open>The translation lookaside buffer\<close>

text \<open>
  The operands of \<open>invlpgb\<close>: for every combination of options of a builder with a valid
  process-context identifier, the address and the valid bits, the count and the page size, and the
  two identifiers are at their places in \<open>rax\<close>, \<open>ecx\<close> and \<open>edx\<close>, and all other bits are zero.
\<close>

theorem flush_broadcast_operands:
  assumes "extern_ok X" and "pcid_ok pcid"
  shows "flush_broadcast X C S va_and_count pcid asid global final nested s =
    Some (invlpgb C (broadcast_rax (map_option fst va_and_count) pcid asid global final nested)
      (broadcast_ecx S (map_option snd va_and_count)) (broadcast_edx pcid asid) s)"
  by (rule extern_ok.flush_broadcast_eq [OF assms])

theorem flush_broadcast_operands_witness:
  "flush_broadcast (std_extern True) std_cpu Size2MiB (Some (Page (VirtAddr 0x400000), 3)) (Some (Pcid 5)) None True False False
      std_machine = Some (invlpgb std_cpu 0x40000b 0x80000003 0x50000 std_machine)"
proof -
  have "pcid_ok (Some (Pcid 5))" by (simp add: pcid_ok_def)
  from flush_broadcast_operands [OF std_extern_ok this, of True std_cpu Size2MiB "Some (Page (VirtAddr 0x400000), 3)" None
      True False False std_machine]
  show ?thesis by (simp add: broadcast_rax_def broadcast_ecx_def broadcast_edx_def mask_eq_exp_minus_1)
qed

text \<open>
  C39. Flushing a range of pages on all processors ends for every range and every limit of the
  processor, without a panic. It executes \<open>invlpgb\<close> on a sequence of pieces; from one piece to the next the
  loop advances through the range without gap or overlap, no count is above the limit of the processor, and
  it never advances from the lower half of the address space into the upper half in one step. With the
  manual's meaning of the count, the number of pages after the first, every page of the range is flushed.
  The only other addresses flushed are those \<open>count\<close> pages after the start of a piece; on a processor with a
  limit above zero they include the page after the end of the range (unless the range ends with the lower
  half), which the caller did not ask for.
\<close>

theorem invlpgb_flush_covers_range:
  assumes "extern_ok X" and "page_ok S (start_page pages)" and "page_ok S (end_page pages)"
    and "builder_page_range self = Some pages" and "pcid_ok (builder_pcid self)"
  shows "\<exists>pieces. Builder_flush X C S self s = Some (fold (broadcast C S self) pieces s) \<and>
    concat (map (piece_steps S) pieces) = [page_num S (start_page pages)..<page_num S (end_page pages)] \<and>
    list_all (piece_ok S (invlpgb_count_max (builder_invlpgb self))) pieces \<and>
    (\<forall>q. page_ok S q \<longrightarrow> start_page pages \<le> q \<longrightarrow> q < end_page pages \<longrightarrow>
       (\<exists>piece\<in>set pieces. unat (va (page_start q)) \<in> flushed_addresses S piece)) \<and>
    (\<forall>piece\<in>set pieces. \<forall>x\<in>flushed_addresses S piece.
       (\<exists>q. page_ok S q \<and> start_page pages \<le> q \<and> q < end_page pages \<and> x = unat (va (page_start q))) \<or>
       x = unat (va (page_start (fst piece))) + unat (snd piece) * 2 ^ size_bits S) \<and>
    (start_page pages < end_page pages \<and> invlpgb_count_max (builder_invlpgb self) \<noteq> 0 \<and>
       page_num S (end_page pages) \<noteq> half_num S \<longrightarrow>
       (\<exists>piece\<in>set pieces. unat (va (page_start (end_page pages))) \<in> flushed_addresses S piece))"
proof -
  let ?cm = "invlpgb_count_max (builder_invlpgb self)"
  let ?in = "\<lambda>q. page_ok S q \<and> start_page pages \<le> q \<and> q < end_page pages"
  obtain pieces where p: "Builder_flush X C S self s = Some (fold (broadcast C S self) pieces s)"
    "concat (map (piece_steps S) pieces) = [page_num S (start_page pages)..<page_num S (end_page pages)]"
    "list_all (piece_ok S ?cm) pieces"
    using extern_ok.flush_pages_pieces [OF assms(1,2,3,5), of C s] assms(4)
    by (cases pages) (auto simp: Builder_flush_def)
  have steps: "(\<exists>piece\<in>set pieces. n \<in> set (piece_steps S piece)) \<longleftrightarrow>
      page_num S (start_page pages) \<le> n \<and> n < page_num S (end_page pages)" for n
    using arg_cong [OF p(2), of "\<lambda>xs. n \<in> set xs"] by simp
  have ok: "piece_ok S ?cm piece" if "piece \<in> set pieces" for piece
    using p(3) that by (simp add: list_all_iff)
  have rng: "?in q \<longleftrightarrow> page_ok S q \<and> (\<exists>piece\<in>set pieces. page_num S q \<in> set (piece_steps S piece))" for q
    unfolding steps using page_num_le_iff [OF assms(2)] page_num_less_iff [OF _ assms(3)] by blast
  have "\<exists>piece\<in>set pieces. unat (va (page_start q)) \<in> flushed_addresses S piece" if "?in q" for q
    using that piece_step_flushed [OF ok] unfolding rng by blast
  moreover have "(\<exists>q. ?in q \<and> x = unat (va (page_start q))) \<or>
      x = unat (va (page_start (fst piece))) + unat (snd piece) * 2 ^ size_bits S"
    if x: "piece \<in> set pieces" "x \<in> flushed_addresses S piece" for piece x
  proof -
    have "n < 2 ^ (48 - size_bits S)" if "n \<in> set (piece_steps S piece)" for n
      using steps [of n] that x(1) page_num_lt [OF assms(3)] by force
    from piece_flushes_step [OF ok [OF x(1)] this x(2)] x(1) show ?thesis unfolding rng by blast
  qed
  moreover have "\<exists>piece\<in>set pieces. unat (va (page_start (end_page pages))) \<in> flushed_addresses S piece"
    if "start_page pages < end_page pages" "?cm \<noteq> 0" "page_num S (end_page pages) \<noteq> half_num S"
    using last_piece_flushes [OF p(3,2) assms(3) that(3) _ that(2)] page_num_less_iff [OF assms(2,3)] that(1) by blast
  ultimately show ?thesis using p by (intro exI [of _ pieces]) simp
qed

text \<open>Three pieces flush the five pages from \<open>0x7000\<close>, and the page after them.\<close>

theorem invlpgb_flush_covers_range_witness:
  "\<exists>pieces. Builder_flush (std_extern True) std_cpu Size4KiB
      (Builder_pages (Invlpgb_build \<lparr>invlpgb_count_max = 2, tlb_flush_nested = False, nasid = 0\<rparr>)
        (Page_range (Page (VirtAddr 0x7000)) (Page (VirtAddr 0xc000)))) std_machine =
      Some (fold (broadcast std_cpu Size4KiB (Builder_pages
        (Invlpgb_build \<lparr>invlpgb_count_max = 2, tlb_flush_nested = False, nasid = 0\<rparr>)
        (Page_range (Page (VirtAddr 0x7000)) (Page (VirtAddr 0xc000))))) pieces std_machine) \<and>
    concat (map (piece_steps Size4KiB) pieces) = [7, 8, 9, 10, 11] \<and>
    (\<exists>piece\<in>set pieces. 0xc000 \<in> flushed_addresses Size4KiB piece)"
proof -
  let ?r = "Page_range (Page (VirtAddr 0x7000)) (Page (VirtAddr 0xc000))"
  let ?b = "Builder_pages (Invlpgb_build \<lparr>invlpgb_count_max = 2, tlb_flush_nested = False, nasid = 0\<rparr>) ?r"
  have ok: "page_ok Size4KiB (start_page ?r)" "page_ok Size4KiB (end_page ?r)"
    by (simp_all add: Page_range_def page_ok_def canonical_iff_unat lin_def)
  have "builder_page_range ?b = Some ?r" "pcid_ok (builder_pcid ?b)" "invlpgb_count_max (builder_invlpgb ?b) = 2"
    by (simp_all add: Builder_pages_def Invlpgb_build_def pcid_ok_def)
  moreover have n: "page_num Size4KiB (start_page ?r) = 7" "page_num Size4KiB (end_page ?r) = 12"
    "unat (va (page_start (end_page ?r))) = 0xc000"
    by (simp_all add: Page_range_def page_num_def lin_def)
  moreover have "start_page ?r < end_page ?r" using page_num_less_iff [OF ok] n by simp
  moreover have "half_num Size4KiB \<noteq> 12" by (simp add: half_num_def)
  moreover have "[7..<12] = [7, 8, 9, 10, 11 :: nat]" by (simp add: upt_rec)
  ultimately show ?thesis
    using invlpgb_flush_covers_range [OF std_extern_ok ok, of ?b True std_cpu std_machine] by auto
qed

section \<open>Interrupts\<close>

text \<open>A computation that leaves interrupts disabled when it finds them disabled.\<close>

definition keeps_disabled :: "extern \<Rightarrow> 'c cpu \<Rightarrow> ('c \<Rightarrow> ('r \<times> 'c) option) \<Rightarrow> bool" where
  "keeps_disabled X C f \<longleftrightarrow> (\<forall>s r s'. \<not> are_enabled X C s \<longrightarrow> f s = Some (r, s') \<longrightarrow> \<not> are_enabled X C s')"

text \<open>
  C40. \<open>without_interrupts\<close> runs the closure with interrupts disabled, returns what it returns, and leaves
  the interrupt flag as it was, if the closure does not enable interrupts itself; so it can be nested.
\<close>

theorem without_interrupts_restores:
  assumes "extern_ok X" and "cpu_ok C" and "keeps_disabled X C f"
  shows "(\<exists>s0. \<not> are_enabled X C s0 \<and>
      (case f s0 of
         None \<Rightarrow> without_interrupts X C f s = None
       | Some (r, s1) \<Rightarrow> \<exists>s'. without_interrupts X C f s = Some (r, s') \<and> (are_enabled X C s' \<longleftrightarrow> are_enabled X C s))) \<and>
    keeps_disabled X C (without_interrupts X C f)"
proof -
  note en = extern_ok.are_enabled_bit [OF assms(1)]
  have off: "\<not> are_enabled X C (interrupts_disable C t)" and on: "are_enabled X C (interrupts_enable C t)" for t
    by (simp_all add: en interrupts_disable_def interrupts_enable_def cpu_ok.cli_clears [OF assms(2)]
        cpu_ok.sti_sets [OF assms(2)] bit_simps)
  define s0 where "s0 = (if are_enabled X C s then interrupts_disable C s else s)"
  have s0: "\<not> are_enabled X C s0" using off by (simp add: s0_def)
  have w: "without_interrupts X C f s = do {
      (r, s1) \<leftarrow> f s0; Some (r, if are_enabled X C s then interrupts_enable C s1 else s1) }"
    by (simp add: without_interrupts_def s0_def Let_def)
  have "case f s0 of
         None \<Rightarrow> without_interrupts X C f s = None
       | Some (r, s1) \<Rightarrow> \<exists>s'. without_interrupts X C f s = Some (r, s') \<and> (are_enabled X C s' \<longleftrightarrow> are_enabled X C s)"
    using s0 on assms(3) unfolding w keeps_disabled_def by (auto split: option.splits)
  moreover have "keeps_disabled X C (without_interrupts X C f)"
    using assms(3) unfolding keeps_disabled_def without_interrupts_def by (auto simp: Let_def split: bind_splits)
  ultimately show ?thesis using s0 by blast
qed

theorem without_interrupts_restores_witness:
  "\<exists>s'. without_interrupts (std_extern True) std_cpu (\<lambda>s. Some (m_rflags s, s)) (std_machine\<lparr>m_rflags := 0x202\<rparr>) = Some (2, s') \<and>
    are_enabled (std_extern True) std_cpu s'"
proof -
  have k: "keeps_disabled (std_extern True) std_cpu (\<lambda>s. Some (m_rflags s, s))" by (simp add: keeps_disabled_def)
  have e: "are_enabled (std_extern True) std_cpu (std_machine\<lparr>m_rflags := 0x202\<rparr>)"
    unfolding std.are_enabled_bit by (simp add: std_cpu_def)
  then have r: "\<exists>s'. without_interrupts (std_extern True) std_cpu (\<lambda>s. Some (m_rflags s, s))
      (std_machine\<lparr>m_rflags := 0x202\<rparr>) = Some (2, s')"
    by (simp add: without_interrupts_def interrupts_disable_def std_cpu_def std_machine_def)
  from without_interrupts_restores [OF std_extern_ok std_cpu_ok k, of "std_machine\<lparr>m_rflags := 0x202\<rparr>"]
  show ?thesis using r e by (auto split: option.splits)
qed

end
