(* ===== verification/Tlb_Coherence.thy ===== *)
theory Tlb_Coherence
  imports Mapper_Properties Tlb
begin

text \<open>
  The flush promises of \<open>mapper/mod.rs\<close> at work. An operation that changes a mapping returns a
  \<open>MapperFlush\<close>, which \<open>flush\<close> discharges with \<open>invlpg\<close>; until then the CPU may still use the old
  translation. The locale \<open>tlb\<close> states what the manuals say about the translations that a CPU caches.
  The mapper, the allocator, the CPU and the promises that are still to be kept form a system whose
  steps are the successful operations of the mapped page table, the flushes, and the loads and evictions of
  translations that the CPU performs at any time. Every stale translation of a reachable state is
  covered by a promise.
\<close>

section \<open>Keeping a promise\<close>

definition MapperFlush_flush :: "'c cpu \<Rightarrow> MapperFlush \<Rightarrow> 'c \<Rightarrow> 'c" where
  "MapperFlush_flush C self s = tlb_flush C (Page_start_address (flush_page self)) s"

definition MapperFlush_ignore :: "MapperFlush \<Rightarrow> 'c \<Rightarrow> 'c" where
  "MapperFlush_ignore self s = s"

definition MapperFlushAll_flush_all :: "extern \<Rightarrow> 'c cpu \<Rightarrow> MapperFlushAll \<Rightarrow> 'c \<Rightarrow> 'c option" where
  "MapperFlushAll_flush_all X C self s = tlb_flush_all X C s"

definition MapperFlushAll_ignore :: "MapperFlushAll \<Rightarrow> 'c \<Rightarrow> 'c" where
  "MapperFlushAll_ignore self s = s"

section \<open>Cached translations\<close>

definition same_page :: "PageSize \<Rightarrow> VirtAddr \<Rightarrow> VirtAddr \<Rightarrow> bool" where
  "same_page S a v \<longleftrightarrow> lin v div 2 ^ size_bits S = lin a div 2 ^ size_bits S"

text \<open>
  \<open>cached s v\<close> is the translation that the CPU may use for the address \<open>v\<close> instead of walking the page
  tables. Only mapped addresses are cached; \<open>invlpg\<close> drops the translations of the whole page around its
  operand, whatever the page's size; writing \<open>CR3\<close> without the bit that preserves them drops all but the
  global translations.
\<close>

locale tlb = cpu_ok C for C :: "'c cpu" +
  fixes cached :: "'c \<Rightarrow> VirtAddr \<Rightarrow> TranslateResult option"
  assumes cached_mapped: "cached s v = Some r \<Longrightarrow> \<exists>S f off fl. r = Mapped (mapped_frame S f) off fl"
    and invlpg_cached: "cached (invlpg C (va a) s) v = Some r \<Longrightarrow> cached s v = Some r"
    and invlpg_drops: "cached (invlpg C (va a) s) v = Some (Mapped (mapped_frame S f) off fl) \<Longrightarrow> \<not> same_page S a v"
    and cr3_cached: "\<not> bit w 63 \<Longrightarrow> cached (mov_to C CR3 w s) v = Some r \<Longrightarrow> cached s v = Some r"
    and cr3_drops: "\<not> bit w 63 \<Longrightarrow> cached (mov_to C CR3 w s) v = Some (Mapped frame off fl) \<Longrightarrow> fl AND GLOBAL \<noteq> 0"

section \<open>The system\<close>

record ('a, 'c) system =
  sys_mem :: mem
  sys_alloc :: 'a
  sys_cpu :: 'c
  sys_promises :: "(PageSize \<times> MapperFlush) list"

text \<open>
  The promise of a new mapping is ignored. The flags of a page are updated only when the page is
  mapped with its size.
\<close>

inductive system_step :: "extern \<Rightarrow> 'c cpu \<Rightarrow> ('c \<Rightarrow> VirtAddr \<Rightarrow> TranslateResult option) \<Rightarrow> MappedPageTable \<Rightarrow>
    'a allocate_frame \<Rightarrow> ('a, 'c) system \<Rightarrow> ('a, 'c) system \<Rightarrow> bool"
  for X C cached self alloc where
  step_cache: "(\<And>v r. cached c' v = Some r \<Longrightarrow> cached (sys_cpu y) v = Some r \<or> translate X self (sys_mem y) v = Some r) \<Longrightarrow>
    system_step X C cached self alloc y (y\<lparr>sys_cpu := c'\<rparr>)"
| step_map: "map_args S frame flags parent_flags \<Longrightarrow>
    map_to_with_table_flags X S self alloc page frame flags parent_flags (sys_mem y, sys_alloc y) =
      Some (Inr promise, (m', a')) \<Longrightarrow>
    system_step X C cached self alloc y
      (y\<lparr>sys_mem := m', sys_alloc := a', sys_cpu := MapperFlush_ignore promise (sys_cpu y)\<rparr>)"
| step_unmap: "unmap X S self page (sys_mem y) = Some (Inr (frame, promise), m') \<Longrightarrow>
    system_step X C cached self alloc y (y\<lparr>sys_mem := m', sys_promises := (S, promise) # sys_promises y\<rparr>)"
| step_update_flags: "in_page S page v \<Longrightarrow>
    translate X self (sys_mem y) v = Some (Mapped (mapped_frame S frame) off old_flags) \<Longrightarrow>
    update_flags X S self page flags (sys_mem y) = Some (Inr promise, m') \<Longrightarrow>
    system_step X C cached self alloc y (y\<lparr>sys_mem := m', sys_promises := (S, promise) # sys_promises y\<rparr>)"
| step_flush: "(S, promise) \<in> set (sys_promises y) \<Longrightarrow>
    system_step X C cached self alloc y
      (y\<lparr>sys_cpu := MapperFlush_flush C promise (sys_cpu y),
        sys_promises := filter (\<lambda>q. q \<noteq> (S, promise)) (sys_promises y)\<rparr>)"
| step_flush_all: "MapperFlushAll_flush_all X C MapperFlushAll (sys_cpu y) = Some c' \<Longrightarrow>
    system_step X C cached self alloc y (y\<lparr>sys_cpu := c'\<rparr>)"

definition promised :: "(PageSize \<times> MapperFlush) list \<Rightarrow> VirtAddr \<Rightarrow> TranslateResult \<Rightarrow> bool" where
  "promised ps v r \<longleftrightarrow> (\<exists>S promise f off fl. (S, promise) \<in> set ps \<and> in_page S (flush_page promise) v \<and>
     r = Mapped (mapped_frame S f) off fl)"

definition system_ok :: "extern \<Rightarrow> ('c \<Rightarrow> VirtAddr \<Rightarrow> TranslateResult option) \<Rightarrow> MappedPageTable \<Rightarrow>
    ('a \<Rightarrow> PhysFrame set) \<Rightarrow> ('a, 'c) system \<Rightarrow> bool" where
  "system_ok X cached self free y \<longleftrightarrow>
     good (page_table_walker self) (level_4_table self) free (sys_mem y, sys_alloc y) \<and>
     (\<forall>v r. cached (sys_cpu y) v = Some r \<longrightarrow>
        translate X self (sys_mem y) v = Some r \<or> promised (sys_promises y) v r)"

section \<open>Every stale translation is covered by a promise\<close>

lemma mapped_frame_inj [simp]: "mapped_frame S f = mapped_frame T g \<longleftrightarrow> S = T \<and> f = g"
  by (cases S; cases T) simp_all

text \<open>A page has one size: every translation of an address in it has the size of its leaf entry.\<close>

lemma view_size: "read_resolved X v (view S e) = Mapped (mapped_frame T f) off fl \<Longrightarrow> T = S"
  by (cases S; cases T) (auto split: if_splits)

text \<open>The translations in a TLB, relative to the memory and the promises.\<close>

definition covered :: "extern \<Rightarrow> MappedPageTable \<Rightarrow> mem \<Rightarrow> (PageSize \<times> MapperFlush) list \<Rightarrow> (VirtAddr \<Rightarrow> TranslateResult option) \<Rightarrow> bool" where
  "covered X self m ps tr \<longleftrightarrow> (\<forall>v r. tr v = Some r \<longrightarrow> translate X self m v = Some r \<or> promised ps v r)"

lemma system_ok_covered:
  "system_ok X cached self free y \<longleftrightarrow>
    good (page_table_walker self) (level_4_table self) free (sys_mem y, sys_alloc y) \<and>
    covered X self (sys_mem y) (sys_promises y) (cached (sys_cpu y))"
  by (simp add: system_ok_def covered_def)

lemma promised_Cons: "promised ps v r \<Longrightarrow> promised (q # ps) v r"
  by (auto simp: promised_def)

context extern_ok
begin

lemma changed_page_covered:
  assumes t: "tree_ok (page_table_walker self) m (level_4_table self)"
      "tree_ok (page_table_walker self) m' (level_4_table self)"
    and e: "\<And>Q. path_ok Q \<Longrightarrow> length Q = 4 \<Longrightarrow> prefix (page_path S p) Q \<Longrightarrow>
      resolve (page_table_walker self) m (level_4_table self) Q = view S e"
    and m': "remapped (page_table_walker self) (level_4_table self) S p e' m m'"
    and tr: "\<And>v r. tr v = Some r \<Longrightarrow> \<exists>S f off fl. r = Mapped (mapped_frame S f) off fl"
    and cov: "covered X self m ps tr"
  shows "covered X self m' ((S, MapperFlush p) # ps) tr"
  unfolding covered_def
proof (intro allI impI)
  fix v r
  assume r: "tr v = Some r"
  consider "promised ps v r" | "translate X self m v = Some r" "\<not> in_page S p v"
    | "translate X self m v = Some r" "in_page S p v"
    using cov r by (auto simp: covered_def)
  then show "translate X self m' v = Some r \<or> promised ((S, MapperFlush p) # ps) v r"
  proof cases
    case 2
    then show ?thesis using translate_remapped [OF t m', of v] by (simp add: in_page_def)
  next
    case 3
    have "resolve (page_table_walker self) m (level_4_table self) (addr_path v) = view S e"
      using 3(2) by (intro e) (simp_all add: in_page_def addr_in_page)
    then have "read_resolved X v (view S e) = r" using 3(1) by (simp add: translate_resolve [OF t(1)])
    with tr [OF r] have "\<exists>f off fl. r = Mapped (mapped_frame S f) off fl"
      using view_size [of X v S e] by metis
    with 3(2) show ?thesis by (fastforce simp: promised_def)
  qed (auto dest: promised_Cons)
qed

end

context tlb
begin

lemma flush_covered:
  assumes "covered X self m ps (cached s)"
  shows "covered X self m (filter (\<lambda>q. q \<noteq> (S, promise)) ps) (cached (MapperFlush_flush C promise s))"
  unfolding covered_def
proof (intro allI impI)
  fix v r
  let ?a = "page_start (flush_page promise)"
  assume "cached (MapperFlush_flush C promise s) v = Some r"
  then have c: "cached (invlpg C (va ?a) s) v = Some r"
    by (simp add: MapperFlush_flush_def tlb_flush_def VirtAddr_as_u64_def Page_start_address_def)
  have "\<not> in_page S (flush_page promise) v" if "r = Mapped (mapped_frame S f) off fl" for f off fl
    using invlpg_drops c that by (auto simp: in_page_def same_page_def)
  moreover have "translate X self m v = Some r \<or> promised ps v r"
    using assms invlpg_cached [OF c] by (simp add: covered_def)
  ultimately show "translate X self m v = Some r \<or> promised (filter (\<lambda>q. q \<noteq> (S, promise)) ps) v r"
    by (fastforce simp: promised_def)
qed

lemma covered_subset:
  "covered X self m ps (cached s) \<Longrightarrow>
    (\<And>v r. cached s' v = Some r \<Longrightarrow> cached s v = Some r \<or> translate X self m v = Some r) \<Longrightarrow>
    covered X self m ps (cached s')"
  unfolding covered_def by blast

end

lemma flush_all_cr3:
  assumes "extern_ok X" and "MapperFlushAll_flush_all X C x s = Some s'"
  shows "\<exists>w. \<not> bit w 63 \<and> s' = mov_to C CR3 w s"
proof -
  obtain frame fl where r: "Cr3_read X C s = Some (frame, fl)" "s' = Cr3_write C frame fl s"
    using assms(2) by (auto simp: MapperFlushAll_flush_all_def tlb_flush_all_def split: Option.bind_splits)
  then have "frame = PhysFrame (entry_addr \<lparr>entry = mov_from C CR3 s\<rparr>)"
    by (auto simp: Cr3_read_def Cr3_read_raw_eq)
  then have "\<not> bit (pa (frame_start frame)) 63"
    using frame_addr_bits [OF entry_frame_ok, of "\<lparr>entry = mov_from C CR3 s\<rparr>" 63] by auto
  then show ?thesis
    unfolding r(2) Cr3_write_def Cr3_write_raw_impl_def
    by (intro exI conjI refl) (auto simp: Let_def bit_simps PhysAddr_as_u64_def PhysFrame_start_address_def)
qed

lemma update_flags_good:
  assumes X: "extern_ok X" and g: "good (page_table_walker self) (level_4_table self) free (m, a)"
    and v: "in_page S p v" "translate X self m v = Some (Mapped (mapped_frame S f) off fl0)"
    and u: "update_flags X S self p fl m = Some (Inr promise, m')"
  shows "good (page_table_walker self) (level_4_table self) free (m', a)" "promise = MapperFlush p"
    "\<exists>e e'. (\<forall>Q. path_ok Q \<longrightarrow> length Q = 4 \<longrightarrow> prefix (page_path S p) Q \<longrightarrow>
        resolve (page_table_walker self) m (level_4_table self) Q = view S e) \<and>
      remapped (page_table_walker self) (level_4_table self) S p e' m m'"
proof -
  let ?W = "page_table_walker self" and ?r = "level_4_table self"
  have t: "tree_ok ?W m ?r" using g by (simp add: good_def)
  obtain q where q: "goto ?W m ?r (page_parents S p) = Inr q" "leaf_entry ?W S (ent m q (page_leaf S p))"
    using extern_ok.translated_leaf [OF X t v] by blast
  obtain e' where u': "promise = MapperFlush p" "tree_ok ?W m' ?r" "tables ?W m' ?r = tables ?W m ?r"
      "remapped ?W ?r S p e' m m'"
    using extern_ok.update_flags_ok [OF X t v, of fl] u by auto
  then show "promise = MapperFlush p" "good ?W ?r free (m', a)"
    using g frames_ok_tables by (auto simp: good_def)
  show "\<exists>e e'. (\<forall>Q. path_ok Q \<longrightarrow> length Q = 4 \<longrightarrow> prefix (page_path S p) Q \<longrightarrow> resolve ?W m ?r Q = view S e) \<and>
      remapped ?W ?r S p e' m m'"
    using leaf_resolve [OF q(1) _ _ q(2)] u'(4) by blast
qed

lemma system_step_ok:
  assumes X: "extern_ok X" and C: "tlb C cached" and al: "allocator_ok alloc free"
    and st: "system_step X C cached self alloc y y'" and ok: "system_ok X cached self free y"
  shows "system_ok X cached self free y'"
  using st ok
proof (cases rule: system_step.cases)
  case (step_cache c')
  with ok show ?thesis using tlb.covered_subset [OF C] by (auto simp: system_ok_covered)
next
  case (step_map S frame flags parent_flags page promise m' a')
  note g = ok [unfolded system_ok_def, THEN conjunct1]
  have "covered X self m' (sys_promises y) (cached (sys_cpu y))"
    using ok mapper.map_view [OF extern_ok.mapped_mapper [OF X al] g step_map(2,3)]
      mapper.map_unmapped [OF extern_ok.mapped_mapper [OF X al] g step_map(2,3)] tlb.cached_mapped [OF C]
    unfolding system_ok_covered covered_def by fastforce
  moreover have "good (page_table_walker self) (level_4_table self) free (m', a')"
    using mapper.map_total [OF extern_ok.mapped_mapper [OF X al] g step_map(2), of page] step_map(3) by auto
  ultimately show ?thesis by (simp add: step_map(1) system_ok_covered MapperFlush_ignore_def)
next
  case (step_unmap S page frame promise m')
  have t: "tree_ok (page_table_walker self) (sys_mem y) (level_4_table self)" using ok by (simp add: system_ok_def good_def)
  note u = extern_ok.unmap_ok [OF X t step_unmap(2)]
  obtain e where e: "\<forall>Q. path_ok Q \<longrightarrow> length Q = 4 \<longrightarrow> prefix (page_path S page) Q \<longrightarrow>
      resolve (page_table_walker self) (sys_mem y) (level_4_table self) Q = view S e"
    using u(6) by blast
  have "covered X self m' ((S, promise) # sys_promises y) (cached (sys_cpu y))"
    using extern_ok.changed_page_covered [OF X t u(1) e [rule_format] u(5) tlb.cached_mapped [OF C]] ok u(3)
    by (simp add: system_ok_covered)
  then show ?thesis
    using ok u(1,2) frames_ok_tables by (auto simp: step_unmap(1) system_ok_covered good_def)
next
  case (step_update_flags S page v frame off old_flags flags promise m')
  note g = ok [unfolded system_ok_def, THEN conjunct1]
  note u = update_flags_good [OF X g step_update_flags(2-4)]
  obtain e e' where e: "\<forall>Q. path_ok Q \<longrightarrow> length Q = 4 \<longrightarrow> prefix (page_path S page) Q \<longrightarrow>
      resolve (page_table_walker self) (sys_mem y) (level_4_table self) Q = view S e"
      "remapped (page_table_walker self) (level_4_table self) S page e' (sys_mem y) m'"
    using u(3) by blast
  have t: "tree_ok (page_table_walker self) (sys_mem y) (level_4_table self)"
    "tree_ok (page_table_walker self) m' (level_4_table self)"
    using g u(1) by (simp_all add: good_def)
  show ?thesis
    using extern_ok.changed_page_covered [OF X t e(1) [rule_format] e(2) tlb.cached_mapped [OF C]] ok u(1,2)
    by (simp add: step_update_flags(1) system_ok_covered)
next
  case (step_flush S promise)
  with ok show ?thesis using tlb.flush_covered [OF C] by (simp add: system_ok_covered)
next
  case (step_flush_all c')
  obtain w where w: "\<not> bit w 63" "c' = mov_to C CR3 w (sys_cpu y)"
    using flush_all_cr3 [OF X step_flush_all(2)] by blast
  have "cached (sys_cpu y) v = Some r" if "cached c' v = Some r" for v r
    using that unfolding w(2) by (rule tlb.cr3_cached [OF C w(1)])
  with ok show ?thesis by (simp add: step_flush_all(1) system_ok_def)
qed

lemma system_steps_ok:
  assumes "extern_ok X" and "tlb C cached" and "allocator_ok alloc free"
    and "(system_step X C cached self alloc)\<^sup>*\<^sup>* y y'" and "system_ok X cached self free y"
  shows "system_ok X cached self free y'"
  using assms(4,5) by (induction rule: rtranclp_induct) (auto intro: system_step_ok [OF assms(1-3)])

section \<open>A register file with a TLB\<close>

record tlb_machine = machine +
  m_tlb :: "VirtAddr \<Rightarrow> (PageSize \<times> PhysFrame \<times> u64 \<times> u64) option"

definition tlb_retain :: "(PageSize \<Rightarrow> VirtAddr \<Rightarrow> u64 \<Rightarrow> bool) \<Rightarrow> tlb_machine \<Rightarrow> tlb_machine" where
  "tlb_retain keep s = s\<lparr>m_tlb := \<lambda>v. case m_tlb s v of
     None \<Rightarrow> None
   | Some (S, f, off, fl) \<Rightarrow> if keep S v fl then Some (S, f, off, fl) else None\<rparr>"

definition tlb_cpu :: "tlb_machine cpu" where
  "tlb_cpu = std_cpu\<lparr>
     invlpg := \<lambda>a s. tlb_retain (\<lambda>S v fl. \<not> same_page S (VirtAddr a) v) s,
     mov_to := \<lambda>r w s. let s' = mov_to std_cpu r w s
       in if r = CR3 \<and> \<not> bit w 63 then tlb_retain (\<lambda>S v fl. fl AND GLOBAL \<noteq> 0) s' else s'\<rparr>"

definition tlb_cached :: "tlb_machine \<Rightarrow> VirtAddr \<Rightarrow> TranslateResult option" where
  "tlb_cached s v = map_option (\<lambda>(S, f, off, fl). Mapped (mapped_frame S f) off fl) (m_tlb s v)"

definition tlb_start :: tlb_machine where
  "tlb_start = machine.extend std_machine (tlb_machine.fields (\<lambda>_. None))"

lemma tlb_retain_cached:
  "tlb_cached (tlb_retain keep s) v = Some r \<longleftrightarrow>
    tlb_cached s v = Some r \<and> (\<exists>S f off fl. r = Mapped (mapped_frame S f) off fl \<and> keep S v fl)"
  by (auto simp: tlb_cached_def tlb_retain_def split: option.splits if_splits)

lemma tlb_retain_machine [simp]:
  "m_regs (tlb_retain keep s) = m_regs s" "m_segments (tlb_retain keep s) = m_segments s"
  by (simp_all add: tlb_retain_def)

lemma tlb_cached_regs [simp]: "tlb_cached (s\<lparr>m_regs := g\<rparr>) = tlb_cached s"
  by (rule ext) (simp add: tlb_cached_def)

interpretation tlb_cpu: tlb tlb_cpu tlb_cached
proof unfold_locales
  fix s v r
  show "tlb_cached s v = Some r \<Longrightarrow> \<exists>S f off fl. r = Mapped (mapped_frame S f) off fl"
    by (auto simp: tlb_cached_def)
qed (auto simp: tlb_cpu_def tlb_retain_cached Let_def std_cpu_def)

section \<open>Property\<close>

text \<open>
  C4. Starting with an empty TLB, let mapped pages be unmapped, new pages be mapped and flags be updated, while
  the CPU loads and drops translations as it likes, promises are kept in any order and whole flushes
  happen. Then every translation that the CPU may use is either the one the page tables hold now or of an
  address in a page whose flush promise has not been kept yet: once all promises are kept, the TLB
  agrees with the page tables. New mappings need no flush.
\<close>

theorem flush_promises_sound:
  assumes "extern_ok X" and "tlb C cached" and "allocator_ok alloc free"
    and "good (page_table_walker self) (level_4_table self) free (sys_mem y, sys_alloc y)"
    and "\<forall>v. cached (sys_cpu y) v = None"
    and "(system_step X C cached self alloc)\<^sup>*\<^sup>* y y'"
    and "cached (sys_cpu y') v = Some r"
  shows "translate X self (sys_mem y') v = Some r \<or>
    (\<exists>(S, promise) \<in> set (sys_promises y'). in_page S (MapperFlush_page promise) v)"
proof -
  have "system_ok X cached self free y" using assms(4,5) by (simp add: system_ok_def)
  then have "system_ok X cached self free y'" by (rule system_steps_ok [OF assms(1-3,6)])
  with assms(7) show ?thesis by (fastforce simp: system_ok_def promised_def MapperFlush_page_def)
qed

text \<open>A page is mapped, used, unmapped and flushed.\<close>

definition demo_system :: "(nat, tlb_machine) system" where
  "demo_system = \<lparr>sys_mem = demo_mem, sys_alloc = 2, sys_cpu = tlb_start, sys_promises = []\<rparr>"

definition demo_cached :: tlb_machine where
  "demo_cached = tlb_start\<lparr>m_tlb := [VirtAddr 0x400123 \<mapsto> (Size4KiB, demo_frame, 0x123, 3)]\<rparr>"

lemma demo_system_parts:
  "good (page_table_walker demo_mapper) (level_4_table demo_mapper) (bump_free 4096) (sys_mem demo_system, sys_alloc demo_system)"
  "\<forall>v. tlb_cached (sys_cpu demo_system) v = None"
  using demo_good by (simp_all add: demo_system_def tlb_cached_def tlb_start_def tlb_machine.defs machine.defs)

lemma demo_system_unmapped:
  "\<exists>y. (system_step (std_extern True) tlb_cpu tlb_cached demo_mapper (bump_allocate 4096))\<^sup>*\<^sup>* demo_system y \<and>
    sys_cpu y = demo_cached \<and> sys_promises y = [(Size4KiB, MapperFlush demo_page)] \<and>
    translate (std_extern True) demo_mapper (sys_mem y) (VirtAddr 0x400123) = Some NotMapped"
proof -
  let ?step = "system_step (std_extern True) tlb_cpu tlb_cached demo_mapper (bump_allocate 4096)"
  obtain m1 a1 where r: "map_to_with_table_flags (std_extern True) Size4KiB demo_mapper
      (bump_allocate 4096) demo_page demo_frame demo_flags demo_flags (demo_mem, 2) =
      Some (Inr (MapperFlush demo_page), (m1, a1))"
    using demo_map by blast
  obtain m2 where u: "unmap (std_extern True) Size4KiB demo_mapper demo_page m1 =
      Some (Inr (demo_frame, MapperFlush demo_page), m2)"
    using bump_mapped.map_unmap [OF demo_good demo_args r] by blast
  let ?y1 = "demo_system\<lparr>sys_mem := m1, sys_alloc := a1\<rparr>"
  let ?y2 = "?y1\<lparr>sys_cpu := demo_cached\<rparr>"
  let ?y3 = "?y2\<lparr>sys_mem := m2, sys_promises := [(Size4KiB, MapperFlush demo_page)]\<rparr>"
  have inv: "good (page_table_walker demo_mapper) (level_4_table demo_mapper) (bump_free 4096) (m1, a1)"
    using bump_mapped.map_total [OF demo_good demo_args, where c = True and p = demo_page] r by auto
  have s1: "?step demo_system ?y1"
    using step_map [OF demo_args, of "std_extern True" demo_mapper "bump_allocate 4096" demo_page demo_system _ m1 a1 tlb_cpu tlb_cached] r
    by (simp add: demo_system_def MapperFlush_ignore_def)
  have "translate (std_extern True) demo_mapper m1 (VirtAddr 0x400123) =
      Some (Mapped (mapped_frame Size4KiB demo_frame) 0x123 3)"
    using bump_mapped.map_view [OF demo_good demo_args r] demo_in_page demo_translation by simp
  then have s2: "?step ?y1 ?y2"
    by (intro step_cache) (auto simp: demo_system_def tlb_cached_def demo_cached_def tlb_start_def
        tlb_machine.defs machine.defs split: if_splits)
  have s3: "?step ?y2 ?y3"
    using step_unmap [of "std_extern True" Size4KiB demo_mapper demo_page ?y2 demo_frame _ m2] u
    by (simp add: demo_system_def)
  have "?step\<^sup>*\<^sup>* demo_system ?y3"
    by (rule rtranclp.rtrancl_into_rtrancl [OF rtranclp.rtrancl_into_rtrancl [OF r_into_rtranclp [of ?step, OF s1] s2] s3])
  moreover have "translate (std_extern True) demo_mapper m2 (VirtAddr 0x400123) = Some NotMapped"
    using bump_mapped.unmap_view [OF inv u, of "VirtAddr 0x400123"] demo_in_page by simp
  ultimately show ?thesis by (intro exI [of _ ?y3]) simp
qed

theorem flush_promises_sound_witness:
  "\<exists>y y'. (system_step (std_extern True) tlb_cpu tlb_cached demo_mapper (bump_allocate 4096))\<^sup>*\<^sup>* demo_system y \<and>
    tlb_cached (sys_cpu y) (VirtAddr 0x400123) = Some (Mapped (MappedFrame_Size4KiB demo_frame) 0x123 3) \<and>
    translate (std_extern True) demo_mapper (sys_mem y) (VirtAddr 0x400123) = Some NotMapped \<and>
    system_step (std_extern True) tlb_cpu tlb_cached demo_mapper (bump_allocate 4096) y y' \<and>
    sys_promises y' = [] \<and> tlb_cached (sys_cpu y') (VirtAddr 0x400123) = None"
proof -
  let ?step = "system_step (std_extern True) tlb_cpu tlb_cached demo_mapper (bump_allocate 4096)"
  obtain y where y: "?step\<^sup>*\<^sup>* demo_system y" "sys_cpu y = demo_cached" "sys_promises y = [(Size4KiB, MapperFlush demo_page)]"
      "translate (std_extern True) demo_mapper (sys_mem y) (VirtAddr 0x400123) = Some NotMapped"
    using demo_system_unmapped by blast
  let ?y' = "y\<lparr>sys_cpu := MapperFlush_flush tlb_cpu (MapperFlush demo_page) (sys_cpu y), sys_promises := []\<rparr>"
  have st: "?step y ?y'"
    using step_flush [of Size4KiB "MapperFlush demo_page" y] y(3) by simp
  with y(1) have reach: "?step\<^sup>*\<^sup>* demo_system ?y'" by simp
  have "tlb_cached (sys_cpu ?y') (VirtAddr 0x400123) = None"
  proof (rule ccontr)
    assume "tlb_cached (sys_cpu ?y') (VirtAddr 0x400123) \<noteq> None"
    then obtain r where r: "tlb_cached (sys_cpu ?y') (VirtAddr 0x400123) = Some r" by blast
    from flush_promises_sound [OF std_extern_ok tlb_cpu.tlb_axioms demo_bump demo_system_parts reach this]
    have "r = NotMapped" using y(4) by simp
    with tlb_cpu.cached_mapped [OF r] show False by simp
  qed
  moreover have "tlb_cached (sys_cpu y) (VirtAddr 0x400123) = Some (Mapped (MappedFrame_Size4KiB demo_frame) 0x123 3)"
    by (simp add: y(2) tlb_cached_def demo_cached_def)
  ultimately show ?thesis using y st by (intro exI [of _ y] exI [of _ ?y']) simp
qed

end
