(* ===== verification/Address_Tests.thy ===== *)
theory Address_Tests
  imports Step_Harness Frame
begin

text \<open>
  The unit tests of \<open>addr.rs\<close>, \<open>structures/paging/page.rs\<close> and \<open>structures/paging/frame.rs\<close>. A test is a
  value of type \<open>unit option\<close>: \<open>Some ()\<close> when it returns, \<open>panic\<close> when an assertion or the code it calls
  panics. A test marked \<open>should_panic\<close> passes when it panics. The lemmas show that the tests pass in
  every build, with and without overflow checks; the loops over thousand pages go through the contract of
  iterators.
\<close>

section \<open>The tests of addresses\<close>

definition assert_eq :: "'a \<Rightarrow> 'a \<Rightarrow> unit option" where
  "assert_eq a b = assert_that (a = b)"

definition assert_returns :: "'a option \<Rightarrow> 'a \<Rightarrow> unit option" where
  "assert_returns computation b = do { a \<leftarrow> computation; assert_eq a b }"

definition add_overflow_virtaddr :: "VirtAddr option" where
  "add_overflow_virtaddr = do { a \<leftarrow> VirtAddr_new 0xffffffffffffffff; VirtAddr_add a 1 }"

definition add_overflow_physaddr :: "PhysAddr option" where
  "add_overflow_physaddr = do { a \<leftarrow> PhysAddr_new 0x000fffffffffffff; PhysAddr_add a 0xffff000000000000 }"

definition sub_underflow_virtaddr :: "VirtAddr option" where
  "sub_underflow_virtaddr = do { a \<leftarrow> VirtAddr_new 0; VirtAddr_sub a 1 }"

definition sub_overflow_physaddr :: "PhysAddr option" where
  "sub_overflow_physaddr = do { a \<leftarrow> PhysAddr_new 0; PhysAddr_sub a 1 }"

definition virtaddr_new_truncate :: "unit option" where
  "virtaddr_new_truncate = do {
     assert_eq (VirtAddr_new_truncate 0) (VirtAddr 0);
     assert_eq (VirtAddr_new_truncate (push_bit 47 1)) (VirtAddr (push_bit 47 0xfffff));
     assert_eq (VirtAddr_new_truncate 123) (VirtAddr 123);
     assert_eq (VirtAddr_new_truncate (push_bit 47 123)) (VirtAddr (push_bit 47 0xfffff))
   }"

definition virtaddr_step_forward :: "extern \<Rightarrow> unit option" where
  "virtaddr_step_forward X = do {
     assert_returns (Step_forward X (VirtAddr 0) 0) (VirtAddr 0);
     assert_returns (Step_forward X (VirtAddr 0) 1) (VirtAddr 1);
     assert_returns (Step_forward X (VirtAddr 0x7fffffffffff) 1) (VirtAddr 0xffff800000000000);
     assert_returns (Step_forward X (VirtAddr 0xffff800000000000) 1) (VirtAddr 0xffff800000000001);
     assert_returns (VirtAddr_forward_checked X (VirtAddr 0xffffffffffffffff) 1) None;
     assert_returns (Step_forward X (VirtAddr 0x7fffffffffff) 0x123456789abd) (VirtAddr 0xffff923456789abc);
     assert_returns (Step_forward X (VirtAddr 0x7fffffffffff) 0x800000000000) (VirtAddr 0xffffffffffffffff);
     assert_returns (Step_forward X (VirtAddr 0x7fffffffff00) 0x8000000000ff) (VirtAddr 0xffffffffffffffff);
     assert_returns (VirtAddr_forward_checked X (VirtAddr 0x7fffffffff00) 0x800000000100) None;
     assert_returns (VirtAddr_forward_checked X (VirtAddr 0x7fffffffffff) 0x800000000001) None
   }"

definition virtaddr_step_backward :: "extern \<Rightarrow> unit option" where
  "virtaddr_step_backward X = do {
     assert_returns (Step_backward X (VirtAddr 0) 0) (VirtAddr 0);
     assert_returns (VirtAddr_backward_checked X (VirtAddr 0) 1) None;
     assert_returns (Step_backward X (VirtAddr 1) 1) (VirtAddr 0);
     assert_returns (Step_backward X (VirtAddr 0xffff800000000000) 1) (VirtAddr 0x7fffffffffff);
     assert_returns (Step_backward X (VirtAddr 0xffff800000000001) 1) (VirtAddr 0xffff800000000000);
     assert_returns (Step_backward X (VirtAddr 0xffff923456789abc) 0x123456789abd) (VirtAddr 0x7fffffffffff);
     assert_returns (Step_backward X (VirtAddr 0xffff800000000000) 0x800000000000) (VirtAddr 0);
     assert_returns (Step_backward X (VirtAddr 0xffff800000000000) 0x7fffffffff01) (VirtAddr 0xff);
     assert_returns (VirtAddr_backward_checked X (VirtAddr 0xffff800000000000) 0x800000000001) None
   }"

definition virtaddr_steps_between :: "unit option" where
  "virtaddr_steps_between = do {
     assert_eq (VirtAddr_steps_between (VirtAddr 0) (VirtAddr 0)) (0, Some 0);
     assert_eq (VirtAddr_steps_between (VirtAddr 0) (VirtAddr 1)) (1, Some 1);
     assert_eq (VirtAddr_steps_between (VirtAddr 1) (VirtAddr 0)) (0, None);
     assert_eq (VirtAddr_steps_between (VirtAddr 0x7fffffffffff) (VirtAddr 0xffff800000000000)) (1, Some 1);
     assert_eq (VirtAddr_steps_between (VirtAddr 0xffff800000000000) (VirtAddr 0x7fffffffffff)) (0, None);
     assert_eq (VirtAddr_steps_between (VirtAddr 0xffff800000000000) (VirtAddr 0xffff800000000000)) (0, Some 0);
     assert_eq (VirtAddr_steps_between (VirtAddr 0xffff800000000000) (VirtAddr 0xffff800000000001)) (1, Some 1);
     assert_eq (VirtAddr_steps_between (VirtAddr 0xffff800000000001) (VirtAddr 0xffff800000000000)) (0, None);
     assert_eq (VirtAddr_steps_between (VirtAddr 0) (VirtAddr 0x100000000)) (0x100000000, Some 0x100000000)
   }"

definition test_align_up :: "unit option" where
  "test_align_up = do {
     assert_returns (align_up 0 1) 0;
     assert_returns (align_up 1234 1) 1234;
     assert_returns (align_up 0xffffffffffffffff 1) 0xffffffffffffffff;
     assert_returns (align_up 0 2) 0;
     assert_returns (align_up 1233 2) 1234;
     assert_returns (align_up 0xfffffffffffffffe 2) 0xfffffffffffffffe;
     assert_returns (align_up 0 128) 0;
     assert_returns (align_up 0 1) 0;
     assert_returns (align_up 0 2) 0;
     assert_returns (align_up 0 0x8000000000000000) 0
   }"

definition test_virt_addr_align_up :: "unit option" where
  "test_virt_addr_align_up = do {
     a \<leftarrow> VirtAddr_new 0x7fffffffffff;
     expected \<leftarrow> VirtAddr_new 0xffff800000000000;
     assert_returns (VirtAddr_align_up a 2) expected
   }"

definition test_virt_addr_align_down :: "unit option" where
  "test_virt_addr_align_down = do {
     a \<leftarrow> VirtAddr_new 0xffff800000000000;
     expected \<leftarrow> VirtAddr_new 0;
     assert_returns (VirtAddr_align_down a (push_bit 48 1)) expected
   }"

definition test_virt_addr_align_up_overflow :: "VirtAddr option" where
  "test_virt_addr_align_up_overflow = do { a \<leftarrow> VirtAddr_new 0xffffffffffffffff; VirtAddr_align_up a 2 }"

definition test_phys_addr_align_up_overflow :: "PhysAddr option" where
  "test_phys_addr_align_up_overflow = do { a \<leftarrow> PhysAddr_new 0x000fffffffffffff; PhysAddr_align_up a 2 }"

text \<open>
  A pointer to a slice is the address of its first element and its length; \<open>from_ptr\<close> drops the length
  (\<open>ptr as *const ()\<close>). A reference to an element of \<open>bytes\<close> bytes is checked against the length. The slice
  of the test has five elements of the type \<open>i32\<close>.
\<close>

record slice_ref =
  slice_data :: u64
  slice_len :: usize

definition element_ptr :: "u64 \<Rightarrow> slice_ref \<Rightarrow> usize \<Rightarrow> u64 option" where
  "element_ptr bytes xs i = (if i < slice_len xs then Some (slice_data xs + i * bytes) else panic)"

definition test_from_ptr_array :: "u64 \<Rightarrow> unit option" where
  "test_from_ptr_array array = do {
     let slice = \<lparr>slice_data = array, slice_len = 5\<rparr>;
     a \<leftarrow> VirtAddr_from_ptr (slice_data slice);
     element \<leftarrow> element_ptr 4 slice 0;
     b \<leftarrow> VirtAddr_from_ptr element;
     assert_eq a b
   }"

section \<open>The tests of pages and frames\<close>

text \<open>
  The body of the loops: one call of \<open>next\<close>, whose item is compared with a page that is computed from the
  loop variable.
\<close>

definition expect_next :: "('r \<Rightarrow> ('i option \<times> 'r) option) \<Rightarrow> (u64 \<Rightarrow> 'i option) \<Rightarrow> u64 \<Rightarrow> 'r \<Rightarrow> 'r option" where
  "expect_next nxt expected i r = do {
     (item, r) \<leftarrow> nxt r;
     page \<leftarrow> expected i;
     assert_eq item (Some page);
     Some r
   }"

definition expected_page :: "extern \<Rightarrow> VirtAddr \<Rightarrow> u64 \<Rightarrow> Page option" where
  "expected_page X start_addr i = do {
     offset \<leftarrow> mul_op X (SIZE Size4KiB) i;
     addr \<leftarrow> VirtAddr_add start_addr offset;
     Page_containing_address Size4KiB addr
   }"

text \<open>The values of the range \<open>0..n\<close>.\<close>

definition u64_upto :: "nat \<Rightarrow> u64 list" where
  "u64_upto n = map of_nat [0..<n]"

definition test_page_ranges :: "extern \<Rightarrow> unit option" where
  "test_page_ranges X = do {
     let number = 1000;
     start_addr \<leftarrow> VirtAddr_new 0xdeadbeaf;
     start \<leftarrow> Page_containing_address Size4KiB start_addr;
     end_p \<leftarrow> Page_add X Size4KiB start number;
     r \<leftarrow> fold_option (expect_next (PageRange_next X Size4KiB) (expected_page X start_addr))
            (u64_upto (unat number)) (Page_range start end_p);
     (item, r) \<leftarrow> PageRange_next X Size4KiB r;
     assert_eq item None;
     r \<leftarrow> fold_option (expect_next (PageRangeInclusive_next X Size4KiB) (expected_page X start_addr))
            (u64_upto (unat number + 1)) (Page_range_inclusive start end_p);
     (item, r) \<leftarrow> PageRangeInclusive_next X Size4KiB r;
     assert_eq item None
   }"

definition test_page_range_inclusive_overflow :: "extern \<Rightarrow> unit option" where
  "test_page_range_inclusive_overflow X = do {
     let page_size = SIZE Size4KiB;
     let number = 1000;
     max_addr \<leftarrow> VirtAddr_new (-1);
     max_page_addr \<leftarrow> VirtAddr_align_down max_addr page_size;
     offset \<leftarrow> mul_op X number page_size;
     start_addr \<leftarrow> VirtAddr_sub max_page_addr offset;
     start \<leftarrow> Page_containing_address Size4KiB start_addr;
     end_p \<leftarrow> Page_add X Size4KiB start number;
     r \<leftarrow> fold_option (expect_next (PageRangeInclusive_next X Size4KiB) (expected_page X start_addr))
            (u64_upto (unat number + 1)) (Page_range_inclusive start end_p);
     (item, r) \<leftarrow> PageRangeInclusive_next X Size4KiB r;
     assert_eq item None
   }"

definition test_page_range_len :: "extern \<Rightarrow> unit option" where
  "test_page_range_len X = do {
     start_addr \<leftarrow> VirtAddr_new 0xdeadbeaf;
     start \<leftarrow> Page_containing_address Size4KiB start_addr;
     end_p \<leftarrow> Page_add X Size4KiB start 50;
     assert_returns (PageRange_len Size4KiB \<lparr>start_page = start, end_page = end_p\<rparr>) 50;
     assert_returns (PageRangeInclusive_len X Size4KiB \<lparr>start_page_incl = start, end_page_incl = end_p\<rparr>) 51
   }"

text \<open>\<open>Page::<Size4KiB>::from_start_address(VirtAddr::new(a)).unwrap()\<close>.\<close>

definition unwrap_page :: "u64 \<Rightarrow> Page option" where
  "unwrap_page a = do {
     addr \<leftarrow> VirtAddr_new a;
     r \<leftarrow> Page_from_start_address Size4KiB addr;
     case r of Inl _ \<Rightarrow> panic | Inr p \<Rightarrow> Some p
   }"

definition unwrap_page_option :: "u64 option \<Rightarrow> Page option option" where
  "unwrap_page_option r = (case r of None \<Rightarrow> Some None | Some a \<Rightarrow> do { p \<leftarrow> unwrap_page a; Some (Some p) })"

definition page_step_forward :: "extern \<Rightarrow> unit option" where
  "page_step_forward X = fold_option (\<lambda>(start, count, result) _. do {
       start \<leftarrow> unwrap_page start;
       result \<leftarrow> unwrap_page_option result;
       assert_returns (Page_forward_checked X Size4KiB start count) result
     })
     [(0, 0, Some 0),
      (0, 1, Some 0x1000),
      (0x1000, 1, Some 0x2000),
      (0x7ffffffff000, 1, Some 0xffff800000000000),
      (0xffff800000000000, 1, Some 0xffff800000001000),
      (0xfffffffffffff000, 1, None),
      (0x7ffffffff000, 0x123456789, Some 0xffff923456788000),
      (0x7ffffffff000, 0x800000000, Some 0xfffffffffffff000),
      (0x7ffffff00000, 0x8000000ff, Some 0xfffffffffffff000),
      (0x7ffffff00000, 0x800000100, None),
      (0x7ffffffff000, 0x800000001, None),
      (0, 0x100000, Some 0x100000000)] ()"

definition page_step_backwards :: "extern \<Rightarrow> unit option" where
  "page_step_backwards X = fold_option (\<lambda>(start, count, result) _. do {
       start \<leftarrow> unwrap_page start;
       result \<leftarrow> unwrap_page_option result;
       assert_returns (Page_backward_checked X Size4KiB start count) result
     })
     [(0, 0, Some 0),
      (0, 1, None),
      (0x1000, 1, Some 0),
      (0xffff800000000000, 1, Some 0x7ffffffff000),
      (0xffff800000001000, 1, Some 0xffff800000000000),
      (0xffff923456788000, 0x123456789, Some 0x7ffffffff000),
      (0xffff800000000000, 0x800000000, Some 0),
      (0xffff800000000000, 0x7ffffff01, Some 0xff000),
      (0xffff800000000000, 0x800000001, None),
      (0x100000000, 0x100000, Some 0)] ()"

definition page_steps_between :: "unit option" where
  "page_steps_between = fold_option (\<lambda>(start, end_a, lower, upper) _. do {
       start \<leftarrow> unwrap_page start;
       end_p \<leftarrow> unwrap_page end_a;
       assert_eq (Page_steps_between Size4KiB start end_p) (lower, upper)
     })
     [(0, 0, 0, Some 0),
      (0, 0x1000, 1, Some 1),
      (0x1000, 0, 0, None),
      (0x1000, 0x1000, 0, Some 0),
      (0x7ffffffff000, 0xffff800000000000, 1, Some 1),
      (0xffff800000000000, 0x7ffffffff000, 0, None),
      (0xffff800000000000, 0xffff800000000000, 0, Some 0),
      (0xffff800000000000, 0xffff800000001000, 1, Some 1),
      (0xffff800000001000, 0xffff800000000000, 0, None),
      (0xffff800000001000, 0xffff800000001000, 0, Some 0),
      (0, 0x100000000, 0x100000, Some 0x100000),
      (0, 0x100000000000, 0x100000000, Some 0x100000000)] ()"

definition test_frame_range_len :: "extern \<Rightarrow> unit option" where
  "test_frame_range_len X = do {
     start_addr \<leftarrow> PhysAddr_new 0xdeadbeaf;
     start \<leftarrow> PhysFrame_containing_address Size4KiB start_addr;
     end_f \<leftarrow> PhysFrame_add X Size4KiB start 50;
     assert_returns (PhysFrameRange_len Size4KiB \<lparr>start_frame = start, end_frame = end_f\<rparr>) 50;
     assert_returns (PhysFrameRangeInclusive_len X Size4KiB \<lparr>start_frame_incl = start, end_frame_incl = end_f\<rparr>) 51
   }"

section \<open>They pass\<close>

lemma assert_eq_Some [simp]: "assert_eq a b = Some () \<longleftrightarrow> a = b"
  by (simp add: assert_eq_def assert_that_def)

lemma assert_eq_refl [simp]: "assert_eq a a = Some ()"
  by simp

lemma assert_returns_Some [simp]: "assert_returns c b = Some () \<longleftrightarrow> c = Some b"
  by (auto simp: assert_returns_def split: Option.bind_splits)

text \<open>Assertions in sequence pass when each of them does.\<close>

lemma then_Some_unit [simp]: "(t \<bind> (\<lambda>_. u)) = Some () \<longleftrightarrow> t = Some () \<and> u = Some ()" for t :: "unit option"
  by (auto split: Option.bind_splits)

text \<open>Concrete addresses: canonical form and position are decided on the numbers.\<close>

lemmas concrete = canonical_iff_unat lin_def VirtAddr_new_eq PhysAddr_new_eq phys_ok_def

lemma panicI: "(\<And>b. c = Some b \<Longrightarrow> False) \<Longrightarrow> c = panic"
  by (cases c) auto

lemma should_panic_addr:
  "add_overflow_virtaddr = panic" "add_overflow_physaddr = panic" "sub_underflow_virtaddr = panic"
  "sub_overflow_physaddr = panic"
proof -
  show "add_overflow_virtaddr = panic"
    by (simp add: add_overflow_virtaddr_def concrete VirtAddr_add_def checked_add_def)
  show "sub_underflow_virtaddr = panic"
    by (rule panicI) (simp add: sub_underflow_virtaddr_def concrete VirtAddr_sub_eq_Some)
  show "add_overflow_physaddr = panic"
    by (rule panicI) (auto simp: add_overflow_physaddr_def concrete PhysAddr_add_eq_Some)
  show "sub_overflow_physaddr = panic"
    by (rule panicI) (simp add: sub_overflow_physaddr_def concrete PhysAddr_sub_eq_Some)
qed

lemma powers_of_two [simp]: "is_power_of_two 1" "is_power_of_two 2" "is_power_of_two 128"
  "is_power_of_two 0x8000000000000000"
proof -
  have p: "is_power_of_two (2 ^ k)" if "k < 64" for k
    using that by (auto simp: is_power_of_two_def)
  show "is_power_of_two 1" using p [of 0] by simp
  show "is_power_of_two 2" using p [of 1] by simp
  show "is_power_of_two 128" using p [of 7] by simp
  show "is_power_of_two 0x8000000000000000" using p [of 63] by simp
qed

lemma should_panic_align: "test_virt_addr_align_up_overflow = panic" "test_phys_addr_align_up_overflow = panic"
proof -
  have "align_up 0xffffffffffffffff 2 = panic" by (simp add: align_up_None)
  then show "test_virt_addr_align_up_overflow = panic"
    by (simp add: test_virt_addr_align_up_overflow_def concrete VirtAddr_align_up_def)
  have "align_up 0x000fffffffffffff 2 = Some 0x0010000000000000" by (simp add: align_up_eq_Some)
  then show "test_phys_addr_align_up_overflow = panic"
    by (simp add: test_phys_addr_align_up_overflow_def concrete PhysAddr_align_up_def PhysAddr_as_u64_def)
qed

lemma virtaddr_new_truncate: "virtaddr_new_truncate = Some ()"
  by (simp add: virtaddr_new_truncate_def VirtAddr_new_truncate_def)

lemma align_tests: "test_align_up = Some ()" "test_virt_addr_align_up = Some ()" "test_virt_addr_align_down = Some ()"
proof -
  show "test_align_up = Some ()" by (simp add: test_align_up_def align_up_eq_Some)
  have "align_up 0x7fffffffffff 2 = Some 0x800000000000" by (simp add: align_up_eq_Some)
  then show "test_virt_addr_align_up = Some ()"
    by (simp add: test_virt_addr_align_up_def concrete VirtAddr_align_up_def VirtAddr_new_truncate_def)
  have "is_power_of_two 0x1000000000000" by (auto simp: is_power_of_two_def intro!: bexI [of _ 48])
  then have "align_down 0xffff800000000000 0x1000000000000 = Some 0xffff000000000000" by (simp add: align_down_eq_Some)
  then show "test_virt_addr_align_down = Some ()"
    by (simp add: test_virt_addr_align_down_def concrete VirtAddr_align_down_def VirtAddr_align_down_u64_def
        VirtAddr_new_truncate_def)
qed

lemma from_ptr_array: "canonical (VirtAddr p) \<Longrightarrow> test_from_ptr_array p = Some ()"
  by (simp add: test_from_ptr_array_def element_ptr_def VirtAddr_from_ptr_def VirtAddr_new_eq)

context extern_ok
begin

lemma virtaddr_steps_between: "virtaddr_steps_between = Some ()"
  by (simp add: virtaddr_steps_between_def addr_step.between_some addr_step.between_none concrete)

lemma virtaddr_step_forward: "virtaddr_step_forward X = Some ()"
  by (simp add: virtaddr_step_forward_def Step_forward_eq addr_step.forward_none concrete)

lemma virtaddr_step_backward: "virtaddr_step_backward X = Some ()"
  by (simp add: virtaddr_step_backward_def Step_backward_eq addr_step.backward_none concrete)

end


section \<open>The tests of pages and frames pass\<close>

lemma unwrap_page_eq:
  assumes "canonical (VirtAddr a)" and "unat a mod 4096 = 0"
  shows "unwrap_page a = Some (Page (VirtAddr a)) \<and> page_ok Size4KiB (Page (VirtAddr a))"
proof -
  have ok: "page_ok Size4KiB (Page (VirtAddr a))"
    using page_okI [of "VirtAddr a" Size4KiB] assms by simp
  moreover from this have "lin (VirtAddr a) mod 2 ^ size_bits Size4KiB = 0"
    by (simp add: page_ok_def)
  ultimately show ?thesis
    using assms by (simp add: unwrap_page_def VirtAddr_new_eq Page_from_start_address_eq)
qed

lemma page_num_concrete [simp]: "page_num Size4KiB (Page (VirtAddr a)) = unat a mod 2 ^ 48 div 4096"
  by (simp add: page_num_def lin_def)

context extern_ok
begin

lemma page_step_tests: "page_step_forward X = Some ()" "page_step_backwards X = Some ()" "page_steps_between = Some ()"
proof -
  note simps = unwrap_page_eq canonical_iff_unat unwrap_page_option_def
  show "page_step_forward X = Some ()"
    by (simp add: page_step_forward_def simps page_step.forward_eq_Some page_step.forward_none)
  show "page_step_backwards X = Some ()"
    by (simp add: page_step_backwards_def simps page_step.backward_eq_Some page_step.backward_none)
  show "page_steps_between = Some ()"
    by (simp add: page_steps_between_def simps Page_steps_between_eq)
qed

end

context iterator
begin

text \<open>A loop that expects the items of an iterator in order reaches its end.\<close>

lemma expect_all:
  assumes "inv r" and "items r = map f is" and "\<And>i. i \<in> set is \<Longrightarrow> expected i = Some (f i)"
  shows "\<exists>r'. fold_option (expect_next next expected) is r = Some r' \<and> next r' = Some (None, r')"
  using assms
proof (induction "is" arbitrary: r)
  case Nil
  then show ?case by (simp add: next_nil)
next
  case (Cons i "is")
  then obtain r' where "next r = Some (Some (f i), r')" "inv r'" "items r' = map f is"
    using next_cons [of r "f i" "map f is"] by auto
  with Cons show ?case by (simp add: expect_next_def)
qed

end

text \<open>
  The page \<open>j\<close> pages after the one of the address \<open>a\<close>; \<open>room\<close> says that a thousand pages follow in the
  same half of the address space.
\<close>

definition page_after :: "VirtAddr \<Rightarrow> nat \<Rightarrow> Page" where
  "page_after a j = page_at Size4KiB (lin a div 4096 + j)"

definition room :: "VirtAddr \<Rightarrow> bool" where
  "room a \<longleftrightarrow> canonical a \<and>
     (lin a + 4096 * 1002 < 2 ^ 47 \<or> 2 ^ 47 \<le> lin a \<and> lin a + 4096 * 1000 < 2 ^ 48)"

lemma page_after:
  assumes a: "room a" and j: "j \<le> 1000"
  shows "page_ok Size4KiB (page_after a j)" and "page_num Size4KiB (page_after a j) = lin a div 4096 + j"
    and "lin (page_start (page_after a j)) = (lin a div 4096 + j) * 4096"
proof -
  show p: "page_ok Size4KiB (page_after a j)" "page_num Size4KiB (page_after a j) = lin a div 4096 + j"
    using page_at [of "lin a div 4096 + j" Size4KiB] a j by (auto simp: page_after_def room_def)
  show "lin (page_start (page_after a j)) = (lin a div 4096 + j) * 4096"
    using p lin_page_num [of Size4KiB "page_after a j"] by simp
qed

lemma page_after_half: "room a \<Longrightarrow> j \<le> 1000 \<Longrightarrow> same_half (page_after a 0) (page_after a j)"
  using page_after(3) [of a 0] page_after(3) [of a j] by (auto simp: room_def same_half_def)

lemma page_after_containing:
  assumes "canonical b" and "lin b = lin a + 4096 * j" and "room a" and "j \<le> 1000"
  shows "Page_containing_address Size4KiB b = Some (page_after a j)"
proof -
  obtain q where "Page_containing_address Size4KiB b = Some q" "page_ok Size4KiB q" "page_num Size4KiB q = lin b div 4096"
    using Page_containing_address_spec [OF assms(1), of Size4KiB] by auto
  with page_num_inj [of Size4KiB q "page_after a j"] page_after [OF assms(3,4)] assms(2) show ?thesis by simp
qed

lemma expected_page_eq:
  assumes "room a" and "k \<le> 1000"
  shows "expected_page X a (of_nat k) = Some (page_after a k)"
proof -
  let ?b = "VirtAddr_new_truncate (of_nat (lin a + 4096 * k))"
  have lt: "lin a + 4096 * k < 2 ^ 48" using assms by (auto simp: room_def)
  then have "unat (of_nat (lin a + 4096 * k) :: u64) = lin a + 4096 * k" by (intro unat_of_nat_small) simp
  with lt have l: "lin ?b = lin a + 4096 * k" by simp
  have u: "unat (va ?b) = unat (va a) + 4096 * k"
    using assms l by (subst (1 2) canonical_unat) (auto simp: room_def)
  have k: "unat (of_nat k :: u64) = k" using assms(2) by (intro unat_of_nat_small) simp
  then have m: "mul_op X 4096 (of_nat k :: u64) = Some (4096 * of_nat k)" "unat (4096 * of_nat k :: u64) = 4096 * k"
    using assms(2) unat_mul_no_wrap [of "4096 :: u64" "of_nat k"] by (simp_all add: mul_op_def checked_mul_def)
  have "VirtAddr_add a (4096 * of_nat k) = Some ?b"
    using u m by (simp add: VirtAddr_add_eq_Some)
  with page_after_containing [OF _ l assms] show ?thesis by (simp add: expected_page_def m)
qed

lemma page_after_add: "room a \<Longrightarrow> j \<le> 1000 \<Longrightarrow> Page_add X Size4KiB (page_after a 0) (of_nat j) = Some (page_after a j)"
  using page_after [of a 0] page_after [of a j] page_after_half [of a j]
  by (intro Page_add_same_half) (simp_all add: unat_of_nat_small)

lemma map_upto_shift:
  assumes "n \<le> 1001"
  shows "map f [m..<n + m] = map (\<lambda>i. f (m + unat i)) (u64_upto n)"
proof -
  have "unat (of_nat i :: u64) = i" if "i < n" for i
    using that assms by (intro unat_of_nat_small) simp
  then have "map (\<lambda>i. f (m + unat i)) (u64_upto n) = map f (map (\<lambda>i. i + m) [0..<n])"
    by (simp add: u64_upto_def add.commute [of m])
  then show ?thesis by (simp only: map_add_upt)
qed

lemma loops_reach_end:
  assumes a: "room a"
  shows "\<exists>r. fold_option (expect_next (PageRange_next X Size4KiB) (expected_page X a)) (u64_upto 1000)
      (Page_range (page_after a 0) (page_after a 1000)) = Some r \<and> PageRange_next X Size4KiB r = Some (None, r)"
    and "\<exists>r. fold_option (expect_next (PageRangeInclusive_next X Size4KiB) (expected_page X a)) (u64_upto 1001)
      (Page_range_inclusive (page_after a 0) (page_after a 1000)) = Some r \<and>
      PageRangeInclusive_next X Size4KiB r = Some (None, r)"
proof -
  note p = page_after [OF a, of 0, simplified] page_after [OF a, of 1000, simplified] page_after_half [OF a, of 1000, simplified]
  have e: "expected_page X a i = Some (page_after a (unat i))" if "i \<in> set (u64_upto n)" "n \<le> 1001" for i n
    using that expected_page_eq [OF a] by (auto simp: u64_upto_def unat_of_nat_small)
  have "range_inv Size4KiB (Page_range (page_after a 0) (page_after a 1000))"
    using p by (simp add: range_inv_def Page_range_def)
  moreover have "range_items Size4KiB (Page_range (page_after a 0) (page_after a 1000)) =
      map (\<lambda>i. page_after a (unat i)) (u64_upto 1000)"
    using p map_upto_shift [of 1000 "page_at Size4KiB" "lin a div 4096"]
    by (simp add: range_items_def Page_range_def page_after_def add.commute [of _ 1000])
  ultimately show "\<exists>r. fold_option (expect_next (PageRange_next X Size4KiB) (expected_page X a)) (u64_upto 1000)
      (Page_range (page_after a 0) (page_after a 1000)) = Some r \<and> PageRange_next X Size4KiB r = Some (None, r)"
    by (rule page_range_iter.expect_all) (rule e [where n = 1000]; simp)
  have "incl_inv Size4KiB (Page_range_inclusive (page_after a 0) (page_after a 1000))"
    using p a by (auto simp: incl_inv_def Page_range_inclusive_def room_def)
  moreover have "incl_items Size4KiB (Page_range_inclusive (page_after a 0) (page_after a 1000)) =
      map (\<lambda>i. page_after a (unat i)) (u64_upto 1001)"
    using p map_upto_shift [of 1001 "page_at Size4KiB" "lin a div 4096"]
    by (simp add: incl_items_def Page_range_inclusive_def page_after_def del: upt_Suc)
  ultimately show "\<exists>r. fold_option (expect_next (PageRangeInclusive_next X Size4KiB) (expected_page X a)) (u64_upto 1001)
      (Page_range_inclusive (page_after a 0) (page_after a 1000)) = Some r \<and>
      PageRangeInclusive_next X Size4KiB r = Some (None, r)"
    by (rule page_range_inclusive_iter.expect_all) (rule e [where n = 1001]; simp)
qed

lemma room_first: "room a \<Longrightarrow> Page_containing_address Size4KiB a = Some (page_after a 0)"
  by (rule page_after_containing) (simp_all add: room_def)

lemma test_page_range_len: "test_page_range_len X = Some ()"
proof -
  let ?a = "VirtAddr 0xdeadbeaf" and ?p = "page_after (VirtAddr 0xdeadbeaf)"
  have a: "room ?a" by (simp add: room_def concrete)
  note p = page_after [OF a, of 0, simplified] page_after [OF a, of 50, simplified] page_after_half [OF a, of 50, simplified]
  have "Page_sub_page Size4KiB (?p 50) (?p 0) = Some 50" "?p 0 < ?p 50"
    using p Page_sub_page_eq [of Size4KiB "?p 0" "?p 50"] page_num_less_iff [of Size4KiB "?p 0" "?p 50"] by simp_all
  then show ?thesis
    using room_first [OF a] page_after_add [OF a, of 50 X]
    by (simp add: test_page_range_len_def VirtAddr_new_eq canonical_iff_unat PageRange_len_def PageRange_is_empty_def
        PageRangeInclusive_len_def PageRangeInclusive_is_empty_def add_op_def checked_add_def not_le)
qed

lemma test_page_ranges: "test_page_ranges X = Some ()"
proof -
  let ?a = "VirtAddr 0xdeadbeaf"
  have a: "room ?a" by (simp add: room_def concrete)
  have "VirtAddr_new 0xdeadbeaf = Some ?a" by (simp add: VirtAddr_new_eq canonical_iff_unat)
  then show ?thesis
    using room_first [OF a] page_after_add [OF a, of 1000 X] loops_reach_end [OF a, of X]
    by (auto simp: test_page_ranges_def)
qed

lemma test_page_range_inclusive_overflow: "test_page_range_inclusive_overflow X = Some ()"
proof -
  let ?a = "VirtAddr 0xffffffffffc17000"
  have a: "room ?a" by (simp add: room_def concrete)
  have "VirtAddr_new (-1) = Some (VirtAddr (-1))" by (rule max_page_addr(1))
  moreover have "is_power_of_two 4096" by (auto simp: is_power_of_two_def intro!: bexI [of _ 12])
  then have "VirtAddr_align_down (VirtAddr (-1)) 4096 = Some (VirtAddr 0xfffffffffffff000)"
    by (simp add: VirtAddr_align_down_def VirtAddr_align_down_u64_def align_down_def VirtAddr_new_truncate_def)
  moreover have "VirtAddr_sub (VirtAddr 0xfffffffffffff000) 4096000 = Some ?a"
    by (simp add: VirtAddr_sub_eq_Some canonical_iff_unat)
  ultimately show ?thesis
    using room_first [OF a] page_after_add [OF a, of 1000 X] loops_reach_end(2) [OF a, of X]
    by (auto simp: test_page_range_inclusive_overflow_def mul_op_def checked_mul_def)
qed

lemma test_frame_range_len: "test_frame_range_len X = Some ()"
proof -
  let ?s = "PhysFrame (PhysAddr 0xdeadb000)" and ?e = "PhysFrame (PhysAddr 0xdeb0d000)"
  have "PhysFrame_containing_address Size4KiB (PhysAddr 0xdeadbeaf) = Some ?s"
    "PhysFrame_containing_address Size4KiB (PhysAddr 0xdeb0d000) = Some ?e"
    by (simp_all add: PhysFrame_containing_address_eq)
  moreover have "PhysAddr_add (PhysAddr 0xdeadb000) 0x32000 = Some (PhysAddr 0xdeb0d000)"
    by (simp add: PhysAddr_add_eq_Some phys_ok_def)
  ultimately show ?thesis
    by (simp add: test_frame_range_len_def concrete PhysFrame_add_def PhysFrame_start_address_def mul_op_def
        checked_mul_def PhysFrameRange_len_def PhysFrameRange_is_empty_def PhysFrameRangeInclusive_len_def
        PhysFrameRangeInclusive_is_empty_def PhysFrame_sub_frame_def PhysAddr_sub_addr_def checked_sub_def
        PhysAddr_as_u64_def less_eq_PhysFrame_def less_PhysFrame_def less_eq_PhysAddr_def less_PhysAddr_def
        add_op_def checked_add_def)
qed

section \<open>All tests\<close>

text \<open>
  C21. In every build, with and without overflow checks, the unit tests of \<open>addr.rs\<close>, \<open>page.rs\<close> and
  \<open>frame.rs\<close> pass: those marked \<open>should_panic\<close> panic, and no assertion of the others fails, the loops over
  a thousand pages up to the last page of the address space included.
\<close>

theorem address_tests_pass:
  assumes "extern_ok X" and "canonical (VirtAddr slice_ptr)"
  shows "add_overflow_virtaddr = panic \<and> add_overflow_physaddr = panic \<and> sub_underflow_virtaddr = panic \<and>
    sub_overflow_physaddr = panic \<and> test_virt_addr_align_up_overflow = panic \<and>
    test_phys_addr_align_up_overflow = panic \<and>
    virtaddr_new_truncate = Some () \<and> virtaddr_step_forward X = Some () \<and> virtaddr_step_backward X = Some () \<and>
    virtaddr_steps_between = Some () \<and> test_align_up = Some () \<and> test_virt_addr_align_up = Some () \<and>
    test_virt_addr_align_down = Some () \<and> test_from_ptr_array slice_ptr = Some () \<and>
    test_page_ranges X = Some () \<and> test_page_range_inclusive_overflow X = Some () \<and>
    test_page_range_len X = Some () \<and> page_step_forward X = Some () \<and> page_step_backwards X = Some () \<and>
    page_steps_between = Some () \<and> test_frame_range_len X = Some ()"
  using should_panic_addr should_panic_align virtaddr_new_truncate align_tests from_ptr_array [OF assms(2)]
    extern_ok.virtaddr_step_forward [OF assms(1)] extern_ok.virtaddr_step_backward [OF assms(1)]
    extern_ok.virtaddr_steps_between [OF assms(1)] extern_ok.page_step_tests [OF assms(1)]
    test_page_ranges test_page_range_inclusive_overflow test_page_range_len test_frame_range_len
  by (intro conjI)

theorem address_tests_pass_witness:
  "test_page_ranges (std_extern True) = Some () \<and> page_step_forward (std_extern False) = Some ()"
proof -
  have "canonical (VirtAddr 0x1000)" by (simp add: canonical_iff_unat)
  then show ?thesis
    using address_tests_pass [OF std_extern_ok, of "0x1000" True] address_tests_pass [OF std_extern_ok, of "0x1000" False]
    by blast
qed

end
