(* ===== verification/Table_Tests.thy ===== *)
theory Table_Tests
  imports Address_Tests General_Handler Instructions
begin

text \<open>
  The unit tests of the descriptor tables (\<open>structures/gdt.rs\<close>, \<open>structures/idt.rs\<close>, \<open>structures/tss.rs\<close>), of
  the control register \<open>MXCSR\<close> (\<open>registers/mxcsr.rs\<close>) and of the random number generator
  (\<open>instructions/random.rs\<close>), as values of type \<open>unit option\<close> like the tests of addresses. The tests of
  instructions run on the CPU \<open>C\<close>. The lemmas show that they pass.
\<close>

section \<open>The tests of the global descriptor table\<close>

definition linux_kernel_defaults :: "extern \<Rightarrow> unit option" where
  "linux_kernel_defaults X = do {
     assert_eq (KERNEL_CODE64 X) 0x00af9b000000ffff;
     assert_eq (KERNEL_CODE32 X) 0x00cf9b000000ffff;
     assert_eq (KERNEL_DATA X) 0x00cf93000000ffff;
     assert_eq (USER_CODE64 X) 0x00affb000000ffff;
     assert_eq (USER_CODE32 X) 0x00cffb000000ffff;
     assert_eq (USER_DATA X) 0x00cff3000000ffff
   }"

definition make_six_entry_gdt :: "extern \<Rightarrow> GlobalDescriptorTable option" where
  "make_six_entry_gdt X = do {
     gdt \<leftarrow> Gdt_new;
     (_, gdt) \<leftarrow> Gdt_append X gdt (kernel_code_segment X);
     (_, gdt) \<leftarrow> Gdt_append X gdt (kernel_data_segment X);
     (_, gdt) \<leftarrow> Gdt_append X gdt (UserSegment (USER_CODE32 X));
     (_, gdt) \<leftarrow> Gdt_append X gdt (user_data_segment X);
     (_, gdt) \<leftarrow> Gdt_append X gdt (user_code_segment X);
     assert_eq (gdt_len gdt) 6;
     Some gdt
   }"

text \<open>\<open>tss\<close> is the address of the static \<open>TSS\<close>.\<close>

definition make_full_gdt :: "extern \<Rightarrow> u64 \<Rightarrow> GlobalDescriptorTable option" where
  "make_full_gdt X tss = do {
     gdt \<leftarrow> make_six_entry_gdt X;
     d \<leftarrow> tss_segment X tss;
     (_, gdt) \<leftarrow> Gdt_append X gdt d;
     assert_eq (gdt_len gdt) 8;
     Some gdt
   }"

definition push_max_segments :: "extern \<Rightarrow> u64 \<Rightarrow> unit option" where
  "push_max_segments X tss = do {
     gdt \<leftarrow> make_six_entry_gdt X;
     (_, gdt) \<leftarrow> Gdt_append X gdt (user_data_segment X);
     assert_eq (gdt_len gdt) 7;
     (_, gdt) \<leftarrow> Gdt_append X gdt (user_data_segment X);
     assert_eq (gdt_len gdt) 8;
     _ \<leftarrow> make_full_gdt X tss;
     Some ()
   }"

definition panic_user_segment :: "extern \<Rightarrow> u64 \<Rightarrow> unit option" where
  "panic_user_segment X tss = do {
     gdt \<leftarrow> make_full_gdt X tss;
     (_, gdt) \<leftarrow> Gdt_append X gdt (user_data_segment X);
     Some ()
   }"

definition panic_system_segment :: "extern \<Rightarrow> u64 \<Rightarrow> unit option" where
  "panic_system_segment X tss = do {
     gdt \<leftarrow> make_six_entry_gdt X;
     (_, gdt) \<leftarrow> Gdt_append X gdt (user_data_segment X);
     d \<leftarrow> tss_segment X tss;
     (_, gdt) \<leftarrow> Gdt_append X gdt d;
     Some ()
   }"

definition from_entries :: "extern \<Rightarrow> unit option" where
  "from_entries X = do {
     gdt \<leftarrow> Gdt_from_raw_entries 3 [0, KERNEL_CODE64 X, KERNEL_DATA X];
     assert_eq (length (gdt_table gdt)) 3;
     es \<leftarrow> Gdt_entries gdt;
     assert_eq (length es) 3
   }"

definition descriptor_dpl :: "extern \<Rightarrow> unit option" where
  "descriptor_dpl X = do {
     assert_returns (Descriptor_dpl (kernel_code_segment X)) Ring0;
     assert_returns (Descriptor_dpl (kernel_data_segment X)) Ring0;
     assert_returns (Descriptor_dpl (user_code_segment X)) Ring3;
     assert_returns (Descriptor_dpl (user_code_segment X)) Ring3
   }"

definition check_tss_size :: "unit option" where
  "check_tss_size = assert_eq size_of_TaskStateSegment 0x68"

section \<open>The tests of the interrupt descriptor table\<close>

definition entry_present :: "extern \<Rightarrow> InterruptDescriptorTable \<Rightarrow> u8 \<Rightarrow> bool option" where
  "entry_present X idt index = do {
     e \<leftarrow> (let i = unat index in
        if i = 8 then Some (double_fault idt)
        else if i = 10 then Some (invalid_tss idt)
        else if i = 11 then Some (segment_not_present idt)
        else if i = 12 then Some (stack_segment_fault idt)
        else if i = 13 then Some (general_protection_fault idt)
        else if i = 14 then Some (page_fault idt)
        else if i = 15 then Some (idt_reserved_1 idt)
        else if i = 17 then Some (alignment_check idt)
        else if i = 18 then Some (machine_check idt)
        else if i = 21 then Some (cp_protection_exception idt)
        else if 22 \<le> i \<and> i \<le> 27 then
          (if i - 22 < length (idt_reserved_2 idt) then Some (idt_reserved_2 idt ! (i - 22)) else panic)
        else if i = 28 then Some (hv_injection_exception idt)
        else if i = 29 then Some (vmm_communication_exception idt)
        else if i = 30 then Some (security_exception idt)
        else if i = 31 then Some (idt_reserved_3 idt)
        else Idt_index idt index);
     get_bit_u16 X (opt_bits (entry_options e)) 15
   }"

text \<open>\<open>assert!(c)\<close> when \<open>b\<close>, \<open>assert!(!c)\<close> otherwise, for \<open>c\<close> the presence of the entry.\<close>

definition expect_present :: "extern \<Rightarrow> InterruptDescriptorTable \<Rightarrow> (u8 \<Rightarrow> bool) \<Rightarrow> u8 \<Rightarrow> unit \<Rightarrow> unit option" where
  "expect_present X idt b i _ = do {
     c \<leftarrow> entry_present X idt i;
     if b i then assert_that c else assert_that (\<not> c)
   }"

text \<open>
  The handlers that the macro generates are at the addresses \<open>fn_addr\<close>, one for each use of the macro;
  \<open>cs\<close> is the value of the register \<open>CS\<close>.
\<close>

definition default_handlers :: "extern \<Rightarrow> SegmentSelector \<Rightarrow> (nat \<Rightarrow> u8 \<Rightarrow> u64) \<Rightarrow> unit option" where
  "default_handlers X cs fn_addr = do {
     let idt = Idt_new;
     idt \<leftarrow> set_general_handler_idx X cs (fn_addr 0) idt 0;
     fold_option (expect_present X idt (\<lambda>i. i = 0)) (map of_nat [0..<256]) ();
     idt \<leftarrow> set_general_handler_idx X cs (fn_addr 1) idt 14;
     fold_option (expect_present X idt (\<lambda>i. i = 0 \<or> i = 14)) (map of_nat [0..<256]) ();
     idt \<leftarrow> set_general_handler X cs (fn_addr 2) idt (Included 32, Excluded 64);
     fold_option (expect_present X idt (\<lambda>i. i = 0 \<or> i = 14 \<or> range_contains (Included 32, Excluded 64) i))
       (map of_nat [1..<256]) ();
     idt \<leftarrow> set_general_handler_all X cs (fn_addr 3) idt;
     fold_option (expect_present X idt
         (\<lambda>i. \<not> (i = 15 \<or> i = 31 \<or> range_contains (Included 22, Included 27) i)))
       (map of_nat [0..<256]) ()
   }"

section \<open>The tests of instructions\<close>

definition mxcsr_default :: "extern \<Rightarrow> 'c cpu \<Rightarrow> 'c \<Rightarrow> unit option" where
  "mxcsr_default X C s = assert_eq (mxcsr_read X C s) (bitflags_from_bits_truncate_u32 X MxCsr_all 0x1F80)"

definition mxcsr_read_test :: "extern \<Rightarrow> 'c cpu \<Rightarrow> 'c \<Rightarrow> unit option" where
  "mxcsr_read_test X C s = assert_eq (mxcsr_read X C s) (MxCsr_default X)"

definition mxcsr_write_test :: "extern \<Rightarrow> 'c cpu \<Rightarrow> 'c \<Rightarrow> unit option" where
  "mxcsr_write_test X C s = do {
     let mxcsr = mxcsr_read X C s;
     let s = mxcsr_write C mxcsr s;
     assert_eq mxcsr (mxcsr_read X C s)
   }"

text \<open>\<open>is_x86_feature_detected!("rdrand")\<close> of the standard library is the argument \<open>detected\<close>.\<close>

definition test_rdrand :: "extern \<Rightarrow> 'c cpu \<Rightarrow> bool \<Rightarrow> 'c \<Rightarrow> unit option" where
  "test_rdrand X C detected s = do {
     let rand = RdRand_new C s;
     if detected then do {
       rand \<leftarrow> rand;
       (r, s) \<leftarrow> RdRand_get_u16 X C rand s;
       assert_that (r \<noteq> None);
       (r, s) \<leftarrow> RdRand_get_u32 X C rand s;
       assert_that (r \<noteq> None);
       (r, s) \<leftarrow> RdRand_get_u64 X C rand s;
       assert_that (r \<noteq> None)
     } else assert_that (rand = None)
   }"

section \<open>The tests of the global descriptor table pass\<close>

text \<open>A table of eight entries, \<open>n\<close> of which are used.\<close>

definition uses :: "GlobalDescriptorTable \<Rightarrow> nat \<Rightarrow> bool" where
  "uses g n \<longleftrightarrow> gdt_ok g \<and> length (gdt_table g) = 8 \<and> length (gdt_values g) = n"

lemma uses_len: "uses g n \<Longrightarrow> gdt_len g = of_nat n"
  by (auto simp: uses_def length_gdt_values)

lemma uses_append:
  assumes "uses g n"
  shows "n + length (descriptor_values d) \<le> 8 \<Longrightarrow>
      \<exists>sel g'. Gdt_append X g d = Some (sel, g') \<and> uses g' (n + length (descriptor_values d))"
    and "8 < n + length (descriptor_values d) \<Longrightarrow> Gdt_append X g d = panic"
  using assms Gdt_append_values [of g d X] by (auto simp: uses_def split: if_splits)

lemma uses_new: "\<exists>g. Gdt_new = Some g \<and> uses g 1"
  by (simp add: Gdt_new_def Gdt_empty_def uses_def gdt_ok_def gdt_values_def Gdt_Entry_new_def)

lemma segment_values [simp]:
  "length (descriptor_values (kernel_code_segment X)) = 1" "length (descriptor_values (kernel_data_segment X)) = 1"
  "length (descriptor_values (user_data_segment X)) = 1" "length (descriptor_values (user_code_segment X)) = 1"
  by (simp_all add: kernel_code_segment_def kernel_data_segment_def user_data_segment_def user_code_segment_def)

lemma make_six: "\<exists>g. make_six_entry_gdt X = Some g \<and> uses g 6"
proof -
  obtain g1 where g1: "Gdt_new = Some g1" "uses g1 1" using uses_new by blast
  obtain s2 g2 where g2: "Gdt_append X g1 (kernel_code_segment X) = Some (s2, g2)" "uses g2 2"
    using uses_append(1) [OF g1(2), of "kernel_code_segment X" X] by (auto simp: numeral_2_eq_2)
  obtain s3 g3 where g3: "Gdt_append X g2 (kernel_data_segment X) = Some (s3, g3)" "uses g3 3"
    using uses_append(1) [OF g2(2), of "kernel_data_segment X" X] by auto
  obtain s4 g4 where g4: "Gdt_append X g3 (UserSegment (USER_CODE32 X)) = Some (s4, g4)" "uses g4 4"
    using uses_append(1) [OF g3(2), of "UserSegment (USER_CODE32 X)" X] by auto
  obtain s5 g5 where g5: "Gdt_append X g4 (user_data_segment X) = Some (s5, g5)" "uses g5 5"
    using uses_append(1) [OF g4(2), of "user_data_segment X" X] by auto
  obtain s6 g6 where g6: "Gdt_append X g5 (user_code_segment X) = Some (s6, g6)" "uses g6 6"
    using uses_append(1) [OF g5(2), of "user_code_segment X" X] by auto
  have "make_six_entry_gdt X = Some g6"
    using uses_len [OF g6(2)] by (simp add: make_six_entry_gdt_def g1 g2 g3 g4 g5 g6)
  with g6(2) show ?thesis by blast
qed

context extern_ok
begin

lemma tss_values: "\<exists>d. tss_segment X tss = Some d \<and> length (descriptor_values d) = 2"
  by (simp add: tss_segment_def tss_segment_unchecked_def get_range_fits size_of_TaskStateSegment_def Let_def)

lemma make_full: "\<exists>g. make_full_gdt X tss = Some g \<and> uses g 8"
proof -
  obtain g6 where g6: "make_six_entry_gdt X = Some g6" "uses g6 6" using make_six by blast
  obtain d where d: "tss_segment X tss = Some d" "length (descriptor_values d) = 2" using tss_values by blast
  obtain s8 g8 where g8: "Gdt_append X g6 d = Some (s8, g8)" "uses g8 8"
    using uses_append(1) [OF g6(2), of d X] d by auto
  show ?thesis using g6 d g8 uses_len [OF g8(2)] by (simp add: make_full_gdt_def)
qed

lemma gdt_capacity_tests:
  "push_max_segments X tss = Some ()" "panic_user_segment X tss = panic" "panic_system_segment X tss = panic"
proof -
  let ?u = "user_data_segment X"
  obtain g6 where g6: "make_six_entry_gdt X = Some g6" "uses g6 6" using make_six by blast
  obtain s7 g7 where g7: "Gdt_append X g6 ?u = Some (s7, g7)" "uses g7 7"
    using uses_append(1) [OF g6(2), of ?u X] by auto
  obtain s8 g8 where g8: "Gdt_append X g7 ?u = Some (s8, g8)" "uses g8 8"
    using uses_append(1) [OF g7(2), of ?u X] by auto
  obtain g where g: "make_full_gdt X tss = Some g" "uses g 8" using make_full by blast
  obtain d where d: "tss_segment X tss = Some d" "length (descriptor_values d) = 2" using tss_values by blast
  show "push_max_segments X tss = Some ()"
    using g6 g7 g8 g uses_len [OF g7(2)] uses_len [OF g8(2)] by (simp add: push_max_segments_def)
  show "panic_user_segment X tss = panic"
    using g uses_append(2) [OF g(2), of ?u X] by (simp add: panic_user_segment_def)
  show "panic_system_segment X tss = panic"
    using g6 g7 d uses_append(2) [OF g7(2), of d X] by (simp add: panic_system_segment_def)
qed

lemma segment_constants:
  "KERNEL_CODE64 X = 0x00af9b000000ffff" "KERNEL_CODE32 X = 0x00cf9b000000ffff" "KERNEL_DATA X = 0x00cf93000000ffff"
  "USER_CODE64 X = 0x00affb000000ffff" "USER_CODE32 X = 0x00cffb000000ffff" "USER_DATA X = 0x00cff3000000ffff"
  by (simp_all add: KERNEL_CODE64_def KERNEL_CODE32_def KERNEL_DATA_def USER_CODE64_def USER_CODE32_def USER_DATA_def
      COMMON_def DescriptorFlags_all_def descriptor_flag_defs)

lemma gdt_value_tests: "linux_kernel_defaults X = Some ()" "from_entries X = Some ()" "descriptor_dpl X = Some ()"
proof -
  show "linux_kernel_defaults X = Some ()" by (simp add: linux_kernel_defaults_def segment_constants)
  show "from_entries X = Some ()"
    by (simp add: from_entries_def Gdt_from_raw_entries_def Gdt_empty_def copy_raw_entries.simps Gdt_entries_def Let_def)
  show "descriptor_dpl X = Some ()"
    by (simp add: descriptor_dpl_def Descriptor_dpl_def kernel_code_segment_def kernel_data_segment_def
        user_code_segment_def segment_constants DPL_RING_3_def PrivilegeLevel_from_u16_def)
qed

end

section \<open>The tests of the interrupt descriptor table pass\<close>

lemma fold_option_asserts:
  "(\<And>x. x \<in> set xs \<Longrightarrow> f x () = Some ()) \<Longrightarrow> fold_option f xs () = Some ()"
  by (induction xs) auto

lemma reserved_vector_iff: "reserved_vector i \<longleftrightarrow> i = 15 \<or> i = 31 \<or> 22 \<le> i \<and> i \<le> 27"
  by (auto simp: reserved_vector_def word_le_nat_alt word_unat_eq_iff)

text \<open>The present bit of the entry of a vector, in the table as the CPU reads it.\<close>

definition present :: "InterruptDescriptorTable \<Rightarrow> u8 \<Rightarrow> bool" where
  "present t i \<longleftrightarrow> bit (opt_bits (entry_options (idt_entries t ! unat i))) 15"

lemma present_new: "\<not> present Idt_new i"
proof -
  have "set (idt_entries Idt_new) = {Idt_Entry_missing}" by (auto simp: idt_entries_def Idt_new_def)
  moreover have "length (idt_entries Idt_new) = 256" by (simp add: idt_entries_def Idt_new_def)
  ultimately have "idt_entries Idt_new ! unat i = Idt_Entry_missing" using nth_mem u8_lt [of i] by fastforce
  then show ?thesis by (simp add: present_def Idt_Entry_missing_def EntryOptions_minimal_def)
qed

lemma present_installed:
  "handlers_installed cs fa rng UNIV t t' \<Longrightarrow> present t' i \<longleftrightarrow> handled rng i \<or> present t i"
  by (simp add: handlers_installed_def present_def installed_def)

lemma entry_present_eq:
  assumes "extern_ok X" and t: "idt_ok t"
  shows "entry_present X t i = Some (present t i)"
proof (cases "unat i < 32")
  case True
  obtain r0 r1 r2 r3 r4 r5 where r: "idt_reserved_2 t = [r0, r1, r2, r3, r4, r5]"
    using t by (rule idt_reserved_2_cases)
  show ?thesis
    using vector_below_32 [OF True]
    by (elim insertE emptyE)
      (simp_all add: entry_present_def present_def idt_entries_def r Idt_index_def extern_ok.get_bit_u16 [OF assms(1)])
next
  case False
  then have "Idt_index t i = Some (interrupts t ! (unat i - 32))"
    using t u8_lt [of i] by (simp add: Idt_index_def idt_ok_def Let_def)
  moreover have "length (take 32 (idt_entries t)) = 32" using idt_entries_interrupts(2) [OF t] by simp
  then have "idt_entries t ! unat i = interrupts t ! (unat i - 32)"
    using False by (subst idt_entries_interrupts(3) [OF t]) (simp add: nth_append)
  ultimately show ?thesis
    using False by (simp add: entry_present_def present_def extern_ok.get_bit_u16 [OF assms(1)])
qed

lemma expect_present_pass:
  assumes "extern_ok X" and "idt_ok t" and "\<And>i. i \<in> set is \<Longrightarrow> present t i = b i"
  shows "fold_option (expect_present X t b) is () = Some ()"
  using assms by (intro fold_option_asserts) (simp add: expect_present_def entry_present_eq)

lemma default_handlers:
  assumes X: "extern_ok X" and fa: "\<And>k i. canonical (VirtAddr (fn_addr k i))"
  shows "default_handlers X cs fn_addr = Some ()"
proof -
  have step: "\<exists>t'. set_general_handler X cs (fn_addr k) t rng = Some t' \<and> idt_ok t' \<and>
      (\<forall>i. present t' i \<longleftrightarrow> handled rng i \<or> present t i)" if "idt_ok t" for k t rng
    using set_general_handler_installs [where rng = rng and cs = cs and fa = "fn_addr k", OF X that fa]
      present_installed [of cs "fn_addr k" rng t] by blast
  have t0: "idt_ok Idt_new" by (simp add: idt_ok_def Idt_new_def)
  obtain t1 where t1: "set_general_handler X cs (fn_addr 0) Idt_new (Included 0, Included 0) = Some t1" "idt_ok t1"
      "\<And>i. present t1 i \<longleftrightarrow> handled (Included 0, Included 0) i"
    using step [OF t0] present_new by metis
  obtain t2 where t2: "set_general_handler X cs (fn_addr 1) t1 (Included 14, Included 14) = Some t2" "idt_ok t2"
      "\<And>i. present t2 i \<longleftrightarrow> handled (Included 14, Included 14) i \<or> present t1 i"
    using step [OF t1(2)] by metis
  obtain t3 where t3: "set_general_handler X cs (fn_addr 2) t2 (Included 32, Excluded 64) = Some t3" "idt_ok t3"
      "\<And>i. present t3 i \<longleftrightarrow> handled (Included 32, Excluded 64) i \<or> present t2 i"
    using step [OF t2(2)] by metis
  obtain t4 where t4: "set_general_handler X cs (fn_addr 3) t3 (Included 0, Included 255) = Some t4" "idt_ok t4"
      "\<And>i. present t4 i \<longleftrightarrow> handled (Included 0, Included 255) i \<or> present t3 i"
    using step [OF t3(2)] by metis
  note check = expect_present_pass [OF X]
  have one: "range_contains (Included k, Included k) i \<longleftrightarrow> i = k" for i k by (auto simp: order_antisym)
  have all: "range_contains (Included 0, Included 255) i" for i :: u8
    using u8_lt [of i] by (simp add: word_le_nat_alt)
  have p1: "present t1 i \<longleftrightarrow> i = 0" for i by (auto simp: t1(3) handled_def one reserved_vector_def)
  have p2: "present t2 i \<longleftrightarrow> i = 0 \<or> i = 14" for i by (auto simp: t2(3) p1 handled_def one reserved_vector_def)
  have p3: "present t3 i \<longleftrightarrow> i = 0 \<or> i = 14 \<or> range_contains (Included 32, Excluded 64) i" for i
    by (auto simp: t3(3) p2 handled_def reserved_vector_def)
  have "present t4 i \<longleftrightarrow> \<not> reserved_vector i" for i
    by (auto simp: t4(3) p3 handled_def all reserved_vector_def simp del: range_contains.simps) (simp_all add: word_le_nat_alt)
  then have p4: "present t4 i \<longleftrightarrow> i \<noteq> 15 \<and> i \<noteq> 31 \<and> \<not> range_contains (Included 22, Included 27) i" for i
    by (auto simp: reserved_vector_iff)
  show ?thesis
    by (simp add: default_handlers_def set_general_handler_idx_def set_general_handler_all_def Let_def t1(1) t2(1) [unfolded One_nat_def] t3(1) t4(1)
        expect_present_pass [OF X t1(2) p1] expect_present_pass [OF X t2(2) p2] expect_present_pass [OF X t3(2) p3]
        expect_present_pass [OF X t4(2) p4] del: range_contains.simps)
qed

section \<open>The tests of instructions pass\<close>

lemma mxcsr_constants: "MxCsr_all = 0xffff" "foldl (OR) MxCsr_INVALID_OPERATION_MASK [MxCsr_DENORMAL_MASK,
     MxCsr_DIVIDE_BY_ZERO_MASK, MxCsr_OVERFLOW_MASK, MxCsr_UNDERFLOW_MASK, MxCsr_PRECISION_MASK] = 0x1f80"
  by (simp_all add: MxCsr_defs)

lemma mxcsr_tests:
  assumes "extern_ok X" and "cpu_ok C"
  shows "mxcsr_write_test X C s = Some ()"
    and "stmxcsr C s = 0x1f80 \<Longrightarrow> mxcsr_default X C s = Some ()" "stmxcsr C s = 0x1f80 \<Longrightarrow> mxcsr_read_test X C s = Some ()"
proof -
  have fl: "bitflags_or_u32 X = (OR)" by (intro ext extern_ok.flags_or_u32 [OF assms(1)])
  note simps = mxcsr_read_def mxcsr_write_def extern_ok.from_bits_truncate_u32 [OF assms(1)] MxCsr_default_def fl mxcsr_constants
  have "take_bit 16 (stmxcsr C s AND 0xffff) = stmxcsr C s AND 0xffff"
  proof -
    have m: "(0xffff :: u32) = mask 16" by (simp add: mask_eq_exp_minus_1)
    show ?thesis unfolding m by (simp flip: take_bit_eq_mask)
  qed
  then show "mxcsr_write_test X C s = Some ()"
    by (simp add: mxcsr_write_test_def simps cpu_ok.mxcsr_stored [OF assms(2)])
  show "stmxcsr C s = 0x1f80 \<Longrightarrow> mxcsr_default X C s = Some ()" by (simp add: mxcsr_default_def simps)
  show "stmxcsr C s = 0x1f80 \<Longrightarrow> mxcsr_read_test X C s = Some ()" by (simp add: mxcsr_read_test_def simps MxCsr_defs)
qed

lemma test_rdrand_pass:
  assumes "detected \<longleftrightarrow> fst (snd (snd (cpuid C 1 s))) AND push_bit 30 1 \<noteq> 0"
    and "\<And>s. fst (fst (rdrand16_step C s)) = 1" "\<And>s. fst (fst (rdrand32_step C s)) = 1"
      "\<And>s. fst (fst (rdrand64_step C s)) = 1"
  shows "test_rdrand X C detected s = Some ()"
proof -
  have ok: "\<exists>v s'. rdrand_result X r = Some (Some v, s')" if "fst (fst r) = 1" for r :: "(u32 \<times> 'v) \<times> 'c"
    using that by (cases r) (auto simp: rdrand_result_def)
  obtain v1 s1 where 1: "RdRand_get_u16 X C RdRand s = Some (Some v1, s1)"
    using ok [OF assms(2) [of s]] by (auto simp: RdRand_get_u16_def)
  obtain v2 s2 where 2: "RdRand_get_u32 X C RdRand s1 = Some (Some v2, s2)"
    using ok [OF assms(3) [of s1]] by (auto simp: RdRand_get_u32_def)
  obtain v3 s3 where 3: "RdRand_get_u64 X C RdRand s2 = Some (Some v3, s3)"
    using ok [OF assms(4) [of s2]] by (auto simp: RdRand_get_u64_def)
  show ?thesis
    using assms(1) 1 2 3 by (cases "cpuid C 1 s") (simp add: test_rdrand_def RdRand_new_def)
qed

section \<open>All tests\<close>

text \<open>
  C33. The unit tests of the descriptor tables and of \<open>MXCSR\<close> pass: the segment constants are those of the
  Linux kernel, the seven free entries of a new table hold seven segments and an eighth panics, also
  when one entry is left and the segment needs two, and \<open>set_general_handler\<close> makes exactly the entries of
  its range present, never a reserved one. (The generated handlers are at canonical addresses, and \<open>MXCSR\<close>
  has its value at reset.)
\<close>

theorem table_tests_pass:
  assumes "extern_ok X" and "cpu_ok C" and "\<forall>k i. canonical (VirtAddr (fn_addr k i))" and "stmxcsr C s = 0x1f80"
  shows "linux_kernel_defaults X = Some () \<and> push_max_segments X tss = Some () \<and> panic_user_segment X tss = panic \<and>
    panic_system_segment X tss = panic \<and> from_entries X = Some () \<and> descriptor_dpl X = Some () \<and>
    check_tss_size = Some () \<and> default_handlers X cs fn_addr = Some () \<and> mxcsr_default X C s = Some () \<and>
    mxcsr_read_test X C s = Some () \<and> mxcsr_write_test X C s = Some ()"
proof (intro conjI)
  show "check_tss_size = Some ()" by (simp add: check_tss_size_def size_of_TaskStateSegment_def)
  show "default_handlers X cs fn_addr = Some ()" using assms by (intro default_handlers) simp_all
qed (use extern_ok.gdt_value_tests [OF assms(1)] extern_ok.gdt_capacity_tests [OF assms(1)] mxcsr_tests [OF assms(1,2)]
    assms(4) in simp_all)

theorem table_tests_pass_witness:
  "panic_system_segment (std_extern True) 0x5000 = panic \<and>
    default_handlers (std_extern True) (SegmentSelector 8) (\<lambda>k i. 0x1000) = Some () \<and>
    mxcsr_write_test (std_extern True) std_cpu std_machine = Some ()"
proof -
  have "canonical (VirtAddr 0x1000)" by (simp add: canonical_iff_unat)
  moreover have "stmxcsr std_cpu std_machine = 0x1f80" by (simp add: std_cpu_def std_machine_def)
  ultimately show ?thesis
    using table_tests_pass [OF std_extern_ok std_cpu_ok, of "\<lambda>k i. 0x1000" std_machine True "0x5000" "SegmentSelector 8"]
    by blast
qed

end
