(* ===== verification/Test_Kernel.thy ===== *)
theory Test_Kernel
  imports Table_Tests
begin

text \<open>
  The kernel of the integration tests, which uses the crate as an operating system does
  (\<open>testing/src/lib.rs\<close>, \<open>testing/src/gdt.rs\<close>, \<open>testing/tests/\<close>): it builds a task state segment and a global
  descriptor table with it, loads both, installs an interrupt descriptor table, and reports the outcome
  through a port that ends the virtual machine.

  The record \<open>env\<close> holds what the CPU and the program share in memory, that is the static tables by
  their address, and the two counters of the tests; it also holds the serial line, whose driver is not
  part of the repository. A static of \<open>lazy_static\<close> is written where it is used first. The text that is
  printed is the format string. The locale \<open>test_env\<close> states what the architecture promises: the task
  register is loaded by \<open>ltr\<close>, which marks the descriptor as busy, a software interrupt calls the handler
  that the loaded table names, and the loads of the tables and of \<open>CS\<close> change nothing else.
\<close>

section \<open>The environment\<close>

datatype counter = BREAKPOINT_HANDLER_CALLED | INTERRUPT_HANDLER_CALLED

record 'c env =
  gdt_at :: "u64 \<Rightarrow> 'c \<Rightarrow> GlobalDescriptorTable"
  put_gdt :: "u64 \<Rightarrow> GlobalDescriptorTable \<Rightarrow> 'c \<Rightarrow> 'c"
  idt_at :: "u64 \<Rightarrow> 'c \<Rightarrow> InterruptDescriptorTable"
  put_idt :: "u64 \<Rightarrow> InterruptDescriptorTable \<Rightarrow> 'c \<Rightarrow> 'c"
  tss_at :: "u64 \<Rightarrow> 'c \<Rightarrow> TaskStateSegment"
  put_tss :: "u64 \<Rightarrow> TaskStateSegment \<Rightarrow> 'c \<Rightarrow> 'c"
  counter_value :: "counter \<Rightarrow> 'c \<Rightarrow> usize"
  put_counter :: "counter \<Rightarrow> usize \<Rightarrow> 'c \<Rightarrow> 'c"
  serial_print :: "string \<Rightarrow> 'c \<Rightarrow> 'c"
  task_register :: "'c \<Rightarrow> u16"
  call_handler :: "VirtAddr \<Rightarrow> 'c \<Rightarrow> 'c"
  exit_codes :: "'c \<Rightarrow> u32 list"

text \<open>The addresses at which the linker places the statics and the handlers.\<close>

record layout =
  stack_addr :: u64
  tss_addr :: u64
  gdt_addr :: u64
  idt_addr :: u64
  handler_fn_addr :: u64
  breakpoint_fn_addr :: u64

section \<open>\<open>testing/src/gdt.rs\<close>\<close>

definition DOUBLE_FAULT_IST_INDEX :: u16 where
  "DOUBLE_FAULT_IST_INDEX = 0"

definition TSS :: "u64 \<Rightarrow> TaskStateSegment option" where
  "TSS stack = do {
     let tss = TaskStateSegment_new;
     let STACK_SIZE = (4096 :: usize);
     stack_start \<leftarrow> VirtAddr_from_ptr stack;
     stack_end \<leftarrow> VirtAddr_add stack_start STACK_SIZE;
     let i = unat DOUBLE_FAULT_IST_INDEX;
     assert_that (i < length (interrupt_stack_table tss));
     Some (tss\<lparr>interrupt_stack_table := (interrupt_stack_table tss)[i := stack_end]\<rparr>)
   }"

record Selectors =
  code_selector :: SegmentSelector
  tss_selector :: SegmentSelector

definition GDT :: "extern \<Rightarrow> u64 \<Rightarrow> (GlobalDescriptorTable \<times> Selectors) option" where
  "GDT X tss = do {
     gdt \<leftarrow> Gdt_new;
     (_, gdt) \<leftarrow> Gdt_append X gdt (kernel_data_segment X);
     (code, gdt) \<leftarrow> Gdt_append X gdt (kernel_code_segment X);
     d \<leftarrow> tss_segment X tss;
     (task, gdt) \<leftarrow> Gdt_append X gdt d;
     Some (gdt, \<lparr>code_selector = code, tss_selector = task\<rparr>)
   }"

text \<open>\<open>GDT.0.entries()[i].clone()\<close>, for the table at the address \<open>a\<close>.\<close>

definition gdt_entry :: "'c env \<Rightarrow> u64 \<Rightarrow> nat \<Rightarrow> 'c \<Rightarrow> Gdt_Entry option" where
  "gdt_entry K a i s = do {
     es \<leftarrow> Gdt_entries (gdt_at K a s);
     assert_that (i < length es);
     Some (es ! i)
   }"

definition gdt_init :: "extern \<Rightarrow> 'c cpu \<Rightarrow> 'c env \<Rightarrow> layout \<Rightarrow> 'c \<Rightarrow> 'c option" where
  "gdt_init X C K L s = do {
     tss \<leftarrow> TSS (stack_addr L);
     let s = put_tss K (tss_addr L) tss s;
     (gdt, sels) \<leftarrow> GDT X (tss_addr L);
     let s = put_gdt K (gdt_addr L) gdt s;
     s \<leftarrow> Gdt_load X C (gdt_addr L) (gdt_at K (gdt_addr L) s) s;
     assert_that (Segment_get_reg C Seg_CS s \<noteq> code_selector sels);
     let s = CS_set_reg C (code_selector sels) s;
     assert_that (Segment_get_reg C Seg_CS s = code_selector sels);
     let tss_idx = unat (SegmentSelector_index (tss_selector sels));
     old_tss_entry \<leftarrow> gdt_entry K (gdt_addr L) tss_idx s;
     let s = load_tss C (tss_selector sels) s;
     new_tss_entry \<leftarrow> gdt_entry K (gdt_addr L) tss_idx s;
     assert_that (Gdt_Entry_raw old_tss_entry \<noteq> Gdt_Entry_raw new_tss_entry);
     Some s
   }"

section \<open>\<open>testing/src/lib.rs\<close>\<close>

datatype QemuExitCode = Success | Failed

primrec QemuExitCode_u32 :: "QemuExitCode \<Rightarrow> u32" where
  "QemuExitCode_u32 Success = 0x10"
| "QemuExitCode_u32 Failed = 0x11"

definition exit_qemu :: "'c cpu \<Rightarrow> QemuExitCode \<Rightarrow> 'c \<Rightarrow> 'c" where
  "exit_qemu C exit_code s =
     PortGeneric_write (u32_write_to_port C) (PortGeneric_new 0xf4) (QemuExitCode_u32 exit_code) s"

definition serial_println :: "'c env \<Rightarrow> string \<Rightarrow> 'c \<Rightarrow> 'c" where
  "serial_println K fmt s = serial_print K (fmt @ [CHR 0x0A]) s"

text \<open>A test is a function that may panic; the panic handler takes over then.\<close>

definition test_panic_handler :: "'c cpu \<Rightarrow> 'c env \<Rightarrow> 'c \<Rightarrow> 'c" where
  "test_panic_handler C K s =
     exit_qemu C Failed
       (serial_println K (''Error: {}'' @ [CHR 0x0A]) (serial_println K (''[failed]'' @ [CHR 0x0A]) s))"

definition test_runner :: "'c cpu \<Rightarrow> 'c env \<Rightarrow> ('c \<Rightarrow> 'c option) list \<Rightarrow> 'c \<Rightarrow> 'c option" where
  "test_runner C K tests s = do {
     s \<leftarrow> fold_option (\<lambda>test s. test s) tests (serial_println K ''Running {} tests'' s);
     Some (exit_qemu C Success s)
   }"

definition basic_boot :: "'c env \<Rightarrow> 'c \<Rightarrow> 'c option" where
  "basic_boot K s = do {
     let s = serial_print K ''basic_boot... '' s;
     assert_that (0 = (0 :: nat));
     Some (serial_println K ''[ok]'' s)
   }"

section \<open>\<open>tests/double_fault_stack_overflow.rs\<close>\<close>

definition TEST_IDT_double_fault :: "extern \<Rightarrow> SegmentSelector \<Rightarrow> u64 \<Rightarrow> InterruptDescriptorTable option" where
  "TEST_IDT_double_fault X cs double_fault_handler = do {
     let idt = Idt_new;
     e \<leftarrow> set_handler_fn X cs (double_fault idt) double_fault_handler;
     options \<leftarrow> set_stack_index X (entry_options e) DOUBLE_FAULT_IST_INDEX;
     Some (idt\<lparr>double_fault := e\<lparr>entry_options := options\<rparr>\<rparr>)
   }"

definition init_test_idt_double_fault :: "extern \<Rightarrow> 'c cpu \<Rightarrow> 'c env \<Rightarrow> layout \<Rightarrow> 'c \<Rightarrow> 'c option" where
  "init_test_idt_double_fault X C K L s = do {
     idt \<leftarrow> TEST_IDT_double_fault X (Segment_get_reg C Seg_CS s) (handler_fn_addr L);
     Idt_load C (idt_addr L) (put_idt K (idt_addr L) idt s)
   }"

text \<open>The start of the test, up to the stack overflow.\<close>

definition start_double_fault :: "extern \<Rightarrow> 'c cpu \<Rightarrow> 'c env \<Rightarrow> layout \<Rightarrow> 'c \<Rightarrow> 'c option" where
  "start_double_fault X C K L s = do {
     s \<leftarrow> gdt_init X C K L (serial_print K ''double_fault_stack_overflow... '' s);
     init_test_idt_double_fault X C K L s
   }"

definition double_fault_handler :: "'c cpu \<Rightarrow> 'c env \<Rightarrow> 'c \<Rightarrow> 'c" where
  "double_fault_handler C K s = exit_qemu C Success (serial_println K ''[ok]'' s)"

section \<open>\<open>tests/interrupt_handling.rs\<close>\<close>

text \<open>\<open>AtomicUsize::fetch_add\<close> wraps around.\<close>

definition fetch_add :: "'c env \<Rightarrow> counter \<Rightarrow> usize \<Rightarrow> 'c \<Rightarrow> 'c" where
  "fetch_add K k n s = put_counter K k (counter_value K k s + n) s"

definition breakpoint_handler :: "'c env \<Rightarrow> 'c \<Rightarrow> 'c" where
  "breakpoint_handler K s = fetch_add K BREAKPOINT_HANDLER_CALLED 1 s"

definition interrupt_handler :: "'c env \<Rightarrow> 'c \<Rightarrow> 'c" where
  "interrupt_handler K s = fetch_add K INTERRUPT_HANDLER_CALLED 1 s"

definition TEST_IDT_interrupts :: "extern \<Rightarrow> SegmentSelector \<Rightarrow> u64 \<Rightarrow> u64 \<Rightarrow> InterruptDescriptorTable option" where
  "TEST_IDT_interrupts X cs breakpoint_fn interrupt_fn = do {
     let idt = Idt_new;
     e \<leftarrow> set_handler_fn X cs (breakpoint idt) breakpoint_fn;
     let idt = idt\<lparr>breakpoint := e\<rparr>;
     e \<leftarrow> Idt_index idt 42;
     e \<leftarrow> set_handler_fn X cs e interrupt_fn;
     idt \<leftarrow> Idt_index_mut idt 42 e;
     e \<leftarrow> Idt_index idt 77;
     e \<leftarrow> set_handler_fn X cs e interrupt_fn;
     Idt_index_mut idt 77 e
   }"

definition init_test_idt_interrupts :: "extern \<Rightarrow> 'c cpu \<Rightarrow> 'c env \<Rightarrow> layout \<Rightarrow> 'c \<Rightarrow> 'c option" where
  "init_test_idt_interrupts X C K L s = do {
     idt \<leftarrow> TEST_IDT_interrupts X (Segment_get_reg C Seg_CS s) (breakpoint_fn_addr L) (handler_fn_addr L);
     Idt_load C (idt_addr L) (put_idt K (idt_addr L) idt s)
   }"

text \<open>The two matches on a counter differ in the expected number and in the printed name.\<close>

definition check_calls :: "'c cpu \<Rightarrow> 'c env \<Rightarrow> counter \<Rightarrow> usize \<Rightarrow> string \<Rightarrow> 'c \<Rightarrow> 'c" where
  "check_calls C K k expected name s =
     (let n = counter_value K k s
      in if n = expected then s
         else if n = 0 then
           exit_qemu C Failed (serial_println K (''    '' @ name @ '' handler was not called.'')
             (serial_println K ''[failed]'' s))
         else
           exit_qemu C Failed (serial_println K (''    '' @ name @ '' handler was called {} times'')
             (serial_println K ''[failed]'' s)))"

definition start_interrupt_handling :: "extern \<Rightarrow> 'c cpu \<Rightarrow> 'c env \<Rightarrow> layout \<Rightarrow> 'c \<Rightarrow> 'c option" where
  "start_interrupt_handling X C K L s = do {
     let s = serial_print K ''exception_breakpoint... '' s;
     s \<leftarrow> init_test_idt_interrupts X C K L s;
     let s = int3 C s;
     let s = check_calls C K BREAKPOINT_HANDLER_CALLED 1 ''Breakpoint'' s;
     let s = software_interrupt C 42 (serial_print K ''interrupt 42... '' s);
     let s = software_interrupt C 77 (serial_print K ''interrupt 77... '' s);
     let s = software_interrupt C 42 (serial_print K ''interrupt 42... '' s);
     let s = check_calls C K INTERRUPT_HANDLER_CALLED 3 ''Interrupt'' s;
     let s = serial_println K ''[ok]'' s;
     Some (exit_qemu C Success s)
   }"

section \<open>\<open>tests/port_read_write.rs\<close>\<close>

definition CRT_INDEX_PORT :: u16 where "CRT_INDEX_PORT = 0x3D4"
definition CRT_DATA_PORT :: u16 where "CRT_DATA_PORT = 0x3D5"
definition OFFSET_REGISTER :: u8 where "OFFSET_REGISTER = 0x0A"
definition TEST_VALUE :: u8 where "TEST_VALUE = 0b10101010"

definition start_port_read_write :: "'c cpu \<Rightarrow> 'c env \<Rightarrow> 'c \<Rightarrow> 'c option" where
  "start_port_read_write C K s = do {
     let s = serial_print K ''port_read_write... '' s;
     let crt_index_port = PortGeneric_new CRT_INDEX_PORT;
     let crt_read_write_data_port = PortGeneric_new CRT_DATA_PORT;
     let crt_data_read_only_port = PortGeneric_new CRT_DATA_PORT;
     let s = PortGeneric_write (u8_write_to_port C) crt_index_port OFFSET_REGISTER s;
     let s = PortGeneric_write (u8_write_to_port C) crt_read_write_data_port TEST_VALUE s;
     let (v, s) = PortGeneric_read (u8_read_from_port C) crt_data_read_only_port s;
     let read_only_test_value = v AND 0xFF;
     let (v, s) = PortGeneric_read (u8_read_from_port C) crt_read_write_data_port s;
     let read_write_test_value = v AND 0xFF;
     assert_that (read_only_test_value = TEST_VALUE);
     assert_that (read_write_test_value = TEST_VALUE);
     let s = serial_println K ''[ok]'' s;
     Some (exit_qemu C Success s)
   }"

section \<open>What the architecture promises\<close>

text \<open>The gate that the CPU reads for a vector, the task state segment it reads, and the stack it switches to.\<close>

definition idt_gate :: "'c cpu \<Rightarrow> 'c env \<Rightarrow> u8 \<Rightarrow> 'c \<Rightarrow> Idt_Entry" where
  "idt_gate C K n s = idt_entries (idt_at K (snd (sidt_instr C s)) s) ! unat n"

definition tss_base :: "u64 \<Rightarrow> u64 \<Rightarrow> u64" where
  "tss_base low high = get_range low 16 40 OR push_bit 24 (get_range low 56 64) OR push_bit 32 (get_range high 0 32)"

definition current_tss :: "'c cpu \<Rightarrow> 'c env \<Rightarrow> 'c \<Rightarrow> TaskStateSegment" where
  "current_tss C K s =
     (let es = gdt_table (gdt_at K (snd (sgdt_instr C s)) s);
          i = unat (task_register K s) div 8
      in tss_at K (tss_base (gdt_raw (es ! i)) (gdt_raw (es ! Suc i))) s)"

definition gate_stack :: "'c cpu \<Rightarrow> 'c env \<Rightarrow> u8 \<Rightarrow> 'c \<Rightarrow> VirtAddr option" where
  "gate_stack C K n s =
     (let k = unat (opt_bits (entry_options (idt_gate C K n s)) AND 7)
      in if k = 0 then None else Some (interrupt_stack_table (current_tss C K s) ! (k - 1)))"

definition same_memory :: "'c env \<Rightarrow> 'c \<Rightarrow> 'c \<Rightarrow> bool" where
  "same_memory K s s' \<longleftrightarrow> (\<forall>a. gdt_at K a s' = gdt_at K a s \<and> idt_at K a s' = idt_at K a s \<and> tss_at K a s' = tss_at K a s) \<and>
     (\<forall>k. counter_value K k s' = counter_value K k s) \<and> exit_codes K s' = exit_codes K s"

definition same_registers :: "'c cpu \<Rightarrow> 'c env \<Rightarrow> 'c \<Rightarrow> 'c \<Rightarrow> bool" where
  "same_registers C K s s' \<longleftrightarrow> (\<forall>r. mov_from_seg C r s' = mov_from_seg C r s) \<and> sgdt_instr C s' = sgdt_instr C s \<and>
     sidt_instr C s' = sidt_instr C s \<and> task_register K s' = task_register K s"

locale test_env = cpu_ok C for C :: "'c cpu" +
  fixes K :: "'c env"
  assumes put_registers: "same_registers C K s (put_gdt K a g s)" "same_registers C K s (put_idt K a t s)"
      "same_registers C K s (put_tss K a u s)" "same_registers C K s (put_counter K k n s)"
    and gdt_put: "gdt_at K a (put_gdt K a g s) = g" "tss_at K b (put_gdt K a g s) = tss_at K b s"
    and idt_put: "idt_at K a (put_idt K a t s) = t" "tss_at K b (put_idt K a t s) = tss_at K b s"
      "gdt_at K b (put_idt K a t s) = gdt_at K b s" "counter_value K k (put_idt K a t s) = counter_value K k s"
      "exit_codes K (put_idt K a t s) = exit_codes K s"
    and tss_put: "tss_at K a (put_tss K a u s) = u"
    and counter_put: "counter_value K l (put_counter K k n s) = (if l = k then n else counter_value K l s)"
      "idt_at K a (put_counter K k n s) = idt_at K a s" "exit_codes K (put_counter K k n s) = exit_codes K s"
    and serial_same: "same_memory K s (serial_print K str s)" "same_registers C K s (serial_print K str s)"
    and lgdt_memory: "same_memory K s (lgdt_instr C p s)"
    and lidt_memory: "same_memory K s (lidt_instr C p s)"
    and retfq_memory: "same_memory K s (retfq C w s)"
    and lgdt_segments: "mov_from_seg C r (lgdt_instr C p s) = mov_from_seg C r s"
    and lidt_segments: "mov_from_seg C r (lidt_instr C p s) = mov_from_seg C r s"
    and lidt_task: "task_register K (lidt_instr C p s) = task_register K s"
    and retfq_tables: "sgdt_instr C (retfq C w s) = sgdt_instr C s"
    and ltr_task: "task_register K (ltr_instr C sel s) = sel"
    and ltr_other: "tss_at K a (ltr_instr C sel s) = tss_at K a s" "sgdt_instr C (ltr_instr C sel s) = sgdt_instr C s"
      "mov_from_seg C r (ltr_instr C sel s) = mov_from_seg C r s"
    and ltr_busy: "sgdt_instr C s = (lim, a) \<Longrightarrow> i = unat sel div 8 \<Longrightarrow> i < length (gdt_table (gdt_at K a s)) \<Longrightarrow>
      get_range (gdt_raw (gdt_table (gdt_at K a s) ! i)) 40 44 = 9 \<Longrightarrow>
      gdt_at K a (ltr_instr C sel s) = (gdt_at K a s)\<lparr>gdt_table :=
        (gdt_table (gdt_at K a s))[i := Entry (set_bit 41 (gdt_raw (gdt_table (gdt_at K a s) ! i)))]\<rparr>"
    and int_calls: "bit (opt_bits (entry_options (idt_gate C K v s))) 15 \<Longrightarrow>
      int_instr C v s = call_handler K (handler_addr (idt_gate C K v s)) s"
    and int3_calls: "bit (opt_bits (entry_options (idt_gate C K 3 s))) 15 \<Longrightarrow>
      int3_instr C s = call_handler K (handler_addr (idt_gate C K 3 s)) s"
    and exit_port: "exit_codes K (out_u32 C 0xf4 code s) = exit_codes K s @ [code]"

section \<open>The statics\<close>

lemma TSS_eq:
  assumes "canonical (VirtAddr stack)" and "VirtAddr_add (VirtAddr stack) 4096 = Some top_addr"
  shows "\<exists>tss. TSS stack = Some tss \<and> interrupt_stack_table tss = top_addr # replicate 6 VirtAddr_zero"
  using assms
  by (simp add: TSS_def VirtAddr_from_ptr_def VirtAddr_new_eq TaskStateSegment_new_def DOUBLE_FAULT_IST_INDEX_def
      numeral_eq_Suc Let_def)

lemma append_kernel_segment:
  assumes "gdt_ok g" and "length (gdt_table g) = 8" and "gdt_values g = vs" and "length vs + length (descriptor_values d) \<le> 8"
    and "Descriptor_dpl d = Some Ring0"
  shows "\<exists>g'. Gdt_append X g d = Some (SegmentSelector (of_nat (8 * length vs)), g') \<and> gdt_ok g' \<and>
    length (gdt_table g') = 8 \<and> gdt_values g' = vs @ descriptor_values d"
proof -
  have "gdt_len g = of_nat (length vs)"
    using length_gdt_values [OF assms(1)] assms(3) by simp
  moreover have "ucast (of_nat (length vs) :: usize) = (of_nat (length vs) :: u16)"
    using assms(4) by (simp add: word_unat_eq_iff unat_ucast_mod unat_of_nat_small)
  then have "push_bit 3 (ucast (of_nat (length vs) :: usize)) = (of_nat (8 * length vs) :: u16)"
    by (simp add: push_bit_eq_mult)
  ultimately show ?thesis
    using Gdt_append_values [OF assms(1), of d X] assms by (auto simp: SegmentSelector_new_def)
qed

lemma GDT_eq:
  assumes X: "extern_ok X"
  shows "\<exists>gdt low high. GDT X tss = Some (gdt, \<lparr>code_selector = SegmentSelector 0x10, tss_selector = SegmentSelector 0x18\<rparr>) \<and>
    gdt_ok gdt \<and> gdt_values gdt = [0, KERNEL_DATA X, KERNEL_CODE64 X, low, high] \<and> tss_base low high = tss \<and>
    get_range low 40 44 = 9"
proof -
  have dpl: "Descriptor_dpl (kernel_data_segment X) = Some Ring0" "Descriptor_dpl (kernel_code_segment X) = Some Ring0"
    by (simp_all add: Descriptor_dpl_def kernel_code_segment_def kernel_data_segment_def
        extern_ok.segment_constants [OF X] DPL_RING_3_def PrivilegeLevel_from_u16_def)
  obtain g0 where g0: "Gdt_new = Some g0" "gdt_ok g0" "length (gdt_table g0) = 8" "gdt_values g0 = [0]"
    by (simp add: Gdt_new_def Gdt_empty_def gdt_ok_def gdt_values_def Gdt_Entry_new_def)
  obtain g1 where g1: "Gdt_append X g0 (kernel_data_segment X) = Some (SegmentSelector 8, g1)" "gdt_ok g1"
      "length (gdt_table g1) = 8" "gdt_values g1 = [0, KERNEL_DATA X]"
    using append_kernel_segment [OF g0(2-4) _ dpl(1), of X] by (auto simp: kernel_data_segment_def)
  obtain g2 where g2: "Gdt_append X g1 (kernel_code_segment X) = Some (SegmentSelector 0x10, g2)" "gdt_ok g2"
      "length (gdt_table g2) = 8" "gdt_values g2 = [0, KERNEL_DATA X, KERNEL_CODE64 X]"
    using append_kernel_segment [OF g1(2-4) _ dpl(2), of X] by (auto simp: kernel_code_segment_def)
  obtain low high where d: "tss_segment X tss = Some (SystemSegment low high)" "tss_base low high = tss" "get_range low 40 44 = 9"
      "Descriptor_dpl (SystemSegment low high) = Some Ring0"
    using tss_segment_exact [OF X, of tss] by (auto simp: tss_base_def)
  obtain g3 where g3: "Gdt_append X g2 (SystemSegment low high) = Some (SegmentSelector 0x18, g3)" "gdt_ok g3"
      "gdt_values g3 = [0, KERNEL_DATA X, KERNEL_CODE64 X, low, high]"
    using append_kernel_segment [OF g2(2-4) _ d(4), of X] by auto
  have "GDT X tss = Some (g3, \<lparr>code_selector = SegmentSelector 0x10, tss_selector = SegmentSelector 0x18\<rparr>)"
    by (simp add: GDT_def g0(1) g1(1) g2(1) g3(1) d(1))
  with g3 d show ?thesis by blast
qed

section \<open>The tables after the initialisation\<close>

text \<open>Marking the descriptor as busy changes it and keeps the address in it.\<close>

lemma available_not_busy:
  assumes "get_range (low :: u64) 40 44 = 9"
  shows "\<not> bit low 41" and "set_bit 41 low \<noteq> low"
proof -
  have "bit (get_range low 40 44) 1 = bit (9 :: u64) 1" by (simp only: assms)
  then show "\<not> bit low 41" by (simp add: bit_get_range)
  then have "bit (set_bit 41 low) 41 \<noteq> bit low 41" by (simp add: bit_simps)
  then show "set_bit 41 low \<noteq> low" by metis
qed

lemma tss_base_busy: "tss_base (set_bit 41 low) high = tss_base low high"
proof -
  have "get_range (set_bit 41 low) 16 40 = get_range low 16 40" "get_range (set_bit 41 low) 56 64 = get_range low 56 64"
    by (rule bit_word_eqI; auto simp: bit_get_range bit_simps)+
  then show ?thesis by (simp add: tss_base_def)
qed

lemma gdt_values_nth: "i < length (gdt_values g) \<Longrightarrow> gdt_raw (gdt_table g ! i) = gdt_values g ! i"
  by (simp add: gdt_values_def)

lemma idt_double_fault:
  assumes X: "extern_ok X" and "canonical (VirtAddr f)"
  shows "\<exists>idt. TEST_IDT_double_fault X cs f = Some idt \<and>
    (let e = idt_entries idt ! 8 in handler_addr e = VirtAddr f \<and> opt_cs (entry_options e) = cs \<and>
       opt_bits (entry_options e) = 0x8e01)"
proof -
  have "set_stack_index X \<lparr>opt_cs = cs, opt_bits = 0x8e00\<rparr> 0 = Some \<lparr>opt_cs = cs, opt_bits = 0x8e01\<rparr>"
    by (simp add: set_stack_index_def add_op_def checked_add_def extern_ok.set_bits_u16 [OF X] set_range_def take_bit_eq_mod
        mask_eq_exp_minus_1)
  then show ?thesis
    using new_truncate_id [OF assms(2)]
    by (simp add: TEST_IDT_double_fault_def extern_ok.set_handler_fn_installed [OF X assms(2)] installed_def Let_def
        DOUBLE_FAULT_IST_INDEX_def idt_entries_def handler_addr_def split_pointer)
qed

context test_env
begin

lemmas memory_steps [simp] = serial_same(1) [unfolded same_memory_def, simplified]
  lgdt_memory [unfolded same_memory_def, simplified] lidt_memory [unfolded same_memory_def, simplified]
  retfq_memory [unfolded same_memory_def, simplified]

lemmas register_steps [simp] = serial_same(2) [unfolded same_registers_def, simplified]
  put_registers [unfolded same_registers_def, simplified]

lemma gdt_init_effect:
  assumes X: "extern_ok X" and addrs: "canonical (VirtAddr (stack_addr L))" "canonical (VirtAddr (gdt_addr L))"
    and stack: "VirtAddr_add (VirtAddr (stack_addr L)) 4096 = Some top_addr"
    and cs: "mov_from_seg C Seg_CS s \<noteq> 0x10"
  shows "\<exists>s'. gdt_init X C K L s = Some s' \<and> mov_from_seg C Seg_CS s' = 0x10 \<and> snd (sgdt_instr C s') = gdt_addr L \<and>
    current_tss C K s' = tss_at K (tss_addr L) s' \<and>
    interrupt_stack_table (current_tss C K s') = top_addr # replicate 6 VirtAddr_zero"
proof -
  obtain tss where tss: "TSS (stack_addr L) = Some tss" "interrupt_stack_table tss = top_addr # replicate 6 VirtAddr_zero"
    using TSS_eq [OF addrs(1) stack] by blast
  obtain gdt low high where gdt: "GDT X (tss_addr L) = Some (gdt, \<lparr>code_selector = SegmentSelector 0x10, tss_selector = SegmentSelector 0x18\<rparr>)"
      "gdt_ok gdt" "gdt_values gdt = [0, KERNEL_DATA X, KERNEL_CODE64 X, low, high]" "tss_base low high = tss_addr L"
      "get_range low 40 44 = 9"
    using GDT_eq [OF X] by blast
  let ?a = "gdt_addr L" and ?g = "gdt\<lparr>gdt_table := (gdt_table gdt)[3 := Entry (set_bit 41 low)]\<rparr>"
  have len: "unat (gdt_len gdt) = 5" using length_gdt_values [OF gdt(2)] gdt(3) by simp
  then have table: "5 \<le> length (gdt_table gdt)" using gdt(2) by (simp add: gdt_ok_def)
  have raws: "gdt_raw (gdt_table gdt ! 3) = low" "gdt_raw (gdt_table gdt ! 4) = high"
    using gdt_values_nth [of 3 gdt] gdt_values_nth [of 4 gdt] gdt(3) by simp_all
  obtain p where p: "Gdt_pointer X ?a gdt = Some p" "base p = VirtAddr ?a"
    using Gdt_limit_bytes [OF gdt(2), of X] addrs(2) by (auto simp: Gdt_pointer_def VirtAddr_new_eq)
  define s1 where "s1 = put_gdt K ?a gdt (put_tss K (tss_addr L) tss s)"
  define s2 where "s2 = CS_set_reg C (SegmentSelector 0x10) (lgdt C p s1)"
  have s1: "gdt_at K ?a s1 = gdt" "tss_at K (tss_addr L) s1 = tss" "mov_from_seg C Seg_CS s1 = mov_from_seg C Seg_CS s"
    by (simp_all add: s1_def gdt_put tss_put)
  have s2: "gdt_at K ?a s2 = gdt" "tss_at K (tss_addr L) s2 = tss" "mov_from_seg C Seg_CS s2 = 0x10"
      "snd (sgdt_instr C s2) = ?a"
    using s1 p(2) by (simp_all add: s2_def CS_set_reg_def lgdt_def cs_stored retfq_tables gdtr_stored VirtAddr_as_u64_def)
  obtain l where l: "sgdt_instr C s2 = (l, ?a)" using s2(4) by (cases "sgdt_instr C s2") simp
  have busy: "gdt_at K ?a (ltr_instr C 0x18 s2) = ?g"
    using ltr_busy [OF l, of 3 "0x18"] table raws gdt(5) by (simp add: s2(1))
  have entry: "gdt_entry K ?a 3 s2 = Some (Entry low)" "gdt_entry K ?a 3 (ltr_instr C 0x18 s2) = Some (Entry (set_bit 41 low))"
    using len table raws by (simp_all add: gdt_entry_def Gdt_entries_def s2(1) busy) (cases "gdt_table gdt ! 3"; simp)
  have idx: "unat (SegmentSelector_index (SegmentSelector 0x18)) = 3" by (simp add: SegmentSelector_index_def drop_bit_eq_div)
  have "gdt_init X C K L s = Some (ltr_instr C 0x18 s2)"
    using cs s2(3) available_not_busy(2) [OF gdt(5)]
    by (simp add: gdt_init_def tss(1) gdt(1) Let_def Gdt_load_def Gdt_load_unsafe_def gdt_put(1) p(1) Segment_get_reg_def
        lgdt_def lgdt_segments load_tss_def idx entry Gdt_Entry_raw_def flip: s1_def s2_def [unfolded lgdt_def])
  moreover have "tss_base (gdt_raw (gdt_table ?g ! 3)) (gdt_raw (gdt_table ?g ! 4)) = tss_addr L"
    using table raws gdt(4) by (simp add: tss_base_busy)
  then have "current_tss C K (ltr_instr C 0x18 s2) = tss"
    using s2 by (simp add: current_tss_def ltr_task ltr_other busy Let_def)
  ultimately show ?thesis
    using s2 tss(2) by (simp add: ltr_other)
qed

lemma exit_qemu_codes: "exit_codes K (exit_qemu C code s) = exit_codes K s @ [QemuExitCode_u32 code]"
  by (simp add: exit_qemu_def PortGeneric_write_def PortGeneric_new_def u32_write_to_port_def exit_port)

text \<open>Loading a table: the gates are read from it, and nothing else changes.\<close>

lemma load_idt:
  assumes "canonical (VirtAddr a)"
  shows "\<exists>s'. Idt_load C a (put_idt K a idt s) = Some s' \<and> (\<forall>v. idt_gate C K v s' = idt_entries idt ! unat v) \<and>
    (\<forall>r. mov_from_seg C r s' = mov_from_seg C r s) \<and> current_tss C K s' = current_tss C K s \<and>
    (\<forall>k. counter_value K k s' = counter_value K k s) \<and> exit_codes K s' = exit_codes K s"
  using assms
  by (simp add: Idt_load_def Idt_load_unsafe_def Idt_pointer_def VirtAddr_new_eq lidt_def idt_gate_def idtr_stored
      VirtAddr_as_u64_def idt_put lidt_segments current_tss_def lidt_task idtr_other)

lemma start_double_fault_effect:
  assumes X: "extern_ok X" and addrs: "canonical (VirtAddr (stack_addr L))" "canonical (VirtAddr (gdt_addr L))"
      "canonical (VirtAddr (idt_addr L))" "canonical (VirtAddr (handler_fn_addr L))"
    and stack: "VirtAddr_add (VirtAddr (stack_addr L)) 4096 = Some top_addr"
    and cs: "mov_from_seg C Seg_CS s \<noteq> 0x10"
  shows "\<exists>s'. start_double_fault X C K L s = Some s' \<and>
    (let gate = idt_gate C K 8 s' in
       is_present X (entry_options gate) = Some True \<and> handler_addr gate = VirtAddr (handler_fn_addr L) \<and>
       opt_cs (entry_options gate) = SegmentSelector 0x10) \<and>
    gate_stack C K 8 s' = Some top_addr"
proof -
  let ?s0 = "serial_print K ''double_fault_stack_overflow... '' s"
  have "mov_from_seg C Seg_CS ?s0 \<noteq> 0x10" using cs by simp
  then obtain s1 where s1: "gdt_init X C K L ?s0 = Some s1" "mov_from_seg C Seg_CS s1 = 0x10"
      "interrupt_stack_table (current_tss C K s1) = top_addr # replicate 6 VirtAddr_zero"
    using gdt_init_effect [OF X addrs(1,2) stack] by blast
  obtain idt where idt: "TEST_IDT_double_fault X (SegmentSelector 0x10) (handler_fn_addr L) = Some idt"
      "handler_addr (idt_entries idt ! 8) = VirtAddr (handler_fn_addr L)"
      "opt_cs (entry_options (idt_entries idt ! 8)) = SegmentSelector 0x10"
      "opt_bits (entry_options (idt_entries idt ! 8)) = 0x8e01"
    using idt_double_fault [OF X addrs(4)] by (auto simp: Let_def)
  obtain s2 where s2: "Idt_load C (idt_addr L) (put_idt K (idt_addr L) idt s1) = Some s2"
      "\<forall>v. idt_gate C K v s2 = idt_entries idt ! unat v" "current_tss C K s2 = current_tss C K s1"
    using load_idt [OF addrs(3), of idt s1] by blast
  have "start_double_fault X C K L s = Some s2"
    by (simp add: start_double_fault_def s1(1) init_test_idt_double_fault_def Segment_get_reg_def s1(2) idt(1) s2(1))
  moreover have "gate_stack C K 8 s2 = Some top_addr"
    using s1(3) s2 idt(4) by (simp add: gate_stack_def Let_def)
  ultimately show ?thesis
    using s2(2) idt by (simp add: Let_def is_present_def extern_ok.get_bit_u16 [OF X])
qed

end

section \<open>The tables of the interrupt test\<close>

lemma idt_interrupts:
  assumes X: "extern_ok X" and "canonical (VirtAddr b)" and "canonical (VirtAddr f)"
  shows "\<exists>idt. TEST_IDT_interrupts X cs b f = Some idt \<and>
    idt_entries idt ! 3 = installed cs b Idt_Entry_missing \<and> idt_entries idt ! 42 = installed cs f Idt_Entry_missing \<and>
    idt_entries idt ! 77 = installed cs f Idt_Entry_missing"
  using extern_ok.set_handler_fn_installed [OF X] assms(2,3)
  by (simp add: TEST_IDT_interrupts_def Idt_index_def Idt_index_mut_def Idt_new_def idt_entries_def nth_append Let_def)

context test_env
begin

lemma gate_kept [simp]: "idt_gate C K v (serial_print K str s) = idt_gate C K v s"
  "idt_gate C K v (put_counter K k n s) = idt_gate C K v s"
  by (simp_all add: idt_gate_def counter_put)

lemma gate_calls:
  assumes "idt_gate C K v s = installed cs a Idt_Entry_missing" and "canonical (VirtAddr a)"
  shows "int_instr C v s = call_handler K (VirtAddr a) s" "v = 3 \<Longrightarrow> int3_instr C s = call_handler K (VirtAddr a) s"
proof -
  have "handler_addr (idt_gate C K v s) = VirtAddr a" "bit (opt_bits (entry_options (idt_gate C K v s))) 15"
    using new_truncate_id [OF assms(2)]
    by (simp_all add: assms(1) installed_def handler_addr_def split_pointer Let_def)
  then show "int_instr C v s = call_handler K (VirtAddr a) s" "v = 3 \<Longrightarrow> int3_instr C s = call_handler K (VirtAddr a) s"
    using int_calls [of v s] int3_calls [of s] by simp_all
qed

lemma interrupt_handling_effect:
  assumes X: "extern_ok X" and addrs: "canonical (VirtAddr (idt_addr L))" "canonical (VirtAddr (breakpoint_fn_addr L))"
      "canonical (VirtAddr (handler_fn_addr L))"
    and linked: "\<And>s. call_handler K (VirtAddr (breakpoint_fn_addr L)) s = breakpoint_handler K s"
      "\<And>s. call_handler K (VirtAddr (handler_fn_addr L)) s = interrupt_handler K s"
    and zero: "\<And>k. counter_value K k s = 0"
  shows "\<exists>s'. start_interrupt_handling X C K L s = Some s' \<and> exit_codes K s' = exit_codes K s @ [0x10]"
proof -
  let ?s0 = "serial_print K ''exception_breakpoint... '' s" and ?cs = "Segment_get_reg C Seg_CS s"
  obtain idt where idt: "TEST_IDT_interrupts X ?cs (breakpoint_fn_addr L) (handler_fn_addr L) = Some idt"
      "idt_entries idt ! 3 = installed ?cs (breakpoint_fn_addr L) Idt_Entry_missing"
      "idt_entries idt ! 42 = installed ?cs (handler_fn_addr L) Idt_Entry_missing"
      "idt_entries idt ! 77 = installed ?cs (handler_fn_addr L) Idt_Entry_missing"
    using idt_interrupts [OF X addrs(2,3)] by blast
  obtain s1 where s1: "Idt_load C (idt_addr L) (put_idt K (idt_addr L) idt ?s0) = Some s1"
      "\<forall>v. idt_gate C K v s1 = idt_entries idt ! unat v" "\<forall>k. counter_value K k s1 = counter_value K k s"
      "exit_codes K s1 = exit_codes K s"
    using load_idt [OF addrs(1), of idt ?s0] by auto
  have gates: "idt_gate C K 3 s1 = installed ?cs (breakpoint_fn_addr L) Idt_Entry_missing"
    "idt_gate C K 42 s1 = installed ?cs (handler_fn_addr L) Idt_Entry_missing"
    "idt_gate C K 77 s1 = installed ?cs (handler_fn_addr L) Idt_Entry_missing"
    using s1(2) idt by simp_all
  note calls = gate_calls(1) [OF _ addrs(3), of 42] gate_calls(1) [OF _ addrs(3), of 77] gate_calls(2) [OF _ addrs(2), of 3]
  note calls = calls [of _ ?cs]
  have "init_test_idt_interrupts X C K L ?s0 = Some s1"
    using idt(1) s1(1) by (simp add: init_test_idt_interrupts_def Segment_get_reg_def)
  then show ?thesis
    using zero s1(3,4)
    by (simp add: start_interrupt_handling_def Let_def int3_def software_interrupt_def calls gates linked
        breakpoint_handler_def interrupt_handler_def fetch_add_def check_calls_def counter_put serial_println_def
        exit_qemu_codes)
qed

end

section \<open>The data port\<close>

text \<open>
  The registers of the display controller: the index port selects one of them, and the data port writes and
  reads the one that is selected.
\<close>

locale crt_device = test_env C K for C :: "'c cpu" and K :: "'c env" +
  fixes crt_index :: "'c \<Rightarrow> u8" and crt_data :: "'c \<Rightarrow> u8 \<Rightarrow> u8"
  assumes index_write: "crt_index (out_u8 C 0x3D4 v s) = v"
    and data_write: "crt_data (out_u8 C 0x3D5 v s) = (crt_data s)(crt_index s := v)"
      "crt_index (out_u8 C 0x3D5 v s) = crt_index s"
    and data_read: "fst (in_u8 C 0x3D5 s) = crt_data s (crt_index s)" "crt_data (snd (in_u8 C 0x3D5 s)) = crt_data s"
      "crt_index (snd (in_u8 C 0x3D5 s)) = crt_index s" "exit_codes K (snd (in_u8 C 0x3D5 s)) = exit_codes K s"
    and crt_exit: "exit_codes K (out_u8 C 0x3D4 v s) = exit_codes K s" "exit_codes K (out_u8 C 0x3D5 v s) = exit_codes K s"
begin

lemma port_read_write_effect:
  "\<exists>s'. start_port_read_write C K s = Some s' \<and> exit_codes K s' = exit_codes K s @ [0x10]"
  by (simp add: start_port_read_write_def Let_def PortGeneric_write_def PortGeneric_read_def PortGeneric_new_def
      u8_write_to_port_def u8_read_from_port_def CRT_INDEX_PORT_def CRT_DATA_PORT_def OFFSET_REGISTER_def TEST_VALUE_def
      index_write data_write data_read crt_exit exit_qemu_codes serial_println_def split_beta)

end

section \<open>A machine with tables in memory\<close>

record test_machine = machine +
  k_gdts :: "u64 \<Rightarrow> GlobalDescriptorTable"
  k_idts :: "u64 \<Rightarrow> InterruptDescriptorTable"
  k_tsss :: "u64 \<Rightarrow> TaskStateSegment"
  k_counters :: "counter \<Rightarrow> usize"
  k_task :: u16
  k_exits :: "u32 list"
  k_crt_index :: u8
  k_crt :: "u8 \<Rightarrow> u8"

definition machine_gate :: "u8 \<Rightarrow> test_machine \<Rightarrow> Idt_Entry" where
  "machine_gate v s = idt_entries (k_idts s (snd (m_idtr s))) ! unat v"

text \<open>The handlers are at the addresses \<open>0x1000\<close> and \<open>0x2000\<close>.\<close>

definition machine_call :: "VirtAddr \<Rightarrow> test_machine \<Rightarrow> test_machine" where
  "machine_call a s =
     (if a = VirtAddr 0x1000 then s\<lparr>k_counters := (k_counters s)(BREAKPOINT_HANDLER_CALLED := k_counters s BREAKPOINT_HANDLER_CALLED + 1)\<rparr>
      else if a = VirtAddr 0x2000 then s\<lparr>k_counters := (k_counters s)(INTERRUPT_HANDLER_CALLED := k_counters s INTERRUPT_HANDLER_CALLED + 1)\<rparr>
      else s)"

definition machine_int :: "u8 \<Rightarrow> test_machine \<Rightarrow> test_machine" where
  "machine_int v s =
     (if bit (opt_bits (entry_options (machine_gate v s))) 15 then machine_call (handler_addr (machine_gate v s)) s else s)"

definition machine_ltr :: "u16 \<Rightarrow> test_machine \<Rightarrow> test_machine" where
  "machine_ltr sel s =
     (let a = snd (m_gdtr s); g = k_gdts s a; i = unat sel div 8
      in s\<lparr>k_task := sel, k_gdts := (k_gdts s)(a := g\<lparr>gdt_table :=
           (gdt_table g)[i := Entry (set_bit 41 (gdt_raw (gdt_table g ! i)))]\<rparr>)\<rparr>)"

definition test_cpu :: "test_machine cpu" where
  "test_cpu = std_cpu\<lparr>
     int3_instr := machine_int 3,
     int_instr := machine_int,
     ltr_instr := machine_ltr,
     out_u8 := (\<lambda>p v s. if p = 0x3D4 then s\<lparr>k_crt_index := v\<rparr>
                        else if p = 0x3D5 then s\<lparr>k_crt := (k_crt s)(k_crt_index s := v)\<rparr> else s),
     in_u8 := (\<lambda>p s. (if p = 0x3D5 then k_crt s (k_crt_index s) else 0, s)),
     out_u32 := (\<lambda>p v s. if p = 0xf4 then s\<lparr>k_exits := k_exits s @ [v]\<rparr> else s)\<rparr>"

definition machine_env :: "test_machine env" where
  "machine_env = \<lparr>
     gdt_at = (\<lambda>a s. k_gdts s a), put_gdt = (\<lambda>a g s. s\<lparr>k_gdts := (k_gdts s)(a := g)\<rparr>),
     idt_at = (\<lambda>a s. k_idts s a), put_idt = (\<lambda>a t s. s\<lparr>k_idts := (k_idts s)(a := t)\<rparr>),
     tss_at = (\<lambda>a s. k_tsss s a), put_tss = (\<lambda>a u s. s\<lparr>k_tsss := (k_tsss s)(a := u)\<rparr>),
     counter_value = (\<lambda>k s. k_counters s k), put_counter = (\<lambda>k n s. s\<lparr>k_counters := (k_counters s)(k := n)\<rparr>),
     serial_print = (\<lambda>_ s. s),
     task_register = k_task,
     call_handler = machine_call,
     exit_codes = k_exits\<rparr>"

lemmas test_machine_defs = test_cpu_def machine_env_def std_cpu_def

lemma test_cpu_ok: "cpu_ok test_cpu"
  by unfold_locales (auto simp: test_machine_defs)

lemma test_cpu_simps [simp]:
  "int3_instr test_cpu = machine_int 3" "int_instr test_cpu = machine_int" "ltr_instr test_cpu = machine_ltr"
  "mov_from_seg test_cpu r s = m_segments s r" "sgdt_instr test_cpu s = m_gdtr s" "sidt_instr test_cpu s = m_idtr s"
  "lgdt_instr test_cpu p s = s\<lparr>m_gdtr := p\<rparr>" "lidt_instr test_cpu p s = s\<lparr>m_idtr := p\<rparr>"
  "retfq test_cpu w s = s\<lparr>m_segments := (m_segments s)(Seg_CS := ucast w)\<rparr>"
  "out_u32 test_cpu 0xf4 v s = s\<lparr>k_exits := k_exits s @ [v]\<rparr>"
  by (simp_all add: test_machine_defs)

lemma machine_env_simps [simp]:
  "gdt_at machine_env a s = k_gdts s a" "put_gdt machine_env a g s = s\<lparr>k_gdts := (k_gdts s)(a := g)\<rparr>"
  "idt_at machine_env a s = k_idts s a" "put_idt machine_env a t s = s\<lparr>k_idts := (k_idts s)(a := t)\<rparr>"
  "tss_at machine_env a s = k_tsss s a" "put_tss machine_env a u s = s\<lparr>k_tsss := (k_tsss s)(a := u)\<rparr>"
  "counter_value machine_env k s = k_counters s k"
  "put_counter machine_env k n s = s\<lparr>k_counters := (k_counters s)(k := n)\<rparr>"
  "serial_print machine_env str s = s" "task_register machine_env s = k_task s"
  "call_handler machine_env = machine_call" "exit_codes machine_env s = k_exits s"
  by (simp_all add: machine_env_def)

lemma machine_gate_eq [simp]: "idt_gate test_cpu machine_env v s = machine_gate v s"
  by (simp add: idt_gate_def machine_gate_def)

interpretation test_cpu: crt_device test_cpu machine_env k_crt_index k_crt
proof (intro crt_device.intro test_env.intro test_cpu_ok)
  show "test_env_axioms test_cpu machine_env"
    by unfold_locales (simp_all add: same_memory_def same_registers_def machine_ltr_def machine_int_def Let_def)
  show "crt_device_axioms test_cpu machine_env k_crt_index k_crt"
    by unfold_locales (auto simp: test_machine_defs)
qed

definition test_start :: test_machine where
  "test_start = machine.extend std_machine (test_machine.fields (\<lambda>_. \<lparr>gdt_table = [], gdt_len = 0\<rparr>) (\<lambda>_. Idt_new)
     (\<lambda>_. TaskStateSegment_new) (\<lambda>_. 0) 0 [] 0 (\<lambda>_. 0))"

definition test_layout :: layout where
  "test_layout = \<lparr>stack_addr = 0x10000, tss_addr = 0x20000, gdt_addr = 0x30000, idt_addr = 0x40000,
     handler_fn_addr = 0x2000, breakpoint_fn_addr = 0x1000\<rparr>"

section \<open>The tests of the kernel pass\<close>

text \<open>
  C28. The set-up of the double fault test works end to end. If the linker places the statics at canonical
  addresses and the boot loader has left another selector in \<open>CS\<close>, the initialisation does not panic, and
  the tables that the CPU then reads give vector 8 a present gate to the double fault handler in the
  loaded code segment, on the stack whose end is stored in the task state segment: the gate's stack index,
  the task register, the descriptor with the segment's address and the segment itself fit together. The
  handler reports success.
\<close>

theorem double_fault_handler_ready:
  assumes "extern_ok X" and "test_env C K"
    and "canonical (VirtAddr (stack_addr L))" and "canonical (VirtAddr (gdt_addr L))"
    and "canonical (VirtAddr (idt_addr L))" and "canonical (VirtAddr (handler_fn_addr L))"
    and "VirtAddr_add (VirtAddr (stack_addr L)) 4096 = Some stack_end"
    and "Segment_get_reg C Seg_CS s \<noteq> SegmentSelector 0x10"
  shows "\<exists>s'. start_double_fault X C K L s = Some s' \<and>
    (let gate = idt_gate C K 8 s' in
       is_present X (entry_options gate) = Some True \<and> handler_addr gate = VirtAddr (handler_fn_addr L) \<and>
       opt_cs (entry_options gate) = SegmentSelector 0x10) \<and>
    gate_stack C K 8 s' = Some stack_end \<and>
    exit_codes K (double_fault_handler C K s') = exit_codes K s' @ [QemuExitCode_u32 Success]"
proof -
  have "mov_from_seg C Seg_CS s \<noteq> 0x10" using assms(8) by (simp add: Segment_get_reg_def)
  moreover have "exit_codes K (double_fault_handler C K s') = exit_codes K s' @ [QemuExitCode_u32 Success]" for s'
    using test_env.exit_qemu_codes [OF assms(2)] test_env.memory_steps [OF assms(2)]
    by (simp add: double_fault_handler_def serial_println_def)
  ultimately show ?thesis
    using test_env.start_double_fault_effect [OF assms(2,1,3-7)] by blast
qed

theorem double_fault_handler_ready_witness:
  "\<exists>s'. start_double_fault (std_extern True) test_cpu machine_env test_layout test_start = Some s' \<and>
    gate_stack test_cpu machine_env 8 s' = Some (VirtAddr 0x11000)"
proof -
  have "canonical (VirtAddr (stack_addr test_layout))" "canonical (VirtAddr (gdt_addr test_layout))"
    "canonical (VirtAddr (idt_addr test_layout))" "canonical (VirtAddr (handler_fn_addr test_layout))"
    by (simp_all add: test_layout_def canonical_iff_unat)
  moreover have "VirtAddr_add (VirtAddr (stack_addr test_layout)) 4096 = Some (VirtAddr 0x11000)"
    by (simp add: test_layout_def VirtAddr_add_eq_Some canonical_iff_unat)
  moreover have "Segment_get_reg test_cpu Seg_CS test_start \<noteq> SegmentSelector 0x10"
    by (simp add: Segment_get_reg_def test_machine_defs test_start_def std_machine_def machine.defs)
  ultimately show ?thesis
    using double_fault_handler_ready [OF std_extern_ok test_cpu.test_env_axioms, of test_layout] by blast
qed

text \<open>
  C29. The interrupt test passes: with the two handlers linked at canonical addresses and both counters at
  zero, loading the test's interrupt descriptor table, a breakpoint and the software interrupts 42, 77 and 42
  call the handlers as often as the test expects, and the only exit code that it reports is success.
\<close>

theorem interrupt_handling_passes:
  assumes "extern_ok X" and "test_env C K" and "canonical (VirtAddr (idt_addr L))"
    and "canonical (VirtAddr (breakpoint_fn_addr L))" and "canonical (VirtAddr (handler_fn_addr L))"
    and "\<forall>s. call_handler K (VirtAddr (breakpoint_fn_addr L)) s = breakpoint_handler K s"
    and "\<forall>s. call_handler K (VirtAddr (handler_fn_addr L)) s = interrupt_handler K s"
    and "\<forall>k. counter_value K k s = 0"
  shows "\<exists>s'. start_interrupt_handling X C K L s = Some s' \<and> exit_codes K s' = exit_codes K s @ [QemuExitCode_u32 Success]"
  using test_env.interrupt_handling_effect [OF assms(2,1,3-5)] assms(6-8) by simp

theorem interrupt_handling_passes_witness:
  "\<exists>s'. start_interrupt_handling (std_extern True) test_cpu machine_env test_layout test_start = Some s' \<and>
    k_exits s' = [0x10]"
proof -
  have "canonical (VirtAddr (idt_addr test_layout))" "canonical (VirtAddr (breakpoint_fn_addr test_layout))"
    "canonical (VirtAddr (handler_fn_addr test_layout))"
    by (simp_all add: test_layout_def canonical_iff_unat)
  moreover have "\<forall>s. call_handler machine_env (VirtAddr (breakpoint_fn_addr test_layout)) s = breakpoint_handler machine_env s"
    "\<forall>s. call_handler machine_env (VirtAddr (handler_fn_addr test_layout)) s = interrupt_handler machine_env s"
    by (simp_all add: test_layout_def machine_env_def machine_call_def breakpoint_handler_def interrupt_handler_def fetch_add_def)
  moreover have "\<forall>k. counter_value machine_env k test_start = 0" "exit_codes machine_env test_start = []"
    by (simp_all add: machine_env_def test_start_def test_machine.defs machine.defs)
  ultimately have "\<exists>s'. start_interrupt_handling (std_extern True) test_cpu machine_env test_layout test_start = Some s' \<and>
      exit_codes machine_env s' = [QemuExitCode_u32 Success]"
    using interrupt_handling_passes [OF std_extern_ok test_cpu.test_env_axioms, of test_layout test_start True] by simp
  then show ?thesis by (simp add: machine_env_def)
qed

text \<open>The test of the ports passes on a display controller that keeps the values of its registers.\<close>

theorem port_read_write_passes:
  assumes "crt_device C K crt_index crt_data"
  shows "\<exists>s'. start_port_read_write C K s = Some s' \<and> exit_codes K s' = exit_codes K s @ [QemuExitCode_u32 Success]"
  using crt_device.port_read_write_effect [OF assms] by simp

end
