(* ===== verification/Spec2Isabelle.thy ===== *)
theory Spec2Isabelle
  imports Address_Properties Offset_Properties Step_Harness Recursive_Clean_Up General_Handler Instructions Register_Properties Tlb_Coherence Address_Tests Table_Tests Test_Kernel
begin

text \<open>
  A model of the crate \<open>x86_64\<close> (the sources under \<open>src/src\<close>): addresses, pages and frames, page
  tables and the mappers that edit them, the descriptor tables, the registers and the instructions, with
  the crate's unit tests and the kernel of its integration tests (under \<open>src/testing\<close>).

  \<^bold>\<open>The program.\<close> \<open>addr.rs\<close> defines the two address types. \<open>structures/paging\<close> builds pages
  (\<open>page.rs\<close>), frames (\<open>frame.rs\<close>) and page tables (\<open>page_table.rs\<close>) on them; a mapper
  (\<open>mapper/mod.rs\<close> is its interface, \<open>mapper/mapped_page_table.rs\<close>,
  \<open>mapper/offset_page_table.rs\<close> and \<open>mapper/recursive_page_table.rs\<close> are implementations) walks and edits the four-level tables in
  memory, taking frames for new tables from an allocator that the client provides.
  \<open>structures/gdt.rs\<close>, \<open>tss.rs\<close> and \<open>idt.rs\<close> build the tables the CPU reads for segments and
  interrupts. \<open>registers\<close> wraps the control, debug, flag and model specific registers, \<open>instructions\<close> the
  instructions that change them, load the tables, flush the TLB and talk to ports. A mapper returns
  the promise to flush a changed page (\<open>MapperFlush\<close>), which \<open>instructions/tlb.rs\<close> keeps.

  \<^bold>\<open>Theories.\<close>
  \<^item> \<open>Prelude\<close>: machine integers as words, panics as \<open>None\<close>, the integer operations of the core
    library, the record \<open>extern\<close> of what the sources do not define (overflow checks of the build,
    the crates \<open>bitflags\<close> and \<open>bit_field\<close>) with its contract \<open>extern_ok\<close>, and the contract
    \<open>iterator\<close> with the loop \<open>drain\<close> over it; \<open>fold_option\<close> is a loop over a list whose body may panic.
  \<^item> \<open>Table_Index\<close> (\<open>page_table.rs\<close>: indices, offsets, levels) with the contract \<open>step\<close> of
    \<open>core::iter::Step\<close>; \<open>Addr\<close> (\<open>addr.rs\<close>); \<open>Page\<close> (\<open>page.rs\<close>); \<open>Frame\<close> (\<open>frame.rs\<close>);
    \<open>Page_Table\<close> (\<open>page_table.rs\<close>: flags, entries, tables). The contract \<open>step\<close> is interpreted for
    indices, virtual addresses and pages of every size, \<open>iterator\<close> for the four ranges.
  \<^item> \<open>Step_Harness\<close>: the proof harnesses of \<open>addr.rs\<close> (module \<open>proofs\<close>) as functions of their arbitrary
    inputs.
  \<^item> \<open>Mapper\<close> (\<open>mapper/mod.rs\<close>), \<open>Mapped_Page_Table\<close> (\<open>mapped_page_table.rs\<close>),
    \<open>Offset_Page_Table\<close> (\<open>offset_page_table.rs\<close>): the operations. Memory is a function from the
    pointer of a table to the table; an operation returns its result and the memory it leaves, an
    operation that allocates also the allocator's state.
  \<^item> \<open>Table_Tree\<close> and \<open>Mapper_Tree\<close>: the tree of tables under a level 4 table (\<open>goto\<close> follows a path of
    indices, \<open>resolve\<close> finds the entry that decides an address, \<open>tree_ok\<close> says that no table is
    reached twice) and what every operation does to it. \<open>Mapper_Contract\<close>: the locale \<open>mapper\<close>, the
    abstract specification of a mapper over its view of the address space, interpreted for the mapped
    and for the offset page table, with a bump allocator.
  \<^item> \<open>Clean_Up\<close>: the effect of \<open>clean_up\<close> of the mapped page table on the tree and on the deallocator.
  \<^item> \<open>Recursive_Page_Table\<close> (\<open>recursive_page_table.rs\<close>): the operations on physical memory, accessed
    through a parameter \<open>mmu\<close> for the address translation of the CPU. \<open>Recursive_Tree\<close>: its contract
    \<open>mmu_ok\<close> (the page walk), the locale \<open>recursive_table\<close> for the preconditions of the mapper, and
    the refinement of the mapped page table on the memory without the recursive entry. \<open>Recursive_Clean_Up\<close>:
    the same for \<open>clean_up\<close> and \<open>clean_up_addr_range\<close>, by a simulation of the two loops.
  \<^item> \<open>Gdt\<close> (\<open>gdt.rs\<close>, \<open>tss.rs\<close>, \<open>PrivilegeLevel\<close> of \<open>lib.rs\<close>, \<open>SegmentSelector\<close> of
    \<open>registers/segmentation.rs\<close>), \<open>Idt\<close> (\<open>idt.rs\<close>) and \<open>General_Handler\<close> (the handler types and the
    macros \<open>set_general_handler\<close> of \<open>idt.rs\<close>).
  \<^item> \<open>Cpu\<close>: the record \<open>cpu\<close> of the instructions that the inline assembly executes, on an open state; its
    contract \<open>cpu_ok\<close> says which registers read back what was written, \<open>std_cpu\<close> meets it. The locale
    \<open>flag_register\<close> is the shared contract of the wrappers of flag registers, interpreted for each.
  \<^item> \<open>Control_Registers\<close> (\<open>control.rs\<close>, \<open>xcontrol.rs\<close>, \<open>rflags.rs\<close>, \<open>mxcsr.rs\<close>, \<open>Pcid\<close>), \<open>Model_Specific\<close>
    (\<open>model_specific.rs\<close>), \<open>Debug_Registers\<close> (\<open>debug.rs\<close>), \<open>Interrupts\<close> (\<open>interrupts.rs\<close> and
    \<open>segmentation.rs\<close> of \<open>instructions\<close>), \<open>Tlb\<close> (\<open>tlb.rs\<close>), \<open>Instructions\<close> (\<open>tables.rs\<close>, \<open>port.rs\<close>,
    \<open>random.rs\<close>, \<open>instructions/mod.rs\<close>, loading a GDT and an IDT). \<open>Register_Properties\<close> states their
    properties.
  \<^item> \<open>Tlb_Coherence\<close>: the flush promises. The locale \<open>tlb\<close> is the contract of the translations a CPU
    caches; the steps of mapper, CPU and flushes are an inductive relation with the invariant that
    every stale translation is covered by a promise.
  \<^item> \<open>Address_Tests\<close> and \<open>Table_Tests\<close>: the unit tests of the crate as functions that may panic.
  \<^item> \<open>Test_Kernel\<close> (\<open>testing/src\<close> and \<open>testing/tests\<close>): the kernel that sets up the descriptor tables and runs
    the integration tests. The record \<open>env\<close> is what the CPU and the kernel share in memory; the locale
    \<open>test_env\<close> extends \<open>cpu_ok\<close> by the task register, the busy bit and the delivery of interrupts through the
    loaded table, \<open>crt_device\<close> by the registers of the display controller; both are interpreted on a machine with
    the tables in memory.
  \<^item> \<open>Address_Properties\<close>, \<open>Mapper_Properties\<close> and \<open>Recursive_Properties\<close> state the properties of the
    lower components and of the mappers. \<open>Offset_Properties\<close>: the locale \<open>offset_walker\<close> of a walker that finds
    each table at a fixed distance from its physical address, and the refinement of the mapped page table on
    physical memory by the offset page table. Those of the descriptor tables are in their theories.

  \<^bold>\<open>What is shown.\<close> Virtual addresses: construction is exact, stepping is arithmetic on the
  position among the \<open>2 ^ 48\<close> canonical addresses, alignment and the operators are exact including
  when they panic; the crate's own proof harnesses pass for all inputs, and its unit tests pass in every build. Pages: assembling from indices, stepping, iterating over ranges to the end. Mappers:
  mapping changes the translation of exactly the mapped page, keeps the tree invariant, is undone by
  unmapping, and succeeds when the path is free and the allocator can supply the missing tables; the
  error paths are characterised. Cleaning up changes no translation, frees exactly the tables it unlinks
  and, over the whole address space, leaves no empty table. The offset page table does on physical memory what a mapped page
  table does that finds each table at its physical address, and so does the recursive page table, without
  a page fault, outside its recursive region and below no huge page; its clean-up unlinks the same tables and never
  touches the recursive entry. Descriptor tables: appending, capacity,
  encodings read back, and a general handler is installed for exactly the vectors of a range. Test kernel: after its
  initialisation the tables lead the CPU from a double fault to the handler on the stack of the task state
  segment, and the interrupt and port tests report success. Registers: writing flags keeps
  the reserved bits, the fields of \<open>STAR\<close>, \<open>CR3\<close>, \<open>DR7\<close> and the operands of \<open>invlpgb\<close> are exact, values read back,
  and invalid combinations are rejected. TLB: a broadcast flush ends and covers its range, and one page
  more where the count is not zero (the meaning of the operands of \<open>invlpgb\<close> is the manual's, which the sources cite);
  once all flush promises are kept the TLB agrees with the page tables.

  \<^bold>\<open>Bounds.\<close> \<open>drain\<close> takes a bound on the number of calls; the theorems give one more than the number
  of items, and the result is shown to be returned. The loop of \<open>clean_up_table\<close> recurses on the level
  and the loop of \<open>from_raw_entries\<close> on the rest of the slice; both are total functions. The loop of
  \<open>InvlpgbFlushBuilder::flush\<close> is a partial function, shown to return. The macro recursion of
  \<open>set_general_handler\<close> counts down the missing bits. Integers are
  words of their width; \<open>usize\<close> is 64 bits wide.

  \<^bold>\<open>Not modelled.\<close> What an instruction does to the machine beyond the laws of \<open>cpu_ok\<close>, \<open>tlb\<close> and \<open>test_env\<close>: faults,
  the privilege of the caller, interrupts that arrive between two instructions, caches of upper level
  page table entries. The formatters (\<open>Debug\<close>, \<open>Display\<close>), which only produce text; the tests that only
  call them or check that a trait is implemented, and the test of the stack frame, which goes through the
  \<open>volatile\<close> crate. The serial driver of the test kernel, which is a crate of its own.
\<close>

end
